(* ===== verification/PyPrelude.thy ===== *)
theory PyPrelude
  imports Complex_Main "HOL-Library.AList"
begin

text \<open>
  What every component theory shares: the model of Python's ordered \<open>dict\<close>, of clock
  readings, of truthiness of optional strings, and the locale that lifts an invariant kept
  by every operation to every sequence of operations.

  \<^item> A \<open>dict\<close> (and \<open>collections.OrderedDict\<close>) is an association list in insertion order.
    \<open>AList.update\<close> replaces in place or appends, as \<open>d[k] = v\<close> does; \<open>AList.delete\<close>
    is \<open>d.pop(k, None)\<close>; \<open>map_of\<close> is \<open>d.get(k)\<close>. A dict that exists in the program has
    distinct keys (\<open>dict_ok\<close>), which every operation keeps.
  \<^item> A clock reading (\<open>time.time()\<close>, \<open>time.monotonic()\<close>) is a rational number: every
    finite double is one. The rounding of double arithmetic is not modelled. Each operation
    takes the readings it makes as arguments, in the order the code makes them.
  \<^item> A lock makes a method body one atomic step, so an operation is a function from the
    state to the state, and concurrent use is a sequence of operations.
\<close>

section \<open>Clock readings and dictionaries\<close>

type_synonym time = rat
type_synonym ('k, 'v) dict = "('k \<times> 'v) list"

named_theorems dict_simps \<open>lookup, update and removal in dictionaries\<close>

definition dget :: "('k, 'v) dict \<Rightarrow> 'k \<Rightarrow> 'v option" where
  "dget d k = map_of d k"

definition dset :: "'k \<Rightarrow> 'v \<Rightarrow> ('k, 'v) dict \<Rightarrow> ('k, 'v) dict" where
  "dset k v d = AList.update k v d"

definition dpop :: "'k \<Rightarrow> ('k, 'v) dict \<Rightarrow> ('k, 'v) dict" where
  "dpop k d = filter (\<lambda>p. fst p \<noteq> k) d"

definition dkeys :: "('k, 'v) dict \<Rightarrow> 'k list" where
  "dkeys d = map fst d"

definition dvalues :: "('k, 'v) dict \<Rightarrow> 'v list" where
  "dvalues d = map snd d"

definition dict_ok :: "('k, 'v) dict \<Rightarrow> bool" where
  "dict_ok d = distinct (map fst d)"

definition dget_default :: "('k, 'v) dict \<Rightarrow> 'k \<Rightarrow> 'v \<Rightarrow> 'v" where
  "dget_default d k v = (case dget d k of None \<Rightarrow> v | Some w \<Rightarrow> w)"

lemma dget_Nil [simp]: "dget [] k = None"
  by (simp add: dget_def)

lemma dget_Cons [simp]: "dget ((k', v) # d) k = (if k' = k then Some v else dget d k)"
  by (auto simp: dget_def)

lemma dset_Nil [simp]: "dset k v [] = [(k, v)]"
  by (simp add: dset_def)

lemma dset_Cons [simp]:
  "dset k v ((k', w) # d) = (if k' = k then (k, v) # d else (k', w) # dset k v d)"
  by (simp add: dset_def)

lemma dpop_Nil [simp]: "dpop k [] = []"
  by (simp add: dpop_def)

lemma dpop_Cons [simp]:
  "dpop k ((k', w) # d) = (if k' = k then dpop k d else (k', w) # dpop k d)"
  by (simp add: dpop_def)

lemma dkeys_Nil [simp]: "dkeys [] = []"
  by (simp add: dkeys_def)

lemma dkeys_Cons [simp]: "dkeys (p # d) = fst p # dkeys d"
  by (simp add: dkeys_def)

lemma dkeys_append [simp]: "dkeys (d @ e) = dkeys d @ dkeys e"
  by (simp add: dkeys_def)

lemma dget_dset [simp, dict_simps]:
  "dget (dset k v d) k' = (if k' = k then Some v else dget d k')"
  by (induction d) auto

lemma dget_dpop [simp, dict_simps]:
  "dget (dpop k d) k' = (if k' = k then None else dget d k')"
  by (induction d) auto

lemma dget_None_iff: "dget d k = None \<longleftrightarrow> k \<notin> set (dkeys d)"
  by (simp add: dget_def dkeys_def map_of_eq_None_iff)

lemma dget_Some_iff_mem: "k \<in> set (dkeys d) \<longleftrightarrow> (\<exists>v. dget d k = Some v)"
proof -
  have "k \<in> set (dkeys d) \<longleftrightarrow> dget d k \<noteq> None"
    by (simp add: dget_None_iff)
  then show ?thesis by (cases "dget d k") simp_all
qed

lemma dget_Some_key: "dget d k = Some v \<Longrightarrow> k \<in> set (dkeys d)"
  using dget_Some_iff_mem by fast

lemma dget_mem: "dget d k = Some v \<Longrightarrow> (k, v) \<in> set d"
  by (simp add: dget_def map_of_SomeD)

lemma mem_dget: "dict_ok d \<Longrightarrow> (k, v) \<in> set d \<longleftrightarrow> dget d k = Some v"
  by (simp add: dget_def dict_ok_def)

lemma dget_append:
  "dget (d @ e) k = (case dget d k of None \<Rightarrow> dget e k | Some v \<Rightarrow> Some v)"
  by (simp add: dget_def map_add_def split: option.split)

lemma set_dkeys_dset [simp]: "set (dkeys (dset k v d)) = insert k (set (dkeys d))"
proof (induction d)
  case (Cons p d)
  then show ?case by (cases p) (simp add: insert_commute)
qed simp

lemma set_dkeys_dpop [simp]: "set (dkeys (dpop k d)) = set (dkeys d) - {k}"
proof (induction d)
  case (Cons p d)
  then show ?case by (cases p) (simp add: insert_Diff_if)
qed simp

lemma dkeys_dset:
  "dkeys (dset k v d) = (if k \<in> set (dkeys d) then dkeys d else dkeys d @ [k])"
  by (induction d) auto

lemma dkeys_dpop: "dkeys (dpop k d) = filter (\<lambda>x. x \<noteq> k) (dkeys d)"
  by (induction d) auto

lemma dict_ok_dkeys: "dict_ok d = distinct (dkeys d)"
  by (simp add: dict_ok_def dkeys_def)

lemma dict_ok_Nil [simp]: "dict_ok []"
  by (simp add: dict_ok_def)

lemma dict_ok_Cons [simp]: "dict_ok (p # d) \<longleftrightarrow> fst p \<notin> set (dkeys d) \<and> dict_ok d"
  by (simp add: dict_ok_dkeys)

lemma dict_ok_dset [simp, intro]: "dict_ok d \<Longrightarrow> dict_ok (dset k v d)"
  by (simp add: dict_ok_dkeys dkeys_dset)

lemma dict_ok_dpop [simp, intro]: "dict_ok d \<Longrightarrow> dict_ok (dpop k d)"
  by (simp add: dict_ok_dkeys dkeys_dpop)

lemma dict_ok_filter: "dict_ok d \<Longrightarrow> dict_ok (filter P d)"
  by (simp add: dict_ok_def distinct_map_filter)

lemma dict_ok_tl: "dict_ok d \<Longrightarrow> dict_ok (tl d)"
  by (cases d) auto

lemma dict_ok_drop: "dict_ok d \<Longrightarrow> dict_ok (drop n d)"
  by (simp add: dict_ok_def drop_map [symmetric] distinct_drop)

lemma dpop_fresh: "k \<notin> set (dkeys d) \<Longrightarrow> dpop k d = d"
  by (induction d) auto

lemma dset_fresh: "k \<notin> set (dkeys d) \<Longrightarrow> dset k v d = d @ [(k, v)]"
  by (induction d) auto

lemma dset_dpop_end: "dset k v (dpop k d) = dpop k d @ [(k, v)]"
  by (rule dset_fresh) simp

lemma length_dset:
  "length (dset k v d) = (if k \<in> set (dkeys d) then length d else Suc (length d))"
  by (induction d) auto

lemma length_dpop_le: "length (dpop k d) \<le> length d"
  by (simp add: dpop_def)

lemma length_dpop:
  "dict_ok d \<Longrightarrow> length (dpop k d) = (if k \<in> set (dkeys d) then length d - 1 else length d)"
proof (induction d)
  case (Cons p d)
  then show ?case
    by (cases p; cases d) (auto simp: dpop_fresh)
qed simp

lemma card_dkeys: "dict_ok d \<Longrightarrow> card (set (dkeys d)) = length d"
  by (simp add: dict_ok_dkeys distinct_card) (simp add: dkeys_def)

lemma filter_dget:
  assumes "dict_ok d"
  shows "dget (filter P d) k =
    (case dget d k of None \<Rightarrow> None | Some v \<Rightarrow> if P (k, v) then Some v else None)"
  using assms
proof (induction d)
  case (Cons p d)
  have "fst p \<notin> set (dkeys d)" using Cons.prems by simp
  then have "dget d (fst p) = None" by (rule dget_None_iff [THEN iffD2])
  with Cons show ?case by (cases p) (auto split: option.split)
qed simp

section \<open>Truthiness of optional strings\<close>

text \<open>\<open>if x:\<close> for \<open>x : str | None\<close>: true for a non-empty string.\<close>

definition truthy_str :: "string option \<Rightarrow> bool" where
  "truthy_str x = (case x of None \<Rightarrow> False | Some s \<Rightarrow> s \<noteq> [])"

lemma truthy_str_simps [simp]:
  "truthy_str None = False" "truthy_str (Some s) = (s \<noteq> [])"
  by (simp_all add: truthy_str_def)

section \<open>Python sets\<close>

text \<open>
  A Python \<open>set\<close> is a list without repetitions. The order in which CPython iterates over a
  set is unspecified; here it is the list's, and the properties speak of \<open>set xs\<close> only.
\<close>

type_synonym 'a pyset = "'a list"

definition sadd :: "'a \<Rightarrow> 'a pyset \<Rightarrow> 'a pyset" where
  "sadd x xs = (if x \<in> set xs then xs else xs @ [x])"

definition sdiscard :: "'a \<Rightarrow> 'a pyset \<Rightarrow> 'a pyset" where
  "sdiscard x xs = filter (\<lambda>y. y \<noteq> x) xs"

lemma set_sadd [simp]: "set (sadd x xs) = insert x (set xs)"
  by (auto simp: sadd_def)

lemma set_sdiscard [simp]: "set (sdiscard x xs) = set xs - {x}"
  by (auto simp: sdiscard_def)

lemma distinct_sadd [simp]: "distinct xs \<Longrightarrow> distinct (sadd x xs)"
  by (simp add: sadd_def)

lemma distinct_sdiscard [simp]: "distinct xs \<Longrightarrow> distinct (sdiscard x xs)"
  by (simp add: sdiscard_def)

section \<open>Runs of operations\<close>

text \<open>
  A component is a state, its operations and a step function. The laws a component
  promises here are that its fresh state has the invariant and that each operation keeps
  it; what the client gets is the invariant after any sequence of operations, whatever
  threads they come from.
\<close>

locale op_system =
  fixes start :: "'s"
    and step :: "'s \<Rightarrow> 'a \<Rightarrow> 's"
    and inv :: "'s \<Rightarrow> bool"
  assumes start_inv: "inv start"
    and step_inv: "inv s \<Longrightarrow> inv (step s x)"
begin

lemma run_inv: "inv s \<Longrightarrow> inv (foldl step s xs)"
  by (induction xs arbitrary: s) (auto intro: step_inv)

lemma reach_inv: "inv (foldl step start xs)"
  by (rule run_inv) (rule start_inv)

end

text \<open>A measure that no operation lowers never falls over a run.\<close>

locale monotone_system = op_system start step inv
  for start :: "'s" and step :: "'s \<Rightarrow> 'a \<Rightarrow> 's" and inv :: "'s \<Rightarrow> bool" +
  fixes level :: "'s \<Rightarrow> 'm::linorder"
  assumes step_level: "inv s \<Longrightarrow> level s \<le> level (step s x)"
begin

lemma run_level: "inv s \<Longrightarrow> level s \<le> level (foldl step s xs)"
proof (induction xs arbitrary: s)
  case (Cons x xs)
  then have "level (step s x) \<le> level (foldl step (step s x) xs)"
    by (blast intro: step_inv)
  with step_level [OF Cons.prems, of x] show ?case by simp
qed simp

end

section \<open>Lists\<close>

lemma sum_list_filter_le:
  fixes f :: "'a \<Rightarrow> 'n::ordered_comm_monoid_add"
  assumes "\<forall>x \<in> set xs. 0 \<le> f x"
  shows "sum_list (map f (filter P xs)) \<le> sum_list (map f xs)"
  using assms
proof (induction xs)
  case (Cons x xs)
  then show ?case
    by (auto intro: add_mono add_increasing)
qed simp

lemma sum_list_filter_mono:
  fixes f :: "'a \<Rightarrow> 'n::ordered_comm_monoid_add"
  assumes "\<forall>x \<in> set xs. 0 \<le> f x" and "\<forall>x \<in> set xs. P x \<longrightarrow> Q x"
  shows "sum_list (map f (filter P xs)) \<le> sum_list (map f (filter Q xs))"
proof -
  have "filter P xs = filter P (filter Q xs)"
    using assms(2) by (induction xs) auto
  with sum_list_filter_le [of "filter Q xs" f P] assms(1) show ?thesis by simp
qed

lemma length_filter_mono:
  "(\<And>x. P x \<Longrightarrow> Q x) \<Longrightarrow> length (filter P xs) \<le> length (filter Q xs)"
  by (induction xs) (auto intro: le_SucI)

lemma foldl_append_last: "foldl f s (xs @ [x]) = f (foldl f s xs) x"
  by simp

section \<open>Evaluating floors of rational literals\<close>

named_theorems rat_floor \<open>floors of quotients of numerals\<close>

lemma floor_numeral_quotient [rat_floor]:
  "\<lfloor>numeral a / numeral b :: rat\<rfloor> = numeral a div numeral b"
  "\<lfloor>1 / numeral b :: rat\<rfloor> = 1 div numeral b"
  using floor_divide_of_int_eq [of "numeral a" "numeral b", where 'a = rat]
    floor_divide_of_int_eq [of 1 "numeral b", where 'a = rat] by simp_all

end
