(* ===== verification/Fnmatch.thy ===== *)
theory Fnmatch
  imports PyPrelude "HOL-Library.Sublist"
begin

text \<open>
  The part of Python's \<open>fnmatch.fnmatch\<close> that \<open>RateLimitRule.match\<close> relies on, as a parser
  of patterns into tokens and a matcher: \<open>*\<close>, \<open>?\<close>, \<open>[seq]\<close> and \<open>[!seq]\<close> with ranges, an
  unclosed \<open>[\<close> being a plain character. Paths are matched case-sensitively, as on POSIX.
\<close>

datatype glob_token = GStar | GAny | GLit char | GSet bool "(char \<times> char) list"

text \<open>The body of a bracket up to the next \<open>]\<close>, and what follows it.\<close>

fun split_close :: "string \<Rightarrow> (string \<times> string) option" where
  "split_close [] = None"
| "split_close (c # cs) =
     (if c = CHR '']'' then Some ([], cs)
      else map_option (\<lambda>(body, rest). (c # body, rest)) (split_close cs))"

fun glob_ranges :: "string \<Rightarrow> (char \<times> char) list" where
  "glob_ranges (a # d # b # r) =
     (if d = CHR ''-'' then (a, b) # glob_ranges r else (a, a) # glob_ranges (d # b # r))"
| "glob_ranges [a, d] = [(a, a), (d, d)]"
| "glob_ranges [a] = [(a, a)]"
| "glob_ranges [] = []"

text \<open>After \<open>[\<close>: an optional \<open>!\<close>, then a \<open>]\<close> right at the start belongs to the set.\<close>

definition glob_bracket :: "string \<Rightarrow> (glob_token \<times> string) option" where
  "glob_bracket cs =
     (let (neg, cs1) = (case cs of c # r \<Rightarrow> if c = CHR ''!'' then (True, r) else (False, cs)
                                 | [] \<Rightarrow> (False, []))
      in case cs1 of
           [] \<Rightarrow> None
         | c # r \<Rightarrow>
             if c = CHR '']''
             then map_option (\<lambda>(body, rest). (GSet neg (glob_ranges (c # body)), rest))
                    (split_close r)
             else map_option (\<lambda>(body, rest). (GSet neg (glob_ranges body), rest))
                    (split_close (c # r)))"

lemma split_close_shorter: "split_close cs = Some (body, rest) \<Longrightarrow> length rest < length cs"
  by (induction cs arbitrary: body rest) (auto split: if_splits)

lemma glob_bracket_shorter:
  "glob_bracket cs = Some (t, rest) \<Longrightarrow> length rest < length cs"
  by (auto simp: glob_bracket_def Let_def split: list.splits if_splits prod.splits
      dest!: split_close_shorter)

function glob_parse :: "string \<Rightarrow> glob_token list" where
  "glob_parse [] = []"
| "glob_parse (c # cs) =
     (if c = CHR ''*'' then GStar # glob_parse cs
      else if c = CHR ''?'' then GAny # glob_parse cs
      else if c = CHR ''['' then
        (case glob_bracket cs of
           None \<Rightarrow> GLit c # glob_parse cs
         | Some (t, rest) \<Rightarrow> t # glob_parse rest)
      else GLit c # glob_parse cs)"
  by pat_completeness auto
termination
  by (relation "measure length") (auto dest: glob_bracket_shorter)

fun token_matches :: "glob_token \<Rightarrow> char \<Rightarrow> bool" where
  "token_matches GStar c = True"
| "token_matches GAny c = True"
| "token_matches (GLit d) c = (c = d)"
| "token_matches (GSet neg rs) c =
     (neg \<noteq> list_ex (\<lambda>(lo, hi). of_char lo \<le> (of_char c :: nat) \<and> of_char c \<le> (of_char hi :: nat)) rs)"

fun glob_match :: "glob_token list \<Rightarrow> string \<Rightarrow> bool" where
  "glob_match [] s = (s = [])"
| "glob_match (GStar # ts) [] = glob_match ts []"
| "glob_match (GStar # ts) (c # s) = (glob_match ts (c # s) \<or> glob_match (GStar # ts) s)"
| "glob_match (t # ts) [] = False"
| "glob_match (t # ts) (c # s) = (token_matches t c \<and> glob_match ts s)"

definition fnmatch :: "string \<Rightarrow> string \<Rightarrow> bool" where
  "fnmatch name pat = glob_match (glob_parse pat) name"

definition plain_pattern :: "string \<Rightarrow> bool" where
  "plain_pattern p = list_all (\<lambda>c. c \<noteq> CHR ''*'' \<and> c \<noteq> CHR ''?'' \<and> c \<noteq> CHR ''['') p"

lemma glob_parse_plain:
  "plain_pattern p \<Longrightarrow> glob_parse (p @ q) = map GLit p @ glob_parse q"
  by (induction p) (auto simp: plain_pattern_def)

lemma glob_match_literals:
  "glob_match (map GLit p @ ts) s \<longleftrightarrow> (\<exists>r. s = p @ r \<and> glob_match ts r)"
proof (induction p arbitrary: s)
  case (Cons c p)
  then show ?case by (cases s) auto
qed simp

lemma glob_match_star: "glob_match [GStar] s"
  by (induction s) auto

lemma fnmatch_plain: "plain_pattern p \<Longrightarrow> fnmatch s p \<longleftrightarrow> s = p"
  using glob_parse_plain [of p "[]"] glob_match_literals [of p "[]" s]
  by (simp add: fnmatch_def)

text \<open>A plain pattern followed by \<open>*\<close> matches exactly the paths it is a prefix of.\<close>

lemma fnmatch_prefix_star: "plain_pattern p \<Longrightarrow> fnmatch s (p @ ''*'') \<longleftrightarrow> prefix p s"
  by (auto simp: fnmatch_def glob_parse_plain glob_match_literals glob_match_star prefix_def)

end
