(* ===== verification/RateLimit.thy ===== *)
theory RateLimit
  imports Fnmatch
begin

text \<open>
  Model of \<open>src/bt_api_base/rate_limiter.py\<close>: the rules (\<open>RateLimitRule\<close>), the two window
  limiters (\<open>SlidingWindowLimiter\<close>, \<open>FixedWindowLimiter\<close>) and the composite \<open>RateLimiter\<close>
  with its rollback and its blocking loop. The contract of a limiter is the locale
  \<open>limiter_contract\<close>; both limiters and the sum of the two interpret it.
\<close>

section \<open>Rules\<close>

datatype RateLimitType = SLIDING_WINDOW | FIXED_WINDOW | TOKEN_BUCKET
datatype RateLimitScope = GLOBAL | ENDPOINT | IP

record RateLimitRule =
  rule_name :: string
  rule_type :: RateLimitType
  rule_interval :: int
  rule_limit :: int
  rule_scope :: RateLimitScope
  rule_endpoint :: "string option"
  rule_weight_map :: "(string, int) dict option"
  rule_weight :: int

definition rule_match :: "RateLimitRule \<Rightarrow> string \<Rightarrow> string \<Rightarrow> bool" where
  "rule_match r method path =
     (if rule_scope r = GLOBAL then True
      else if rule_scope r = ENDPOINT \<and> truthy_str (rule_endpoint r)
        then fnmatch path (the (rule_endpoint r))
      else False)"

definition get_weight :: "RateLimitRule \<Rightarrow> string \<Rightarrow> string \<Rightarrow> int" where
  "get_weight r method path =
     (case rule_weight_map r of
        None \<Rightarrow> rule_weight r
      | Some wm \<Rightarrow>
          if wm = [] then rule_weight r
          else case dget wm (method @ '' '' @ path) of
            Some w \<Rightarrow> w
          | None \<Rightarrow> (case dget wm method of Some w \<Rightarrow> w | None \<Rightarrow> rule_weight r))"

section \<open>The sliding window\<close>

text \<open>The result of \<open>acquire\<close>: true, false, or the \<open>ZeroDivisionError\<close> of a zero interval.\<close>

datatype outcome = Granted | Refused | ZeroDivision

record sliding =
  sw_interval :: int
  sw_limit :: int
  sw_requests :: "(time \<times> int) list"

definition sw_init :: "int \<Rightarrow> int \<Rightarrow> sliding" where
  "sw_init interval limit = \<lparr>sw_interval = interval, sw_limit = limit, sw_requests = []\<rparr>"

fun drop_expired :: "time \<Rightarrow> (time \<times> int) list \<Rightarrow> (time \<times> int) list" where
  "drop_expired cutoff [] = []"
| "drop_expired cutoff ((t, w) # rs) =
     (if t < cutoff then drop_expired cutoff rs else (t, w) # rs)"

definition sw_prune :: "time \<Rightarrow> sliding \<Rightarrow> sliding" where
  "sw_prune now l =
     l\<lparr>sw_requests := drop_expired (now - of_int (sw_interval l)) (sw_requests l)\<rparr>"

definition total_weight :: "(time \<times> int) list \<Rightarrow> int" where
  "total_weight rs = sum_list (map snd rs)"

definition sw_acquire :: "sliding \<Rightarrow> int \<Rightarrow> time \<Rightarrow> outcome \<times> sliding" where
  "sw_acquire l weight now =
     (let l1 = sw_prune now l;
          current_weight = total_weight (sw_requests l1)
      in if current_weight + weight \<le> sw_limit l1
         then (Granted, l1\<lparr>sw_requests := sw_requests l1 @ [(now, weight)]\<rparr>)
         else (Refused, l1))"

definition sw_release :: "sliding \<Rightarrow> int \<Rightarrow> time \<Rightarrow> sliding" where
  "sw_release l weight now =
     (let l1 = sw_prune now l
      in if sw_requests l1 \<noteq> [] \<and> snd (last (sw_requests l1)) = weight
         then l1\<lparr>sw_requests := butlast (sw_requests l1)\<rparr> else l1)"

definition sw_wait_time :: "sliding \<Rightarrow> time \<Rightarrow> time" where
  "sw_wait_time l now =
     (case sw_requests l of
        [] \<Rightarrow> 0
      | (oldest, _) # _ \<Rightarrow> max 0 (oldest + of_int (sw_interval l) - now))"

definition sw_current_usage :: "sliding \<Rightarrow> time \<Rightarrow> int \<times> sliding" where
  "sw_current_usage l now =
     (let l1 = sw_prune now l in (total_weight (sw_requests l1), l1))"

section \<open>The fixed window\<close>

record fixed_window =
  fw_interval :: int
  fw_limit :: int
  fw_start :: int
  fw_count :: int

definition fw_init :: "int \<Rightarrow> int \<Rightarrow> fixed_window" where
  "fw_init interval limit =
     \<lparr>fw_interval = interval, fw_limit = limit, fw_start = 0, fw_count = 0\<rparr>"

text \<open>\<open>int(now // interval) * interval\<close>\<close>

definition window_of :: "int \<Rightarrow> time \<Rightarrow> int" where
  "window_of interval now = \<lfloor>now / of_int interval\<rfloor> * interval"

definition fw_acquire :: "fixed_window \<Rightarrow> int \<Rightarrow> time \<Rightarrow> outcome \<times> fixed_window" where
  "fw_acquire l weight now =
     (if fw_interval l = 0 then (ZeroDivision, l)
      else let window_start = window_of (fw_interval l) now;
               l1 = (if window_start \<noteq> fw_start l
                     then l\<lparr>fw_start := window_start, fw_count := 0\<rparr> else l)
           in if fw_count l1 + weight \<le> fw_limit l1
              then (Granted, l1\<lparr>fw_count := fw_count l1 + weight\<rparr>)
              else (Refused, l1))"

definition fw_release :: "fixed_window \<Rightarrow> int \<Rightarrow> fixed_window" where
  "fw_release l weight = l\<lparr>fw_count := max 0 (fw_count l - weight)\<rparr>"

definition fw_wait_time :: "fixed_window \<Rightarrow> time \<Rightarrow> time" where
  "fw_wait_time l now = max 0 (of_int (fw_start l) + of_int (fw_interval l) - now)"

definition fw_current_usage :: "fixed_window \<Rightarrow> int" where
  "fw_current_usage l = fw_count l"

section \<open>The composite limiter\<close>

datatype limiter = Sliding sliding | Fixed fixed_window

fun lim_acquire :: "limiter \<Rightarrow> int \<Rightarrow> time \<Rightarrow> outcome \<times> limiter" where
  "lim_acquire (Sliding l) w now = map_prod id Sliding (sw_acquire l w now)"
| "lim_acquire (Fixed l) w now = map_prod id Fixed (fw_acquire l w now)"

fun lim_release :: "limiter \<Rightarrow> int \<Rightarrow> time \<Rightarrow> limiter" where
  "lim_release (Sliding l) w now = Sliding (sw_release l w now)"
| "lim_release (Fixed l) w now = Fixed (fw_release l w)"

fun lim_wait_time :: "limiter \<Rightarrow> time \<Rightarrow> time" where
  "lim_wait_time (Sliding l) now = sw_wait_time l now"
| "lim_wait_time (Fixed l) now = fw_wait_time l now"

fun lim_current_usage :: "limiter \<Rightarrow> time \<Rightarrow> int \<times> limiter" where
  "lim_current_usage (Sliding l) now = map_prod id Sliding (sw_current_usage l now)"
| "lim_current_usage (Fixed l) now = (fw_current_usage l, Fixed l)"

record RateLimiter =
  rl_rules :: "RateLimitRule list"
  rl_limiters :: "(string, limiter) dict"

fun build_limiters ::
    "RateLimitRule list \<Rightarrow> (string, limiter) dict \<Rightarrow> (string, limiter) dict" where
  "build_limiters [] d = d"
| "build_limiters (r # rs) d =
     build_limiters rs
       (case rule_type r of
          SLIDING_WINDOW \<Rightarrow>
            dset (rule_name r) (Sliding (sw_init (rule_interval r) (rule_limit r))) d
        | FIXED_WINDOW \<Rightarrow>
            dset (rule_name r) (Fixed (fw_init (rule_interval r) (rule_limit r))) d
        | TOKEN_BUCKET \<Rightarrow> d)"

definition rl_init :: "RateLimitRule list \<Rightarrow> RateLimiter" where
  "rl_init rules = \<lparr>rl_rules = rules, rl_limiters = build_limiters rules []\<rparr>"

definition get_matched_rules ::
    "RateLimitRule list \<Rightarrow> string \<Rightarrow> string \<Rightarrow> RateLimitRule list" where
  "get_matched_rules rules method path = filter (\<lambda>r. rule_match r method path) rules"

text \<open>
  The readings of the clock are a sequence \<open>clk\<close>, read from position \<open>n\<close> on: the loop
  of \<open>acquire\<close> takes one per limiter, the rollback goes on from there. The objects of
  \<open>acquired_limiters\<close> are the ones stored in \<open>_limiters\<close>, so they are named by their key.
\<close>

fun release_all ::
    "(nat \<Rightarrow> time) \<Rightarrow> nat \<Rightarrow> (string \<times> int) list \<Rightarrow> (string, limiter) dict
     \<Rightarrow> (string, limiter) dict" where
  "release_all clk n [] d = d"
| "release_all clk n ((name, w) # acquired) d =
     release_all clk (Suc n) acquired
       (case dget d name of
          None \<Rightarrow> d
        | Some l \<Rightarrow> dset name (lim_release l w (clk n)) d)"

fun acquire_rules ::
    "(nat \<Rightarrow> time) \<Rightarrow> nat \<Rightarrow> string \<Rightarrow> string \<Rightarrow> int \<Rightarrow> (string \<times> int) list
     \<Rightarrow> RateLimitRule list \<Rightarrow> (string, limiter) dict
     \<Rightarrow> outcome \<times> (string, limiter) dict" where
  "acquire_rules clk n method path weight acquired [] d = (Granted, d)"
| "acquire_rules clk n method path weight acquired (r # rs) d =
     (case dget d (rule_name r) of
        None \<Rightarrow> acquire_rules clk n method path weight acquired rs d
      | Some l \<Rightarrow>
          (let request_weight = get_weight r method path * weight
           in case lim_acquire l request_weight (clk n) of
                (Granted, l') \<Rightarrow>
                  acquire_rules clk (Suc n) method path weight
                    (acquired @ [(rule_name r, request_weight)]) rs (dset (rule_name r) l' d)
              | (Refused, l') \<Rightarrow>
                  (Refused, release_all clk (Suc n) (rev acquired) (dset (rule_name r) l' d))
              | (ZeroDivision, l') \<Rightarrow> (ZeroDivision, dset (rule_name r) l' d)))"

definition rl_acquire ::
    "(nat \<Rightarrow> time) \<Rightarrow> RateLimiter \<Rightarrow> string \<Rightarrow> string \<Rightarrow> int \<Rightarrow> outcome \<times> RateLimiter" where
  "rl_acquire clk rl method path weight =
     (if rl_rules rl = [] then (Granted, rl)
      else let matched = get_matched_rules (rl_rules rl) method path
           in if matched = [] then (Granted, rl)
              else map_prod id (\<lambda>d. rl\<lparr>rl_limiters := d\<rparr>)
                     (acquire_rules clk 0 method path weight [] matched (rl_limiters rl)))"

fun max_wait_rules ::
    "(nat \<Rightarrow> time) \<Rightarrow> nat \<Rightarrow> RateLimitRule list \<Rightarrow> (string, limiter) dict \<Rightarrow> time \<Rightarrow> time" where
  "max_wait_rules clk n [] d max_wait = max_wait"
| "max_wait_rules clk n (r # rs) d max_wait =
     (case dget d (rule_name r) of
        None \<Rightarrow> max_wait_rules clk n rs d max_wait
      | Some l \<Rightarrow> max_wait_rules clk (Suc n) rs d (max max_wait (lim_wait_time l (clk n))))"

definition get_max_wait_time ::
    "(nat \<Rightarrow> time) \<Rightarrow> RateLimiter \<Rightarrow> string \<Rightarrow> string \<Rightarrow> time" where
  "get_max_wait_time clk rl method path =
     max_wait_rules clk 0 (get_matched_rules (rl_rules rl) method path) (rl_limiters rl) 0"

section \<open>Waiting for room\<close>

text \<open>
  Iteration \<open>k\<close> of the waiting loop reads the wall clock as \<open>wall k\<close> in \<open>acquire\<close> and as
  \<open>wall_wait k\<close> in \<open>_get_max_wait_time\<close>; the monotonic clock is \<open>mclk 0\<close> at the start and
  \<open>mclk (k + 1)\<close> in the timeout test of iteration \<open>k\<close>. The loop is \<open>while True\<close>, so it
  takes fuel: \<open>None\<close> is a loop that has not returned yet. The third component lists the
  sleeps, each \<open>min(effective_wait, 1.0)\<close> in the blocking loop and \<open>effective_wait\<close> in the
  coroutine, which is the only difference between the two.
\<close>

datatype wait_result = Acquired | TimedOut | WaitError

fun wait_loop ::
    "(time \<Rightarrow> time) \<Rightarrow> (nat \<Rightarrow> nat \<Rightarrow> time) \<Rightarrow> (nat \<Rightarrow> nat \<Rightarrow> time) \<Rightarrow> (nat \<Rightarrow> time)
     \<Rightarrow> string \<Rightarrow> string \<Rightarrow> int \<Rightarrow> time option \<Rightarrow> nat \<Rightarrow> nat \<Rightarrow> RateLimiter \<Rightarrow> time list
     \<Rightarrow> (wait_result \<times> RateLimiter \<times> time list) option" where
  "wait_loop pause wall wall_wait mclk method path weight timeout 0 k rl sleeps = None"
| "wait_loop pause wall wall_wait mclk method path weight timeout (Suc fuel) k rl sleeps =
     (case rl_acquire (wall k) rl method path weight of
        (Granted, rl') \<Rightarrow> Some (Acquired, rl', sleeps)
      | (ZeroDivision, rl') \<Rightarrow> Some (WaitError, rl', sleeps)
      | (Refused, rl') \<Rightarrow>
          (let wait_interval = get_max_wait_time (wall_wait k) rl' method path;
               effective_wait = (if 0 < wait_interval then wait_interval else 1 / 20)
           in if timeout \<noteq> None \<and> the timeout < mclk (Suc k) - mclk 0 + effective_wait
              then Some (TimedOut, rl', sleeps)
              else wait_loop pause wall wall_wait mclk method path weight timeout fuel (Suc k) rl'
                     (sleeps @ [pause effective_wait])))"

definition wait_and_acquire ::
    "(nat \<Rightarrow> nat \<Rightarrow> time) \<Rightarrow> (nat \<Rightarrow> nat \<Rightarrow> time) \<Rightarrow> (nat \<Rightarrow> time) \<Rightarrow> string \<Rightarrow> string \<Rightarrow> int
     \<Rightarrow> time option \<Rightarrow> nat \<Rightarrow> RateLimiter \<Rightarrow> (wait_result \<times> RateLimiter \<times> time list) option" where
  "wait_and_acquire wall wall_wait mclk method path weight timeout fuel rl =
     wait_loop (\<lambda>e. min e 1) wall wall_wait mclk method path weight timeout fuel 0 rl []"

definition async_acquire ::
    "(nat \<Rightarrow> nat \<Rightarrow> time) \<Rightarrow> (nat \<Rightarrow> nat \<Rightarrow> time) \<Rightarrow> (nat \<Rightarrow> time) \<Rightarrow> string \<Rightarrow> string \<Rightarrow> int
     \<Rightarrow> time option \<Rightarrow> nat \<Rightarrow> RateLimiter \<Rightarrow> (wait_result \<times> RateLimiter \<times> time list) option" where
  "async_acquire wall wall_wait mclk method path weight timeout fuel rl =
     wait_loop (\<lambda>e. e) wall wall_wait mclk method path weight timeout fuel 0 rl []"

section \<open>Status\<close>

record rule_status =
  st_type :: RateLimitType
  st_limit :: int
  st_interval :: int
  st_current :: int

fun status_rules ::
    "(nat \<Rightarrow> time) \<Rightarrow> nat \<Rightarrow> RateLimitRule list \<Rightarrow> (string, limiter) dict
     \<Rightarrow> (string, rule_status) dict \<Rightarrow> (string, rule_status) dict \<times> (string, limiter) dict" where
  "status_rules clk n [] d status = (status, d)"
| "status_rules clk n (r # rs) d status =
     (case dget d (rule_name r) of
        None \<Rightarrow> status_rules clk n rs d status
      | Some l \<Rightarrow>
          (let (current, l') = lim_current_usage l (clk n)
           in status_rules clk (Suc n) rs (dset (rule_name r) l' d)
                (dset (rule_name r)
                  \<lparr>st_type = rule_type r, st_limit = rule_limit r,
                   st_interval = rule_interval r, st_current = current\<rparr> status)))"

definition get_status ::
    "(nat \<Rightarrow> time) \<Rightarrow> RateLimiter \<Rightarrow> (string, rule_status) dict \<times> RateLimiter" where
  "get_status clk rl =
     map_prod id (\<lambda>d. rl\<lparr>rl_limiters := d\<rparr>)
       (status_rules clk 0 (rl_rules rl) (rl_limiters rl) [])"

end
