(* ===== verification/RateLimitContract.thy ===== *)
theory RateLimitContract
  imports RateLimit
begin

text \<open>
  The contract of a limiter and what follows from it. \<open>limiter_core\<close>: a grant adds its
  weight to the usage and stays within the capacity, a refusal changes no usage.
  \<open>limiter_contract\<close> adds that releasing a grant undoes it, which \<open>RateLimiter.acquire\<close> needs
  of the limiters it combines. \<open>windowed_limiter\<close> adds to the core which grants count at
  which time, and its client lemma is the reason for the component: in every window the
  granted weight stays within the limit. Both window limiters interpret all three; the sum
  type of the composite interprets the second, \<open>AsyncRateLimiter\<close> of
  \<open>core/async_context.py\<close> the third.
\<close>

section \<open>The contract\<close>

text \<open>\<open>upto t l\<close>: \<open>l\<close> is well formed and no reading made so far is after \<open>t\<close>.\<close>

locale limiter_core =
  fixes acquire :: "'l \<Rightarrow> int \<Rightarrow> time \<Rightarrow> outcome \<times> 'l"
    and usage :: "'l \<Rightarrow> time \<Rightarrow> int"
    and capacity :: "'l \<Rightarrow> int"
    and upto :: "time \<Rightarrow> 'l \<Rightarrow> bool"
  assumes granted:
      "upto t0 l \<Longrightarrow> t0 \<le> t \<Longrightarrow> 0 \<le> w \<Longrightarrow> acquire l w t = (Granted, l') \<Longrightarrow>
       usage l t + w \<le> capacity l \<and> usage l' t = usage l t + w \<and>
       capacity l' = capacity l \<and> upto t l'"
    and refused:
      "upto t0 l \<Longrightarrow> t0 \<le> t \<Longrightarrow> acquire l w t = (Refused, l') \<Longrightarrow>
       capacity l < usage l t + w \<and> (\<forall>u\<ge>t. usage l' u = usage l u) \<and>
       capacity l' = capacity l \<and> upto t l'"
    and no_error: "upto t0 l \<Longrightarrow> fst (acquire l w t) \<noteq> ZeroDivision"
    and upto_mono: "upto t0 l \<Longrightarrow> t0 \<le> t \<Longrightarrow> upto t l"
begin

lemma acquire_cases:
  assumes "upto t0 l"
  obtains l' where "acquire l w t = (Granted, l')" | l' where "acquire l w t = (Refused, l')"
  using no_error [OF assms, of w t] by (cases "acquire l w t"; cases "fst (acquire l w t)") auto

lemma granted_iff_room:
  assumes "upto t0 l" "t0 \<le> t" "0 \<le> w"
  shows "fst (acquire l w t) = Granted \<longleftrightarrow> usage l t + w \<le> capacity l"
  using acquire_cases [OF assms(1), of w t] granted [OF assms] refused [OF assms(1,2)]
  by (metis fst_conv not_less outcome.distinct(1))

lemma stays_within_capacity:
  assumes "upto t0 l" "t0 \<le> t" "0 \<le> w" "usage l t \<le> capacity l"
  shows "usage (snd (acquire l w t)) t \<le> capacity (snd (acquire l w t))"
  using acquire_cases [OF assms(1), of w t] granted [OF assms(1-3)] refused [OF assms(1,2)] assms(4)
  by (metis order_refl snd_conv)

end

text \<open>A limiter whose grants can be taken back, as the rollback of the composite needs.\<close>

locale limiter_contract = limiter_core acquire usage capacity upto
  for acquire :: "'l \<Rightarrow> int \<Rightarrow> time \<Rightarrow> outcome \<times> 'l"
    and usage :: "'l \<Rightarrow> time \<Rightarrow> int"
    and capacity :: "'l \<Rightarrow> int"
    and upto :: "time \<Rightarrow> 'l \<Rightarrow> bool" +
  fixes release :: "'l \<Rightarrow> int \<Rightarrow> time \<Rightarrow> 'l"
  assumes undo:
      "upto t0 l \<Longrightarrow> t0 \<le> t \<Longrightarrow> 0 \<le> w \<Longrightarrow> acquire l w t = (Granted, l') \<Longrightarrow> t \<le> t1 \<Longrightarrow>
       (\<forall>u\<ge>t1. usage (release l' w t1) u = usage l u) \<and>
       capacity (release l' w t1) = capacity l \<and> upto t1 (release l' w t1)"

section \<open>Sequences of requests\<close>

text \<open>
  A caller's requests, each a clock reading and a weight; the run returns the limiter and
  the requests that were granted.
\<close>

fun acquire_run ::
    "('l \<Rightarrow> int \<Rightarrow> time \<Rightarrow> outcome \<times> 'l) \<Rightarrow> 'l \<Rightarrow> (time \<times> int) list \<Rightarrow> (time \<times> int) list
     \<Rightarrow> 'l \<times> (time \<times> int) list" where
  "acquire_run acquire l [] gs = (l, gs)"
| "acquire_run acquire l ((t, w) # rs) gs =
     (case acquire l w t of
        (Granted, l') \<Rightarrow> acquire_run acquire l' rs (gs @ [(t, w)])
      | (_, l') \<Rightarrow> acquire_run acquire l' rs gs)"

text \<open>The granted weight that counts at time \<open>u\<close>, grants after \<open>u\<close> left out.\<close>

definition window_sum ::
    "(time \<Rightarrow> time \<Rightarrow> bool) \<Rightarrow> (time \<times> int) list \<Rightarrow> time \<Rightarrow> int" where
  "window_sum active gs u = total_weight (filter (\<lambda>r. fst r \<le> u \<and> active (fst r) u) gs)"

lemma total_weight_simps [simp]:
  "total_weight [] = 0" "total_weight (r # rs) = snd r + total_weight rs"
  "total_weight (rs @ ss) = total_weight rs + total_weight ss"
  by (simp_all add: total_weight_def)

lemma total_weight_filter_mono:
  assumes "\<forall>r \<in> set rs. 0 \<le> snd r" and "\<forall>r \<in> set rs. P r \<longrightarrow> Q r"
  shows "total_weight (filter P rs) \<le> total_weight (filter Q rs)"
  unfolding total_weight_def using assms by (rule sum_list_filter_mono)

definition request_times_ok :: "time \<Rightarrow> (time \<times> int) list \<Rightarrow> bool" where
  "request_times_ok t0 rs \<longleftrightarrow>
     sorted (map fst rs) \<and> (\<forall>r \<in> set rs. t0 \<le> fst r \<and> 0 \<le> snd r)"

locale windowed_limiter = limiter_core acquire usage capacity upto
  for acquire :: "'l \<Rightarrow> int \<Rightarrow> time \<Rightarrow> outcome \<times> 'l"
    and usage :: "'l \<Rightarrow> time \<Rightarrow> int"
    and capacity :: "'l \<Rightarrow> int"
    and upto :: "time \<Rightarrow> 'l \<Rightarrow> bool" +
  fixes active :: "time \<Rightarrow> time \<Rightarrow> bool"
  assumes active_convex: "active s u \<Longrightarrow> s \<le> t \<Longrightarrow> t \<le> u \<Longrightarrow> active s t"
    and granted_later:
      "upto t0 l \<Longrightarrow> t0 \<le> t \<Longrightarrow> 0 \<le> w \<Longrightarrow> acquire l w t = (Granted, l') \<Longrightarrow> t \<le> u \<Longrightarrow>
       usage l' u = usage l u + (if active t u then w else 0)"
begin

definition tracks :: "'l \<Rightarrow> time \<Rightarrow> (time \<times> int) list \<Rightarrow> bool" where
  "tracks l t0 gs \<longleftrightarrow> upto t0 l \<and> (\<forall>r \<in> set gs. fst r \<le> t0 \<and> 0 \<le> snd r) \<and>
     (\<forall>u\<ge>t0. usage l u = window_sum active gs u) \<and>
     (\<forall>u. window_sum active gs u \<le> capacity l)"

lemma window_sum_snoc:
  "window_sum active (gs @ [(t, w)]) u =
     window_sum active gs u + (if t \<le> u \<and> active t u then w else 0)"
  by (simp add: window_sum_def)

lemma window_sum_back:
  assumes "\<forall>r \<in> set gs. fst r \<le> t \<and> 0 \<le> snd r" and "t \<le> u"
  shows "window_sum active gs u \<le> window_sum active gs t"
  unfolding window_sum_def
  using assms by (intro total_weight_filter_mono) (auto intro: active_convex)

lemma tracks_granted:
  assumes tr: "tracks l t0 gs" and t: "t0 \<le> t" and w: "0 \<le> w"
    and acq: "acquire l w t = (Granted, l')"
  shows "tracks l' t (gs @ [(t, w)]) \<and> capacity l' = capacity l"
proof -
  from tr have up: "upto t0 l" and old: "\<forall>r \<in> set gs. fst r \<le> t0 \<and> 0 \<le> snd r"
    and us: "\<And>u. t0 \<le> u \<Longrightarrow> usage l u = window_sum active gs u"
    and bd: "\<And>u. window_sum active gs u \<le> capacity l"
    by (auto simp: tracks_def)
  note g = granted [OF up t w acq]
  have "usage l' u = window_sum active (gs @ [(t, w)]) u" if "t \<le> u" for u
    using granted_later [OF up t w acq that] us [of u] t that by (simp add: window_sum_snoc)
  moreover have "window_sum active (gs @ [(t, w)]) u \<le> capacity l'" for u
  proof (cases "t \<le> u \<and> active t u")
    case True
    have "\<forall>r \<in> set gs. fst r \<le> t \<and> 0 \<le> snd r" using old t by force
    with True have "window_sum active gs u \<le> window_sum active gs t"
      by (simp add: window_sum_back)
    with g us [OF t] True show ?thesis by (simp add: window_sum_snoc)
  next
    case False
    then show ?thesis using bd [of u] g by (auto simp: window_sum_snoc)
  qed
  ultimately show ?thesis
    using g old t w by (force simp: tracks_def)
qed

lemma tracks_refused:
  assumes "tracks l t0 gs" "t0 \<le> t" "acquire l w t = (Refused, l')"
  shows "tracks l' t gs \<and> capacity l' = capacity l"
  using assms refused [of t0 l t w l'] by (force simp: tracks_def)

lemma tracks_run:
  assumes "tracks l t0 gs" "request_times_ok t0 rs" "acquire_run acquire l rs gs = (l', gs')"
  shows "\<exists>t. tracks l' t gs' \<and> capacity l' = capacity l"
  using assms
proof (induction rs arbitrary: l t0 gs)
  case Nil
  then show ?case by auto
next
  case (Cons r rs)
  obtain t w where r: "r = (t, w)" by (cases r)
  have t: "t0 \<le> t" and w: "0 \<le> w" and rest: "request_times_ok t rs"
    using Cons.prems(2) by (auto simp: request_times_ok_def r)
  have "upto t0 l" using Cons.prems(1) by (simp add: tracks_def)
  then show ?case
  proof (cases rule: acquire_cases [where w = w and t = t])
    case (1 l1)
    then have "acquire_run acquire l1 rs (gs @ [(t, w)]) = (l', gs')"
      using Cons.prems(3) by (simp add: r)
    with Cons.IH [OF _ rest] tracks_granted [OF Cons.prems(1) t w 1] show ?thesis by metis
  next
    case (2 l1)
    then have "acquire_run acquire l1 rs gs = (l', gs')" using Cons.prems(3) by (simp add: r)
    with Cons.IH [OF _ rest] tracks_refused [OF Cons.prems(1) t 2] show ?thesis by metis
  qed
qed

text \<open>From an unused limiter on, no window ever holds more than the capacity.\<close>

lemma window_safety:
  assumes "upto t0 l" "\<forall>u\<ge>t0. usage l u = 0" "0 \<le> capacity l"
    and "request_times_ok t0 rs" "acquire_run acquire l rs [] = (l', gs)"
  shows "window_sum active gs u \<le> capacity l"
proof -
  have "tracks l t0 []" using assms(1-3) by (simp add: tracks_def window_sum_def)
  from tracks_run [OF this assms(4,5)] show ?thesis by (auto simp: tracks_def)
qed

end

end
