(* ===== verification/RateLimitCorrect.thy ===== *)
theory RateLimitCorrect
  imports RateLimitContract
begin

text \<open>
  The two window limiters and the composite's sum of them meet the contracts; the properties
  of the component rest on the interpreted facts.
\<close>

section \<open>The sliding window meets the contract\<close>

definition sw_ok :: "time \<Rightarrow> sliding \<Rightarrow> bool" where
  "sw_ok t0 l \<longleftrightarrow> 0 \<le> sw_interval l \<and> sorted (map fst (sw_requests l)) \<and>
     (\<forall>r \<in> set (sw_requests l). fst r \<le> t0)"

definition sw_usage :: "sliding \<Rightarrow> time \<Rightarrow> int" where
  "sw_usage l u =
     total_weight (filter (\<lambda>r. u - of_int (sw_interval l) \<le> fst r) (sw_requests l))"

lemma drop_expired_filter:
  "sorted (map fst rs) \<Longrightarrow> drop_expired c rs = filter (\<lambda>r. c \<le> fst r) rs"
proof (induction rs)
  case (Cons r rs)
  then show ?case by (cases r) (force intro!: filter_True [symmetric])
qed simp

lemma sw_prune_simps [simp]:
  "sw_interval (sw_prune t l) = sw_interval l" "sw_limit (sw_prune t l) = sw_limit l"
  by (simp_all add: sw_prune_def)

lemma sw_prune_requests:
  "sw_ok t0 l \<Longrightarrow> sw_requests (sw_prune t l) =
     filter (\<lambda>r. t - of_int (sw_interval l) \<le> fst r) (sw_requests l)"
  by (simp add: sw_prune_def sw_ok_def drop_expired_filter)

lemma sw_prune_ok: "sw_ok t0 l \<Longrightarrow> t0 \<le> t \<Longrightarrow> sw_ok t (sw_prune t l)"
  using sw_prune_requests [of t0 l t] by (auto simp: sw_ok_def sorted_filter)

lemma sw_prune_usage: "sw_ok t0 l \<Longrightarrow> t \<le> u \<Longrightarrow> sw_usage (sw_prune t l) u = sw_usage l u"
  by (auto simp: sw_usage_def sw_prune_requests intro!: arg_cong [where f = total_weight]
      filter_cong)

lemma sw_prune_total: "sw_ok t0 l \<Longrightarrow> total_weight (sw_requests (sw_prune t l)) = sw_usage l t"
  by (simp add: sw_usage_def sw_prune_requests)

lemma sw_acquire_GrantedD:
  assumes ok: "sw_ok t0 l" "t0 \<le> t" and acq: "sw_acquire l w t = (Granted, l')"
  shows "sw_usage l t + w \<le> sw_limit l"
    "l' = (sw_prune t l)\<lparr>sw_requests := sw_requests (sw_prune t l) @ [(t, w)]\<rparr>"
    "sw_ok t l'"
proof -
  show "sw_usage l t + w \<le> sw_limit l"
    "l' = (sw_prune t l)\<lparr>sw_requests := sw_requests (sw_prune t l) @ [(t, w)]\<rparr>"
    using acq by (auto simp: sw_acquire_def Let_def sw_prune_total [OF ok(1)] split: if_splits)
  with sw_prune_ok [OF ok] show "sw_ok t l'" by (auto simp: sw_ok_def sorted_append)
qed

lemma sw_granted_usage:
  assumes "sw_ok t0 l" "t0 \<le> t" "sw_acquire l w t = (Granted, l')" "t \<le> u"
  shows "sw_usage l' u = sw_usage l u + (if u - of_int (sw_interval l) \<le> t then w else 0)"
  using sw_acquire_GrantedD(2) [OF assms(1-3)] sw_prune_usage [OF assms(1,4)]
  by (simp add: sw_usage_def)

lemma sw_acquire_RefusedD:
  assumes "sw_ok t0 l" "sw_acquire l w t = (Refused, l')"
  shows "sw_limit l < sw_usage l t + w" "l' = sw_prune t l"
  using assms(2)
  by (auto simp: sw_acquire_def Let_def sw_prune_total [OF assms(1)] split: if_splits)

lemma sw_undo:
  assumes "sw_ok t0 l" "t0 \<le> t" "sw_acquire l w t = (Granted, l')" "t \<le> t1"
  shows "sw_release l' w t1 = sw_prune t1 l"
proof -
  note g = sw_acquire_GrantedD [OF assms(1-3)]
  have old: "\<forall>r \<in> set (sw_requests l). fst r \<le> t" using assms(1,2) by (force simp: sw_ok_def)
  let ?I = "of_int (sw_interval l) :: time"
  have reqs: "sw_requests (sw_prune t1 l') =
      filter (\<lambda>r. t1 - ?I \<le> fst r) (sw_requests l) @ (if t1 - ?I \<le> t then [(t, w)] else [])"
    using sw_prune_requests [OF g(3), of t1] g(2) assms(4)
    by (auto simp: sw_prune_requests [OF assms(1)] intro!: filter_cong)
  show ?thesis
  proof (cases "t1 - ?I \<le> t")
    case True
    then show ?thesis
      using reqs g(2) sw_prune_requests [OF assms(1), of t1]
      by (auto simp: sw_release_def Let_def sw_prune_def)
  next
    case False
    with old have "filter (\<lambda>r. t1 - ?I \<le> fst r) (sw_requests l) = []"
      by (force simp: filter_empty_conv)
    with False show ?thesis
      using reqs g(2) sw_prune_requests [OF assms(1), of t1]
      by (auto simp: sw_release_def Let_def sw_prune_def)
  qed
qed

interpretation sw: limiter_contract sw_acquire sw_usage sw_limit
  "\<lambda>t l. sw_ok t l \<and> sw_interval l = int I" sw_release for I
proof (unfold_locales, goal_cases)
  case (1 t0 l t w l')
  then have g: "sw_ok t0 l" "t0 \<le> t" "sw_acquire l w t = (Granted, l')" by auto
  show ?case
    using 1 sw_acquire_GrantedD [OF g] sw_granted_usage [OF g order_refl] by auto
next
  case (2 t0 l t w l')
  then have g: "sw_ok t0 l" "sw_acquire l w t = (Refused, l')" by auto
  show ?case
    using 2 sw_acquire_RefusedD [OF g] sw_prune_ok [of t0 l t] sw_prune_usage [OF g(1)] by auto
next
  case (3 t0 l w t)
  then show ?case by (auto simp: sw_acquire_def Let_def)
next
  case (4 t0 l t)
  then show ?case by (force simp: sw_ok_def)
next
  case (5 t0 l t w l' t1)
  then have g: "sw_ok t0 l" "t0 \<le> t" "sw_acquire l w t = (Granted, l')" "t \<le> t1" by auto
  show ?case
    using sw_undo [OF g] 5 sw_prune_ok [of t0 l t1] sw_prune_usage [OF g(1)] by auto
qed

interpretation sww: windowed_limiter sw_acquire sw_usage sw_limit
  "\<lambda>t l. sw_ok t l \<and> sw_interval l = int I"
  "\<lambda>s t. t - of_nat I \<le> s" for I
proof (unfold_locales, goal_cases)
  case (1 s u t)
  then show ?case by linarith
next
  case (2 t0 l t w l' u)
  then have g: "sw_ok t0 l" "t0 \<le> t" "sw_acquire l w t = (Granted, l')" "t \<le> u" by auto
  show ?case using sw_granted_usage [OF g] 2 by auto
qed

section \<open>The fixed window meets the contract\<close>

definition fw_ok :: "time \<Rightarrow> fixed_window \<Rightarrow> bool" where
  "fw_ok t0 l \<longleftrightarrow> 0 < fw_interval l \<and> fw_start l \<le> window_of (fw_interval l) t0 \<and> 0 \<le> fw_count l"

definition fw_usage :: "fixed_window \<Rightarrow> time \<Rightarrow> int" where
  "fw_usage l u = (if window_of (fw_interval l) u = fw_start l then fw_count l else 0)"

lemma window_of_mono: "0 < i \<Longrightarrow> s \<le> t \<Longrightarrow> window_of i s \<le> window_of i t"
  by (simp add: window_of_def floor_mono divide_right_mono mult_right_mono)

lemma window_of_le: "0 < i \<Longrightarrow> of_int (window_of i t) \<le> t"
proof -
  assume i: "0 < i"
  then have "(0 :: rat) < of_int i" by simp
  from pos_le_divide_eq [OF this, of "of_int \<lfloor>t / of_int i\<rfloor>" t] show ?thesis
    by (simp add: window_of_def)
qed

lemma window_of_less: "0 < i \<Longrightarrow> t < of_int (window_of i t) + of_int i"
proof -
  assume i: "0 < i"
  have "t / (of_int i :: rat) < of_int \<lfloor>t / of_int i\<rfloor> + 1" by linarith
  with i show ?thesis by (simp add: window_of_def pos_divide_less_eq algebra_simps)
qed

lemma fw_acquire_unfold:
  assumes "0 < fw_interval l"
  shows "fw_acquire l w t =
    (let c = fw_usage l t; l1 = l\<lparr>fw_start := window_of (fw_interval l) t, fw_count := c\<rparr>
     in if c + w \<le> fw_limit l then (Granted, l1\<lparr>fw_count := c + w\<rparr>) else (Refused, l1))"
  using assms by (auto simp: fw_acquire_def fw_usage_def Let_def)

lemma fw_usage_after:
  assumes "fw_ok t0 l" "t0 \<le> t" "t \<le> u"
  shows "fw_usage l u = (if window_of (fw_interval l) u = window_of (fw_interval l) t
                         then fw_usage l t else 0)"
proof -
  have "fw_start l \<le> window_of (fw_interval l) t0" "0 < fw_interval l"
    using assms(1) by (simp_all add: fw_ok_def)
  moreover from this have "window_of (fw_interval l) t0 \<le> window_of (fw_interval l) t"
    "window_of (fw_interval l) t \<le> window_of (fw_interval l) u"
    using window_of_mono assms(2,3) by auto
  ultimately show ?thesis by (auto simp: fw_usage_def)
qed

lemma fw_usage_nonneg: "fw_ok t0 l \<Longrightarrow> 0 \<le> fw_usage l u"
  by (simp add: fw_usage_def fw_ok_def)

lemma fw_ok_rolled:
  "fw_ok t0 l \<Longrightarrow> t \<le> t1 \<Longrightarrow> 0 \<le> c \<Longrightarrow>
   fw_ok t1 (l\<lparr>fw_start := window_of (fw_interval l) t, fw_count := c\<rparr>)"
  by (simp add: fw_ok_def window_of_mono)

interpretation fw: limiter_contract fw_acquire fw_usage fw_limit
  "\<lambda>t l. fw_ok t l \<and> fw_interval l = int (Suc I)" "\<lambda>l w t. fw_release l w" for I
proof (unfold_locales, goal_cases)
  case (1 t0 l t w l')
  then show ?case using fw_usage_nonneg [of t0 l t] fw_ok_rolled [of t0 l t t]
    by (auto simp: fw_acquire_unfold fw_ok_def Let_def fw_usage_def split: if_splits)
next
  case (2 t0 l t w l')
  then have pos: "0 < fw_interval l" and ok: "fw_ok t0 l" by (auto simp: fw_ok_def)
  have l': "fw_limit l < fw_usage l t + w"
    "l' = l\<lparr>fw_start := window_of (fw_interval l) t, fw_count := fw_usage l t\<rparr>"
    using 2 by (auto simp: fw_acquire_unfold [OF pos] Let_def split: if_splits)
  have "fw_usage l' u = fw_usage l u" if "t \<le> u" for u
    using fw_usage_after [OF ok 2(2) that] l'(2) by (simp add: fw_usage_def)
  with l' 2 fw_ok_rolled [OF ok, of t t] fw_usage_nonneg [OF ok] show ?case by auto
next
  case (3 t0 l w t)
  then show ?case by (auto simp: fw_acquire_unfold fw_ok_def Let_def)
next
  case (4 t0 l t)
  then show ?case using window_of_mono [of "int (Suc I)" t0 t] by (auto simp: fw_ok_def)
next
  case (5 t0 l t w l' t1)
  then have pos: "0 < fw_interval l" and ok: "fw_ok t0 l" by (auto simp: fw_ok_def)
  have l': "fw_release l' w =
      l\<lparr>fw_start := window_of (fw_interval l) t, fw_count := fw_usage l t\<rparr>"
    using 5 fw_usage_nonneg [OF ok, of t]
    by (auto simp: fw_acquire_unfold [OF pos] fw_release_def Let_def split: if_splits)
  have "fw_usage (fw_release l' w) u = fw_usage l u" if "t1 \<le> u" for u
    using fw_usage_after [OF ok 5(2), of u] that 5 l' by (simp add: fw_usage_def)
  with l' 5 fw_ok_rolled [OF ok, of t t1] fw_usage_nonneg [OF ok] show ?case by auto
qed

interpretation fww: windowed_limiter fw_acquire fw_usage fw_limit
  "\<lambda>t l. fw_ok t l \<and> fw_interval l = int (Suc I)"
  "\<lambda>s t. window_of (int (Suc I)) s = window_of (int (Suc I)) t" for I
proof (unfold_locales, goal_cases)
  case (1 s u t)
  then show ?case using window_of_mono [of "int (Suc I)" s t] window_of_mono [of "int (Suc I)" t u]
    by simp
next
  case (2 t0 l t w l' u)
  then have pos: "0 < fw_interval l" and ok: "fw_ok t0 l" by (auto simp: fw_ok_def)
  have "l' = l\<lparr>fw_start := window_of (fw_interval l) t, fw_count := fw_usage l t + w\<rparr>"
    using 2 by (auto simp: fw_acquire_unfold [OF pos] Let_def split: if_splits)
  then show ?case using fw_usage_after [OF ok 2(2,5)] 2 by (simp add: fw_usage_def)
qed

end
