(* ===== verification/RateLimiterCorrect.thy ===== *)
theory RateLimiterCorrect
  imports RateLimitCorrect
begin

text \<open>
  Correctness of \<open>rate_limiter.py\<close>: what the two window limiters guarantee over any
  sequence of requests, that the composite limiter is all-or-nothing over its rules, that
  waiting with a timeout returns, and which rules never limit anything.
\<close>

section \<open>The sum of the two limiters meets the contract\<close>

fun lim_ok :: "time \<Rightarrow> limiter \<Rightarrow> bool" where
  "lim_ok t (Sliding l) = sw_ok t l"
| "lim_ok t (Fixed l) = fw_ok t l"

fun lim_usage :: "limiter \<Rightarrow> time \<Rightarrow> int" where
  "lim_usage (Sliding l) u = sw_usage l u"
| "lim_usage (Fixed l) u = fw_usage l u"

fun lim_capacity :: "limiter \<Rightarrow> int" where
  "lim_capacity (Sliding l) = sw_limit l"
| "lim_capacity (Fixed l) = fw_limit l"

lemma sw_interval_nat: "sw_ok t l \<Longrightarrow> sw_ok t l \<and> sw_interval l = int (nat (sw_interval l))"
  by (simp add: sw_ok_def)

lemma fw_interval_nat:
  "fw_ok t l \<Longrightarrow> fw_ok t l \<and> fw_interval l = int (Suc (nat (fw_interval l - 1)))"
  by (simp add: fw_ok_def)

lemma map_prod_eq_conv: "map_prod id f p = (a, y) \<longleftrightarrow> (\<exists>x. p = (a, x) \<and> y = f x)"
  by (cases p) auto

interpretation lim: limiter_contract lim_acquire lim_usage lim_capacity lim_ok lim_release
proof (unfold_locales, goal_cases)
  case (1 t0 l t w l')
  show ?case
  proof (cases l)
    case (Sliding s)
    with 1 obtain r where "sw_acquire s w t = (Granted, r)" "l' = Sliding r"
      by (auto simp: map_prod_eq_conv)
    with 1 Sliding sw.granted [OF sw_interval_nat, of t0 s t w r] show ?thesis by simp
  next
    case (Fixed f)
    with 1 obtain r where "fw_acquire f w t = (Granted, r)" "l' = Fixed r"
      by (auto simp: map_prod_eq_conv)
    with 1 Fixed fw.granted [OF fw_interval_nat, of t0 f t w r] show ?thesis by simp
  qed
next
  case (2 t0 l t w l')
  show ?case
  proof (cases l)
    case (Sliding s)
    with 2 obtain r where "sw_acquire s w t = (Refused, r)" "l' = Sliding r"
      by (auto simp: map_prod_eq_conv)
    with 2 Sliding sw.refused [OF sw_interval_nat, of t0 s t w r] show ?thesis by simp
  next
    case (Fixed f)
    with 2 obtain r where "fw_acquire f w t = (Refused, r)" "l' = Fixed r"
      by (auto simp: map_prod_eq_conv)
    with 2 Fixed fw.refused [OF fw_interval_nat, of t0 f t w r] show ?thesis by simp
  qed
next
  case (3 t0 l w t)
  then show ?case
    using sw.no_error [OF sw_interval_nat] fw.no_error [OF fw_interval_nat]
    by (cases l) auto
next
  case (4 t0 l t)
  then show ?case
    using sw.upto_mono [OF sw_interval_nat] fw.upto_mono [OF fw_interval_nat]
    by (cases l) auto
next
  case (5 t0 l t w l' t1)
  show ?case
  proof (cases l)
    case (Sliding s)
    with 5 obtain r where "sw_acquire s w t = (Granted, r)" "l' = Sliding r"
      by (auto simp: map_prod_eq_conv)
    with 5 Sliding sw.undo [OF sw_interval_nat, of t0 s t w r t1] show ?thesis by simp
  next
    case (Fixed f)
    with 5 obtain r where "fw_acquire f w t = (Granted, r)" "l' = Fixed r"
      by (auto simp: map_prod_eq_conv)
    with 5 Fixed fw.undo [OF fw_interval_nat, of t0 f t w r t1] show ?thesis by simp
  qed
qed

section \<open>The loop of \<open>acquire\<close> and its rollback\<close>

text \<open>
  \<open>holds_grants clk n d0 acq d\<close>: the limiters \<open>d\<close> are those of \<open>d0\<close>, except that the ones
  named in \<open>acq\<close> have granted their weight at one of the first \<open>n\<close> readings.
\<close>

definition holds_grants ::
    "(nat \<Rightarrow> time) \<Rightarrow> nat \<Rightarrow> (string, limiter) dict \<Rightarrow> (string \<times> int) list
     \<Rightarrow> (string, limiter) dict \<Rightarrow> bool" where
  "holds_grants clk n d0 acq d \<longleftrightarrow>
     (\<forall>name. case dget d0 name of
        None \<Rightarrow> dget d name = None \<and> name \<notin> fst ` set acq
      | Some l0 \<Rightarrow>
          if name \<in> fst ` set acq
          then \<exists>m<n. \<exists>w l. (name, w) \<in> set acq \<and> dget d name = Some l \<and>
                 lim_acquire l0 w (clk m) = (Granted, l)
          else dget d name = Some l0)"

lemma holds_grants_start: "holds_grants clk n d [] d"
  by (simp add: holds_grants_def split: option.split)

lemma holds_grants_step:
  assumes held: "holds_grants clk n d0 acq d" and new: "name \<notin> fst ` set acq"
    and l: "dget d name = Some l" and acq: "lim_acquire l w (clk n) = (Granted, l')"
  shows "holds_grants clk (Suc n) d0 (acq @ [(name, w)]) (dset name l' d)"
  unfolding holds_grants_def
proof
  fix x
  show "case dget d0 x of
      None \<Rightarrow> dget (dset name l' d) x = None \<and> x \<notin> fst ` set (acq @ [(name, w)])
    | Some l0 \<Rightarrow>
        if x \<in> fst ` set (acq @ [(name, w)])
        then \<exists>m<Suc n. \<exists>v l. (x, v) \<in> set (acq @ [(name, w)]) \<and>
               dget (dset name l' d) x = Some l \<and> lim_acquire l0 v (clk m) = (Granted, l)
        else dget (dset name l' d) x = Some l0"
    using held [unfolded holds_grants_def, THEN spec, of x] new l acq
    by (cases "x = name"; cases "dget d0 x") (auto intro: less_SucI split: if_splits)
qed

lemma release_all_other:
  "name \<notin> fst ` set acq \<Longrightarrow> dget (release_all clk n acq d) name = dget d name"
  by (induction clk n acq d rule: release_all.induct) (auto split: option.splits)

lemma release_all_acquired:
  "distinct (map fst acq) \<Longrightarrow> (name, w) \<in> set acq \<Longrightarrow> dget d name = Some l \<Longrightarrow>
   \<exists>k\<ge>n. dget (release_all clk n acq d) name = Some (lim_release l w (clk k))"
proof (induction clk n acq d rule: release_all.induct)
  case (2 clk n name' w' acq d)
  show ?case
  proof (cases "name' = name")
    case True
    with 2 have "w' = w" "name \<notin> fst ` set acq" by (auto simp: image_iff)
    with True 2(4) show ?thesis by (auto simp: release_all_other)
  next
    case False
    let ?d = "case dget d name' of None \<Rightarrow> d | Some l \<Rightarrow> dset name' (lim_release l w' (clk n)) d"
    have "dget ?d name = Some l" using False 2(4) by (auto split: option.split)
    with 2 False obtain k where "Suc n \<le> k"
      "dget (release_all clk (Suc n) acq ?d) name = Some (lim_release l w (clk k))"
      by auto
    then show ?thesis by (auto intro: exI [of _ k])
  qed
qed simp

definition undone ::
    "(nat \<Rightarrow> time) \<Rightarrow> (string, limiter) dict \<Rightarrow> (string, limiter) dict \<Rightarrow> bool" where
  "undone clk d0 d \<longleftrightarrow>
     (\<forall>name. case dget d0 name of
        None \<Rightarrow> dget d name = None
      | Some l0 \<Rightarrow> \<exists>l. dget d name = Some l \<and> lim_capacity l = lim_capacity l0 \<and>
          (\<forall>u. (\<forall>k. clk k \<le> u) \<longrightarrow> lim_usage l u = lim_usage l0 u))"

text \<open>A call of \<open>acquire\<close>: well-formed limiters, a clock that does not run backwards.\<close>

definition call_ok :: "(nat \<Rightarrow> time) \<Rightarrow> (string, limiter) dict \<Rightarrow> bool" where
  "call_ok clk d0 \<longleftrightarrow> mono clk \<and> (\<forall>name l. dget d0 name = Some l \<longrightarrow> lim_ok (clk 0) l)"

lemma call_okD:
  assumes "call_ok clk d0" "dget d0 name = Some l"
  shows "lim_ok (clk 0) l" "clk 0 \<le> clk n" "m \<le> n \<Longrightarrow> clk m \<le> clk n"
  using assms by (auto simp: call_ok_def dest: monoD)

lemma refuse_undone:
  assumes ok: "call_ok clk d0" and held: "holds_grants clk n d0 acq d"
    and dist: "distinct (map fst acq)" and pos: "\<forall>p \<in> set acq. 0 \<le> snd p"
    and new: "name \<notin> fst ` set acq" and l: "dget d name = Some l"
    and ref: "lim_acquire l w (clk n) = (Refused, l')"
  shows "undone clk d0 (release_all clk (Suc n) (rev acq) (dset name l' d))"
  unfolding undone_def
proof
  fix x
  let ?d' = "release_all clk (Suc n) (rev acq) (dset name l' d)"
  note h = held [unfolded holds_grants_def, THEN spec, of x]
  show "case dget d0 x of
      None \<Rightarrow> dget ?d' x = None
    | Some l0 \<Rightarrow> \<exists>l. dget ?d' x = Some l \<and> lim_capacity l = lim_capacity l0 \<and>
        (\<forall>u. (\<forall>k. clk k \<le> u) \<longrightarrow> lim_usage l u = lim_usage l0 u)"
  proof (cases "dget d0 x")
    case None
    with h l have "x \<notin> fst ` set (rev acq)" "x \<noteq> name" "dget d x = None" by auto
    with None show ?thesis by (simp add: release_all_other)
  next
    case (Some l0)
    note okx = call_okD [OF ok Some]
    show ?thesis
    proof (cases "x \<in> fst ` set acq")
      case True
      with h Some obtain m v lx where m: "m < n" "(x, v) \<in> set acq" "dget d x = Some lx"
        "lim_acquire l0 v (clk m) = (Granted, lx)" by auto
      from True new have "x \<noteq> name" by auto
      with m(3) have "dget (dset name l' d) x = Some lx" by simp
      moreover have "distinct (map fst (rev acq))" "(x, v) \<in> set (rev acq)"
        using dist m(2) by (simp_all add: rev_map [symmetric])
      ultimately obtain k where k: "Suc n \<le> k" "dget ?d' x = Some (lim_release lx v (clk k))"
        using release_all_acquired [of "rev acq" x v "dset name l' d" lx "Suc n" clk] by blast
      have "0 \<le> v" using pos m(2) by fastforce
      have "clk m \<le> clk k" using okx(3) [of m k] m(1) k(1) by simp
      note un = lim.undo [OF okx(1,2) \<open>0 \<le> v\<close> m(4) this]
      show ?thesis using un k(2) Some by simp
    next
      case False
      with h Some have dx: "dget d x = Some l0" by simp
      with False have *: "dget ?d' x = Some (if x = name then l' else l0)"
        by (simp add: release_all_other)
      show ?thesis
      proof (cases "x = name")
        case True
        with dx l ref have "lim_acquire l0 w (clk n) = (Refused, l')" by simp
        from lim.refused [OF okx(1,2) this] * True Some show ?thesis by auto
      next
        case False
        with * Some show ?thesis by simp
      qed
    qed
  qed
qed

definition grants_of ::
    "string \<Rightarrow> string \<Rightarrow> int \<Rightarrow> (string, limiter) dict \<Rightarrow> RateLimitRule list \<Rightarrow> (string \<times> int) list" where
  "grants_of method path weight d0 rs =
     map (\<lambda>r. (rule_name r, get_weight r method path * weight))
       (filter (\<lambda>r. rule_name r \<in> set (dkeys d0)) rs)"

lemma holds_grants_get:
  assumes "holds_grants clk n d0 acq d" "name \<notin> fst ` set acq"
  shows "dget d name = dget d0 name"
  using assms(1) [unfolded holds_grants_def, THEN spec, of name] assms(2)
  by (auto split: option.splits)

lemma acquire_rules_outcome:
  assumes ok: "call_ok clk d0" and held: "holds_grants clk n d0 acq d"
    and dist: "distinct (map fst acq @ map rule_name rs)"
    and pos: "\<forall>p \<in> set acq. 0 \<le> snd p"
      "\<forall>r \<in> set rs. 0 \<le> get_weight r method path * weight"
    and res: "acquire_rules clk n method path weight acq rs d = (res, d')"
  shows "res = Granted \<and> (\<exists>n'. holds_grants clk n' d0 (acq @ grants_of method path weight d0 rs) d')
       \<or> res = Refused \<and> undone clk d0 d'"
  using held dist pos res
proof (induction rs arbitrary: n acq d)
  case Nil
  then show ?case by (auto simp: grants_of_def)
next
  case (Cons r rs)
  let ?w = "get_weight r method path * weight"
  have new: "rule_name r \<notin> fst ` set acq" using Cons.prems(2) by auto
  show ?case
  proof (cases "dget d (rule_name r)")
    case None
    with holds_grants_get [OF Cons.prems(1) new]
    have "grants_of method path weight d0 (r # rs) = grants_of method path weight d0 rs"
      by (simp add: grants_of_def dget_None_iff [symmetric])
    with None Cons show ?thesis by simp
  next
    case (Some l)
    with holds_grants_get [OF Cons.prems(1) new] have l0: "dget d0 (rule_name r) = Some l" by simp
    then have gr: "grants_of method path weight d0 (r # rs) =
        (rule_name r, ?w) # grants_of method path weight d0 rs"
      by (simp add: grants_of_def dget_Some_key)
    from lim.acquire_cases [OF call_okD(1) [OF ok l0], of ?w "clk n"] show ?thesis
    proof cases
      case (1 l')
      have "acquire_rules clk (Suc n) method path weight (acq @ [(rule_name r, ?w)]) rs
          (dset (rule_name r) l' d) = (res, d')"
        using Cons.prems(5) Some 1 by simp
      with Cons.IH [OF holds_grants_step [OF Cons.prems(1) new Some 1]] Cons.prems gr
      show ?thesis by simp
    next
      case (2 l')
      then show ?thesis
        using Cons.prems(2-5) Some refuse_undone [OF ok Cons.prems(1) _ _ new Some 2] by simp
    qed
  qed
qed

section \<open>The properties of the window limiters\<close>

text \<open>
  C4. A fresh \<open>SlidingWindowLimiter\<close>, whatever sequence of non-negative requests is made
  at non-decreasing clock readings, never lets more than \<open>limit\<close> weight through in any
  window of \<open>interval\<close> seconds.
\<close>

theorem sliding_window_safety:
  assumes "0 \<le> limit" and "request_times_ok t0 rs"
    and "acquire_run sw_acquire (sw_init (int I) limit) rs [] = (l', gs)"
  shows "window_sum (\<lambda>s u. u - of_nat I \<le> s) gs u \<le> limit"
proof -
  have "sw_ok t0 (sw_init (int I) limit) \<and> sw_interval (sw_init (int I) limit) = int I"
    "\<forall>u\<ge>t0. sw_usage (sw_init (int I) limit) u = 0" "sw_limit (sw_init (int I) limit) = limit"
    by (simp_all add: sw_ok_def sw_init_def sw_usage_def)
  with sww.window_safety [OF this(1,2) _ assms(2,3)] assms(1) show ?thesis by simp
qed

theorem sliding_window_safety_witness:
  "window_sum (\<lambda>s u. u - of_nat 10 \<le> s) [(1, 2), (3, 1), (12, 2)] 12 \<le> 3"
proof -
  have "acquire_run sw_acquire (sw_init (int 10) 3) [(1, 2), (3, 1), (4, 1), (12, 2)] [] =
      (\<lparr>sw_interval = 10, sw_limit = 3, sw_requests = [(3, 1), (12, 2)]\<rparr>,
       [(1, 2), (3, 1), (12, 2)])"
    by (simp add: sw_acquire_def sw_init_def sw_prune_def Let_def)
  from sliding_window_safety [OF _ _ this, of 0 12] show ?thesis
    by (simp add: request_times_ok_def)
qed

text \<open>
  C21. A fresh \<open>FixedWindowLimiter\<close> lets at most \<open>limit\<close> weight through in each of the
  consecutive windows of \<open>interval\<close> seconds.
\<close>

theorem fixed_window_safety:
  assumes "0 \<le> limit" and "0 \<le> t0" and "request_times_ok t0 rs"
    and "acquire_run fw_acquire (fw_init (int (Suc I)) limit) rs [] = (l', gs)"
  shows "window_sum (\<lambda>s u. window_of (int (Suc I)) s = window_of (int (Suc I)) u) gs u \<le> limit"
proof -
  let ?l = "fw_init (int (Suc I)) limit"
  have "0 \<le> window_of (int (Suc I)) t0"
    using window_of_mono [of "int (Suc I)" 0 t0] assms(2) by (simp add: window_of_def)
  then have "fw_ok t0 ?l \<and> fw_interval ?l = int (Suc I)"
    "\<forall>u\<ge>t0. fw_usage ?l u = 0" "fw_limit ?l = limit"
    by (simp_all add: fw_ok_def fw_init_def fw_usage_def)
  with fww.window_safety [OF this(1,2) _ assms(3,4)] assms(1) show ?thesis by simp
qed

theorem fixed_window_safety_witness:
  "window_sum (\<lambda>s u. window_of (int (Suc 9)) s = window_of (int (Suc 9)) u)
     [(1, 2), (9, 1), (12, 3)] 13 \<le> 3"
proof -
  have "acquire_run fw_acquire (fw_init (int (Suc 9)) 3) [(1, 2), (9, 1), (9, 1), (12, 3)] [] =
      (\<lparr>fw_interval = 10, fw_limit = 3, fw_start = 10, fw_count = 3\<rparr>,
       [(1, 2), (9, 1), (12, 3)])"
    by (simp add: fw_acquire_def fw_init_def window_of_def Let_def rat_floor)
  from fixed_window_safety [OF _ _ _ this, of 0 13] show ?thesis
    by (simp add: request_times_ok_def)
qed

definition charged ::
    "(nat \<Rightarrow> time) \<Rightarrow> (string \<times> int) list \<Rightarrow> (string, limiter) dict \<Rightarrow> (string, limiter) dict \<Rightarrow> bool" where
  "charged clk grants d0 d \<longleftrightarrow>
     (\<forall>(name, w) \<in> set grants. \<exists>m l0 l. dget d0 name = Some l0 \<and> dget d name = Some l \<and>
        lim_usage l (clk m) = lim_usage l0 (clk m) + w \<and>
        lim_usage l (clk m) \<le> lim_capacity l \<and> lim_capacity l = lim_capacity l0) \<and>
     (\<forall>name. name \<notin> fst ` set grants \<longrightarrow> dget d name = dget d0 name)"

lemma holds_grants_charged:
  assumes ok: "call_ok clk d0" and held: "holds_grants clk n d0 acq d"
    and dist: "distinct (map fst acq)" and pos: "\<forall>p \<in> set acq. 0 \<le> snd p"
  shows "charged clk acq d0 d"
  unfolding charged_def
proof (intro conjI ballI allI impI)
  fix p assume p: "p \<in> set acq"
  obtain name w where nw: "p = (name, w)" by (cases p)
  with p have "name \<in> fst ` set acq" by force
  with held [unfolded holds_grants_def, THEN spec, of name] obtain l0 m v l where
    l: "dget d0 name = Some l0" "(name, v) \<in> set acq" "dget d name = Some l"
    "lim_acquire l0 v (clk m) = (Granted, l)"
    by (auto split: option.splits)
  with p nw dist have "v = w" by (metis map_of_eq_Some_iff option.inject)
  moreover have "0 \<le> v" using pos l(2) by fastforce
  note g = lim.granted [OF call_okD(1,2) [OF ok l(1)] this l(4)]
  ultimately show "case p of (name, w) \<Rightarrow> \<exists>m l0 l. dget d0 name = Some l0 \<and>
      dget d name = Some l \<and> lim_usage l (clk m) = lim_usage l0 (clk m) + w \<and>
      lim_usage l (clk m) \<le> lim_capacity l \<and> lim_capacity l = lim_capacity l0"
    using l nw by auto
next
  fix name assume "name \<notin> fst ` set acq"
  with held show "dget d name = dget d0 name" by (rule holds_grants_get)
qed

text \<open>
  C5. \<open>RateLimiter.acquire\<close> is all or nothing. When it grants, every limiter of a matched
  rule has been charged the rule's weight and is within its limit, and the limiters of the
  other rules are as they were; when it refuses, the rollback leaves the usage every limiter
  counts, and its limit, as they were.
\<close>

theorem rl_acquire_all_or_nothing:
  assumes ok: "call_ok clk (rl_limiters rl)" and dist: "distinct (map rule_name (rl_rules rl))"
    and pos: "\<forall>r \<in> set (rl_rules rl). 0 \<le> get_weight r method path * weight"
    and res: "rl_acquire clk rl method path weight = (res, rl')"
  shows "rl_rules rl' = rl_rules rl \<and>
    (res = Granted \<and>
       charged clk (grants_of method path weight (rl_limiters rl)
         (get_matched_rules (rl_rules rl) method path)) (rl_limiters rl) (rl_limiters rl')
     \<or> res = Refused \<and> undone clk (rl_limiters rl) (rl_limiters rl'))"
proof -
  let ?d = "rl_limiters rl" and ?m = "get_matched_rules (rl_rules rl) method path"
  obtain d' where d': "acquire_rules clk 0 method path weight [] ?m ?d = (res, d')"
    "rl' = rl\<lparr>rl_limiters := d'\<rparr>"
    using res
    by (cases "rl_rules rl = []"; cases "?m = []")
      (auto simp: rl_acquire_def map_prod_eq_conv get_matched_rules_def)
  have m: "distinct (map fst [] @ map rule_name ?m)" "\<forall>r \<in> set ?m. 0 \<le> get_weight r method path * weight"
    using dist pos by (auto simp: get_matched_rules_def distinct_map_filter)
  have gr: "distinct (map fst (grants_of method path weight ?d ?m))"
    "\<forall>p \<in> set (grants_of method path weight ?d ?m). 0 \<le> snd p"
    using m by (auto simp: grants_of_def distinct_map_filter comp_def)
  from acquire_rules_outcome [OF ok holds_grants_start m(1) _ m(2) d'(1)]
    holds_grants_charged [OF ok _ gr] d'(2)
  show ?thesis by auto
qed

definition witness_rules :: "RateLimitRule list" where
  "witness_rules =
     [\<lparr>rule_name = ''order'', rule_type = FIXED_WINDOW, rule_interval = 10, rule_limit = 20,
       rule_scope = ENDPOINT, rule_endpoint = Some ''/o*'', rule_weight_map = Some [(''POST'', 10)],
       rule_weight = 1\<rparr>,
      \<lparr>rule_name = ''all'', rule_type = SLIDING_WINDOW, rule_interval = 60, rule_limit = 5,
       rule_scope = GLOBAL, rule_endpoint = None, rule_weight_map = None, rule_weight = 6\<rparr>]"

lemmas witness_eval = witness_rules_def rl_acquire_def rl_init_def get_matched_rules_def
  rule_match_def get_weight_def fw_acquire_def fw_init_def sw_acquire_def sw_init_def sw_prune_def
  fnmatch_def window_of_def rat_floor Let_def

theorem rl_acquire_all_or_nothing_witness:
  "undone (\<lambda>n. 1 + of_nat n) (rl_limiters (rl_init witness_rules))
     (rl_limiters (snd (rl_acquire (\<lambda>n. 1 + of_nat n) (rl_init witness_rules) ''POST'' ''/o1'' 1)))"
proof -
  let ?clk = "\<lambda>n. 1 + of_nat n :: time" and ?rl = "rl_init witness_rules"
  obtain res rl' where r: "rl_acquire ?clk ?rl ''POST'' ''/o1'' 1 = (res, rl')" by fastforce
  have "fst (rl_acquire ?clk ?rl ''POST'' ''/o1'' 1) = Refused"
    by (simp add: witness_eval)
  with r have "res = Refused" by simp
  moreover have "call_ok ?clk (rl_limiters ?rl)"
    by (auto simp: call_ok_def mono_def witness_eval sw_ok_def fw_ok_def split: if_splits)
  moreover have "distinct (map rule_name (rl_rules ?rl))"
    "\<forall>r \<in> set (rl_rules ?rl). 0 \<le> get_weight r ''POST'' ''/o1'' * 1"
    by (simp_all add: witness_eval)
  ultimately show ?thesis
    using rl_acquire_all_or_nothing [OF _ _ _ r] r by simp
qed

section \<open>Waiting for room\<close>

text \<open>Each iteration takes a positive time, so the \<open>timeout\<close> is reached.\<close>

lemma wait_loop_returns:
  assumes step: "\<And>k. mclk k + \<delta> \<le> mclk (Suc k)" and start: "mclk 0 + of_nat k * \<delta> \<le> mclk k"
    and T: "T \<le> of_nat (k + fuel) * \<delta>" and fuel: "0 < fuel"
  shows "wait_loop pause wall wall_wait mclk method path weight (Some T) fuel k rl sleeps \<noteq> None"
  using start T fuel
proof (induction fuel arbitrary: k rl sleeps)
  case (Suc fuel)
  let ?rl = "snd (rl_acquire (wall k) rl method path weight)"
  let ?w = "get_max_wait_time (wall_wait k) ?rl method path"
  let ?e = "if 0 < ?w then ?w else 1 / 20"
  have next_k: "mclk 0 + of_nat (Suc k) * \<delta> \<le> mclk (Suc k)"
    using Suc.prems(1) step [of k] by (simp add: algebra_simps)
  have last: "T < mclk (Suc k) - mclk 0 + ?e" if "fuel = 0"
  proof -
    have "T \<le> mclk (Suc k) - mclk 0" using next_k Suc.prems(2) that by (simp add: algebra_simps)
    moreover have "0 < ?e" by simp
    ultimately show ?thesis by linarith
  qed
  have rest: "fuel \<noteq> 0 \<Longrightarrow> wait_loop pause wall wall_wait mclk method path weight (Some T) fuel
      (Suc k) ?rl (sleeps @ [pause ?e]) \<noteq> None"
    using Suc.IH [OF next_k] Suc.prems(2) by simp
  show ?case
    using last rest by (cases "fuel = 0") (auto simp: Let_def split: prod.split outcome.split)
qed simp

text \<open>The pauses the loop has taken all satisfy what the pause of a positive wait satisfies.\<close>

lemma wait_loop_sleeps:
  assumes "\<And>e. 0 < e \<Longrightarrow> P (pause e)" and "\<forall>s \<in> set sleeps. P s"
    and "wait_loop pause wall wall_wait mclk method path weight timeout fuel k rl sleeps =
      Some (res, rl', out)"
  shows "\<forall>s \<in> set out. P s"
  using assms(2,3)
proof (induction fuel arbitrary: k rl sleeps)
  case (Suc fuel)
  have least: "P (pause (1 / 20))" by (rule assms(1)) simp
  show ?case
    using Suc.prems
    by (auto simp: Let_def least assms(1) split: prod.splits outcome.splits if_splits elim!: Suc.IH [rotated])
qed simp

text \<open>
  C25. When each turn of the loop takes at least \<open>\<delta> > 0\<close> on the monotonic clock,
  \<open>wait_and_acquire\<close> with a timeout \<open>T\<close> returns within \<open>max 1 (T / \<delta>)\<close> turns, and
  every sleep it makes is positive and at most one second.
\<close>

theorem wait_and_acquire_returns:
  assumes "\<forall>k. mclk k + \<delta> \<le> mclk (Suc k)" and "T \<le> of_nat fuel * \<delta>" and "0 < fuel"
  shows "\<exists>res rl' sleeps.
    wait_and_acquire wall wall_wait mclk method path weight (Some T) fuel rl = Some (res, rl', sleeps)
    \<and> (\<forall>s \<in> set sleeps. 0 < s \<and> s \<le> 1)"
proof -
  have "wait_and_acquire wall wall_wait mclk method path weight (Some T) fuel rl \<noteq> None"
    unfolding wait_and_acquire_def using assms by (intro wait_loop_returns [where \<delta> = \<delta>]) auto
  then obtain res rl' sleeps where
    r: "wait_and_acquire wall wall_wait mclk method path weight (Some T) fuel rl =
      Some (res, rl', sleeps)" by auto
  have "\<forall>s \<in> set sleeps. 0 < s \<and> s \<le> 1"
    by (rule wait_loop_sleeps [OF _ _ r [unfolded wait_and_acquire_def]]) auto
  with r show ?thesis by blast
qed

theorem wait_and_acquire_returns_witness:
  "\<exists>res rl' sleeps. wait_and_acquire (\<lambda>k n. of_nat k) (\<lambda>k n. of_nat k) of_nat
     ''POST'' ''/o1'' 1 (Some 3) 3 (rl_init witness_rules) = Some (res, rl', sleeps)
     \<and> (\<forall>s \<in> set sleeps. 0 < s \<and> s \<le> 1)"
  by (rule wait_and_acquire_returns [where \<delta> = 1]) simp_all

section \<open>Rules that limit nothing\<close>

lemma acquire_rules_no_limiter:
  "\<forall>r \<in> set rs. dget d (rule_name r) = None \<Longrightarrow>
   acquire_rules clk n method path weight acq rs d = (Granted, d)"
  by (induction rs) auto

text \<open>
  A \<open>TOKEN_BUCKET\<close> rule gets no limiter in \<open>RateLimiter.__init__\<close>, so a limiter built
  from such rules alone grants every request at once, whatever the limit of its rules and
  whatever was granted before.
\<close>

theorem token_bucket_never_limits:
  assumes "\<forall>r \<in> set rules. rule_type r = TOKEN_BUCKET"
  shows "rl_acquire clk (rl_init rules) method path weight = (Granted, rl_init rules)"
proof -
  have "build_limiters rules d = d" for d
    using assms by (induction rules arbitrary: d) auto
  then show ?thesis
    by (auto simp: rl_acquire_def rl_init_def Let_def acquire_rules_no_limiter)
qed

theorem token_bucket_never_limits_witness:
  "fst (rl_acquire (\<lambda>n. 0) (rl_init
     [\<lparr>rule_name = ''b'', rule_type = TOKEN_BUCKET, rule_interval = 1, rule_limit = 0,
       rule_scope = GLOBAL, rule_endpoint = None, rule_weight_map = None, rule_weight = 1\<rparr>])
     ''GET'' ''/'' 1000) = Granted"
  by (subst token_bucket_never_limits) simp_all

end
