(* ===== verification/Cache.thy ===== *)
theory Cache
  imports PyPrelude "HOL-Library.List_Lexorder" "HOL-Library.Char_ord" "HOL-Library.Sublist"
begin

text \<open>
  Model of \<open>src/bt_api_base/cache.py\<close>: \<open>SimpleCache\<close> (TTL and least-recently-used
  eviction), its two specialised wrappers and the \<open>cached\<close> decorator. A cached value is
  any value \<open>'v\<close>; a cached Python \<open>None\<close> is a value like the others. The default returned
  on a miss is the \<open>None\<close> of the option, which \<open>cached\<close> tells from a value by its sentinel.
\<close>

section \<open>\<open>SimpleCache\<close>\<close>

record 'v simple_cache =
  sc_cache :: "(string, 'v \<times> time) dict"
  sc_default_ttl :: time
  sc_max_size :: "int option"
  sc_hits :: nat
  sc_misses :: nat

definition sc_new :: "time \<Rightarrow> int option \<Rightarrow> 'v simple_cache" where
  "sc_new default_ttl max_size =
     \<lparr>sc_cache = [], sc_default_ttl = default_ttl, sc_max_size = max_size,
      sc_hits = 0, sc_misses = 0\<rparr>"

definition get_or_default :: "'v simple_cache \<Rightarrow> string \<Rightarrow> time \<Rightarrow> 'v option \<times> 'v simple_cache" where
  "get_or_default c key now =
     (case dget (sc_cache c) key of
        None \<Rightarrow> (None, c\<lparr>sc_misses := sc_misses c + 1\<rparr>)
      | Some (v, expiry) \<Rightarrow>
          if expiry < now
          then (None, c\<lparr>sc_cache := dpop key (sc_cache c), sc_misses := sc_misses c + 1\<rparr>)
          else (Some v, c\<lparr>sc_cache := dset key (v, expiry) (dpop key (sc_cache c)),
                          sc_hits := sc_hits c + 1\<rparr>))"

text \<open>\<open>while len(d) > m: d.popitem(last=False)\<close>\<close>

fun evict :: "int \<Rightarrow> ('k, 'v) dict \<Rightarrow> ('k, 'v) dict" where
  "evict m [] = []"
| "evict m (p # d) = (if m < int (length (p # d)) then evict m d else p # d)"

definition sc_put :: "'v simple_cache \<Rightarrow> string \<Rightarrow> 'v \<Rightarrow> time \<Rightarrow> 'v simple_cache" where
  "sc_put c key v expiry =
     (let d1 = (if key \<in> set (dkeys (sc_cache c)) then dpop key (sc_cache c) else sc_cache c);
          d2 = dset key (v, expiry) d1
      in case sc_max_size c of
           None \<Rightarrow> c\<lparr>sc_cache := d2\<rparr>
         | Some m \<Rightarrow> c\<lparr>sc_cache := if 0 < m then evict m d2 else d2\<rparr>)"

definition sc_set ::
    "'v simple_cache \<Rightarrow> string \<Rightarrow> 'v \<Rightarrow> time option \<Rightarrow> time \<Rightarrow> 'v simple_cache" where
  "sc_set c key v ttl now =
     (let ttl1 = (case ttl of None \<Rightarrow> sc_default_ttl c | Some t \<Rightarrow> t)
      in sc_put c key v (now + ttl1))"

definition sc_delete :: "'v simple_cache \<Rightarrow> string \<Rightarrow> 'v simple_cache" where
  "sc_delete c key = c\<lparr>sc_cache := dpop key (sc_cache c)\<rparr>"

definition sc_clear :: "'v simple_cache \<Rightarrow> 'v simple_cache" where
  "sc_clear c = c\<lparr>sc_cache := []\<rparr>"

fun sweep :: "time \<Rightarrow> (string, 'v \<times> time) dict \<Rightarrow> (string, 'v \<times> time) dict \<Rightarrow> nat
    \<Rightarrow> (string, 'v \<times> time) dict \<times> nat" where
  "sweep now [] active removed = (active, removed)"
| "sweep now ((key, entry) # d) active removed =
     (if snd entry < now then sweep now d active (removed + 1)
      else sweep now d (dset key entry active) removed)"

definition sc_cleanup :: "'v simple_cache \<Rightarrow> time \<Rightarrow> nat \<times> 'v simple_cache" where
  "sc_cleanup c now =
     (case sweep now (sc_cache c) [] 0 of
        (active, removed) \<Rightarrow> (removed, c\<lparr>sc_cache := active\<rparr>))"

definition sc_size :: "'v simple_cache \<Rightarrow> nat" where
  "sc_size c = length (sc_cache c)"

definition sc_keys :: "'v simple_cache \<Rightarrow> string list" where
  "sc_keys c = dkeys (sc_cache c)"

record cache_stats =
  cs_size :: rat
  cs_hits :: rat
  cs_misses :: rat
  cs_hit_rate :: rat

definition sc_get_stats :: "'v simple_cache \<Rightarrow> cache_stats" where
  "sc_get_stats c =
     (let total = sc_hits c + sc_misses c
      in \<lparr>cs_size = of_nat (sc_size c), cs_hits = of_nat (sc_hits c),
          cs_misses = of_nat (sc_misses c),
          cs_hit_rate = if total \<noteq> 0 then of_nat (sc_hits c) / of_nat total else 0\<rparr>)"

section \<open>The specialised caches\<close>

definition trading_pairs_key :: "string \<Rightarrow> string" where
  "trading_pairs_key exchange = exchange @ '':trading_pairs''"

definition exchange_info_key :: "string \<Rightarrow> string \<Rightarrow> string" where
  "exchange_info_key exchange symbol = exchange @ '':'' @ symbol @ '':info''"

definition ticker_key :: "string \<Rightarrow> string \<Rightarrow> string" where
  "ticker_key exchange symbol = exchange @ '':'' @ symbol @ '':ticker''"

definition orderbook_key :: "string \<Rightarrow> string \<Rightarrow> string" where
  "orderbook_key exchange symbol = exchange @ '':'' @ symbol @ '':orderbook''"

definition get_trading_pairs where
  "get_trading_pairs c exchange now = get_or_default c (trading_pairs_key exchange) now"

definition set_trading_pairs where
  "set_trading_pairs c exchange pairs now = sc_set c (trading_pairs_key exchange) pairs None now"

definition get_exchange_info where
  "get_exchange_info c exchange symbol now =
     get_or_default c (exchange_info_key exchange symbol) now"

definition set_exchange_info where
  "set_exchange_info c exchange symbol info now =
     sc_set c (exchange_info_key exchange symbol) info None now"

definition clear_exchange :: "'v simple_cache \<Rightarrow> string \<Rightarrow> 'v simple_cache" where
  "clear_exchange c exchange =
     foldl sc_delete c (filter (\<lambda>key. prefix (exchange @ '':'') key) (sc_keys c))"

definition get_ticker where
  "get_ticker c exchange symbol now = get_or_default c (ticker_key exchange symbol) now"

definition set_ticker where
  "set_ticker c exchange symbol ticker now = sc_set c (ticker_key exchange symbol) ticker None now"

definition get_orderbook where
  "get_orderbook c exchange symbol now = get_or_default c (orderbook_key exchange symbol) now"

definition set_orderbook where
  "set_orderbook c exchange symbol orderbook now =
     sc_set c (orderbook_key exchange symbol) orderbook None now"

section \<open>The \<open>cached\<close> decorator\<close>

fun join :: "string \<Rightarrow> string list \<Rightarrow> string" where
  "join sep [] = []"
| "join sep [s] = s"
| "join sep (s # t # ss) = s @ sep @ join sep (t # ss)"

text \<open>
  \<open>show\<close> is Python's \<open>str\<close> on the values passed; keyword arguments are sorted by name, the
  names being distinct. The wrapped function returns a value or raises.
\<close>

definition cache_key ::
    "('a \<Rightarrow> string) \<Rightarrow> string \<Rightarrow> 'a list \<Rightarrow> (string \<times> 'a) list \<Rightarrow> string" where
  "cache_key show name args kwargs =
     join '':'' (name # map show args @
       map (\<lambda>(k, v). k @ ''='' @ show v) (sort_key fst kwargs))"

definition cached_call ::
    "('a \<Rightarrow> string) \<Rightarrow> string \<Rightarrow> ('a list \<Rightarrow> (string \<times> 'a) list \<Rightarrow> 'e + 'v) \<Rightarrow> time
     \<Rightarrow> 'v simple_cache \<Rightarrow> 'a list \<Rightarrow> (string \<times> 'a) list \<Rightarrow> time \<Rightarrow> time
     \<Rightarrow> ('e + 'v) \<times> 'v simple_cache" where
  "cached_call show name func ttl c args kwargs now_get now_set =
     (let key = cache_key show name args kwargs
      in case get_or_default c key now_get of
           (Some v, c1) \<Rightarrow> (Inr v, c1)
         | (None, c1) \<Rightarrow>
             (case func args kwargs of
                Inl e \<Rightarrow> (Inl e, c1)
              | Inr v \<Rightarrow> (Inr v, sc_set c1 key v (Some ttl) now_set)))"

end
