(* ===== verification/KvContract.thy ===== *)
theory KvContract
  imports PyPrelude
begin

text \<open>
  The contract of an expiring cache and what its clients may rely on. \<open>kv_cache\<close>: a cache
  may forget an entry, but what it returns was the last value stored under the key and has
  not expired. \<open>kv_store\<close>: a cache without eviction returns every fresh entry. \<open>SimpleCache\<close>
  of \<open>cache.py\<close> and \<open>CacheService\<close> of \<open>core/services.py\<close> interpret them.
\<close>

section \<open>Operations and the map they stand for\<close>

datatype ('k, 'v, 'e) kv_op = KGet 'k time | KPut 'k 'v 'e | KDel 'k | KClear | KSweep time

text \<open>The map a client has in mind: the last value and expiry stored under each key.\<close>

fun kv_spec :: "('k \<rightharpoonup> 'v \<times> 'e) \<Rightarrow> ('k, 'v, 'e) kv_op \<Rightarrow> ('k \<rightharpoonup> 'v \<times> 'e)" where
  "kv_spec m (KGet k now) = m"
| "kv_spec m (KPut k v e) = m(k \<mapsto> (v, e))"
| "kv_spec m (KDel k) = m(k := None)"
| "kv_spec m KClear = Map.empty"
| "kv_spec m (KSweep now) = m"

text \<open>One operation of a cache that is given by its five operations.\<close>

fun kv_step ::
    "('c \<Rightarrow> 'k \<Rightarrow> time \<Rightarrow> 'v option \<times> 'c) \<Rightarrow> ('c \<Rightarrow> 'k \<Rightarrow> 'v \<Rightarrow> 'e \<Rightarrow> 'c) \<Rightarrow> ('c \<Rightarrow> 'k \<Rightarrow> 'c)
     \<Rightarrow> ('c \<Rightarrow> 'c) \<Rightarrow> ('c \<Rightarrow> time \<Rightarrow> 'c) \<Rightarrow> 'c \<Rightarrow> ('k, 'v, 'e) kv_op \<Rightarrow> 'c" where
  "kv_step get put del clear sweep c (KGet k now) = snd (get c k now)"
| "kv_step get put del clear sweep c (KPut k v e) = put c k v e"
| "kv_step get put del clear sweep c (KDel k) = del c k"
| "kv_step get put del clear sweep c KClear = clear c"
| "kv_step get put del clear sweep c (KSweep now) = sweep c now"

fun op_upto :: "time \<Rightarrow> ('k, 'v, 'e) kv_op \<Rightarrow> bool" where
  "op_upto t (KGet k now) = (now \<le> t)"
| "op_upto t (KSweep now) = (now \<le> t)"
| "op_upto t _ = True"

section \<open>A cache that may forget\<close>

locale kv_cache =
  fixes get :: "'c \<Rightarrow> 'k \<Rightarrow> time \<Rightarrow> 'v option \<times> 'c"
    and put :: "'c \<Rightarrow> 'k \<Rightarrow> 'v \<Rightarrow> 'e \<Rightarrow> 'c"
    and del :: "'c \<Rightarrow> 'k \<Rightarrow> 'c"
    and clear :: "'c \<Rightarrow> 'c"
    and sweep :: "'c \<Rightarrow> time \<Rightarrow> 'c"
    and entry :: "'c \<Rightarrow> 'k \<Rightarrow> ('v \<times> 'e) option"
    and fresh :: "time \<Rightarrow> 'e \<Rightarrow> bool"
    and inv :: "'c \<Rightarrow> bool"
  assumes get_value:
      "inv c \<Longrightarrow> fst (get c k now) =
         (case entry c k of None \<Rightarrow> None | Some (v, e) \<Rightarrow> if fresh now e then Some v else None)"
    and get_entry:
      "inv c \<Longrightarrow> entry (snd (get c k now)) k' =
         (case entry c k' of None \<Rightarrow> None
          | Some (v, e) \<Rightarrow> if k' = k \<and> \<not> fresh now e then None else Some (v, e))"
    and put_same: "inv c \<Longrightarrow> entry (put c k v e) k = Some (v, e)"
    and put_other: "inv c \<Longrightarrow> k' \<noteq> k \<Longrightarrow> entry (put c k v e) k' \<in> {entry c k', None}"
    and del_entry: "inv c \<Longrightarrow> entry (del c k) k' = (if k' = k then None else entry c k')"
    and clear_entry: "inv c \<Longrightarrow> entry (clear c) k' = None"
    and sweep_entry:
      "inv c \<Longrightarrow> entry (sweep c now) k = entry c k \<or>
         entry (sweep c now) k = None \<and> (\<exists>v e. entry c k = Some (v, e) \<and> \<not> fresh now e)"
    and inv_steps:
      "inv c \<Longrightarrow> inv (snd (get c k now))" "inv c \<Longrightarrow> inv (put c k v e)"
      "inv c \<Longrightarrow> inv (del c k)" "inv c \<Longrightarrow> inv (clear c)"
      "inv c \<Longrightarrow> inv (sweep c now)"
begin

abbreviation step :: "'c \<Rightarrow> ('k, 'v, 'e) kv_op \<Rightarrow> 'c" where
  "step \<equiv> kv_step get put del clear sweep"

lemma inv_run: "inv c \<Longrightarrow> inv (foldl step c xs)"
proof (induction xs arbitrary: c)
  case (Cons x xs)
  then show ?case by (cases x) (auto simp: inv_steps)
qed simp

lemma step_entry_le:
  assumes "inv c" "entry c \<subseteq>\<^sub>m m"
  shows "entry (step c x) \<subseteq>\<^sub>m kv_spec m x"
proof (cases x)
  case (KGet k now)
  then show ?thesis
    using assms by (auto simp: map_le_def get_entry dom_def split: option.splits if_splits)
next
  case (KPut k v e)
  show ?thesis
    unfolding map_le_def
  proof
    fix k' assume "k' \<in> dom (entry (step c x))"
    with KPut assms put_other [OF assms(1), of k' k v e] put_same [OF assms(1), of k v e]
    show "entry (step c x) k' = kv_spec m x k'"
      by (cases "k' = k") (auto simp: map_le_def dom_def)
  qed
next
  case (KSweep now)
  show ?thesis
    unfolding map_le_def
  proof
    fix k assume "k \<in> dom (entry (step c x))"
    with KSweep assms sweep_entry [OF assms(1), of now k]
    show "entry (step c x) k = kv_spec m x k" by (auto simp: map_le_def dom_def)
  qed
qed (use assms in \<open>auto simp: map_le_def del_entry clear_entry dom_def split: if_splits\<close>)

lemma run_entry_le: "inv c \<Longrightarrow> entry c \<subseteq>\<^sub>m m \<Longrightarrow> entry (foldl step c xs) \<subseteq>\<^sub>m foldl kv_spec m xs"
proof (induction xs arbitrary: c m)
  case (Cons x xs)
  have "inv (step c x)" using inv_run [OF Cons.prems(1), of "[x]"] by simp
  with Cons step_entry_le [OF Cons.prems] show ?case by simp
qed simp

text \<open>What a lookup returns was stored last under its key and is fresh.\<close>

lemma lookup_sound:
  assumes "inv c" "entry c \<subseteq>\<^sub>m m" "fst (get (foldl step c xs) k now) = Some v"
  shows "\<exists>e. foldl kv_spec m xs k = Some (v, e) \<and> fresh now e"
proof -
  let ?c = "foldl step c xs"
  obtain e where e: "entry ?c k = Some (v, e)" "fresh now e"
    using assms(3) get_value [OF inv_run [OF assms(1), of xs], of k now]
    by (auto split: option.splits if_splits)
  with run_entry_le [OF assms(1,2), of xs] show ?thesis by (force simp: map_le_def dom_def)
qed

end

section \<open>A cache without eviction\<close>

locale kv_store = kv_cache get put del clear sweep entry fresh inv
  for get :: "'c \<Rightarrow> 'k \<Rightarrow> time \<Rightarrow> 'v option \<times> 'c"
    and put :: "'c \<Rightarrow> 'k \<Rightarrow> 'v \<Rightarrow> 'e \<Rightarrow> 'c"
    and del :: "'c \<Rightarrow> 'k \<Rightarrow> 'c"
    and clear :: "'c \<Rightarrow> 'c"
    and sweep :: "'c \<Rightarrow> time \<Rightarrow> 'c"
    and entry :: "'c \<Rightarrow> 'k \<Rightarrow> ('v \<times> 'e) option"
    and fresh :: "time \<Rightarrow> 'e \<Rightarrow> bool"
    and inv :: "'c \<Rightarrow> bool" +
  assumes put_keeps: "inv c \<Longrightarrow> k' \<noteq> k \<Longrightarrow> entry (put c k v e) k' = entry c k'"
    and fresh_before: "fresh t e \<Longrightarrow> s \<le> t \<Longrightarrow> fresh s e"
begin

lemma step_entry_ge:
  assumes "inv c" "op_upto t x" "\<And>k v e. m k = Some (v, e) \<Longrightarrow> fresh t e \<Longrightarrow> entry c k = Some (v, e)"
    and "kv_spec m x k = Some (v, e)" "fresh t e"
  shows "entry (step c x) k = Some (v, e)"
proof (cases x)
  case (KSweep now)
  with assms have "entry c k = Some (v, e)" "fresh now e" by (auto intro: fresh_before)
  with KSweep sweep_entry [OF assms(1), of now k] show ?thesis by auto
qed (use assms in \<open>auto simp: get_entry put_same put_keeps del_entry clear_entry
      intro: fresh_before split: if_splits\<close>)

lemma run_entry_ge:
  assumes "inv c" "\<forall>x \<in> set xs. op_upto t x"
    and "\<And>k v e. m k = Some (v, e) \<Longrightarrow> fresh t e \<Longrightarrow> entry c k = Some (v, e)"
    and "foldl kv_spec m xs k = Some (v, e)" "fresh t e"
  shows "entry (foldl step c xs) k = Some (v, e)"
  using assms
proof (induction xs arbitrary: c m)
  case (Cons x xs)
  have "inv (step c x)" using inv_run [OF Cons.prems(1), of "[x]"] by simp
  then show ?case
    using Cons.prems(2,4,5) Cons.IH [of "step c x" "kv_spec m x"]
      step_entry_ge [OF Cons.prems(1), of t x m] Cons.prems(3) by auto
qed simp

text \<open>A fresh entry of the map is returned: lookups and the map agree.\<close>

lemma lookup_complete:
  assumes "inv c" "\<And>k. entry c k = None" "\<forall>x \<in> set xs. op_upto t x"
  shows "fst (get (foldl step c xs) k t) = Some v \<longleftrightarrow>
    (\<exists>e. foldl kv_spec Map.empty xs k = Some (v, e) \<and> fresh t e)"
proof
  assume "fst (get (foldl step c xs) k t) = Some v"
  from lookup_sound [OF assms(1) _ this, of Map.empty] assms(2)
  show "\<exists>e. foldl kv_spec Map.empty xs k = Some (v, e) \<and> fresh t e"
    by (simp add: map_le_def dom_def)
next
  assume "\<exists>e. foldl kv_spec Map.empty xs k = Some (v, e) \<and> fresh t e"
  then obtain e where e: "foldl kv_spec Map.empty xs k = Some (v, e)" "fresh t e" by blast
  from run_entry_ge [OF assms(1,3) _ e] have "entry (foldl step c xs) k = Some (v, e)" by simp
  with e(2) get_value [OF inv_run [OF assms(1), of xs], of k t]
  show "fst (get (foldl step c xs) k t) = Some v" by simp
qed

end

end
