(* ===== verification/CacheCorrect.thy ===== *)
theory CacheCorrect
  imports Cache KvContract
begin

text \<open>
  Correctness of \<open>cache.py\<close>: \<open>SimpleCache\<close> meets the contract of an expiring cache and
  stays within its size, it evicts the least recently used entry, \<open>clear_exchange\<close> removes
  the entries of one exchange, and \<open>cached\<close> computes the wrapped function as long as the
  cache keys tell its arguments apart.
\<close>

section \<open>The invariant\<close>

definition sc_ok :: "'v simple_cache \<Rightarrow> bool" where
  "sc_ok c \<longleftrightarrow> dict_ok (sc_cache c) \<and>
     (\<forall>m. sc_max_size c = Some m \<longrightarrow> 0 < m \<longrightarrow> int (sc_size c) \<le> m)"

lemma evict_drop: "evict m d = drop (nat (int (length d) - m)) d" if "0 \<le> m"
proof (induction d)
  case (Cons p d)
  show ?case
  proof (cases "m < int (length (p # d))")
    case True
    then have "nat (int (length (p # d)) - m) = Suc (nat (int (length d) - m))" by simp
    with True Cons.IH show ?thesis by simp
  next
    case False
    then show ?thesis by simp
  qed
qed (use that in simp)

lemma evict_length: "0 \<le> m \<Longrightarrow> int (length (evict m d)) = min m (int (length d))"
  by (simp add: evict_drop)

lemma evict_ok: "dict_ok d \<Longrightarrow> 0 \<le> m \<Longrightarrow> dict_ok (evict m d)"
  by (simp add: evict_drop dict_ok_drop)

lemma dget_drop:
  assumes "dict_ok d" shows "dget (drop n d) k \<in> {dget d k, None}"
proof (cases "dget (drop n d) k")
  case (Some v)
  then have "(k, v) \<in> set d" by (meson dget_mem in_set_dropD)
  with Some assms show ?thesis by (simp add: mem_dget)
qed simp

lemma dget_evict: "dict_ok d \<Longrightarrow> 0 \<le> m \<Longrightarrow> dget (evict m d) k \<in> {dget d k, None}"
  unfolding evict_drop by (rule dget_drop)

lemma dget_last: "dict_ok (d @ [(k, x)]) \<Longrightarrow> dget (d @ [(k, x)]) k = Some x"
  by (simp add: mem_dget [symmetric])

lemma dget_evict_last:
  assumes "dict_ok (d @ [(k, x)])" "0 < m"
  shows "dget (evict m (d @ [(k, x)])) k = Some x"
proof -
  have "evict m (d @ [(k, x)]) = drop (nat (int (length d) + 1 - m)) d @ [(k, x)]"
    using assms(2) by (simp add: evict_drop add.commute)
  moreover have "dict_ok (evict m (d @ [(k, x)]))" using assms by (simp add: evict_ok)
  ultimately show ?thesis by (metis dget_last)
qed

lemma sc_put_cache:
  assumes "dict_ok (sc_cache c)"
  shows "sc_cache (sc_put c k v e) =
    (case sc_max_size c of
       None \<Rightarrow> dpop k (sc_cache c) @ [(k, (v, e))]
     | Some m \<Rightarrow> (if 0 < m then evict m (dpop k (sc_cache c) @ [(k, (v, e))])
                  else dpop k (sc_cache c) @ [(k, (v, e))]))"
  by (simp add: sc_put_def Let_def dset_dpop_end dset_fresh dpop_fresh split: option.split)

lemma sc_put_simps [simp]:
  "sc_max_size (sc_put c k v e) = sc_max_size c" "sc_default_ttl (sc_put c k v e) = sc_default_ttl c"
  "sc_hits (sc_put c k v e) = sc_hits c" "sc_misses (sc_put c k v e) = sc_misses c"
  by (simp_all add: sc_put_def Let_def split: option.split)

lemma dict_ok_dpop_end: "dict_ok d \<Longrightarrow> dict_ok (dpop k d @ [(k, x)])"
  using dset_dpop_end [of k x d] dict_ok_dset [OF dict_ok_dpop, of d k x k] by simp

lemma sc_ok_shrink:
  assumes "sc_ok c" "dict_ok d" "length d \<le> length (sc_cache c)"
  shows "sc_ok (c\<lparr>sc_cache := d\<rparr>)"
  unfolding sc_ok_def
proof (intro conjI allI impI)
  fix m assume "sc_max_size (c\<lparr>sc_cache := d\<rparr>) = Some m" "0 < m"
  with assms(1) have "int (length (sc_cache c)) \<le> m" by (simp add: sc_ok_def sc_size_def)
  with assms(3) show "int (sc_size (c\<lparr>sc_cache := d\<rparr>)) \<le> m" by (simp add: sc_size_def)
qed (use assms(2) in simp)

lemma sc_put_ok:
  assumes "sc_ok c" shows "sc_ok (sc_put c k v e)"
proof -
  have "dict_ok (sc_cache c)" using assms by (simp add: sc_ok_def)
  then show ?thesis
    by (auto simp: sc_ok_def sc_size_def sc_put_cache dict_ok_dpop_end evict_ok evict_length
        split: option.split)
qed

lemma get_or_default_simps [simp]:
  "sc_max_size (snd (get_or_default c k now)) = sc_max_size c"
  "sc_default_ttl (snd (get_or_default c k now)) = sc_default_ttl c"
  by (simp_all add: get_or_default_def split: option.split prod.split)

lemma get_or_default_ok:
  assumes "sc_ok c" shows "sc_ok (snd (get_or_default c k now))"
proof (cases "dget (sc_cache c) k")
  case (Some p)
  obtain v e where p: "p = (v, e)" by (cases p)
  have "k \<in> set (dkeys (sc_cache c))" using Some by (rule dget_Some_key)
  then have "sc_cache c \<noteq> []" by auto
  with \<open>k \<in> _\<close> assms have "length (dset k (v, e) (dpop k (sc_cache c))) = sc_size c"
    by (simp add: dset_dpop_end length_dpop sc_ok_def sc_size_def)
  moreover have "length (dpop k (sc_cache c)) \<le> sc_size c"
    by (simp add: sc_size_def length_dpop_le)
  moreover have "dict_ok (dset k (v, e) (dpop k (sc_cache c)))" "dict_ok (dpop k (sc_cache c))"
    using assms by (auto simp: sc_ok_def)
  ultimately show ?thesis
    using assms Some p by (force simp: sc_ok_def sc_size_def get_or_default_def)
qed (use assms in \<open>simp add: get_or_default_def sc_ok_def sc_size_def\<close>)

lemma sc_new_ok [simp]: "sc_ok (sc_new ttl m)"
  by (simp add: sc_ok_def sc_new_def sc_size_def)

lemma sc_delete_ok: "sc_ok c \<Longrightarrow> sc_ok (sc_delete c k)"
  unfolding sc_delete_def by (rule sc_ok_shrink) (auto simp: sc_ok_def length_dpop_le)

lemma sc_clear_ok: "sc_ok c \<Longrightarrow> sc_ok (sc_clear c)"
  by (auto simp: sc_ok_def sc_size_def sc_clear_def)

lemma sweep_filter:
  "dict_ok (active @ d) \<Longrightarrow>
   sweep now d active n =
     (active @ filter (\<lambda>p. \<not> snd (snd p) < now) d,
      n + length (filter (\<lambda>p. snd (snd p) < now) d))"
proof (induction d arbitrary: active n)
  case (Cons p d)
  obtain k x where p: "p = (k, x)" by (cases p)
  have "k \<notin> set (dkeys active)" using Cons.prems p by (auto simp: dict_ok_dkeys)
  then have "dset k x active = active @ [(k, x)]" by (rule dset_fresh)
  moreover have "dict_ok (active @ d)" using Cons.prems by (auto simp: dict_ok_dkeys)
  ultimately show ?case using Cons p by simp
qed simp

lemma sc_cleanup_eq:
  "sc_ok c \<Longrightarrow> sc_cleanup c now =
     (length (filter (\<lambda>p. snd (snd p) < now) (sc_cache c)),
      c\<lparr>sc_cache := filter (\<lambda>p. \<not> snd (snd p) < now) (sc_cache c)\<rparr>)"
  by (simp add: sc_cleanup_def sweep_filter sc_ok_def)

lemma sc_cleanup_ok: "sc_ok c \<Longrightarrow> sc_ok (snd (sc_cleanup c now))"
  by (simp add: sc_cleanup_eq sc_ok_shrink dict_ok_filter sc_ok_def [THEN iffD1, THEN conjunct1])

section \<open>\<open>SimpleCache\<close> meets the contract\<close>

abbreviation sc_entry :: "'v simple_cache \<Rightarrow> string \<Rightarrow> ('v \<times> time) option" where
  "sc_entry c \<equiv> dget (sc_cache c)"

lemma sc_get_value:
  "fst (get_or_default c k now) =
     (case sc_entry c k of None \<Rightarrow> None | Some (v, e) \<Rightarrow> if now \<le> e then Some v else None)"
  by (auto simp: get_or_default_def split: option.split)

lemma sc_get_entry:
  "sc_entry (snd (get_or_default c k now)) k' =
     (case sc_entry c k' of None \<Rightarrow> None
      | Some (v, e) \<Rightarrow> if k' = k \<and> \<not> now \<le> e then None else Some (v, e))"
  by (auto simp: get_or_default_def split: option.split)

lemma sc_put_entry:
  assumes "sc_ok c"
  shows "sc_entry (sc_put c k v e) k = Some (v, e)"
    "k' \<noteq> k \<Longrightarrow> sc_entry (sc_put c k v e) k' \<in> {sc_entry c k', None}"
    "k' \<noteq> k \<Longrightarrow> sc_max_size c = None \<Longrightarrow> sc_entry (sc_put c k v e) k' = sc_entry c k'"
proof -
  have ok: "dict_ok (sc_cache c)" using assms by (simp add: sc_ok_def)
  note ok1 = dict_ok_dpop_end [OF ok, of k "(v, e)"]
  show "sc_entry (sc_put c k v e) k = Some (v, e)"
    unfolding sc_put_cache [OF ok]
    using dget_last [OF ok1] dget_evict_last [OF ok1] by (auto split: option.split)
  have other: "dget (dpop k (sc_cache c) @ [(k, (v, e))]) k' = sc_entry c k'" if "k' \<noteq> k"
    using that by (simp add: dset_dpop_end [symmetric])
  show "sc_entry (sc_put c k v e) k' \<in> {sc_entry c k', None}" if "k' \<noteq> k"
    unfolding sc_put_cache [OF ok]
    using dget_evict [OF ok1, of _ k'] other [OF that] by (auto split: option.split)
  show "k' \<noteq> k \<Longrightarrow> sc_max_size c = None \<Longrightarrow> sc_entry (sc_put c k v e) k' = sc_entry c k'"
    unfolding sc_put_cache [OF ok] using other by simp
qed

abbreviation sc_sweep :: "'v simple_cache \<Rightarrow> time \<Rightarrow> 'v simple_cache" where
  "sc_sweep c now \<equiv> snd (sc_cleanup c now)"

lemma sc_sweep_entry:
  assumes "sc_ok c"
  shows "sc_entry (sc_sweep c now) k = sc_entry c k \<or>
    sc_entry (sc_sweep c now) k = None \<and> (\<exists>v e. sc_entry c k = Some (v, e) \<and> \<not> now \<le> e)"
  using assms by (auto simp: sc_cleanup_eq sc_ok_def filter_dget split: option.split)

lemma sc_sweep_size [simp]: "sc_max_size (sc_sweep c now) = sc_max_size c"
  by (simp add: sc_cleanup_def split: prod.split)

lemma sc_del_clear_simps [simp]:
  "sc_entry (sc_delete c k) k' = (if k' = k then None else sc_entry c k')"
  "sc_entry (sc_clear c) k' = None" "sc_max_size (sc_delete c k) = sc_max_size c"
  "sc_max_size (sc_clear c) = sc_max_size c"
  by (simp_all add: sc_delete_def sc_clear_def)

lemmas sc_laws = sc_get_value sc_get_entry sc_put_entry sc_put_ok get_or_default_ok sc_delete_ok
  sc_clear_ok sc_cleanup_ok sc_sweep_entry

interpretation sc: kv_cache get_or_default sc_put sc_delete sc_clear sc_sweep sc_entry "(\<le>)" sc_ok
  by unfold_locales (simp_all add: sc_laws del: insert_iff)

interpretation scu: kv_store get_or_default sc_put sc_delete sc_clear sc_sweep sc_entry "(\<le>)"
  "\<lambda>c. sc_ok c \<and> sc_max_size c = None"
  by unfold_locales (simp_all add: sc_laws)

section \<open>Sequences of calls\<close>

datatype 'v cache_call =
    Get string time | Set string 'v "time option" time | Delete string | Clear | Cleanup time

fun cache_step :: "'v simple_cache \<Rightarrow> 'v cache_call \<Rightarrow> 'v simple_cache" where
  "cache_step c (Get k now) = snd (get_or_default c k now)"
| "cache_step c (Set k v ttl now) = sc_set c k v ttl now"
| "cache_step c (Delete k) = sc_delete c k"
| "cache_step c Clear = sc_clear c"
| "cache_step c (Cleanup now) = snd (sc_cleanup c now)"

fun call_op :: "time \<Rightarrow> 'v cache_call \<Rightarrow> (string, 'v, time) kv_op" where
  "call_op default_ttl (Get k now) = KGet k now"
| "call_op default_ttl (Set k v ttl now) =
     KPut k v (now + (case ttl of None \<Rightarrow> default_ttl | Some t \<Rightarrow> t))"
| "call_op default_ttl (Delete k) = KDel k"
| "call_op default_ttl Clear = KClear"
| "call_op default_ttl (Cleanup now) = KSweep now"

lemma cache_step_op: "cache_step c x = sc.step c (call_op (sc_default_ttl c) x)"
  by (cases x) (simp_all add: sc_set_def)

lemma cache_step_config:
  "sc_default_ttl (cache_step c x) = sc_default_ttl c" "sc_max_size (cache_step c x) = sc_max_size c"
  by (cases x; simp add: sc_set_def sc_delete_def sc_clear_def sc_cleanup_def split: prod.split)+

lemma cache_run_config:
  "sc_default_ttl (foldl cache_step c xs) = sc_default_ttl c"
  "sc_max_size (foldl cache_step c xs) = sc_max_size c"
  by (induction xs arbitrary: c) (simp_all add: cache_step_config)

lemma cache_run_ops:
  "foldl cache_step c xs = foldl sc.step c (map (call_op (sc_default_ttl c)) xs)"
proof (induction xs arbitrary: c)
  case (Cons x xs)
  then show ?case by (simp add: cache_step_op [of c x, symmetric] cache_step_config)
qed simp

text \<open>What the calls have stored: for each key the last value and its expiry.\<close>

definition stored :: "time \<Rightarrow> 'v cache_call list \<Rightarrow> (string \<rightharpoonup> 'v \<times> time)" where
  "stored default_ttl xs = foldl kv_spec Map.empty (map (call_op default_ttl) xs)"

lemma sc_new_simps [simp]:
  "sc_cache (sc_new ttl m) = []" "sc_default_ttl (sc_new ttl m) = ttl"
  "sc_max_size (sc_new ttl m) = m" "sc_hits (sc_new ttl m) = 0" "sc_misses (sc_new ttl m) = 0"
  by (simp_all add: sc_new_def)

text \<open>
  C20. Whatever \<open>get\<close> returns is the last value stored under the key, not deleted since and
  not expired, after any sequence of calls on a cache of any size.
\<close>

theorem cache_lookup_sound:
  assumes "fst (get_or_default (foldl cache_step (sc_new ttl m) xs) k now) = Some v"
  shows "\<exists>expiry. stored ttl xs k = Some (v, expiry) \<and> now \<le> expiry"
proof -
  have "sc_entry (sc_new ttl m) \<subseteq>\<^sub>m Map.empty" by (simp add: map_le_def dom_def)
  from sc.lookup_sound [OF sc_new_ok this] assms show ?thesis
    by (simp add: cache_run_ops stored_def)
qed

theorem cache_lookup_sound_witness:
  "\<exists>expiry. stored 300 [Set ''k'' (1::int) None 0, Set ''k'' 2 (Some 10) 1] ''k'' = Some (2, expiry)
     \<and> 11 \<le> expiry"
  by (rule cache_lookup_sound [where m = "Some 1"])
    (simp add: sc_new_def sc_set_def sc_put_def get_or_default_def Let_def)

text \<open>
  A cache without a size limit and a clock that does not run backwards: \<open>get\<close> returns
  exactly the stored value as long as it has not expired.
\<close>

theorem cache_lookup_complete:
  assumes "\<forall>x \<in> set xs. op_upto now (call_op ttl x)"
  shows "fst (get_or_default (foldl cache_step (sc_new ttl None) xs) k now) = Some v \<longleftrightarrow>
    (\<exists>expiry. stored ttl xs k = Some (v, expiry) \<and> now \<le> expiry)"
proof -
  have "\<forall>x \<in> set (map (call_op ttl) xs). op_upto now x" using assms by simp
  from scu.lookup_complete [OF _ _ this, of "sc_new ttl None"] show ?thesis
    by (simp add: cache_run_ops stored_def)
qed

theorem cache_lookup_complete_witness:
  "fst (get_or_default (foldl cache_step (sc_new 300 None)
     [Set ''k'' (1::int) None 0, Get ''k'' 5, Cleanup 6]) ''k'' 300) = Some 1"
  by (subst cache_lookup_complete) (simp_all add: stored_def)

section \<open>Size, counters and eviction order\<close>

text \<open>
  The ghost state numbers the calls and remembers, for each key, the last call that used it:
  a \<open>set\<close>, or a \<open>get\<close> that found a value.
\<close>

definition used :: "'v simple_cache \<Rightarrow> 'v cache_call \<Rightarrow> string option" where
  "used c x = (case x of
     Get k now \<Rightarrow> if fst (get_or_default c k now) = None then None else Some k
   | Set k v ttl now \<Rightarrow> Some k
   | _ \<Rightarrow> None)"

fun is_get :: "'v cache_call \<Rightarrow> bool" where
  "is_get (Get k now) = True"
| "is_get _ = False"

type_synonym 'v traced = "'v simple_cache \<times> nat \<times> nat \<times> (string \<Rightarrow> nat)"

fun traced_step :: "'v traced \<Rightarrow> 'v cache_call \<Rightarrow> 'v traced" where
  "traced_step (c, n, gets, last_use) x =
     (cache_step c x, Suc n, gets + (if is_get x then 1 else 0),
      case used c x of None \<Rightarrow> last_use | Some k \<Rightarrow> last_use(k := n))"

fun traced_ok :: "int option \<Rightarrow> 'v traced \<Rightarrow> bool" where
  "traced_ok m (c, n, gets, last_use) \<longleftrightarrow>
     sc_ok c \<and> sc_max_size c = m \<and> sc_hits c + sc_misses c = gets \<and>
     (\<forall>k \<in> set (sc_keys c). last_use k < n) \<and>
     sorted_wrt (\<lambda>k k'. last_use k < last_use k') (sc_keys c)"

definition by_use :: "(string \<Rightarrow> nat) \<Rightarrow> nat \<Rightarrow> string list \<Rightarrow> bool" where
  "by_use u n ks \<longleftrightarrow> (\<forall>k \<in> set ks. u k < n) \<and> sorted_wrt (\<lambda>k k'. u k < u k') ks"

lemma by_use_mono: "by_use u n ks \<Longrightarrow> by_use u (Suc n) ks"
  by (auto simp: by_use_def)

lemma by_use_filter: "by_use u n ks \<Longrightarrow> by_use u n (filter P ks)"
  by (auto simp: by_use_def sorted_wrt_filter)

lemma by_use_touch:
  assumes "by_use u n ks" "k \<notin> set ks" shows "by_use (u(k := n)) (Suc n) (ks @ [k])"
proof -
  have "sorted_wrt (\<lambda>a b. (u(k := n)) a < (u(k := n)) b) ks"
    by (rule sorted_wrt_mono_rel [where P = "\<lambda>a b. u a < u b"])
      (use assms in \<open>auto simp: by_use_def\<close>)
  with assms show ?thesis by (auto simp: by_use_def sorted_wrt_append less_SucI)
qed

lemma by_use_drop: "by_use u n ks \<Longrightarrow> by_use u n (drop i ks)"
  by (auto simp: by_use_def sorted_wrt_drop dest: in_set_dropD)

lemma dkeys_drop: "dkeys (drop i d) = drop i (dkeys d)"
  by (simp add: dkeys_def drop_map)

lemma by_use_put:
  assumes "sc_ok c" "by_use u n (sc_keys c)"
  shows "by_use (u(k := n)) (Suc n) (sc_keys (sc_put c k v e))"
proof -
  have ok: "dict_ok (sc_cache c)" using assms(1) by (simp add: sc_ok_def)
  have "by_use (u(k := n)) (Suc n) (dkeys (dpop k (sc_cache c)) @ [k])"
    using assms(2) by (intro by_use_touch) (auto simp: sc_keys_def dkeys_dpop by_use_filter)
  then show ?thesis
    unfolding sc_keys_def sc_put_cache [OF ok]
    by (auto simp: evict_drop dkeys_drop simp del: drop_append split: option.split
        intro: by_use_drop)
qed

lemma by_use_get:
  assumes "sc_ok c" "by_use u n (sc_keys c)"
  shows "by_use (if fst (get_or_default c k now) = None then u else u(k := n)) (Suc n)
    (sc_keys (snd (get_or_default c k now)))"
proof -
  have "by_use (u(k := n)) (Suc n) (dkeys (dpop k (sc_cache c)) @ [k])"
    using assms(2) by (intro by_use_touch) (auto simp: sc_keys_def dkeys_dpop by_use_filter)
  then show ?thesis
    using assms(2)
    by (auto simp: get_or_default_def sc_keys_def dset_dpop_end dkeys_dpop split: option.split
        intro: by_use_mono by_use_filter)
qed

lemma by_use_filter_dict: "by_use u n (dkeys d) \<Longrightarrow> by_use u n (dkeys (filter P d))"
  by (auto simp: by_use_def dkeys_def sorted_wrt_map sorted_wrt_filter)

lemma get_counts:
  "sc_hits (snd (get_or_default c k now)) + sc_misses (snd (get_or_default c k now)) =
   Suc (sc_hits c + sc_misses c)"
  by (auto simp: get_or_default_def split: option.split)

lemma sc_counts [simp]:
  "sc_hits (sc_delete c k) = sc_hits c" "sc_misses (sc_delete c k) = sc_misses c"
  "sc_hits (sc_clear c) = sc_hits c" "sc_misses (sc_clear c) = sc_misses c"
  "sc_hits (sc_sweep c now) = sc_hits c" "sc_misses (sc_sweep c now) = sc_misses c"
  by (simp_all add: sc_delete_def sc_clear_def sc_cleanup_def split: prod.split)

lemma traced_step_ok:
  assumes "traced_ok m s" shows "traced_ok m (traced_step s x)"
proof -
  obtain c n gets u where s: "s = (c, n, gets, u)" by (cases s)
  have ok: "sc_ok c" "sc_max_size c = m" "sc_hits c + sc_misses c = gets"
    and u: "by_use u n (sc_keys c)"
    using assms by (auto simp: s by_use_def)
  have "by_use (case used c x of None \<Rightarrow> u | Some k \<Rightarrow> u(k := n)) (Suc n) (sc_keys (cache_step c x))"
  proof (cases x)
    case (Get k now)
    with by_use_get [OF ok(1) u, of k now] show ?thesis by (auto simp: used_def)
  next
    case (Set k v ttl now)
    with by_use_put [OF ok(1) u, of k v] show ?thesis by (simp add: used_def sc_set_def)
  next
    case (Delete k)
    with u show ?thesis
      by (simp add: used_def sc_delete_def sc_keys_def dkeys_dpop by_use_filter by_use_mono)
  next
    case Clear
    then show ?thesis by (simp add: used_def sc_clear_def sc_keys_def by_use_def)
  next
    case (Cleanup now)
    with u ok(1) show ?thesis
      by (simp add: used_def sc_cleanup_eq sc_keys_def by_use_filter_dict by_use_mono)
  qed
  moreover have "sc_ok (cache_step c x)"
    by (cases x) (simp_all add: sc_laws ok(1) sc_set_def)
  moreover have "sc_hits (cache_step c x) + sc_misses (cache_step c x) =
      gets + (if is_get x then 1 else 0)"
    by (cases x) (simp_all add: sc_set_def get_counts ok(3))
  ultimately show ?thesis
    using ok(2) by (simp add: s by_use_def cache_step_config)
qed

interpretation traced: op_system "(sc_new ttl m, 0, 0, u)" traced_step "traced_ok m" for ttl m u
  by unfold_locales (simp_all add: traced_step_ok sc_keys_def)

text \<open>
  After any sequence of calls the cache holds at most \<open>max_size\<close> entries, every \<open>get\<close>
  was counted once as a hit or a miss, and the entries stand in the order of their last use.
\<close>

theorem cache_run_invariant:
  "traced_ok m (foldl traced_step (sc_new ttl m, 0, 0, u) xs)"
  by (rule traced.reach_inv)

text \<open>
  Storing under a new key in a full cache evicts exactly one entry, the one whose last
  use is oldest, and keeps all the others.
\<close>

theorem cache_evicts_least_recently_used:
  assumes run: "foldl traced_step (sc_new ttl (Some m), 0, 0, u) xs = (c, n, gets, last_use)"
    and full: "int (sc_size c) = m" "0 < m" and new: "k \<notin> set (sc_keys c)"
  shows "\<exists>old. old \<in> set (sc_keys c) \<and> (\<forall>k' \<in> set (sc_keys c). last_use old \<le> last_use k') \<and>
    set (sc_keys (sc_set c k v t now)) = insert k (set (sc_keys c) - {old})"
proof -
  have "traced_ok (Some m) (c, n, gets, last_use)"
    using traced.reach_inv [of "Some m" ttl u xs] run by simp
  then have ok: "sc_ok c" "sc_max_size c = Some m"
    and srt: "sorted_wrt (\<lambda>k k'. last_use k < last_use k') (sc_keys c)" by auto
  have d: "dict_ok (sc_cache c)" using ok(1) by (simp add: sc_ok_def)
  obtain old x rest where c: "sc_cache c = (old, x) # rest"
    using full by (cases "sc_cache c") (auto simp: sc_size_def)
  have "dpop k (sc_cache c) = sc_cache c" using new by (simp add: dpop_fresh sc_keys_def)
  moreover have "evict m ((old, x) # rest @ [p]) = rest @ [p]" for p
    using full c evict_drop [of m "(old, x) # rest @ [p]"] by (simp add: sc_size_def)
  ultimately have "sc_cache (sc_put c k v e) = rest @ [(k, (v, e))]" for e
    using sc_put_cache [OF d, of k v e] ok(2) full(2) c by simp
  then have "set (sc_keys (sc_set c k v t now)) = insert k (set (dkeys rest))"
    by (simp add: sc_set_def sc_keys_def)
  moreover have "set (dkeys rest) = set (sc_keys c) - {old}"
    using d by (simp add: sc_keys_def c)
  moreover have "\<forall>k' \<in> set (sc_keys c). last_use old \<le> last_use k'"
    using srt by (auto simp: sc_keys_def c)
  moreover have "old \<in> set (sc_keys c)" by (simp add: sc_keys_def c)
  ultimately show ?thesis by blast
qed

theorem cache_evicts_least_recently_used_witness:
  "\<exists>old. old \<in> {''b'', ''a''} \<and> (\<forall>k' \<in> {''b'', ''a''}. ((\<lambda>_. 0)(''a'' := 2, ''b'' := 1::nat)) old
       \<le> ((\<lambda>_. 0)(''a'' := 2, ''b'' := 1)) k') \<and>
     set (sc_keys (sc_set (foldl cache_step (sc_new 300 (Some 2))
       [Set ''a'' (0::int) None 0, Set ''b'' 1 None 0, Get ''a'' 1]) ''c'' 2 None 1)) =
     insert ''c'' ({''b'', ''a''} - {old})"
proof -
  have "foldl traced_step (sc_new 300 (Some 2), 0, 0, \<lambda>_. 0)
      [Set ''a'' (0::int) None 0, Set ''b'' 1 None 0, Get ''a'' 1] =
      (foldl cache_step (sc_new 300 (Some 2))
        [Set ''a'' 0 None 0, Set ''b'' 1 None 0, Get ''a'' 1], 3, 1,
       (\<lambda>_. 0)(''a'' := 2, ''b'' := 1))"
    by (simp add: used_def get_or_default_def sc_set_def sc_put_def sc_new_def Let_def fun_upd_twist
        numeral_2_eq_2)
  from cache_evicts_least_recently_used [OF this, of "''c''" 2 None 1] show ?thesis
    by (simp add: get_or_default_def sc_set_def sc_put_def sc_new_def Let_def sc_keys_def sc_size_def)
qed

section \<open>The \<open>cached\<close> decorator\<close>

text \<open>A run of calls, each with its two clock readings, and the results they return.\<close>

fun cached_run where
  "cached_run show name func ttl c [] = []"
| "cached_run show name func ttl c ((args, kwargs, now_get, now_set) # calls) =
     (let (r, c') = cached_call show name func ttl c args kwargs now_get now_set
      in r # cached_run show name func ttl c' calls)"

definition faithful ::
    "('a \<Rightarrow> string) \<Rightarrow> string \<Rightarrow> ('a list \<Rightarrow> (string \<times> 'a) list \<Rightarrow> 'e + 'v)
     \<Rightarrow> ('a list \<times> (string \<times> 'a) list) set \<Rightarrow> 'v simple_cache \<Rightarrow> bool" where
  "faithful show name func A c \<longleftrightarrow> sc_ok c \<and>
     (\<forall>(args, kwargs) \<in> A. \<forall>v e. sc_entry c (cache_key show name args kwargs) = Some (v, e) \<longrightarrow>
        func args kwargs = Inr v)"

lemma faithful_get:
  assumes "faithful show name func A c"
  shows "faithful show name func A (snd (get_or_default c k now))"
  using assms
  by (fastforce simp: faithful_def sc_get_entry get_or_default_ok split: option.splits if_splits)

lemma faithful_set:
  assumes f: "faithful show name func A c" and inj: "inj_on (\<lambda>(a, k). cache_key show name a k) A"
    and mem: "(args, kwargs) \<in> A" and v: "func args kwargs = Inr v"
  shows "faithful show name func A (sc_set c (cache_key show name args kwargs) v t now)"
  unfolding faithful_def
proof (intro conjI ballI)
  let ?k = "cache_key show name args kwargs"
  show "sc_ok (sc_set c ?k v t now)" using f by (simp add: faithful_def sc_set_def sc_put_ok)
  fix p assume "p \<in> A"
  obtain a k where p: "p = (a, k)" by (cases p)
  show "case p of (a, k) \<Rightarrow> \<forall>w e. sc_entry (sc_set c ?k v t now) (cache_key show name a k) =
      Some (w, e) \<longrightarrow> func a k = Inr w"
    unfolding p prod.case
  proof (intro allI impI)
    fix w e assume *: "sc_entry (sc_set c ?k v t now) (cache_key show name a k) = Some (w, e)"
    have ok: "sc_ok c" using f by (simp add: faithful_def)
    show "func a k = Inr w"
    proof (cases "cache_key show name a k = ?k")
      case True
      then have "(a, k) = (args, kwargs)"
        using inj_onD [OF inj, of "(a, k)" "(args, kwargs)"] mem \<open>p \<in> A\<close> p by simp
      with * True v sc_put_entry(1) [OF ok] show ?thesis by (simp add: sc_set_def Let_def)
    next
      case False
      with * sc_put_entry(2) [OF ok False] have "sc_entry c (cache_key show name a k) = Some (w, e)"
        by (metis empty_iff insert_iff option.distinct(1) sc_set_def)
      with f \<open>p \<in> A\<close> p show ?thesis by (fastforce simp: faithful_def)
    qed
  qed
qed

lemma cached_call_faithful:
  assumes f: "faithful show name func A c" and inj: "inj_on (\<lambda>(a, k). cache_key show name a k) A"
    and mem: "(args, kwargs) \<in> A"
    and r: "cached_call show name func ttl c args kwargs t1 t2 = (r, c')"
  shows "r = func args kwargs \<and> faithful show name func A c'"
proof -
  let ?k = "cache_key show name args kwargs"
  obtain o1 c1 where g: "get_or_default c ?k t1 = (o1, c1)" by fastforce
  have f1: "faithful show name func A c1" using faithful_get [OF f, of ?k t1] g by simp
  show ?thesis
  proof (cases o1)
    case None
    then show ?thesis
      using r g f1 faithful_set [OF f1 inj mem]
      by (auto simp: cached_call_def Let_def split: sum.splits)
  next
    case (Some v)
    with g sc_get_value [of c ?k t1] obtain e where "sc_entry c ?k = Some (v, e)"
      by (auto split: option.splits if_splits)
    with f mem have "func args kwargs = Inr v" by (fastforce simp: faithful_def)
    with Some r g f1 show ?thesis by (auto simp: cached_call_def Let_def)
  qed
qed

lemma cached_run_faithful:
  assumes "faithful show name func A c" "inj_on (\<lambda>(a, k). cache_key show name a k) A"
    and "\<forall>(args, kwargs, t1, t2) \<in> set calls. (args, kwargs) \<in> A"
  shows "cached_run show name func ttl c calls = map (\<lambda>(args, kwargs, t1, t2). func args kwargs) calls"
  using assms(1,3)
proof (induction calls arbitrary: c)
  case (Cons x calls)
  obtain args kwargs t1 t2 where x: "x = (args, kwargs, t1, t2)" by (cases x)
  obtain r c' where r: "cached_call show name func ttl c args kwargs t1 t2 = (r, c')" by fastforce
  have "(args, kwargs) \<in> A" using Cons.prems(2) x by simp
  from cached_call_faithful [OF Cons.prems(1) assms(2) this r] Cons x r show ?case by simp
qed simp

text \<open>The keys of positional calls tell arguments apart when no shown argument has a colon.\<close>

lemma join_inj:
  assumes "\<forall>s \<in> set xs. c \<notin> set s" "\<forall>s \<in> set ys. c \<notin> set s" "xs \<noteq> []" "ys \<noteq> []"
    and "join [c] xs = join [c] ys"
  shows "xs = ys"
  using assms
proof (induction xs arbitrary: ys)
  case (Cons x xs)
  obtain y ys' where y: "ys = y # ys'" using Cons.prems(4) by (cases ys) auto
  have split: "join [c] (z # zs) = z @ (if zs = [] then [] else c # join [c] zs)" for z zs
    by (cases zs) auto
  have hd: "takeWhile (\<lambda>d. d \<noteq> c) (join [c] (z # zs)) = z" if "c \<notin> set z" for z zs
  proof -
    have "takeWhile (\<lambda>d. d \<noteq> c) z = z" using that by (auto intro: takeWhile_eq_all_conv [THEN iffD2])
    with that show ?thesis unfolding split by (auto simp: takeWhile_append2)
  qed
  have "x = y" using hd [of x xs] hd [of y ys'] Cons.prems y by auto
  with Cons.prems(5) y have "(if xs = [] then [] else c # join [c] xs) =
      (if ys' = [] then [] else c # join [c] ys')"
    by (simp only: split append_same_eq same_append_eq y)
  with Cons.IH [of ys'] Cons.prems \<open>x = y\<close> y show ?case by (auto split: if_splits)
qed simp

lemma positional_keys_inj:
  assumes "CHR '':'' \<notin> set name" "\<forall>a. CHR '':'' \<notin> set (show a)" "inj show"
  shows "inj_on (\<lambda>(a, k). cache_key show name a k) {(args, kwargs). kwargs = []}"
proof (rule inj_onI, clarsimp simp: cache_key_def)
  fix a b assume j: "join '':'' (name # map show a) = join '':'' (name # map show b)"
  have "name # map show a = name # map show b"
    by (rule join_inj [OF _ _ _ _ j]) (use assms(1,2) in auto)
  with assms(3) show "a = b" by (simp add: inj_map_eq_map)
qed

text \<open>
  C39. As long as the cache key tells the argument lists of the calls apart, the decorated
  function returns (or raises) what the wrapped one does, for any clock readings and any
  cache size.
\<close>

theorem cached_transparent:
  assumes "inj_on (\<lambda>(a, k). cache_key show name a k)
      ((\<lambda>(args, kwargs, t1, t2). (args, kwargs)) ` set calls)"
  shows "cached_run show name func ttl (sc_new ttl0 m) calls =
    map (\<lambda>(args, kwargs, t1, t2). func args kwargs) calls"
  by (rule cached_run_faithful [OF _ assms]) (force simp: faithful_def)+

theorem cached_transparent_witness:
  "cached_run (\<lambda>n. replicate n CHR ''1'') ''f'' (\<lambda>args kwargs. if args = [0] then Inl () else Inr (sum_list args))
     60 (sc_new 60 (Some 1)) [([1, 2], [], 0, 0), ([1, 2], [], 1, 1), ([0], [], 2, 2), ([4], [], 3, 3)] =
   [Inr 3, Inr 3, Inl (), Inr 4]"
proof -
  have "inj_on (\<lambda>(a, k). cache_key (\<lambda>n. replicate n CHR ''1'') ''f'' a k)
      {(args :: nat list, kwargs). kwargs = []}"
    by (rule positional_keys_inj) (auto intro!: injI dest: arg_cong [where f = length])
  then have *: "inj_on (\<lambda>(a, k). cache_key (\<lambda>n. replicate n CHR ''1'') ''f'' a k)
      ((\<lambda>(args, kwargs, t1, t2). (args, kwargs)) `
        set [([1, 2], [], 0 :: time, 0 :: time), ([1, 2], [], 1, 1), ([0], [], 2, 2), ([4], [], 3, 3)])"
    by (rule inj_on_subset) auto
  show ?thesis by (subst cached_transparent [OF *]) simp
qed

lemma get_new: "\<exists>c1. get_or_default (sc_new ttl m) k t = (None, c1) \<and> sc_ok c1"
  using get_or_default_ok [OF sc_new_ok, of ttl m k t] by (auto simp: get_or_default_def)

text \<open>
  The key joins the shown arguments with colons, so different arguments can share a
  key: after a call with \<open>("a:b", "c")\<close> a call with \<open>("a", "b:c")\<close> within the TTL returns
  the first call's result, whatever the function would compute.
\<close>

theorem cached_key_collision:
  fixes v :: "'v"
  assumes "func [''a:b'', ''c''] [] = Inr v" and "t3 \<le> t2 + ttl"
  shows "cached_run id name func ttl (sc_new ttl0 m)
    [([''a:b'', ''c''], [], t1, t2), ([''a'', ''b:c''], [], t3, t4)] = [Inr v, Inr v]"
proof -
  let ?k = "cache_key id name [''a:b'', ''c''] []"
  have key: "cache_key id name [''a'', ''b:c''] [] = ?k" by (simp add: cache_key_def)
  obtain c1 :: "'v simple_cache"
    where g: "get_or_default (sc_new ttl0 m) ?k t1 = (None, c1)" "sc_ok c1"
    using get_new by blast
  let ?c2 = "sc_set c1 ?k v (Some ttl) t2"
  have "sc_entry ?c2 ?k = Some (v, t2 + ttl)"
    using sc_put_entry(1) [OF g(2)] by (simp add: sc_set_def)
  then have "fst (get_or_default ?c2 ?k t3) = Some v"
    using assms(2) by (simp add: sc_get_value)
  then show ?thesis
    using g assms(1) key
    by (cases "get_or_default ?c2 ?k t3") (simp add: cached_call_def Let_def)
qed

theorem cached_key_collision_witness:
  "cached_run id ''join'' (\<lambda>args kwargs. Inr (length (hd args)) :: unit + nat) 300 (sc_new 300 None)
     [([''a:b'', ''c''], [], 0, 0), ([''a'', ''b:c''], [], 1, 1)] = [Inr 3, Inr 3]"
  by (rule cached_key_collision) simp_all

section \<open>Clearing an exchange\<close>

lemma delete_all_entries:
  "sc_entry (foldl sc_delete c ks) k = (if k \<in> set ks then None else sc_entry c k)"
  by (induction ks arbitrary: c) auto

text \<open>
  \<open>clear_exchange(e)\<close> removes exactly the entries whose key starts with \<open>e:\<close>: the
  trading pairs and the information of \<open>e\<close> are gone, and those of an exchange whose name
  does not begin with \<open>e:\<close> are as before.
\<close>

theorem clear_exchange_effect:
  "fst (get_trading_pairs (clear_exchange c e) e now) = None \<and>
   fst (get_exchange_info (clear_exchange c e) e s now) = None \<and>
   (\<forall>k. \<not> prefix (e @ '':'') k \<longrightarrow> sc_entry (clear_exchange c e) k = sc_entry c k)"
proof -
  have entry: "sc_entry (clear_exchange c e) k = (if prefix (e @ '':'') k then None else sc_entry c k)"
    for k
    using dget_None_iff [of "sc_cache c" k]
    by (auto simp: clear_exchange_def delete_all_entries sc_keys_def)
  have "prefix (e @ '':'') (trading_pairs_key e)" "prefix (e @ '':'') (exchange_info_key e s)"
    by (simp_all add: trading_pairs_key_def exchange_info_key_def)
  with entry show ?thesis
    by (simp add: get_trading_pairs_def get_exchange_info_def sc_get_value)
qed

theorem clear_exchange_effect_witness:
  "fst (get_trading_pairs (clear_exchange
      (set_trading_pairs (set_trading_pairs (sc_new 9 None) ''A'' [1::int] 0) ''B'' [2] 0) ''A'') ''A'' 1) = None
   \<and> fst (get_trading_pairs (clear_exchange
      (set_trading_pairs (set_trading_pairs (sc_new 9 None) ''A'' [1::int] 0) ''B'' [2] 0) ''A'') ''B'' 1) = Some [2]"
proof -
  let ?c = "set_trading_pairs (set_trading_pairs (sc_new 9 None) ''A'' [1::int] 0) ''B'' [2] 0"
  have "sc_entry ?c (trading_pairs_key ''B'') = Some ([2], 9)"
    by (simp add: set_trading_pairs_def sc_set_def sc_put_def trading_pairs_key_def sc_new_def)
  moreover have "\<not> prefix (''A'' @ '':'') (trading_pairs_key ''B'')"
    by (simp add: trading_pairs_key_def)
  ultimately show ?thesis
    using clear_exchange_effect [of ?c "''A''" 1] by (simp add: get_trading_pairs_def sc_get_value)
qed

end
