(* ===== verification/Subscriptions.thy ===== *)
theory Subscriptions
  imports PyPrelude
begin

text \<open>
  Model of \<open>src/bt_api_base/gateway/subscription_manager.py\<close>, the reference-counted tracker
  of symbol subscriptions, and its refinement of the relation \<open>{(strategy, symbol)}\<close>: the
  symbols reported as newly subscribed or to be unsubscribed are exactly those that enter or
  leave the range of the relation.
\<close>

section \<open>The operations\<close>

record SubscriptionManager =
  strategy_symbols :: "(string, string pyset) dict"
  ref_counts :: "(string, int) dict"

definition sub_init :: SubscriptionManager where
  "sub_init = \<lparr>strategy_symbols = [], ref_counts = []\<rparr>"

text \<open>
  Both dicts are \<open>defaultdict\<close>s, so reading a missing key yields the default (and stores
  it, which the assignment that follows does in any case).
\<close>

fun sub_add_loop ::
    "string \<Rightarrow> string list \<Rightarrow> SubscriptionManager \<Rightarrow> string pyset
     \<Rightarrow> SubscriptionManager \<times> string pyset" where
  "sub_add_loop sid [] m newly = (m, newly)"
| "sub_add_loop sid (s # ss) m newly =
     (let held = dget_default (strategy_symbols m) sid [];
          m1 = m\<lparr>strategy_symbols := dset sid held (strategy_symbols m)\<rparr>
      in if s \<notin> set held
         then (let count = dget_default (ref_counts m1) s 0 + 1;
                   m2 = m1\<lparr>strategy_symbols := dset sid (sadd s held) (strategy_symbols m1),
                           ref_counts := dset s count (ref_counts m1)\<rparr>
               in sub_add_loop sid ss m2 (if count = 1 then sadd s newly else newly))
         else sub_add_loop sid ss m1 newly)"

definition sub_add ::
    "SubscriptionManager \<Rightarrow> string \<Rightarrow> string list \<Rightarrow> string pyset \<times> SubscriptionManager" where
  "sub_add m sid symbols =
     (case sub_add_loop sid symbols m [] of (m', newly) \<Rightarrow> (newly, m'))"

definition drop_ref :: "string \<Rightarrow> (string, int) dict \<times> string pyset \<Rightarrow> (string, int) dict \<times> string pyset" where
  "drop_ref s = (\<lambda>(counts, gone).
     let count = dget_default counts s 0 - 1
     in if count \<le> 0 then (dpop s (dset s count counts), sadd s gone) else (dset s count counts, gone))"

fun sub_remove_loop ::
    "string list \<Rightarrow> string pyset \<Rightarrow> (string, int) dict \<times> string pyset
     \<Rightarrow> string pyset \<times> (string, int) dict \<times> string pyset" where
  "sub_remove_loop [] held acc = (held, acc)"
| "sub_remove_loop (s # ss) held acc =
     (if s \<in> set held then sub_remove_loop ss (sdiscard s held) (drop_ref s acc)
      else sub_remove_loop ss held acc)"

definition sub_remove ::
    "SubscriptionManager \<Rightarrow> string \<Rightarrow> string list \<Rightarrow> string pyset \<times> SubscriptionManager" where
  "sub_remove m sid symbols =
     (case dget (strategy_symbols m) sid of
        None \<Rightarrow> ([], m)
      | Some held \<Rightarrow>
          (case sub_remove_loop symbols held (ref_counts m, []) of
             (held', counts, gone) \<Rightarrow>
               (gone, m\<lparr>strategy_symbols :=
                          if held' = [] then dpop sid (dset sid held' (strategy_symbols m))
                          else dset sid held' (strategy_symbols m),
                        ref_counts := counts\<rparr>)))"

definition remove_strategy ::
    "SubscriptionManager \<Rightarrow> string \<Rightarrow> string pyset \<times> SubscriptionManager" where
  "remove_strategy m sid =
     (let held = dget_default (strategy_symbols m) sid [];
          (counts, gone) = foldl (\<lambda>acc s. drop_ref s acc) (ref_counts m, []) held
      in (gone, m\<lparr>strategy_symbols := dpop sid (strategy_symbols m), ref_counts := counts\<rparr>))"

definition get_active_symbols :: "SubscriptionManager \<Rightarrow> string pyset" where
  "get_active_symbols m = dkeys (ref_counts m)"

definition get_strategy_symbols :: "SubscriptionManager \<Rightarrow> string \<Rightarrow> string pyset" where
  "get_strategy_symbols m sid = dget_default (strategy_symbols m) sid []"

definition get_strategies :: "SubscriptionManager \<Rightarrow> string list" where
  "get_strategies m = dkeys (strategy_symbols m)"

definition ref_count :: "SubscriptionManager \<Rightarrow> string \<Rightarrow> int" where
  "ref_count m s = dget_default (ref_counts m) s 0"

definition symbol_count :: "SubscriptionManager \<Rightarrow> nat" where
  "symbol_count m = length (ref_counts m)"

definition strategy_count :: "SubscriptionManager \<Rightarrow> nat" where
  "strategy_count m = length (strategy_symbols m)"

datatype sub_op = Add string "string list" | Remove string "string list" | RemoveStrategy string

fun sub_call :: "SubscriptionManager \<Rightarrow> sub_op \<Rightarrow> string pyset \<times> SubscriptionManager" where
  "sub_call m (Add sid ss) = sub_add m sid ss"
| "sub_call m (Remove sid ss) = sub_remove m sid ss"
| "sub_call m (RemoveStrategy sid) = remove_strategy m sid"

section \<open>The relation a state stands for\<close>

definition subs :: "SubscriptionManager \<Rightarrow> (string \<times> string) set" where
  "subs m = {(sid, s). s \<in> set (dget_default (strategy_symbols m) sid [])}"

fun spec_call :: "(string \<times> string) set \<Rightarrow> sub_op \<Rightarrow> (string \<times> string) set" where
  "spec_call R (Add sid ss) = R \<union> {sid} \<times> set ss"
| "spec_call R (Remove sid ss) = R - {sid} \<times> set ss"
| "spec_call R (RemoveStrategy sid) = R - {sid} \<times> UNIV"

text \<open>The counts are the sizes of the relation's columns, none of them stored as zero.\<close>

definition counts_ok :: "(string, int) dict \<Rightarrow> (string \<times> string) set \<Rightarrow> bool" where
  "counts_ok counts R \<longleftrightarrow> dict_ok counts \<and> finite R \<and>
     (\<forall>s. dget counts s =
        (let n = card {sid. (sid, s) \<in> R} in if n = 0 then None else Some (int n)))"

definition sub_ok :: "SubscriptionManager \<Rightarrow> bool" where
  "sub_ok m \<longleftrightarrow> dict_ok (strategy_symbols m) \<and> counts_ok (ref_counts m) (subs m) \<and>
     (\<forall>sid held. dget (strategy_symbols m) sid = Some held \<longrightarrow> distinct held \<and> held \<noteq> [])"

lemma column_finite: "finite R \<Longrightarrow> finite {sid. (sid, s) \<in> R}"
  by (rule finite_subset [of _ "fst ` R"]) force+

lemma column_empty: "finite R \<Longrightarrow> card {sid. (sid, s) \<in> R} = 0 \<longleftrightarrow> s \<notin> snd ` R"
proof -
  assume "finite R"
  then have "card {sid. (sid, s) \<in> R} = 0 \<longleftrightarrow> {sid. (sid, s) \<in> R} = {}"
    by (simp add: column_finite)
  then show ?thesis by force
qed

lemma counts_ok_keys: "counts_ok counts R \<Longrightarrow> set (dkeys counts) = snd ` R"
proof -
  assume ok: "counts_ok counts R"
  then have fin: "finite R" by (simp add: counts_ok_def)
  have "s \<in> set (dkeys counts) \<longleftrightarrow> s \<in> snd ` R" for s
  proof -
    have "s \<in> set (dkeys counts) \<longleftrightarrow> dget counts s \<noteq> None" by (simp add: dget_None_iff)
    also have "\<dots> \<longleftrightarrow> card {sid. (sid, s) \<in> R} \<noteq> 0"
      using ok by (simp add: counts_ok_def Let_def)
    also have "\<dots> \<longleftrightarrow> s \<in> snd ` R"
      using column_empty [OF fin, of s] by argo
    finally show ?thesis .
  qed
  then show ?thesis by blast
qed

lemma counts_ok_insert:
  assumes ok: "counts_ok counts R" and new: "(sid, s) \<notin> R"
  shows "counts_ok (dset s (dget_default counts s 0 + 1) counts) (insert (sid, s) R)"
    "dget_default counts s 0 + 1 = 1 \<longleftrightarrow> s \<notin> snd ` R"
proof -
  have fin: "finite R" using ok by (simp add: counts_ok_def)
  have col: "{x. (x, t) \<in> insert (sid, s) R} =
      (if t = s then insert sid {x. (x, s) \<in> R} else {x. (x, t) \<in> R})" for t
    by auto
  have def: "dget_default counts s 0 = int (card {x. (x, s) \<in> R})"
    using ok by (simp add: counts_ok_def dget_default_def Let_def)
  show "counts_ok (dset s (dget_default counts s 0 + 1) counts) (insert (sid, s) R)"
    using ok new column_finite [OF fin, of s] unfolding counts_ok_def col
    by (auto simp: def Let_def)
  show "dget_default counts s 0 + 1 = 1 \<longleftrightarrow> s \<notin> snd ` R"
    using column_empty [OF fin, of s] unfolding def by linarith
qed

lemma counts_ok_drop:
  assumes ok: "counts_ok counts R" and mem: "(sid, s) \<in> R"
    and d: "drop_ref s (counts, gone) = (counts', gone')"
  shows "counts_ok counts' (R - {(sid, s)})"
    "set gone' = set gone \<union> (snd ` R - snd ` (R - {(sid, s)}))"
    "distinct gone \<Longrightarrow> distinct gone'"
proof -
  have fin: "finite R" using ok by (simp add: counts_ok_def)
  let ?col = "{x. (x, s) \<in> R}"
  have col: "{x. (x, t) \<in> R - {(sid, s)}} = (if t = s then ?col - {sid} else {x. (x, t) \<in> R})" for t
    by auto
  have fc: "finite ?col" "sid \<in> ?col" using column_finite [OF fin] mem by auto
  then have pos: "0 < card ?col" by (auto simp: card_gt_0_iff)
  have def: "dget_default counts s 0 = int (card ?col)"
    using ok pos by (simp add: counts_ok_def dget_default_def Let_def)
  have pop_set: "dpop s (dset s v counts) = dpop s counts" for v
    by (induction counts) auto
  have d': "counts' = (if card ?col = 1 then dpop s counts
        else dset s (int (card ?col) - 1) counts) \<and>
      gone' = (if card ?col = 1 then sadd s gone else gone)"
  proof (cases "card ?col = 1")
    case True
    then have "drop_ref s (counts, gone) = (dpop s counts, sadd s gone)"
      by (simp add: drop_ref_def def pop_set)
    with d True show ?thesis by simp
  next
    case False
    with pos have "\<not> int (card ?col) - 1 \<le> 0" by linarith
    then have "drop_ref s (counts, gone) = (dset s (int (card ?col) - 1) counts, gone)"
      by (simp add: drop_ref_def def)
    with d False show ?thesis by simp
  qed
  note c = d' [THEN conjunct1] d' [THEN conjunct2]
  have "dict_ok counts" using ok by (simp add: counts_ok_def)
  then have "dict_ok counts'" by (simp add: c(1))
  moreover have "dget counts' t = (let n = card {x. (x, t) \<in> R - {(sid, s)}}
      in if n = 0 then None else Some (int n))" for t
  proof (cases "t = s")
    case True
    have "card {x. (x, t) \<in> R - {(sid, s)}} = card ?col - 1"
      unfolding col using True fc by simp
    with True pos show ?thesis by (simp add: c(1) Let_def of_nat_diff)
  next
    case False
    with ok show ?thesis unfolding col by (simp add: c(1) counts_ok_def)
  qed
  ultimately show "counts_ok counts' (R - {(sid, s)})"
    using fin by (simp add: counts_ok_def)
  have "snd ` R = insert s (snd ` (R - {(sid, s)}))" using mem by force
  moreover have "s \<in> snd ` (R - {(sid, s)}) \<longleftrightarrow> card ?col \<noteq> 1"
  proof -
    have "card {x. (x, s) \<in> R - {(sid, s)}} = card ?col - 1"
      unfolding col using fc by simp
    with column_empty [of "R - {(sid, s)}" s] fin pos show ?thesis by (simp, linarith)
  qed
  ultimately have "snd ` R - snd ` (R - {(sid, s)}) = (if card ?col = 1 then {s} else {})"
    by auto
  then show "set gone' = set gone \<union> (snd ` R - snd ` (R - {(sid, s)}))"
    by (simp add: c(2))
  show "distinct gone \<Longrightarrow> distinct gone'" by (simp add: c(2))
qed

section \<open>Each operation refines the relation\<close>

lemma mem_subs: "(sid, s) \<in> subs m \<longleftrightarrow> s \<in> set (dget_default (strategy_symbols m) sid [])"
  by (simp add: subs_def)

lemma sub_add_step:
  assumes ok: "sub_ok m" and new: "s \<notin> set (dget_default (strategy_symbols m) sid [])"
  defines "held \<equiv> dget_default (strategy_symbols m) sid []"
    and "count \<equiv> dget_default (ref_counts m) s 0 + 1"
  defines "m2 \<equiv> m\<lparr>strategy_symbols := dset sid (sadd s held) (dset sid held (strategy_symbols m)),
      ref_counts := dset s count (ref_counts m)\<rparr>"
  shows "sub_ok m2 \<and> subs m2 = insert (sid, s) (subs m) \<and> (count = 1 \<longleftrightarrow> s \<notin> snd ` subs m)"
proof -
  have subs: "subs m2 = insert (sid, s) (subs m)"
    by (auto simp: m2_def held_def subs_def dget_default_def split: if_splits)
  have held: "distinct held"
    using ok by (auto simp: held_def sub_ok_def dget_default_def split: option.split)
  have c: "counts_ok (ref_counts m) (subs m)" "(sid, s) \<notin> subs m"
    using ok new by (simp_all add: sub_ok_def mem_subs)
  have ne: "sadd s held \<noteq> []" by (auto simp: sadd_def)
  have "dict_ok (strategy_symbols m2)" "counts_ok (ref_counts m2) (subs m2)"
    using ok counts_ok_insert(1) [OF c] unfolding subs
    by (auto simp: sub_ok_def m2_def count_def)
  moreover have "distinct h \<and> h \<noteq> []" if "dget (strategy_symbols m2) x = Some h" for x h
    using that ok held ne by (auto simp: m2_def sub_ok_def split: if_splits)
  ultimately have "sub_ok m2" unfolding sub_ok_def by blast
  then show ?thesis using subs counts_ok_insert(2) [OF c] by (simp add: count_def)
qed

lemma dset_same: "dget d k = Some v \<Longrightarrow> dset k v d = d"
  by (induction d) (auto split: if_splits)

lemma sub_add_loop_refines:
  "sub_ok m \<Longrightarrow> distinct newly \<Longrightarrow> sub_add_loop sid ss m newly = (m', newly') \<Longrightarrow>
   sub_ok m' \<and> subs m' = subs m \<union> {sid} \<times> set ss \<and> distinct newly' \<and>
   set newly' = set newly \<union> (snd ` subs m' - snd ` subs m)"
proof (induction ss arbitrary: m newly)
  case (Cons s ss)
  let ?held = "dget_default (strategy_symbols m) sid []"
  let ?m1 = "m\<lparr>strategy_symbols := dset sid ?held (strategy_symbols m)\<rparr>"
  let ?count = "dget_default (ref_counts m) s 0 + 1"
  show ?case
  proof (cases "s \<in> set ?held")
    case True
    then have "dget (strategy_symbols m) sid = Some ?held"
      by (cases "dget (strategy_symbols m) sid") (simp_all add: dget_default_def)
    then have m1: "?m1 = m" by (simp add: dset_same)
    from Cons True have "sub_ok m' \<and> subs m' = subs m \<union> {sid} \<times> set ss \<and>
        distinct newly' \<and> set newly' = set newly \<union> (snd ` subs m' - snd ` subs m)"
      by (simp add: m1)
    moreover have "(sid, s) \<in> subs m" using True by (simp add: mem_subs)
    ultimately show ?thesis by auto
  next
    case False
    let ?m2 = "?m1\<lparr>strategy_symbols := dset sid (sadd s ?held) (strategy_symbols ?m1),
        ref_counts := dset s ?count (ref_counts ?m1)\<rparr>"
    let ?n2 = "if ?count = 1 then sadd s newly else newly"
    note st = sub_add_step [OF Cons.prems(1) False]
    have run: "sub_add_loop sid ss ?m2 ?n2 = (m', newly')"
      using Cons.prems(3) False by (simp add: Let_def)
    have "distinct ?n2" using Cons.prems(2) by simp
    with Cons.IH [OF _ _ run] st
    have ih: "sub_ok m' \<and> subs m' = insert (sid, s) (subs m) \<union> {sid} \<times> set ss \<and> distinct newly' \<and>
        set newly' = set ?n2 \<union> (snd ` subs m' - snd ` insert (sid, s) (subs m))"
      by simp
    moreover have "set ?n2 = set newly \<union> (if s \<notin> snd ` subs m then {s} else {})"
      using st by simp
    ultimately show ?thesis by (auto split: if_splits)
  qed
qed simp

lemma leave_chain:
  "G' = G1 \<union> (B - C) \<Longrightarrow> G1 = G \<union> (A - B) \<Longrightarrow> C \<subseteq> B \<Longrightarrow> B \<subseteq> A \<Longrightarrow> G' = G \<union> (A - C)"
  by auto

lemma drop_refs_refine:
  assumes "counts_ok counts R" "distinct ss" "{sid} \<times> set ss \<subseteq> R"
    and "foldl (\<lambda>acc s. drop_ref s acc) (counts, gone) ss = (counts', gone')" "distinct gone"
  shows "counts_ok counts' (R - {sid} \<times> set ss) \<and> distinct gone' \<and>
    set gone' = set gone \<union> (snd ` R - snd ` (R - {sid} \<times> set ss))"
  using assms
proof (induction ss arbitrary: counts gone R)
  case (Cons s ss)
  obtain c1 g1 where d: "drop_ref s (counts, gone) = (c1, g1)" by fastforce
  have mem: "(sid, s) \<in> R" using Cons.prems(3) by auto
  note st = counts_ok_drop [OF Cons.prems(1) mem d]
  have R: "R - {(sid, s)} - {sid} \<times> set ss = R - {sid} \<times> set (s # ss)" by auto
  have sub: "{sid} \<times> set ss \<subseteq> R - {(sid, s)}" using Cons.prems(2,3) by auto
  have run: "foldl (\<lambda>acc s. drop_ref s acc) (c1, g1) ss = (counts', gone')"
    using Cons.prems(4) d by simp
  from Cons.IH [OF st(1) _ sub run] Cons.prems(2) st(3) [OF Cons.prems(5)]
  have "counts_ok counts' (R - {sid} \<times> set (s # ss)) \<and> distinct gone' \<and>
      set gone' = set g1 \<union> (snd ` (R - {(sid, s)}) - snd ` (R - {sid} \<times> set (s # ss)))"
    unfolding R by simp
  moreover have "snd ` (R - {sid} \<times> set (s # ss)) \<subseteq> snd ` (R - {(sid, s)})"
    "snd ` (R - {(sid, s)}) \<subseteq> snd ` R" by (intro image_mono; auto)+
  ultimately show ?case using leave_chain [OF _ st(2)] by simp
qed simp

lemma sub_remove_loop_refines:
  assumes "counts_ok counts R" "\<forall>s. s \<in> set held \<longleftrightarrow> (sid, s) \<in> R" "distinct held"
    and "sub_remove_loop ss held (counts, gone) = (held', counts', gone')" "distinct gone"
  shows "counts_ok counts' (R - {sid} \<times> set ss) \<and> distinct gone' \<and>
    held' = filter (\<lambda>s. s \<notin> set ss) held \<and>
    set gone' = set gone \<union> (snd ` R - snd ` (R - {sid} \<times> set ss))"
  using assms
proof (induction ss arbitrary: held counts gone R)
  case (Cons s ss)
  have R: "R - {(sid, s)} - {sid} \<times> set ss = R - {sid} \<times> set (s # ss)" by auto
  show ?case
  proof (cases "s \<in> set held")
    case True
    obtain c1 g1 where d: "drop_ref s (counts, gone) = (c1, g1)" by fastforce
    have mem: "(sid, s) \<in> R" using Cons.prems(2) True by simp
    note st = counts_ok_drop [OF Cons.prems(1) mem d]
    have run: "sub_remove_loop ss (sdiscard s held) (c1, g1) = (held', counts', gone')"
      using Cons.prems(4) d True by simp
    have col: "\<forall>t. t \<in> set (sdiscard s held) \<longleftrightarrow> (sid, t) \<in> R - {(sid, s)}"
      using Cons.prems(2) by auto
    from Cons.IH [OF st(1) col _ run st(3) [OF Cons.prems(5)]] Cons.prems(3)
    have "counts_ok counts' (R - {sid} \<times> set (s # ss)) \<and> distinct gone' \<and>
        held' = filter (\<lambda>t. t \<notin> set ss) (sdiscard s held) \<and>
        set gone' = set g1 \<union> (snd ` (R - {(sid, s)}) - snd ` (R - {sid} \<times> set (s # ss)))"
      unfolding R by simp
    moreover have "snd ` (R - {sid} \<times> set (s # ss)) \<subseteq> snd ` (R - {(sid, s)})"
      "snd ` (R - {(sid, s)}) \<subseteq> snd ` R" by (intro image_mono; auto)+
    moreover have "filter (\<lambda>t. t \<notin> set ss) (sdiscard s held) = filter (\<lambda>t. t \<notin> set (s # ss)) held"
      by (auto simp: sdiscard_def intro: filter_cong)
    ultimately show ?thesis using leave_chain [OF _ st(2)] by simp
  next
    case False
    have "R - {sid} \<times> set (s # ss) = R - {sid} \<times> set ss" using False Cons.prems(2) by auto
    moreover have "filter (\<lambda>t. t \<notin> set (s # ss)) held = filter (\<lambda>t. t \<notin> set ss) held"
      using False by (auto intro!: filter_cong)
    ultimately show ?thesis using Cons False by simp
  qed
qed simp

definition refines_call :: "SubscriptionManager \<Rightarrow> sub_op \<Rightarrow> string pyset \<times> SubscriptionManager \<Rightarrow> bool" where
  "refines_call m x r \<longleftrightarrow> sub_ok (snd r) \<and> subs (snd r) = spec_call (subs m) x \<and> distinct (fst r) \<and>
     set (fst r) = (case x of
        Add _ _ \<Rightarrow> snd ` subs (snd r) - snd ` subs m
      | _ \<Rightarrow> snd ` subs m - snd ` subs (snd r))"

lemma sub_add_refines: "sub_ok m \<Longrightarrow> refines_call m (Add sid ss) (sub_add m sid ss)"
  using sub_add_loop_refines [of m "[]" sid ss]
  by (cases "sub_add_loop sid ss m []") (simp add: refines_call_def sub_add_def)

lemma sub_ok_remove:
  assumes "sub_ok m" and "distinct held" and "counts_ok counts R"
    and "subs m' = R"
    and "m' = m\<lparr>strategy_symbols := if held = [] then dpop sid (strategy_symbols m)
                else dset sid held (strategy_symbols m), ref_counts := counts\<rparr>"
  shows "sub_ok m'"
  using assms by (auto simp: sub_ok_def split: if_splits)

lemma dpop_dset [simp]: "dpop k (dset k v d) = dpop k d"
  by (induction d) auto

lemma subs_update:
  "subs (m\<lparr>strategy_symbols := dset sid h (strategy_symbols m), ref_counts := c\<rparr>) =
     (subs m - {sid} \<times> UNIV) \<union> {sid} \<times> set h"
  "subs (m\<lparr>strategy_symbols := dpop sid (strategy_symbols m), ref_counts := c\<rparr>) =
     subs m - {sid} \<times> UNIV"
  by (auto simp: subs_def dget_default_def split: if_splits option.splits)

lemma sub_remove_refines:
  assumes ok: "sub_ok m" shows "refines_call m (Remove sid ss) (sub_remove m sid ss)"
proof (cases "dget (strategy_symbols m) sid")
  case None
  then have "subs m - {sid} \<times> set ss = subs m" by (auto simp: subs_def dget_default_def)
  with None ok show ?thesis by (simp add: refines_call_def sub_remove_def)
next
  case (Some held)
  obtain held' counts gone where r:
    "sub_remove_loop ss held (ref_counts m, []) = (held', counts, gone)" by (metis prod_cases3)
  have held: "\<forall>s. s \<in> set held \<longleftrightarrow> (sid, s) \<in> subs m" "distinct held"
    using ok Some by (auto simp: mem_subs dget_default_def sub_ok_def)
  have c: "counts_ok (ref_counts m) (subs m)" using ok by (simp add: sub_ok_def)
  note res = sub_remove_loop_refines [OF c held r, simplified]
  let ?m' = "m\<lparr>strategy_symbols := if held' = [] then dpop sid (strategy_symbols m)
      else dset sid held' (strategy_symbols m), ref_counts := counts\<rparr>"
  have res_m: "sub_remove m sid ss = (gone, ?m')"
    using Some r by (simp add: sub_remove_def)
  have subs': "subs ?m' = subs m - {sid} \<times> set ss"
  proof -
    have "held' = filter (\<lambda>s. s \<notin> set ss) held" using res by simp
    then have h': "set held' = set held - set ss" by auto
    have "subs ?m' = (subs m - {sid} \<times> UNIV) \<union> {sid} \<times> set held'"
      by (auto simp: subs_update)
    also have "\<dots> = subs m - {sid} \<times> set ss"
      using held(1) unfolding h' by auto
    finally show ?thesis .
  qed
  have "sub_ok ?m'"
    by (rule sub_ok_remove [OF ok _ _ subs' refl]) (use res held in auto)
  with res subs' show ?thesis by (simp add: refines_call_def res_m)
qed

lemma remove_strategy_refines:
  assumes ok: "sub_ok m" shows "refines_call m (RemoveStrategy sid) (remove_strategy m sid)"
proof -
  let ?held = "dget_default (strategy_symbols m) sid []"
  obtain counts gone where r:
    "foldl (\<lambda>acc s. drop_ref s acc) (ref_counts m, []) ?held = (counts, gone)" by fastforce
  have held: "distinct ?held" "{sid} \<times> set ?held \<subseteq> subs m"
    using ok by (auto simp: mem_subs dget_default_def sub_ok_def split: option.split)
  have c: "counts_ok (ref_counts m) (subs m)" using ok by (simp add: sub_ok_def)
  have all: "subs m - {sid} \<times> set ?held = subs m - {sid} \<times> UNIV" by (auto simp: mem_subs)
  note res = drop_refs_refine [OF c held r, simplified, unfolded all]
  let ?m' = "m\<lparr>strategy_symbols := dpop sid (strategy_symbols m), ref_counts := counts\<rparr>"
  have res_m: "remove_strategy m sid = (gone, ?m')"
    using r by (simp add: remove_strategy_def Let_def)
  have subs': "subs ?m' = subs m - {sid} \<times> UNIV"
    by (rule subs_update(2))
  have "sub_ok ?m'"
    using sub_ok_remove [OF ok _ _ subs', of "[]" counts sid] res by simp
  with res subs' show ?thesis by (simp add: refines_call_def res_m)
qed

lemma sub_call_refines: "sub_ok m \<Longrightarrow> refines_call m x (sub_call m x)"
  by (cases x) (simp_all add: sub_add_refines sub_remove_refines remove_strategy_refines)

definition sub_step :: "SubscriptionManager \<Rightarrow> sub_op \<Rightarrow> SubscriptionManager" where
  "sub_step m x = snd (sub_call m x)"

lemma sub_init_ok: "sub_ok sub_init"
  by (simp add: sub_ok_def sub_init_def counts_ok_def subs_def dget_default_def)

interpretation sub: op_system sub_init sub_step sub_ok
  by unfold_locales
    (use sub_init_ok sub_call_refines in \<open>auto simp: sub_step_def refines_call_def\<close>)

lemma sub_run_subs: "sub_ok m \<Longrightarrow> subs (foldl sub_step m xs) = foldl spec_call (subs m) xs"
proof (induction xs arbitrary: m)
  case (Cons x xs)
  with sub_call_refines [OF Cons.prems, of x] show ?case
    by (simp add: sub_step_def refines_call_def)
qed simp

text \<open>
  C6. After any sequence of calls the manager stands for the relation of strategies and
  symbols the calls describe; the next call reports a symbol as newly subscribed exactly
  when it enters the range of the relation, and as to be unsubscribed exactly when it
  leaves it; each count is the number of strategies that hold the symbol, and the active
  symbols are the range.
\<close>

theorem subscription_refinement:
  "subs (foldl sub_step sub_init xs) = foldl spec_call {} xs \<and>
   refines_call (foldl sub_step sub_init xs) x (sub_call (foldl sub_step sub_init xs) x) \<and>
   set (get_active_symbols (foldl sub_step sub_init xs)) = snd ` foldl spec_call {} xs \<and>
   (\<forall>s. ref_count (foldl sub_step sub_init xs) s = int (card {sid. (sid, s) \<in> foldl spec_call {} xs}))"
proof -
  let ?m = "foldl sub_step sub_init xs"
  have ok: "sub_ok ?m" by (rule sub.reach_inv)
  have s: "subs ?m = foldl spec_call {} xs"
    using sub_run_subs [OF sub_init_ok, of xs]
    by (simp add: sub_init_def subs_def dget_default_def)
  have c: "counts_ok (ref_counts ?m) (foldl spec_call {} xs)" using ok s by (simp add: sub_ok_def)
  have "ref_count ?m t = int (card {sid. (sid, t) \<in> foldl spec_call {} xs})" for t
    using c by (simp add: counts_ok_def ref_count_def dget_default_def Let_def)
  with s sub_call_refines [OF ok] counts_ok_keys [OF c] show ?thesis
    by (simp add: get_active_symbols_def)
qed

end
