(* ===== verification/OrderIds.thy ===== *)
theory OrderIds
  imports PyPrelude
begin

text \<open>
  Model of \<open>src/bt_api_base/gateway/order_identity_map.py\<close>. The three dicts share mutable
  \<open>OrderEntry\<close> objects, so the model has a store of entries and the dicts map identifiers to
  addresses of the store; an entry returned to the caller is its address.
\<close>

section \<open>Entries and operations\<close>

record OrderEntry =
  oe_request_id :: string
  oe_strategy_id :: string
  oe_client_order_id :: "string option"
  oe_venue_order_id :: "string option"
  oe_symbol :: "string option"
  oe_status :: string
  oe_extra :: "(string, string) dict"

record OrderIdentityMap =
  om_store :: "OrderEntry list"
  om_by_request :: "(string, nat) dict"
  om_by_client :: "(string, nat) dict"
  om_by_venue :: "(string, nat) dict"

definition om_init :: OrderIdentityMap where
  "om_init = \<lparr>om_store = [], om_by_request = [], om_by_client = [], om_by_venue = []\<rparr>"

definition index_if :: "string option \<Rightarrow> nat \<Rightarrow> (string, nat) dict \<Rightarrow> (string, nat) dict" where
  "index_if oid a d = (if truthy_str oid then dset (the oid) a d else d)"

definition om_register ::
    "OrderIdentityMap \<Rightarrow> string \<Rightarrow> string \<Rightarrow> string option \<Rightarrow> string option \<Rightarrow> string option
     \<Rightarrow> (string, string) dict \<Rightarrow> nat \<times> OrderIdentityMap" where
  "om_register m request_id strategy_id client_order_id venue_order_id symbol extra =
     (let a = length (om_store m);
          entry = \<lparr>oe_request_id = request_id, oe_strategy_id = strategy_id,
                   oe_client_order_id = client_order_id, oe_venue_order_id = venue_order_id,
                   oe_symbol = symbol, oe_status = ''pending'', oe_extra = extra\<rparr>
      in (a, \<lparr>om_store = om_store m @ [entry],
              om_by_request = dset request_id a (om_by_request m),
              om_by_client = index_if client_order_id a (om_by_client m),
              om_by_venue = index_if venue_order_id a (om_by_venue m)\<rparr>))"

definition om_update :: "nat \<Rightarrow> (OrderEntry \<Rightarrow> OrderEntry) \<Rightarrow> OrderIdentityMap \<Rightarrow> OrderIdentityMap" where
  "om_update a f m = m\<lparr>om_store := (om_store m)[a := f (om_store m ! a)]\<rparr>"

definition set_client_order_id ::
    "OrderIdentityMap \<Rightarrow> string \<Rightarrow> string \<Rightarrow> nat option \<times> OrderIdentityMap" where
  "set_client_order_id m request_id oid =
     (case dget (om_by_request m) request_id of
        None \<Rightarrow> (None, m)
      | Some a \<Rightarrow>
          (Some a, (om_update a (\<lambda>e. e\<lparr>oe_client_order_id := Some oid\<rparr>) m)
                     \<lparr>om_by_client := dset oid a (om_by_client m)\<rparr>))"

definition set_venue_order_id ::
    "OrderIdentityMap \<Rightarrow> string \<Rightarrow> string \<Rightarrow> nat option \<times> OrderIdentityMap" where
  "set_venue_order_id m request_id oid =
     (case dget (om_by_request m) request_id of
        None \<Rightarrow> (None, m)
      | Some a \<Rightarrow>
          (Some a, (om_update a (\<lambda>e. e\<lparr>oe_venue_order_id := Some oid\<rparr>) m)
                     \<lparr>om_by_venue := dset oid a (om_by_venue m)\<rparr>))"

definition set_venue_order_id_by_client ::
    "OrderIdentityMap \<Rightarrow> string \<Rightarrow> string \<Rightarrow> nat option \<times> OrderIdentityMap" where
  "set_venue_order_id_by_client m client_order_id oid =
     (case dget (om_by_client m) client_order_id of
        None \<Rightarrow> (None, m)
      | Some a \<Rightarrow>
          (Some a, (om_update a (\<lambda>e. e\<lparr>oe_venue_order_id := Some oid\<rparr>) m)
                     \<lparr>om_by_venue := dset oid a (om_by_venue m)\<rparr>))"

definition om_update_status ::
    "OrderIdentityMap \<Rightarrow> string \<Rightarrow> string \<Rightarrow> nat option \<times> OrderIdentityMap" where
  "om_update_status m request_id status =
     (case dget (om_by_request m) request_id of
        None \<Rightarrow> (None, m)
      | Some a \<Rightarrow> (Some a, om_update a (\<lambda>e. e\<lparr>oe_status := status\<rparr>) m))"

definition om_entry :: "OrderIdentityMap \<Rightarrow> nat option \<Rightarrow> OrderEntry option" where
  "om_entry m = map_option (\<lambda>a. om_store m ! a)"

definition by_request :: "OrderIdentityMap \<Rightarrow> string \<Rightarrow> OrderEntry option" where
  "by_request m request_id = om_entry m (dget (om_by_request m) request_id)"

definition by_client :: "OrderIdentityMap \<Rightarrow> string \<Rightarrow> OrderEntry option" where
  "by_client m oid = om_entry m (dget (om_by_client m) oid)"

definition by_venue :: "OrderIdentityMap \<Rightarrow> string \<Rightarrow> OrderEntry option" where
  "by_venue m oid = om_entry m (dget (om_by_venue m) oid)"

definition strategy_for_request :: "OrderIdentityMap \<Rightarrow> string \<Rightarrow> string option" where
  "strategy_for_request m request_id = map_option oe_strategy_id (by_request m request_id)"

definition strategy_for_venue :: "OrderIdentityMap \<Rightarrow> string \<Rightarrow> string option" where
  "strategy_for_venue m oid = map_option oe_strategy_id (by_venue m oid)"

definition pop_if :: "string option \<Rightarrow> (string, nat) dict \<Rightarrow> (string, nat) dict" where
  "pop_if oid d = (if truthy_str oid then dpop (the oid) d else d)"

definition om_remove :: "OrderIdentityMap \<Rightarrow> string \<Rightarrow> nat option \<times> OrderIdentityMap" where
  "om_remove m request_id =
     (case dget (om_by_request m) request_id of
        None \<Rightarrow> (None, m)
      | Some a \<Rightarrow>
          (let e = om_store m ! a
           in (Some a, m\<lparr>om_by_request := dpop request_id (om_by_request m),
                         om_by_client := pop_if (oe_client_order_id e) (om_by_client m),
                         om_by_venue := pop_if (oe_venue_order_id e) (om_by_venue m)\<rparr>)))"

definition orders_for_strategy :: "OrderIdentityMap \<Rightarrow> string \<Rightarrow> OrderEntry list" where
  "orders_for_strategy m strategy_id =
     filter (\<lambda>e. oe_strategy_id e = strategy_id) (map (\<lambda>a. om_store m ! a) (dvalues (om_by_request m)))"

definition om_count :: "OrderIdentityMap \<Rightarrow> nat" where
  "om_count m = length (om_by_request m)"

datatype om_op =
    Register string string "string option" "string option" "string option" "(string, string) dict"
  | SetClient string string
  | SetVenue string string
  | SetVenueByClient string string
  | UpdateStatus string string
  | RemoveOrder string

fun om_step :: "OrderIdentityMap \<Rightarrow> om_op \<Rightarrow> OrderIdentityMap" where
  "om_step m (Register r s c v sy ex) = snd (om_register m r s c v sy ex)"
| "om_step m (SetClient r c) = snd (set_client_order_id m r c)"
| "om_step m (SetVenue r v) = snd (set_venue_order_id m r v)"
| "om_step m (SetVenueByClient c v) = snd (set_venue_order_id_by_client m c v)"
| "om_step m (UpdateStatus r st) = snd (om_update_status m r st)"
| "om_step m (RemoveOrder r) = snd (om_remove m r)"

section \<open>What always holds\<close>

definition om_ok :: "OrderIdentityMap \<Rightarrow> bool" where
  "om_ok m \<longleftrightarrow> dict_ok (om_by_request m) \<and> dict_ok (om_by_client m) \<and> dict_ok (om_by_venue m) \<and>
     (\<forall>r a. dget (om_by_request m) r = Some a \<longrightarrow>
        a < length (om_store m) \<and> oe_request_id (om_store m ! a) = r) \<and>
     (\<forall>c a. dget (om_by_client m) c = Some a \<longrightarrow> a < length (om_store m)) \<and>
     (\<forall>v a. dget (om_by_venue m) v = Some a \<longrightarrow> a < length (om_store m))"

lemma om_update_simps [simp]:
  "om_by_request (om_update a f m) = om_by_request m"
  "om_by_client (om_update a f m) = om_by_client m"
  "om_by_venue (om_update a f m) = om_by_venue m"
  "length (om_store (om_update a f m)) = length (om_store m)"
  by (simp_all add: om_update_def)

lemma om_update_nth [simp]:
  "b < length (om_store m) \<Longrightarrow>
   om_store (om_update a f m) ! b = (if b = a then f (om_store m ! a) else om_store m ! b)"
  by (simp add: om_update_def)

lemma dget_index_if [simp]:
  "dget (index_if oid a d) k = (if truthy_str oid \<and> oid = Some k then Some a else dget d k)"
  by (cases oid) (auto simp: index_if_def)

lemma dget_pop_if [simp]:
  "dget (pop_if oid d) k = (if truthy_str oid \<and> oid = Some k then None else dget d k)"
  by (cases oid) (auto simp: pop_if_def)

lemma index_pop_ok [simp]:
  "dict_ok d \<Longrightarrow> dict_ok (index_if oid a d)" "dict_ok d \<Longrightarrow> dict_ok (pop_if oid d)"
  by (simp_all add: index_if_def pop_if_def)

lemmas om_ops = om_register_def set_client_order_id_def set_venue_order_id_def
  set_venue_order_id_by_client_def om_update_status_def om_remove_def Let_def

lemma om_init_ok: "om_ok om_init"
  by (simp add: om_ok_def om_init_def)

lemma om_step_ok:
  assumes "om_ok m" shows "om_ok (om_step m x)"
  using assms
  by (cases x) (auto simp: om_ops om_ok_def nth_append less_SucI split: option.split)

interpretation om: op_system om_init om_step om_ok
  by unfold_locales (simp_all add: om_init_ok om_step_ok)

section \<open>Consistent indices\<close>

text \<open>
  The calls a gateway makes for one order after the other: every identifier is given to one
  order only, and an order gets its client or venue identifier at most once.
\<close>

fun fresh_call :: "OrderIdentityMap \<Rightarrow> om_op \<Rightarrow> bool" where
  "fresh_call m (Register r s c v sy ex) =
     (dget (om_by_request m) r = None \<and>
      (truthy_str c \<longrightarrow> dget (om_by_client m) (the c) = None) \<and>
      (truthy_str v \<longrightarrow> dget (om_by_venue m) (the v) = None))"
| "fresh_call m (SetClient r c) =
     (c \<noteq> [] \<and> dget (om_by_client m) c = None \<and>
      (case dget (om_by_request m) r of None \<Rightarrow> True
       | Some a \<Rightarrow> \<not> truthy_str (oe_client_order_id (om_store m ! a))))"
| "fresh_call m (SetVenue r v) =
     (v \<noteq> [] \<and> dget (om_by_venue m) v = None \<and>
      (case dget (om_by_request m) r of None \<Rightarrow> True
       | Some a \<Rightarrow> \<not> truthy_str (oe_venue_order_id (om_store m ! a))))"
| "fresh_call m (SetVenueByClient c v) =
     (v \<noteq> [] \<and> dget (om_by_venue m) v = None \<and>
      (case dget (om_by_client m) c of None \<Rightarrow> True
       | Some a \<Rightarrow> \<not> truthy_str (oe_venue_order_id (om_store m ! a))))"
| "fresh_call m (UpdateStatus r st) = True"
| "fresh_call m (RemoveOrder r) = True"

fun fresh_run :: "OrderIdentityMap \<Rightarrow> om_op list \<Rightarrow> bool" where
  "fresh_run m [] = True"
| "fresh_run m (x # xs) = (fresh_call m x \<and> fresh_run (om_step m x) xs)"

definition index_ok ::
    "(OrderEntry \<Rightarrow> string option) \<Rightarrow> OrderIdentityMap \<Rightarrow> (string, nat) dict \<Rightarrow> bool" where
  "index_ok oid m d \<longleftrightarrow>
     (\<forall>k a. dget d k = Some a \<longleftrightarrow>
        k \<noteq> [] \<and> oid (om_store m ! a) = Some k \<and> (\<exists>r. dget (om_by_request m) r = Some a))"

definition om_consistent :: "OrderIdentityMap \<Rightarrow> bool" where
  "om_consistent m \<longleftrightarrow> om_ok m \<and> index_ok oe_client_order_id m (om_by_client m) \<and>
     index_ok oe_venue_order_id m (om_by_venue m)"

lemma index_okD:
  "index_ok oid m d \<Longrightarrow> dget d k = Some a \<longleftrightarrow>
     k \<noteq> [] \<and> oid (om_store m ! a) = Some k \<and> (\<exists>r. dget (om_by_request m) r = Some a)"
  by (simp add: index_ok_def)

lemma live_address: "om_ok m \<Longrightarrow> dget (om_by_request m) r = Some a \<Longrightarrow> a < length (om_store m)"
  by (simp add: om_ok_def)

lemma live_unique:
  "om_ok m \<Longrightarrow> dget (om_by_request m) r = Some a \<Longrightarrow> dget (om_by_request m) r' = Some a \<Longrightarrow> r' = r"
  unfolding om_ok_def by metis

lemma index_ok_register:
  assumes ok: "om_ok m" and ix: "index_ok oid m d" and r: "dget (om_by_request m) r = None"
    and fresh: "truthy_str (oid e) \<longrightarrow> dget d (the (oid e)) = None"
    and m': "om_store m' = om_store m @ [e]"
      "om_by_request m' = dset r (length (om_store m)) (om_by_request m)"
  shows "index_ok oid m' (index_if (oid e) (length (om_store m)) d)"
  unfolding index_ok_def
proof (intro allI)
  fix k a
  let ?n = "length (om_store m)"
  have live: "(\<exists>x. dget (om_by_request m') x = Some a) \<longleftrightarrow>
      a = ?n \<or> (\<exists>x. dget (om_by_request m) x = Some a)"
    using r unfolding m' dget_dset by (metis option.distinct(1) option.inject)
  have lt: "\<exists>x. dget (om_by_request m) x = Some a \<Longrightarrow> a < ?n" using live_address [OF ok] by blast
  have dlt: "dget d k = Some a \<Longrightarrow> a < ?n" using index_okD [OF ix, of k a] lt by blast
  show "dget (index_if (oid e) ?n d) k = Some a \<longleftrightarrow>
      k \<noteq> [] \<and> oid (om_store m' ! a) = Some k \<and> (\<exists>x. dget (om_by_request m') x = Some a)"
  proof (cases "a = ?n")
    case True
    then have "dget d k \<noteq> Some a" using dlt by auto
    then show ?thesis using True unfolding live by (auto simp: m'(1) truthy_str_def split: option.splits)
  next
    case False
    have "(if truthy_str (oid e) \<and> oid e = Some k then Some ?n else dget d k) = Some a
        \<longleftrightarrow> dget d k = Some a"
      using False fresh by auto
    then show ?thesis
      using False lt index_okD [OF ix, of k a] unfolding live
      by (auto simp: m'(1) nth_append)
  qed
qed

lemma index_ok_keep:
  assumes ok: "om_ok m" and ix: "index_ok oid m d"
    and "om_by_request m' = om_by_request m"
    and "\<And>a. a < length (om_store m) \<Longrightarrow> oid (om_store m' ! a) = oid (om_store m ! a)"
  shows "index_ok oid m' d"
  using ix assms(3,4) live_address [OF ok] unfolding index_ok_def by metis

lemma index_ok_set:
  assumes ok: "om_ok m" and ix: "index_ok oid m d" and r: "dget (om_by_request m) r = Some a"
    and k: "k \<noteq> []" "dget d k = None" and old: "\<not> truthy_str (oid (om_store m ! a))"
    and m': "om_by_request m' = om_by_request m" "oid (om_store m' ! a) = Some k"
      "\<And>b. b \<noteq> a \<Longrightarrow> b < length (om_store m) \<Longrightarrow> oid (om_store m' ! b) = oid (om_store m ! b)"
  shows "index_ok oid m' (dset k a d)"
  unfolding index_ok_def
proof (intro allI)
  fix k' b
  show "dget (dset k a d) k' = Some b \<longleftrightarrow>
      k' \<noteq> [] \<and> oid (om_store m' ! b) = Some k' \<and> (\<exists>x. dget (om_by_request m') x = Some b)"
  proof (cases "b = a")
    case True
    have "dget d k' \<noteq> Some a" using index_okD [OF ix, of k' a] old by (auto simp: truthy_str_def)
    then show ?thesis using True k r m'(1,2) by auto
  next
    case False
    have "dget d k' = Some b \<longleftrightarrow>
        k' \<noteq> [] \<and> oid (om_store m' ! b) = Some k' \<and> (\<exists>x. dget (om_by_request m') x = Some b)"
      using index_okD [OF ix, of k' b] m'(1) m'(3) [OF False] live_address [OF ok] by metis
    moreover have "k' = k \<Longrightarrow> dget d k' \<noteq> Some b" using k by simp
    ultimately show ?thesis using False by auto
  qed
qed

lemma index_ok_remove:
  assumes ok: "om_ok m" and ix: "index_ok oid m d" and r: "dget (om_by_request m) r = Some a"
    and m': "om_store m' = om_store m" "om_by_request m' = dpop r (om_by_request m)"
  shows "index_ok oid m' (pop_if (oid (om_store m ! a)) d)"
  unfolding index_ok_def
proof (intro allI)
  fix k b
  have live: "(\<exists>x. dget (om_by_request m') x = Some b) \<longleftrightarrow>
      b \<noteq> a \<and> (\<exists>x. dget (om_by_request m) x = Some b)"
    using live_unique [OF ok r] r unfolding m'(2) dget_dpop
    by (metis option.distinct(1) option.inject)
  have "dget d k = Some b \<longleftrightarrow> k \<noteq> [] \<and> oid (om_store m ! b) = Some k \<and>
      (\<exists>x. dget (om_by_request m) x = Some b)"
    by (rule index_okD [OF ix])
  moreover have "k \<noteq> [] \<and> oid (om_store m ! a) = Some k \<longrightarrow> dget d k = Some a"
    using index_okD [OF ix, of k a] r by blast
  ultimately show "dget (pop_if (oid (om_store m ! a)) d) k = Some b \<longleftrightarrow>
      k \<noteq> [] \<and> oid (om_store m' ! b) = Some k \<and> (\<exists>x. dget (om_by_request m') x = Some b)"
    unfolding live m'(1) by (auto simp: truthy_str_def split: option.splits)
qed

lemma om_step_consistent:
  assumes c: "om_consistent m" and f: "fresh_call m x"
  shows "om_consistent (om_step m x)"
proof -
  have ok: "om_ok m" and ic: "index_ok oe_client_order_id m (om_by_client m)"
    and iv: "index_ok oe_venue_order_id m (om_by_venue m)"
    using c by (simp_all add: om_consistent_def)
  let ?m = "om_step m x"
  have "index_ok oe_client_order_id ?m (om_by_client ?m) \<and>
      index_ok oe_venue_order_id ?m (om_by_venue ?m)"
  proof (cases x)
    case (Register r s c v sy ex)
    let ?e = "\<lparr>oe_request_id = r, oe_strategy_id = s, oe_client_order_id = c, oe_venue_order_id = v,
        oe_symbol = sy, oe_status = ''pending'', oe_extra = ex\<rparr>"
    show ?thesis
      using index_ok_register [OF ok ic, of r ?e ?m] index_ok_register [OF ok iv, of r ?e ?m] f Register
      by (simp add: om_register_def Let_def)
  next
    case (SetClient r k)
    show ?thesis
    proof (cases "dget (om_by_request m) r")
      case (Some a)
      note lt = live_address [OF ok Some]
      show ?thesis
        using index_ok_set [OF ok ic Some, of k ?m] index_ok_keep [OF ok iv, of ?m] f SetClient Some lt
        by (simp add: set_client_order_id_def)
    qed (use ic iv SetClient in \<open>simp add: set_client_order_id_def\<close>)
  next
    case (SetVenue r k)
    show ?thesis
    proof (cases "dget (om_by_request m) r")
      case (Some a)
      note lt = live_address [OF ok Some]
      show ?thesis
        using index_ok_set [OF ok iv Some, of k ?m] index_ok_keep [OF ok ic, of ?m] f SetVenue Some lt
        by (simp add: set_venue_order_id_def)
    qed (use ic iv SetVenue in \<open>simp add: set_venue_order_id_def\<close>)
  next
    case (SetVenueByClient k v)
    show ?thesis
    proof (cases "dget (om_by_client m) k")
      case (Some a)
      with index_okD [OF ic, of k a] obtain r where r: "dget (om_by_request m) r = Some a" by blast
      note lt = live_address [OF ok r]
      show ?thesis
        using index_ok_set [OF ok iv r, of v ?m] index_ok_keep [OF ok ic, of ?m] f
          SetVenueByClient Some lt
        by (simp add: set_venue_order_id_by_client_def)
    qed (use ic iv SetVenueByClient in \<open>simp add: set_venue_order_id_by_client_def\<close>)
  next
    case (UpdateStatus r st)
    show ?thesis
    proof (cases "dget (om_by_request m) r")
      case (Some a)
      then show ?thesis
        using index_ok_keep [OF ok ic, of ?m] index_ok_keep [OF ok iv, of ?m] UpdateStatus
          live_address [OF ok Some]
        by (simp add: om_update_status_def)
    qed (use ic iv UpdateStatus in \<open>simp add: om_update_status_def\<close>)
  next
    case (RemoveOrder r)
    show ?thesis
    proof (cases "dget (om_by_request m) r")
      case (Some a)
      then show ?thesis
        using index_ok_remove [OF ok ic Some, of ?m] index_ok_remove [OF ok iv Some, of ?m] RemoveOrder
        by (simp add: om_remove_def Let_def)
    qed (use ic iv RemoveOrder in \<open>simp add: om_remove_def\<close>)
  qed
  with om_step_ok [OF ok] show ?thesis by (simp add: om_consistent_def)
qed

lemma om_init_consistent: "om_consistent om_init"
  by (simp add: om_consistent_def om_ok_def index_ok_def om_init_def)

lemma fresh_run_consistent:
  "om_consistent m \<Longrightarrow> fresh_run m xs \<Longrightarrow> om_consistent (foldl om_step m xs)"
  by (induction xs arbitrary: m) (auto intro: om_step_consistent)

lemma index_entry:
  assumes "om_ok m" "index_ok oid m d"
  shows "om_entry m (dget d k) = Some e \<longleftrightarrow>
    k \<noteq> [] \<and> oid e = Some k \<and> (\<exists>r. by_request m r = Some e)"
proof
  assume "om_entry m (dget d k) = Some e"
  then obtain a where "dget d k = Some a" "om_store m ! a = e" by (auto simp: om_entry_def)
  with index_okD [OF assms(2), of k a]
  show "k \<noteq> [] \<and> oid e = Some k \<and> (\<exists>r. by_request m r = Some e)"
    by (auto simp: by_request_def om_entry_def)
next
  assume *: "k \<noteq> [] \<and> oid e = Some k \<and> (\<exists>r. by_request m r = Some e)"
  then obtain r a where "dget (om_by_request m) r = Some a" "om_store m ! a = e"
    by (auto simp: by_request_def om_entry_def)
  with * index_okD [OF assms(2), of k a] have "dget d k = Some a" by auto
  with \<open>om_store m ! a = e\<close> show "om_entry m (dget d k) = Some e" by (simp add: om_entry_def)
qed



text \<open>
  \<open>remove\<close> drops only the identifiers an order has at that time: after
  \<open>set_client_order_id\<close> has replaced the client identifier of an order, removing the order
  leaves the old identifier pointing to it.
\<close>

theorem remove_leaves_old_client_id:
  fixes r s :: string and sy :: "string option" and ex :: "(string, string) dict"
  assumes "c1 \<noteq> []" "c2 \<noteq> c1"
  defines "m \<equiv> foldl om_step om_init
    [Register r s (Some c1) None sy ex, SetClient r c2, RemoveOrder r]"
  shows "by_request m r = None \<and> map_option oe_request_id (by_client m c1) = Some r"
  using assms
  by (simp add: om_ops by_request_def by_client_def om_entry_def om_init_def om_update_def
      index_if_def pop_if_def)

theorem remove_leaves_old_client_id_witness:
  "map_option oe_request_id (by_client (foldl om_step om_init
     [Register ''r'' ''s'' (Some ''a'') None None [], SetClient ''r'' ''b'', RemoveOrder ''r'']) ''a'')
   = Some ''r''"
  by (rule remove_leaves_old_client_id [THEN conjunct2]) simp_all

end
