(* ===== verification/PyVal.thy ===== *)
theory PyVal
  imports PyPrelude
begin

text \<open>
  Dynamic Python values as they come out of JSON and configuration payloads, their truth
  value, and the conversions \<open>int(x)\<close> and \<open>str(n)\<close> the sources apply to them. Finite floats
  are rationals; infinities and NaN are separate, since \<open>int\<close> and comparisons treat them
  differently. \<open>int\<close> of a string accepts ASCII digits with an optional sign, surrounding
  white space and single underscores between digits.
\<close>

datatype pyval =
    PNone | PBool bool | PInt int | PFloat rat | PInf bool | PNan | PStr string
  | PList "pyval list" | PDict "(string \<times> pyval) list"

datatype pyerr =
    TypeError | ValueError | OverflowError | KeyError | AttributeError | RuntimeError
  | TimeoutError | OSError | LookupError | ConnectionErr

type_synonym 'a py = "pyerr + 'a"

section \<open>Truth value\<close>

fun truthy :: "pyval \<Rightarrow> bool" where
  "truthy PNone = False"
| "truthy (PBool b) = b"
| "truthy (PInt i) = (i \<noteq> 0)"
| "truthy (PFloat r) = (r \<noteq> 0)"
| "truthy (PInf s) = True"
| "truthy PNan = True"
| "truthy (PStr s) = (s \<noteq> [])"
| "truthy (PList xs) = (xs \<noteq> [])"
| "truthy (PDict d) = (d \<noteq> [])"

text \<open>\<open>x or y\<close>\<close>

definition py_or :: "pyval \<Rightarrow> pyval \<Rightarrow> pyval" where
  "py_or x y = (if truthy x then x else y)"

section \<open>Decimal numerals\<close>

definition digit_char :: "nat \<Rightarrow> char" where
  "digit_char d = char_of (48 + d)"

definition digit_val :: "char \<Rightarrow> nat option" where
  "digit_val c = (let n = of_char c :: nat in if 48 \<le> n \<and> n \<le> 57 then Some (n - 48) else None)"

fun show_nat :: "nat \<Rightarrow> string" where
  "show_nat n = (if n < 10 then [digit_char n] else show_nat (n div 10) @ [digit_char (n mod 10)])"

declare show_nat.simps [simp del]

definition show_int :: "int \<Rightarrow> string" where
  "show_int i = (if i < 0 then ''-'' @ show_nat (nat (- i)) else show_nat (nat i))"

text \<open>The digits read so far, and whether the last character was one.\<close>

fun read_digits :: "nat \<Rightarrow> bool \<Rightarrow> string \<Rightarrow> nat option" where
  "read_digits n after_digit [] = (if after_digit then Some n else None)"
| "read_digits n after_digit (c # cs) =
     (case digit_val c of
        Some d \<Rightarrow> read_digits (10 * n + d) True cs
      | None \<Rightarrow> if c = CHR ''_'' \<and> after_digit then read_digits n False cs else None)"

definition py_space :: "char \<Rightarrow> bool" where
  "py_space c \<longleftrightarrow> (let n = of_char c :: nat in n = 32 \<or> (9 \<le> n \<and> n \<le> 13) \<or> (28 \<le> n \<and> n \<le> 31))"

definition py_strip :: "string \<Rightarrow> string" where
  "py_strip s = rev (dropWhile py_space (rev (dropWhile py_space s)))"

definition int_of_str :: "string \<Rightarrow> int py" where
  "int_of_str s =
     (case (case py_strip s of
              [] \<Rightarrow> None
            | c # cs \<Rightarrow>
                if c = CHR ''-'' then map_option (\<lambda>n. - int n) (read_digits 0 False cs)
                else if c = CHR ''+'' then map_option int (read_digits 0 False cs)
                else map_option int (read_digits 0 False (c # cs))) of
        None \<Rightarrow> Inl ValueError
      | Some i \<Rightarrow> Inr i)"

text \<open>\<open>str.upper\<close> and \<open>str.lower\<close> on ASCII.\<close>

definition upper_char :: "char \<Rightarrow> char" where
  "upper_char c = (let n = of_char c :: nat in if 97 \<le> n \<and> n \<le> 122 then char_of (n - 32) else c)"

definition lower_char :: "char \<Rightarrow> char" where
  "lower_char c = (let n = of_char c :: nat in if 65 \<le> n \<and> n \<le> 90 then char_of (n + 32) else c)"

definition py_upper :: "string \<Rightarrow> string" where
  "py_upper s = map upper_char s"

definition py_lower :: "string \<Rightarrow> string" where
  "py_lower s = map lower_char s"

text \<open>\<open>int(x)\<close>: floats are cut off towards zero.\<close>

fun py_int :: "pyval \<Rightarrow> int py" where
  "py_int PNone = Inl TypeError"
| "py_int (PBool b) = Inr (if b then 1 else 0)"
| "py_int (PInt i) = Inr i"
| "py_int (PFloat r) = Inr (if r < 0 then - \<lfloor>- r\<rfloor> else \<lfloor>r\<rfloor>)"
| "py_int (PInf s) = Inl OverflowError"
| "py_int PNan = Inl ValueError"
| "py_int (PStr s) = int_of_str s"
| "py_int (PList xs) = Inl TypeError"
| "py_int (PDict d) = Inl TypeError"

section \<open>Printing and reading integers\<close>

lemma digit_val_char [simp]: "d < 10 \<Longrightarrow> digit_val (digit_char d) = Some d"
  by (simp add: digit_val_def digit_char_def Let_def)

lemma read_digits_show:
  "read_digits 0 False (show_nat n @ s) = read_digits n True s"
proof (induction n arbitrary: s rule: less_induct)
  case (less n)
  show ?case
  proof (cases "n < 10")
    case True
    then show ?thesis by (simp add: show_nat.simps)
  next
    case False
    then have "read_digits 0 False (show_nat n @ s) =
        read_digits 0 False (show_nat (n div 10) @ digit_char (n mod 10) # s)"
      by (subst show_nat.simps) simp
    also have "\<dots> = read_digits (10 * (n div 10) + n mod 10) True s"
      using less [of "n div 10"] False by simp
    finally show ?thesis by simp
  qed
qed

lemma show_nat_digits: "c \<in> set (show_nat n) \<Longrightarrow> \<exists>d<10. c = digit_char d"
proof (induction n rule: less_induct)
  case (less n)
  show ?case
  proof (cases "n < 10")
    case True
    then show ?thesis using less.prems by (auto simp: show_nat.simps)
  next
    case False
    then have "c \<in> set (show_nat (n div 10)) \<or> c = digit_char (n mod 10)"
      using less.prems by (subst (asm) show_nat.simps) auto
    then show ?thesis
    proof
      assume "c \<in> set (show_nat (n div 10))"
      then show ?thesis using less.IH [of "n div 10"] False by simp
    qed (auto intro: exI [of _ "n mod 10"])
  qed
qed

lemma show_nat_nonempty: "show_nat n \<noteq> []"
  by (subst show_nat.simps) simp

lemma digit_char_plain:
  assumes "d < 10"
  shows "\<not> py_space (digit_char d)" "digit_char d \<noteq> CHR ''-''" "digit_char d \<noteq> CHR ''+''"
    "digit_char d \<noteq> CHR '':''" "digit_char d \<noteq> CHR ''/''"
proof -
  have d: "of_char (digit_char d) = (48 + d :: nat)" using assms by (simp add: digit_char_def)
  show "\<not> py_space (digit_char d)" using assms by (simp add: py_space_def d)
  have "c = digit_char d \<Longrightarrow> of_char c = (48 + d :: nat)" for c using d by simp
  then show "digit_char d \<noteq> CHR ''-''" "digit_char d \<noteq> CHR ''+''"
    "digit_char d \<noteq> CHR '':''" "digit_char d \<noteq> CHR ''/''"
    using assms by (force simp: of_char_def)+
qed

lemma py_strip_id:
  assumes "s \<noteq> []" "\<not> py_space (hd s)" "\<not> py_space (last s)" shows "py_strip s = s"
proof -
  have "dropWhile py_space s = s" using assms(1,2) by (cases s) auto
  moreover have "dropWhile py_space (rev s) = rev s"
    using assms(1,3) by (cases s rule: rev_cases) auto
  ultimately show ?thesis by (simp add: py_strip_def)
qed

lemma int_of_str_show: "int_of_str (show_int i) = Inr i"
proof -
  let ?s = "show_nat (nat \<bar>i\<bar>)"
  have s: "?s \<noteq> []" "read_digits 0 False ?s = Some (nat \<bar>i\<bar>)"
    using read_digits_show [of _ "[]"] show_nat_nonempty by auto
  obtain c cs where cs: "?s = c # cs" using s(1) by (cases ?s) auto
  have "c \<in> set ?s" using cs by simp
  then obtain d where d: "d < 10" "c = digit_char d" using show_nat_digits by blast
  have "last ?s \<in> set ?s" using s(1) by simp
  then obtain e where e: "e < 10" "last ?s = digit_char e" using show_nat_digits by blast
  have strip: "py_strip ?s = ?s" "py_strip (CHR ''-'' # ?s) = CHR ''-'' # ?s"
    using s(1) cs d e digit_char_plain(1) by (auto intro!: py_strip_id simp: py_space_def)
  show ?thesis
  proof (cases "i < 0")
    case True
    then show ?thesis using strip(2) s(2) by (simp add: int_of_str_def show_int_def)
  next
    case False
    then have "show_int i = ?s" by (simp add: show_int_def)
    then show ?thesis
      using False strip(1) s(2) cs d digit_char_plain [OF d(1)] by (simp add: int_of_str_def)
  qed
qed

section \<open>Case and white space\<close>

lemma upper_char_idem [simp]: "upper_char (upper_char c) = upper_char c"
  by (auto simp: upper_char_def Let_def mod_if)

lemma lower_char_idem [simp]: "lower_char (lower_char c) = lower_char c"
  by (simp add: lower_char_def Let_def)

lemma py_upper_idem [simp]: "py_upper (py_upper s) = py_upper s"
  by (simp add: py_upper_def)

lemma py_lower_idem [simp]: "py_lower (py_lower s) = py_lower s"
  by (simp add: py_lower_def)

lemma py_space_upper [simp]: "py_space (upper_char c) = py_space c"
  by (auto simp: upper_char_def py_space_def Let_def)

lemma py_space_lower [simp]: "py_space (lower_char c) = py_space c"
  by (auto simp: lower_char_def py_space_def Let_def)

lemma dropWhile_space_map:
  "(\<And>c. py_space (f c) = py_space c) \<Longrightarrow> dropWhile py_space (map f s) = map f (dropWhile py_space s)"
  by (induction s) auto

lemma py_strip_map: "(\<And>c. py_space (f c) = py_space c) \<Longrightarrow> py_strip (map f s) = map f (py_strip s)"
  by (simp add: py_strip_def dropWhile_space_map rev_map)

lemma py_strip_upper: "py_strip (py_upper s) = py_upper (py_strip s)"
  by (simp add: py_upper_def py_strip_map)

lemma py_strip_lower: "py_strip (py_lower s) = py_lower (py_strip s)"
  by (simp add: py_lower_def py_strip_map)

lemma last_dropWhile: "dropWhile P s \<noteq> [] \<Longrightarrow> last (dropWhile P s) = last s"
  by (induction s) auto

lemma py_strip_idem [simp]: "py_strip (py_strip s) = py_strip s"
proof (cases "py_strip s = []")
  case False
  let ?d = "dropWhile py_space s"
  have rs: "rev (py_strip s) = dropWhile py_space (rev ?d)" by (simp add: py_strip_def)
  then have ne: "dropWhile py_space (rev ?d) \<noteq> []" using False
    by (metis rev_is_Nil_conv)
  have l: "\<not> py_space (last (py_strip s))"
    using hd_dropWhile [OF ne] by (simp add: rs [symmetric] hd_rev)
  have "last (dropWhile py_space (rev ?d)) = last (rev ?d)" by (rule last_dropWhile [OF ne])
  then have "hd (py_strip s) = hd ?d" by (simp add: rs [symmetric] last_rev)
  moreover have "?d \<noteq> []" using ne by (metis dropWhile.simps(1) rev.simps(1))
  then have "\<not> py_space (hd ?d)" by (rule hd_dropWhile)
  ultimately show ?thesis using False l by (intro py_strip_id) auto
next
  case True
  moreover have "py_strip [] = []" by (simp add: py_strip_def)
  ultimately show ?thesis by (simp only:)
qed

end
