(* ===== verification/OrderRefs.thy ===== *)
theory OrderRefs
  imports PyVal
begin

text \<open>
  Model of \<open>src/bt_api_base/gateway/order_ref_allocator.py\<close>, the allocator of order
  references that survives restarts through a JSON state file. The file is represented by
  what reading and decoding it gives; each persist takes a flag that says whether the
  directory could be created and the temporary file written and moved into place.
\<close>

section \<open>The state file\<close>

datatype state_file = Absent | Unreadable | BadUtf8 | BadJson | Json pyval

definition state_key :: string where
  "state_key = ''last_order_ref''"

text \<open>
  \<open>_load\<close>: every error it names keeps the current value; \<open>int\<close> of an infinite float raises
  \<open>OverflowError\<close>, which it does not name.
\<close>

definition oa_load :: "state_file \<Rightarrow> int \<Rightarrow> int py" where
  "oa_load file v =
     (case file of
        Absent \<Rightarrow> Inr v
      | Unreadable \<Rightarrow> Inr v
      | BadUtf8 \<Rightarrow> Inr v
      | BadJson \<Rightarrow> Inr v
      | Json (PDict d) \<Rightarrow>
          (case py_int (py_or (dget_default d state_key (PInt 0)) (PInt 0)) of
             Inr saved \<Rightarrow> Inr (if v < saved then saved else v)
           | Inl e \<Rightarrow> if e \<in> {TypeError, ValueError, OSError} then Inr v else Inl e)
      | Json _ \<Rightarrow> Inr v)"

text \<open>
  \<open>_persist_locked\<close>: what was read is kept and the reference replaced. A file that cannot
  be read or parsed counts as empty; one that is not UTF-8 raises \<open>UnicodeDecodeError\<close>, a
  \<open>ValueError\<close> that only the outer handler catches, so nothing is written.
\<close>

definition existing_state :: "state_file \<Rightarrow> (string \<times> pyval) list py" where
  "existing_state file =
     (case file of
        Absent \<Rightarrow> Inr []
      | Unreadable \<Rightarrow> Inr []
      | BadUtf8 \<Rightarrow> Inl ValueError
      | BadJson \<Rightarrow> Inr []
      | Json (PDict d) \<Rightarrow> Inr d
      | Json _ \<Rightarrow> Inr [])"

definition oa_persist :: "bool \<Rightarrow> int \<Rightarrow> state_file \<Rightarrow> state_file" where
  "oa_persist writable v file =
     (case existing_state file of
        Inl e \<Rightarrow> file
      | Inr d \<Rightarrow> if writable then Json (PDict (dset state_key (PInt v) d)) else file)"

section \<open>The allocator\<close>

record OrderRefAllocator =
  oa_value :: int
  oa_file :: state_file

definition oa_init :: "int \<Rightarrow> state_file \<Rightarrow> OrderRefAllocator py" where
  "oa_init initial_value file =
     (case oa_load file initial_value of
        Inl e \<Rightarrow> Inl e
      | Inr v \<Rightarrow> Inr \<lparr>oa_value = v, oa_file = file\<rparr>)"

definition oa_next :: "bool \<Rightarrow> OrderRefAllocator \<Rightarrow> string \<times> OrderRefAllocator" where
  "oa_next writable a =
     (let v = oa_value a + 1
      in (show_int v, \<lparr>oa_value = v, oa_file = oa_persist writable v (oa_file a)\<rparr>))"

definition oa_current :: "OrderRefAllocator \<Rightarrow> int" where
  "oa_current a = oa_value a"

definition align_with_max :: "bool \<Rightarrow> pyval \<Rightarrow> OrderRefAllocator \<Rightarrow> OrderRefAllocator py" where
  "align_with_max writable max_order_ref a =
     (case py_int max_order_ref of
        Inl e \<Rightarrow> Inl e
      | Inr m \<Rightarrow>
          (let v = (if oa_value a < m then m else oa_value a)
           in Inr \<lparr>oa_value = v, oa_file = oa_persist writable v (oa_file a)\<rparr>))"

definition oa_reset :: "bool \<Rightarrow> int \<Rightarrow> OrderRefAllocator \<Rightarrow> OrderRefAllocator" where
  "oa_reset writable v a = \<lparr>oa_value = v, oa_file = oa_persist writable v (oa_file a)\<rparr>"

section \<open>References over restarts\<close>

text \<open>
  A life of the gateway: it allocates references, aligns with the counter's maximum, and is
  restarted with the same initial value. The run returns the references issued.
\<close>

datatype oa_op = Next bool | Align bool pyval | Restart

fun oa_run ::
    "int \<Rightarrow> OrderRefAllocator \<Rightarrow> oa_op list \<Rightarrow> string list \<times> OrderRefAllocator py" where
  "oa_run i a [] = ([], Inr a)"
| "oa_run i a (Next w # xs) =
     (case oa_next w a of (r, a') \<Rightarrow> (case oa_run i a' xs of (rs, res) \<Rightarrow> (r # rs, res)))"
| "oa_run i a (Align w m # xs) =
     (case align_with_max w m a of Inl e \<Rightarrow> oa_run i a xs | Inr a' \<Rightarrow> oa_run i a' xs)"
| "oa_run i a (Restart # xs) =
     (case oa_init i (oa_file a) of Inl e \<Rightarrow> ([], Inl e) | Inr a' \<Rightarrow> oa_run i a' xs)"

fun persists :: "oa_op \<Rightarrow> bool" where
  "persists (Next w) = w"
| "persists (Align w m) = w"
| "persists Restart = True"

text \<open>\<open>durable i a\<close>: a restart does not lower the value.\<close>

definition durable :: "int \<Rightarrow> OrderRefAllocator \<Rightarrow> bool" where
  "durable i a \<longleftrightarrow> oa_load (oa_file a) i = Inr (oa_value a) \<and> oa_file a \<noteq> BadUtf8"

lemma persist_durable:
  assumes "durable i a" "oa_value a \<le> v"
  shows "durable i \<lparr>oa_value = v, oa_file = oa_persist True v (oa_file a)\<rparr>"
proof -
  have "f \<noteq> BadUtf8 \<Longrightarrow> \<exists>d. existing_state f = Inr d" for f
    by (simp add: existing_state_def split: state_file.split pyval.split)
  then obtain d where d: "existing_state (oa_file a) = Inr d"
    using assms(1) unfolding durable_def by blast
  have "i \<le> oa_value a"
    using assms(1)
    by (auto simp: durable_def oa_load_def split: state_file.splits pyval.splits sum.splits if_splits)
  with assms(2) have "i \<le> v" by simp
  moreover have "py_int (py_or (PInt v) (PInt 0)) = Inr v" by (simp add: py_or_def)
  ultimately show ?thesis
    using d by (simp add: durable_def oa_persist_def oa_load_def dget_default_def)
qed

lemma init_durable: "oa_init i file = Inr a \<Longrightarrow> file \<noteq> BadUtf8 \<Longrightarrow> durable i a"
  by (auto simp: oa_init_def durable_def split: sum.splits)

lemma run_increases:
  "durable i a \<Longrightarrow> list_all persists xs \<Longrightarrow>
   \<exists>vs. fst (oa_run i a xs) = map show_int vs \<and> sorted_wrt (<) vs \<and> (\<forall>v \<in> set vs. oa_value a < v) \<and>
     (\<exists>a'. snd (oa_run i a xs) = Inr a')"
proof (induction i a xs rule: oa_run.induct)
  case (1 i a)
  show ?case by (intro exI [of _ "[]"]) simp
next
  case (2 i a w xs)
  let ?a = "\<lparr>oa_value = oa_value a + 1, oa_file = oa_persist True (oa_value a + 1) (oa_file a)\<rparr>"
  have w: "w" using "2.prems" by simp
  have "durable i ?a" using "2.prems"(1) by (rule persist_durable) simp
  moreover have next_a: "oa_next w a = (show_int (oa_value a + 1), ?a)"
    using w by (simp add: oa_next_def Let_def)
  ultimately obtain vs a' where "fst (oa_run i ?a xs) = map show_int vs" "sorted_wrt (<) vs"
    "\<forall>v \<in> set vs. oa_value ?a < v" "snd (oa_run i ?a xs) = Inr a'"
    using "2.IH" [OF next_a [symmetric]] "2.prems" by auto
  then show ?case
    by (intro exI [of _ "(oa_value a + 1) # vs"]) (auto simp: next_a split: prod.splits)
next
  case (3 i a w m xs)
  show ?case
  proof (cases "align_with_max w m a")
    case (Inl e)
    with 3 show ?thesis by simp
  next
    case (Inr a1)
    have w: "w" using "3.prems" by simp
    have "durable i a1 \<and> oa_value a \<le> oa_value a1"
      using Inr persist_durable [OF "3.prems"(1)] w
      by (auto simp: align_with_max_def Let_def split: sum.splits if_splits)
    with Inr 3 show ?thesis by fastforce
  qed
next
  case (4 i a xs)
  then have "oa_init i (oa_file a) = Inr a" by (simp add: oa_init_def durable_def)
  with 4 show ?case by simp
qed

text \<open>
  C38. References never repeat. From an allocator started on any state file that is readable
  text, with every persist succeeding, the references issued are the numerals of a strictly
  increasing sequence, over any number of alignments and restarts; no restart fails.
\<close>

theorem order_refs_increase:
  assumes "oa_init i file = Inr a" "file \<noteq> BadUtf8" "list_all persists xs"
  shows "\<exists>vs. fst (oa_run i a xs) = map show_int vs \<and> sorted_wrt (<) vs \<and>
    (\<forall>v \<in> set vs. oa_value a < v) \<and> (\<exists>a'. snd (oa_run i a xs) = Inr a')"
  using run_increases [OF init_durable [OF assms(1,2)] assms(3)] .

theorem order_refs_increase_witness:
  "\<exists>vs. fst (oa_run 0 \<lparr>oa_value = 7, oa_file = Json (PDict [(state_key, PStr ''7'')])\<rparr>
       [Next True, Restart, Next True, Align True (PStr ''20''), Restart, Next True]) = map show_int vs
     \<and> sorted_wrt (<) vs \<and> (\<forall>v \<in> set vs. 7 < v)"
proof -
  have "int_of_str ''7'' = Inr 7"
    by (simp add: int_of_str_def py_strip_def py_space_def digit_val_def)
  then have "oa_init 0 (Json (PDict [(state_key, PStr ''7'')])) =
      Inr \<lparr>oa_value = 7, oa_file = Json (PDict [(state_key, PStr ''7'')])\<rparr>"
    by (simp add: oa_init_def oa_load_def dget_default_def py_or_def)
  from order_refs_increase [OF this, of "[Next True, Restart, Next True,
      Align True (PStr ''20''), Restart, Next True]"]
  show ?thesis by auto
qed

text \<open>
  A state file that is not UTF-8 is never replaced, unlike one that is not JSON: the
  first reference after a restart is the one issued first before it.
\<close>

theorem bad_utf8_repeats_refs:
  "fst (oa_run i \<lparr>oa_value = i, oa_file = BadUtf8\<rparr> [Next True, Restart, Next True]) =
     [show_int (i + 1), show_int (i + 1)] \<and>
   oa_init i BadUtf8 = Inr \<lparr>oa_value = i, oa_file = BadUtf8\<rparr> \<and>
   fst (oa_run i \<lparr>oa_value = i, oa_file = BadJson\<rparr> [Next True, Restart, Next True]) =
     [show_int (i + 1), show_int (i + 2)]"
proof -
  have "oa_load (Json (PDict [(state_key, PInt (i + 1))])) i = Inr (i + 1)"
    by (auto simp: oa_load_def dget_default_def py_or_def)
  then show ?thesis
    by (simp add: oa_next_def oa_persist_def existing_state_def oa_init_def oa_load_def Let_def
        add.commute)
qed

end
