(* ===== verification/Resilience.thy ===== *)
theory Resilience
  imports PyVal
begin

text \<open>
  Model of \<open>src/bt_api_base/core/async_context.py\<close>: parameter validation, the retry
  decorator and the retry context manager, the circuit breaker (decorator and context
  manager), the timeout decorator and \<open>AsyncRateLimiter\<close>. Exceptions are values \<open>'e\<close> of any
  type; a class of exceptions (\<open>exceptions\<close>, \<open>expected_exception\<close>) is a predicate on them.
  The wrapped coroutine is a function from the number of the attempt to its outcome.
\<close>

section \<open>Validation\<close>

definition validate_positive_number :: "time \<Rightarrow> unit py" where
  "validate_positive_number x = (if x \<le> 0 then Inl ValueError else Inr ())"

definition validate_non_negative_number :: "time \<Rightarrow> unit py" where
  "validate_non_negative_number x = (if x < 0 then Inl ValueError else Inr ())"

definition validate_positive_int :: "int \<Rightarrow> unit py" where
  "validate_positive_int x = (if x \<le> 0 then Inl ValueError else Inr ())"

text \<open>Checks in the order given; the first that fails raises.\<close>

fun first_error :: "unit py list \<Rightarrow> unit py" where
  "first_error [] = Inr ()"
| "first_error (Inl e # cs) = Inl e"
| "first_error (Inr u # cs) = first_error cs"

definition validate_retry :: "int \<Rightarrow> time \<Rightarrow> time \<Rightarrow> unit py" where
  "validate_retry max_attempts delay backoff =
     first_error [validate_positive_int max_attempts, validate_non_negative_number delay,
                  validate_positive_number backoff]"

definition validate_breaker :: "int \<Rightarrow> time \<Rightarrow> unit py" where
  "validate_breaker failure_threshold recovery_timeout =
     first_error [validate_positive_int failure_threshold,
                  validate_non_negative_number recovery_timeout]"

section \<open>Retrying\<close>

text \<open>
  The loop of \<open>async_retry\<close> with \<open>left\<close> attempts to go: the result, the number of calls
  made and the delays slept between them.
\<close>

fun retry_loop ::
    "('e \<Rightarrow> bool) \<Rightarrow> time \<Rightarrow> (nat \<Rightarrow> 'e + 'v) \<Rightarrow> nat \<Rightarrow> nat \<Rightarrow> time \<Rightarrow> time list
     \<Rightarrow> ('e + 'v) option \<times> nat \<times> time list" where
  "retry_loop caught backoff func attempt 0 current_delay sleeps = (None, attempt, sleeps)"
| "retry_loop caught backoff func attempt (Suc left) current_delay sleeps =
     (case func attempt of
        Inr v \<Rightarrow> (Some (Inr v), Suc attempt, sleeps)
      | Inl e \<Rightarrow>
          if \<not> caught e then (Some (Inl e), Suc attempt, sleeps)
          else if left = 0 then (Some (Inl e), Suc attempt, sleeps)
          else retry_loop caught backoff func (Suc attempt) left (current_delay * backoff)
                 (sleeps @ [current_delay]))"

definition async_retry ::
    "('e \<Rightarrow> bool) \<Rightarrow> int \<Rightarrow> time \<Rightarrow> time \<Rightarrow> (nat \<Rightarrow> 'e + 'v) \<Rightarrow> ('e + 'v) option \<times> nat \<times> time list" where
  "async_retry caught max_attempts delay backoff func =
     retry_loop caught backoff func 0 (nat max_attempts) delay []"

text \<open>
  The context manager \<open>AsyncContextManager.retry\<close>: its generator yields once into the body
  of the \<open>async with\<close>. When it catches the body's exception and yields again, \<open>contextlib\<close>
  closes it and raises \<open>RuntimeError\<close>; the body has run once.
\<close>

datatype 'e ctx_error = BodyError 'e | GeneratorDidNotStop

definition retry_context ::
    "('e \<Rightarrow> bool) \<Rightarrow> int \<Rightarrow> time \<Rightarrow> 'e + 'v \<Rightarrow> ('e ctx_error + 'v) \<times> time list" where
  "retry_context caught max_attempts delay body =
     (case body of
        Inr v \<Rightarrow> (Inr v, [])
      | Inl e \<Rightarrow>
          if \<not> caught e \<or> max_attempts \<le> 1 then (Inl (BodyError e), [])
          else (Inl GeneratorDidNotStop, [delay]))"

section \<open>The circuit breaker\<close>

datatype breaker_mode = CLOSED | OPEN | HALF_OPEN

record CircuitState =
  cb_failures :: nat
  cb_last_failure :: "time option"
  cb_state :: breaker_mode

definition cb_new :: CircuitState where
  "cb_new = \<lparr>cb_failures = 0, cb_last_failure = None, cb_state = CLOSED\<rparr>"

definition should_attempt :: "time \<Rightarrow> CircuitState \<Rightarrow> time \<Rightarrow> bool \<times> CircuitState" where
  "should_attempt recovery_timeout s now =
     (case cb_state s of
        CLOSED \<Rightarrow> (True, s)
      | OPEN \<Rightarrow>
          (case cb_last_failure s of
             Some t \<Rightarrow> if recovery_timeout < now - t then (True, s\<lparr>cb_state := HALF_OPEN\<rparr>) else (False, s)
           | None \<Rightarrow> (False, s))
      | HALF_OPEN \<Rightarrow> (True, s))"

definition on_success :: "CircuitState \<Rightarrow> CircuitState" where
  "on_success s = s\<lparr>cb_failures := 0, cb_state := CLOSED\<rparr>"

definition on_failure :: "int \<Rightarrow> CircuitState \<Rightarrow> time \<Rightarrow> CircuitState" where
  "on_failure failure_threshold s now =
     (let s1 = s\<lparr>cb_failures := cb_failures s + 1, cb_last_failure := Some now\<rparr>
      in if failure_threshold \<le> int (cb_failures s1) then s1\<lparr>cb_state := OPEN\<rparr> else s1)"

datatype 'e breaker_error = Raised 'e | BreakerOpen

text \<open>One call of the decorated coroutine, with the readings before and after it.\<close>

definition breaker_call ::
    "('e \<Rightarrow> bool) \<Rightarrow> int \<Rightarrow> time \<Rightarrow> CircuitState \<Rightarrow> 'e + 'v \<Rightarrow> time \<Rightarrow> time
     \<Rightarrow> ('e breaker_error + 'v) \<times> CircuitState" where
  "breaker_call expected threshold recovery s outcome now later =
     (case should_attempt recovery s now of
        (False, s1) \<Rightarrow> (Inl BreakerOpen, s1)
      | (True, s1) \<Rightarrow>
          (case outcome of
             Inr v \<Rightarrow> (Inr v, on_success s1)
           | Inl e \<Rightarrow> (Inl (Raised e), if expected e then on_failure threshold s1 later else s1)))"

text \<open>The context manager makes a new state for every \<open>async with\<close>.\<close>

definition breaker_context ::
    "('e \<Rightarrow> bool) \<Rightarrow> int \<Rightarrow> time \<Rightarrow> 'e + 'v \<Rightarrow> time \<Rightarrow> time \<Rightarrow> 'e breaker_error + 'v" where
  "breaker_context expected threshold recovery outcome now later =
     fst (breaker_call expected threshold recovery cb_new outcome now later)"

text \<open>Calls overlap: admissions and completions of different calls interleave freely.\<close>

datatype cb_event = Admit time | Succeed | Fail time

fun cb_step :: "int \<Rightarrow> time \<Rightarrow> CircuitState \<Rightarrow> cb_event \<Rightarrow> CircuitState" where
  "cb_step threshold recovery s (Admit now) = snd (should_attempt recovery s now)"
| "cb_step threshold recovery s Succeed = on_success s"
| "cb_step threshold recovery s (Fail now) = on_failure threshold s now"

section \<open>The timeout decorator\<close>

text \<open>
  \<open>asyncio.wait_for\<close>: a coroutine that has not finished when the timeout expires is
  cancelled. \<open>duration\<close> is the time the coroutine would take.
\<close>

datatype 'e timeout_error = Inner 'e | TimedOutError

definition async_timeout :: "time \<Rightarrow> time \<Rightarrow> 'e + 'v \<Rightarrow> 'e timeout_error + 'v" where
  "async_timeout timeout_seconds duration outcome =
     (if timeout_seconds \<le> duration then Inl TimedOutError
      else case outcome of Inr v \<Rightarrow> Inr v | Inl e \<Rightarrow> Inl (Inner e))"

section \<open>\<open>AsyncRateLimiter\<close>\<close>

record AsyncRateLimiter =
  ar_max_requests :: int
  ar_time_window :: time
  ar_requests :: "time list"

definition ar_init :: "int \<Rightarrow> time \<Rightarrow> AsyncRateLimiter py" where
  "ar_init max_requests time_window =
     (case first_error [validate_positive_int max_requests, validate_positive_number time_window] of
        Inl e \<Rightarrow> Inl e
      | Inr _ \<Rightarrow> Inr \<lparr>ar_max_requests = max_requests, ar_time_window = time_window, ar_requests = []\<rparr>)"

definition ar_recent :: "AsyncRateLimiter \<Rightarrow> time \<Rightarrow> time list" where
  "ar_recent l now = filter (\<lambda>r. now - r < ar_time_window l) (ar_requests l)"

text \<open>
  \<open>acquire\<close> holds the lock over its sleep; \<open>wake\<close> is the clock reading after the sleep,
  used only when there is one. The result is the sleep made and the time recorded.
\<close>

definition ar_acquire ::
    "AsyncRateLimiter \<Rightarrow> time \<Rightarrow> time \<Rightarrow> time option \<times> time \<times> AsyncRateLimiter" where
  "ar_acquire l now wake =
     (let l1 = l\<lparr>ar_requests := ar_recent l now\<rparr>
      in if ar_max_requests l1 \<le> int (length (ar_requests l1))
         then (let sleep_time = ar_time_window l1 - (now - hd (ar_requests l1))
               in if 0 < sleep_time
                  then (Some sleep_time, wake,
                        l1\<lparr>ar_requests := ar_recent l1 wake @ [wake]\<rparr>)
                  else (None, now, l1\<lparr>ar_requests := ar_requests l1 @ [now]\<rparr>))
         else (None, now, l1\<lparr>ar_requests := ar_requests l1 @ [now]\<rparr>))"

end
