(* ===== verification/ResilienceCorrect.thy ===== *)
theory ResilienceCorrect
  imports Resilience RateLimitContract
begin

text \<open>
  Correctness of \<open>core/async_context.py\<close>: what the retry decorator returns and how long it
  sleeps, the meaning of the circuit breaker's state under any interleaving of calls, the
  bound of \<open>AsyncRateLimiter\<close>, and how the two context managers differ from the decorators.
\<close>

section \<open>Retrying\<close>

definition retries :: "('e \<Rightarrow> bool) \<Rightarrow> 'e + 'v \<Rightarrow> bool" where
  "retries caught r = (case r of Inl e \<Rightarrow> caught e | Inr v \<Rightarrow> False)"

lemma retry_loop_stops:
  assumes "\<forall>i<n. retries caught (func (a + i))" "\<not> retries caught (func (a + n))" "n < left"
  shows "retry_loop caught backoff func a left d sleeps =
    (Some (func (a + n)), a + n + 1, sleeps @ map (\<lambda>i. d * backoff ^ i) [0..<n])"
  using assms
proof (induction n arbitrary: a left d sleeps)
  case 0
  then obtain l where "left = Suc l" by (cases left) auto
  with 0 show ?case by (auto simp: retries_def split: sum.splits)
next
  case (Suc n)
  then obtain l where l: "left = Suc l" "l \<noteq> 0" by (cases left) auto
  obtain e where e: "func a = Inl e" "caught e"
    using Suc.prems(1) [rule_format, of 0] by (auto simp: retries_def split: sum.splits)
  have "map (\<lambda>i. d * backoff ^ i) [0..<Suc n] = d # map (\<lambda>i. d * backoff * backoff ^ i) [0..<n]"
    by (simp add: upt_conv_Cons map_Suc_upt [symmetric] mult.assoc del: upt_Suc)
  moreover have "\<forall>i<n. retries caught (func (Suc a + i))"
    using Suc.prems(1) by (metis Suc_less_eq add_Suc_right add_Suc)
  ultimately show ?case
    using Suc.IH [of "Suc a" l "d * backoff" "sleeps @ [d]"] Suc.prems(2,3) e l by simp
qed

lemma retry_loop_exhausted:
  assumes "\<forall>i<left. retries caught (func (a + i))" "0 < left"
  shows "retry_loop caught backoff func a left d sleeps =
    (Some (func (a + left - 1)), a + left, sleeps @ map (\<lambda>i. d * backoff ^ i) [0..<left - 1])"
  using assms
proof (induction left arbitrary: a d sleeps)
  case (Suc l)
  obtain e where e: "func a = Inl e" "caught e"
    using Suc.prems(1) [rule_format, of 0] by (auto simp: retries_def split: sum.splits)
  show ?case
  proof (cases l)
    case (Suc k)
    have "map (\<lambda>i. d * backoff ^ i) [0..<Suc k] = d # map (\<lambda>i. d * backoff * backoff ^ i) [0..<k]"
      by (simp add: upt_conv_Cons map_Suc_upt [symmetric] mult.assoc del: upt_Suc)
    moreover have "\<forall>i<l. retries caught (func (Suc a + i))"
      using Suc.prems(1) by (metis Suc_less_eq add_Suc_right add_Suc)
    ultimately show ?thesis
      using Suc.IH [of "Suc a" "d * backoff" "sleeps @ [d]"] e Suc by simp
  qed (use e in simp)
qed simp

text \<open>
  \<open>async_retry\<close> calls the coroutine until it first returns or raises something that is
  not to be retried, at most \<open>max_attempts\<close> times, and gives that outcome (the last one when
  all are to be retried); before the attempt \<open>i + 1\<close> it sleeps \<open>delay * backoff ^ i\<close>.
\<close>

theorem async_retry_spec:
  assumes "validate_retry max_attempts delay backoff = Inr ()"
  shows "async_retry caught max_attempts delay backoff func =
    (let m = nat max_attempts - 1;
         n = (if \<forall>i<m. retries caught (func i) then m else (LEAST i. \<not> retries caught (func i)))
     in (Some (func n), n + 1, map (\<lambda>i. delay * backoff ^ i) [0..<n]))"
proof -
  have pos: "0 < nat max_attempts"
    using assms by (auto simp: validate_retry_def validate_positive_int_def split: if_splits)
  then obtain m where m: "nat max_attempts = Suc m" by (cases "nat max_attempts") auto
  have m1: "nat max_attempts - 1 = m" using m by simp
  show ?thesis
  proof (cases "\<forall>i<m. retries caught (func i)")
    case True
    have "async_retry caught max_attempts delay backoff func =
        (Some (func m), m + 1, map (\<lambda>i. delay * backoff ^ i) [0..<m])"
    proof (cases "retries caught (func m)")
      case last: True
      have "\<forall>i<Suc m. retries caught (func (0 + i))" using True last by (simp add: less_Suc_eq)
      from retry_loop_exhausted [OF this, of backoff delay "[]"] show ?thesis
        by (simp add: async_retry_def m del: retry_loop.simps)
    next
      case False
      from retry_loop_stops [of m caught func 0 "Suc m" backoff delay "[]"] True this show ?thesis
        by (simp add: async_retry_def m del: retry_loop.simps)
    qed
    then show ?thesis unfolding Let_def m1 if_P [OF True] .
  next
    case False
    let ?n = "LEAST i. \<not> retries caught (func i)"
    from False obtain i where i: "i < m" "\<not> retries caught (func i)" by blast
    have "\<not> retries caught (func (0 + ?n))" using LeastI [of "\<lambda>i. \<not> retries caught (func i)", OF i(2)] by simp
    moreover have "\<forall>i<?n. retries caught (func (0 + i))" using not_less_Least by auto
    moreover have "?n < Suc m" using i Least_le [of "\<lambda>i. \<not> retries caught (func i)" i] by linarith
    ultimately have "retry_loop caught backoff func 0 (Suc m) delay [] =
        (Some (func (0 + ?n)), 0 + ?n + 1, [] @ map (\<lambda>i. delay * backoff ^ i) [0..<?n])"
      by (intro retry_loop_stops)
    then have "async_retry caught max_attempts delay backoff func =
        (Some (func ?n), ?n + 1, map (\<lambda>i. delay * backoff ^ i) [0..<?n])"
      by (simp only: async_retry_def m add_0 append_Nil)
    then show ?thesis unfolding Let_def m1 if_not_P [OF False] .
  qed
qed

theorem async_retry_spec_witness:
  "async_retry (\<lambda>e. e = ''net'') 4 1 2 (\<lambda>n. if n < 5 then Inl ''net'' else Inr n) =
     (Some (Inl ''net''), 4, [1, 2, 4])"
  by (subst async_retry_spec)
    (simp_all add: validate_retry_def validate_positive_int_def validate_non_negative_number_def
      validate_positive_number_def retries_def eval_nat_numeral)

text \<open>
  The context manager never retries: when the body raises an exception that is to be
  retried and \<open>max_attempts > 1\<close>, it sleeps once and raises an error of its own in place of
  the body's.
\<close>

theorem retry_context_never_retries:
  assumes "caught e" "1 < max_attempts"
  shows "retry_context caught max_attempts delay (Inl e) = (Inl GeneratorDidNotStop, [delay])"
  using assms by (simp add: retry_context_def)

theorem retry_context_never_retries_witness:
  "fst (retry_context (\<lambda>e. True) 3 1 (Inl ''net'' :: string + int)) = Inl GeneratorDidNotStop"
  by (simp add: retry_context_never_retries)

section \<open>The circuit breaker\<close>

text \<open>The ghost state: the failures since the last success and the time of the last one.\<close>

fun cb_trace :: "(nat \<times> time option) \<Rightarrow> cb_event \<Rightarrow> (nat \<times> time option)" where
  "cb_trace (n, t) (Admit now) = (n, t)"
| "cb_trace (n, t) Succeed = (0, t)"
| "cb_trace (n, t) (Fail now) = (n + 1, Some now)"

definition cb_ok :: "int \<Rightarrow> (nat \<times> time option) \<Rightarrow> CircuitState \<Rightarrow> bool" where
  "cb_ok threshold g s \<longleftrightarrow> cb_failures s = fst g \<and> cb_last_failure s = snd g \<and>
     (cb_state s = CLOSED \<longleftrightarrow> int (fst g) < threshold) \<and> (cb_state s \<noteq> CLOSED \<longrightarrow> snd g \<noteq> None)"

lemma cb_step_ok:
  assumes "cb_ok threshold g s" "0 < threshold"
  shows "cb_ok threshold (cb_trace g x) (cb_step threshold recovery s x)"
proof (cases x)
  case (Admit now)
  then show ?thesis
    using assms
    by (cases g) (auto simp: cb_ok_def should_attempt_def split: breaker_mode.splits option.splits)
next
  case Succeed
  then show ?thesis using assms by (cases g) (auto simp: cb_ok_def on_success_def)
next
  case (Fail now)
  then show ?thesis using assms by (cases g) (auto simp: cb_ok_def on_failure_def Let_def)
qed

lemma cb_run_ok:
  assumes "0 < threshold" "cb_ok threshold g s"
  shows "cb_ok threshold (foldl cb_trace g xs) (foldl (cb_step threshold recovery) s xs)"
  using assms(2) by (induction xs arbitrary: g s) (simp_all add: cb_step_ok assms(1))

lemma cb_new_ok: "0 < threshold \<Longrightarrow> cb_ok threshold (0, None) cb_new"
  by (simp add: cb_ok_def cb_new_def)

interpretation cb: op_system "((0, None), cb_new)"
  "\<lambda>(g, s) x. (cb_trace g x, cb_step (int (Suc T)) recovery s x)"
  "\<lambda>(g, s). cb_ok (int (Suc T)) g s" for T recovery
  by unfold_locales (auto simp: cb_new_ok cb_step_ok)

text \<open>
  C23. Under any interleaving of admissions and completions the breaker counts the failures
  since the last success; it is closed exactly while they are fewer than the threshold, and
  otherwise it rejects every call until \<open>recovery_timeout\<close> after the last failure.
\<close>

theorem breaker_state_meaning:
  fixes threshold :: int and recovery :: time
  assumes "0 < threshold" and "foldl cb_trace (0, None) xs = (n, lf)"
  defines "s \<equiv> foldl (cb_step threshold recovery) cb_new xs"
  shows "cb_failures s = n \<and> (cb_state s = CLOSED \<longleftrightarrow> int n < threshold) \<and>
    (cb_state s = OPEN \<longrightarrow>
      (\<exists>t. lf = Some t \<and> (fst (should_attempt recovery s now) \<longleftrightarrow> recovery < now - t)))"
proof -
  have "cb_ok threshold (n, lf) s"
    using cb_run_ok [OF assms(1) cb_new_ok [OF assms(1)], of xs recovery] assms(2) by (simp add: s_def)
  then show ?thesis
    by (auto simp: cb_ok_def should_attempt_def split: option.splits)
qed

theorem breaker_state_meaning_witness:
  "cb_state (foldl (cb_step 2 60) cb_new [Admit 0, Admit 1, Fail 2, Fail 3, Admit 10]) \<noteq> CLOSED"
  using breaker_state_meaning [of 2 "[Admit 0, Admit 1, Fail 2, Fail 3, Admit 10]" 2 "Some 3" 60 0]
  by simp

text \<open>
  A breaker that is not closed: before \<open>recovery_timeout\<close> has passed since the last
  failure an open one rejects the call and keeps its state; otherwise the call is a probe,
  whose success closes the breaker with the count reset and whose failure opens it again at
  once.
\<close>

theorem breaker_probe:
  assumes "0 < threshold" and "cb_state s \<noteq> CLOSED"
    and s: "s = foldl (cb_step threshold recovery) cb_new xs"
    and call: "breaker_call expected threshold recovery s outcome now later = (r, s')"
  shows "\<exists>t. cb_last_failure s = Some t \<and>
    (if cb_state s = OPEN \<and> now - t \<le> recovery then r = Inl BreakerOpen \<and> s' = s
     else case outcome of
       Inr v \<Rightarrow> r = Inr v \<and> cb_state s' = CLOSED \<and> cb_failures s' = 0
     | Inl e \<Rightarrow> r = Inl (Raised e) \<and>
         (expected e \<longrightarrow> cb_state s' = OPEN \<and> cb_last_failure s' = Some later))"
proof -
  obtain n lf where g: "foldl cb_trace (0, None) xs = (n, lf)" by fastforce
  have ok: "cb_ok threshold (n, lf) s"
    using cb_run_ok [OF assms(1) cb_new_ok [OF assms(1)], of xs recovery] g s by simp
  with assms(2) obtain t where t: "cb_last_failure s = Some t" "lf = Some t" "threshold \<le> int n"
    "cb_failures s = n" by (auto simp: cb_ok_def)
  show ?thesis
  proof (cases "cb_state s = OPEN \<and> now - t \<le> recovery")
    case True
    then show ?thesis
      using call t by (auto simp: breaker_call_def should_attempt_def)
  next
    case False
    then obtain s1 where s1: "should_attempt recovery s now = (True, s1)" "cb_failures s1 = n"
      using assms(2) t by (cases "cb_state s") (auto simp: should_attempt_def)
    then show ?thesis
      using False call t
      by (auto simp: breaker_call_def on_success_def on_failure_def Let_def split: sum.splits if_splits)
  qed
qed

theorem breaker_probe_witness:
  "fst (breaker_call (\<lambda>e. True) 1 60 (foldl (cb_step 1 60) cb_new [Admit 0, Fail 1])
     (Inl () :: unit + int) 50 51) = Inl BreakerOpen"
proof -
  obtain r s' where call: "breaker_call (\<lambda>e. True) 1 60 (foldl (cb_step 1 60) cb_new [Admit 0, Fail 1])
     (Inl () :: unit + int) 50 51 = (r, s')" by fastforce
  have st: "foldl (cb_step 1 60) cb_new [Admit 0, Fail 1] =
      \<lparr>cb_failures = 1, cb_last_failure = Some 1, cb_state = OPEN\<rparr>"
    by (simp add: cb_new_def should_attempt_def on_failure_def Let_def)
  from breaker_probe [OF _ _ refl call] show ?thesis
    unfolding call unfolding st by simp
qed

text \<open>
  The context manager \<open>circuit_breaker\<close> never rejects: each \<open>async with\<close> starts from a
  new, closed state, so the body always runs and its outcome passes through.
\<close>

theorem breaker_context_never_opens:
  "breaker_context expected threshold recovery outcome now later =
     (case outcome of Inl e \<Rightarrow> Inl (Raised e) | Inr v \<Rightarrow> Inr v)"
  by (simp add: breaker_context_def breaker_call_def should_attempt_def cb_new_def split: sum.split)

section \<open>\<open>AsyncRateLimiter\<close>\<close>

text \<open>
  The grant at the heart of \<open>acquire\<close>, without the sleep and for any weight: this is a
  limiter in the sense of \<open>windowed_limiter\<close>.
\<close>

definition ar_try :: "AsyncRateLimiter \<Rightarrow> int \<Rightarrow> time \<Rightarrow> outcome \<times> AsyncRateLimiter" where
  "ar_try l w t =
     (if int (length (ar_recent l t)) + w \<le> ar_max_requests l
      then (Granted, l\<lparr>ar_requests := ar_recent l t @ replicate (nat w) t\<rparr>)
      else (Refused, l\<lparr>ar_requests := ar_recent l t\<rparr>))"

definition ar_usage :: "AsyncRateLimiter \<Rightarrow> time \<Rightarrow> int" where
  "ar_usage l t = int (length (ar_recent l t))"

definition ar_ok :: "time \<Rightarrow> AsyncRateLimiter \<Rightarrow> bool" where
  "ar_ok t l \<longleftrightarrow> sorted (ar_requests l) \<and> (\<forall>r \<in> set (ar_requests l). r \<le> t)"

lemma ar_recent_recent:
  "t \<le> u \<Longrightarrow> ar_recent (l\<lparr>ar_requests := ar_recent l t @ rs\<rparr>) u =
     ar_recent l u @ filter (\<lambda>r. u - r < ar_time_window l) rs"
  by (auto simp: ar_recent_def intro!: filter_cong)

lemma ar_ok_recent:
  "ar_ok t0 l \<Longrightarrow> t0 \<le> t \<Longrightarrow> ar_ok t (l\<lparr>ar_requests := ar_recent l t @ replicate n t\<rparr>)"
  by (auto simp: ar_ok_def ar_recent_def sorted_append sorted_wrt_filter)

lemma ar_try_after:
  assumes "ar_try l w t = (r, l')" "0 \<le> w" "t \<le> u"
  shows "ar_usage l' u = ar_usage l u +
    (if r = Granted \<and> u - t < ar_time_window l then w else 0)"
  using assms ar_recent_recent [OF assms(3), of l "[]"]
    ar_recent_recent [OF assms(3), of l "replicate (nat w) t"]
  by (auto simp: ar_try_def ar_usage_def split: if_splits)

interpretation ar: windowed_limiter ar_try ar_usage ar_max_requests
  "\<lambda>t l. ar_ok t l \<and> ar_time_window l = W \<and> 0 < W" "\<lambda>s t. t - s < W" for W
proof (unfold_locales, goal_cases)
  case (1 t0 l t w l')
  then show ?case
    using ar_try_after [of l w t Granted l' t] ar_ok_recent [of t0 l t "nat w"]
    by (auto simp: ar_try_def ar_usage_def split: if_splits)
next
  case (2 t0 l t w l')
  have "ar_usage l' u = ar_usage l u" if "t \<le> u" for u
    using 2(3) ar_recent_recent [OF that, of l "[]"] by (auto simp: ar_try_def ar_usage_def split: if_splits)
  with 2 show ?case
    using ar_ok_recent [of t0 l t 0] by (auto simp: ar_try_def ar_usage_def split: if_splits)
next
  case (3 t0 l w t)
  then show ?case by (simp add: ar_try_def)
next
  case (4 t0 l t)
  then show ?case by (force simp: ar_ok_def)
next
  case (5 s u t)
  then show ?case by linarith
next
  case (6 t0 l t w l' u)
  then show ?case using ar_try_after [of l w t Granted l' u] by auto
qed

text \<open>
  A run of \<open>acquire\<close> calls, each with its two readings; the times recorded. A sleep lasts
  at least as long as asked: \<open>wake\<close> is then at least \<open>sleep_time\<close> after \<open>now\<close>.
\<close>

fun ar_run :: "AsyncRateLimiter \<Rightarrow> (time \<times> time) list \<Rightarrow> time list" where
  "ar_run l [] = []"
| "ar_run l ((now, wake) # calls) =
     (case ar_acquire l now wake of (slept, t, l') \<Rightarrow> t # ar_run l' calls)"

fun ar_clock_ok :: "time \<Rightarrow> AsyncRateLimiter \<Rightarrow> (time \<times> time) list \<Rightarrow> bool" where
  "ar_clock_ok t0 l [] = True"
| "ar_clock_ok t0 l ((now, wake) # calls) =
     (t0 \<le> now \<and>
      (case ar_acquire l now wake of (slept, t, l') \<Rightarrow>
         (case slept of None \<Rightarrow> True | Some d \<Rightarrow> now + d \<le> wake) \<and> ar_clock_ok t l' calls))"

lemma ar_acquire_try:
  assumes "ar_ok t0 l" "t0 \<le> now" "0 < ar_max_requests l" "0 < ar_time_window l"
    and len: "int (length (ar_recent l now)) \<le> ar_max_requests l"
    and acq: "ar_acquire l now wake = (slept, t, l')"
    and wake: "\<forall>d. slept = Some d \<longrightarrow> now + d \<le> wake"
  shows "ar_try l 1 t = (Granted, l') \<and> now \<le> t"
proof (cases "ar_max_requests l \<le> int (length (ar_recent l now))")
  case False
  then show ?thesis using acq by (auto simp: ar_acquire_def ar_try_def Let_def)
next
  case True
  let ?rs = "ar_recent l now" and ?W = "ar_time_window l"
  have ne: "?rs \<noteq> []" using True assms(3) by auto
  then obtain r rs where rs: "?rs = r # rs" by (cases ?rs) auto
  have "r \<in> set ?rs" using rs by simp
  then have r: "now - r < ?W" "r \<le> now" using assms(1,2) by (auto simp: ar_recent_def ar_ok_def)
  let ?d = "?W - (now - r)"
  have d: "0 < ?d" using r by simp
  then have *: "slept = Some ?d" "t = wake"
    "l' = l\<lparr>ar_requests := ar_recent (l\<lparr>ar_requests := ?rs\<rparr>) wake @ [wake]\<rparr>"
    using acq True rs by (auto simp: ar_acquire_def Let_def)
  have w: "now + ?d \<le> wake" using wake *(1) by simp
  then have nw: "now \<le> wake" using d by simp
  have same: "ar_recent (l\<lparr>ar_requests := ?rs\<rparr>) wake = ar_recent l wake"
    using ar_recent_recent [OF nw, of l "[]"] by simp
  have "ar_recent l wake = filter (\<lambda>x. wake - x < ?W) ?rs"
    unfolding ar_recent_def using nw by (auto intro!: filter_cong)
  also have "\<dots> = filter (\<lambda>x. wake - x < ?W) (r # rs)" by (simp only: rs)
  also have "\<dots> = filter (\<lambda>x. wake - x < ?W) rs" using w by simp
  finally have "length (ar_recent l wake) \<le> length rs" by simp
  with len rs have "int (length (ar_recent l wake)) + 1 \<le> ar_max_requests l" by simp
  then show ?thesis using * nw by (simp add: ar_try_def same)
qed

lemma ar_run_grants:
  assumes "ar_ok t0 l" "0 < ar_max_requests l" "0 < ar_time_window l"
    and "ar_usage l t0 \<le> ar_max_requests l" "ar_clock_ok t0 l calls"
  shows "request_times_ok t0 (map (\<lambda>t. (t, 1)) (ar_run l calls)) \<and>
    (\<exists>l'. acquire_run ar_try l (map (\<lambda>t. (t, 1)) (ar_run l calls)) gs =
       (l', gs @ map (\<lambda>t. (t, 1)) (ar_run l calls)))"
  using assms
proof (induction calls arbitrary: t0 l gs)
  case Nil
  then show ?case by (simp add: request_times_ok_def)
next
  case (Cons c calls)
  obtain now wake where c: "c = (now, wake)" by (cases c)
  obtain slept t l' where acq: "ar_acquire l now wake = (slept, t, l')" by (metis prod_cases3)
  have clk: "t0 \<le> now" "\<forall>d. slept = Some d \<longrightarrow> now + d \<le> wake" "ar_clock_ok t l' calls"
    using Cons.prems(5) acq by (auto simp: c)
  have "int (length (ar_recent l now)) \<le> ar_usage l t0"
  proof -
    have "length (ar_recent l now) \<le> length (ar_recent l t0)"
      unfolding ar_recent_def using clk(1) by (intro length_filter_mono) simp
    then show ?thesis by (simp add: ar_usage_def)
  qed
  with Cons.prems(4) have len: "int (length (ar_recent l now)) \<le> ar_max_requests l" by simp
  note g = ar_acquire_try [OF Cons.prems(1) clk(1) Cons.prems(2,3) len acq clk(2)]
  have up: "ar_ok t0 l \<and> ar_time_window l = ar_time_window l \<and> 0 < ar_time_window l" "t0 \<le> t"
    using Cons.prems(1,3) g clk(1) by auto
  from ar.granted [OF up(1,2) _ g [THEN conjunct1]]
  have l': "ar_ok t l'" "ar_max_requests l' = ar_max_requests l" "ar_time_window l' = ar_time_window l"
    "ar_usage l' t \<le> ar_max_requests l'" by auto
  obtain l2 where "request_times_ok t (map (\<lambda>t. (t, 1)) (ar_run l' calls))"
    "acquire_run ar_try l' (map (\<lambda>t. (t, 1)) (ar_run l' calls)) (gs @ [(t, 1)]) =
       (l2, (gs @ [(t, 1)]) @ map (\<lambda>t. (t, 1)) (ar_run l' calls))"
    using Cons.IH [OF l'(1) _ _ l'(4) clk(3), of "gs @ [(t, 1)]"] Cons.prems(2,3) l'(2,3) by auto
  then show ?case
    using up(2) g by (auto simp: c acq request_times_ok_def)
qed

text \<open>
  A new \<open>AsyncRateLimiter\<close> whose sleeps last as long as asked records at most
  \<open>max_requests\<close> requests in any window of \<open>time_window\<close> seconds.
\<close>

theorem async_rate_limiter_safety:
  assumes "ar_init n W = Inr l" "ar_clock_ok t0 l calls"
  shows "window_sum (\<lambda>s u. u - s < W) (map (\<lambda>t. (t, 1)) (ar_run l calls)) u \<le> n"
proof -
  have l: "0 < n" "0 < W" "l = \<lparr>ar_max_requests = n, ar_time_window = W, ar_requests = []\<rparr>"
    using assms(1)
    by (auto simp: ar_init_def validate_positive_int_def validate_positive_number_def split: if_splits)
  have ok: "ar_ok t0 l" "ar_usage l v = 0" for v
    using l by (simp_all add: ar_ok_def ar_usage_def ar_recent_def)
  obtain l' where r: "request_times_ok t0 (map (\<lambda>t. (t, 1)) (ar_run l calls))"
    "acquire_run ar_try l (map (\<lambda>t. (t, 1)) (ar_run l calls)) [] =
       (l', map (\<lambda>t. (t, 1)) (ar_run l calls))"
    using ar_run_grants [OF ok(1) _ _ _ assms(2), of "[]"] l ok(2) by auto
  have "ar_ok t0 l \<and> ar_time_window l = W \<and> 0 < W" "\<forall>v\<ge>t0. ar_usage l v = 0"
    "0 \<le> ar_max_requests l" using ok l by auto
  from ar.window_safety [OF this r] l show ?thesis by simp
qed

theorem async_rate_limiter_safety_witness:
  "window_sum (\<lambda>s u. u - s < 10) (map (\<lambda>t. (t, 1))
     (ar_run \<lparr>ar_max_requests = 1, ar_time_window = 10, ar_requests = []\<rparr> [(0, 0), (4, 11)])) 11 \<le> 1"
  by (rule async_rate_limiter_safety [of _ _ _ 0])
    (simp_all add: ar_init_def validate_positive_int_def validate_positive_number_def ar_acquire_def
      ar_recent_def Let_def)

end
