(* ===== verification/Registry.thy ===== *)
theory Registry
  imports PyVal
begin

text \<open>
  Model of \<open>src/bt_api_base/registry.py\<close> (the instance operations of \<open>ExchangeRegistry\<close>),
  \<open>gateway/registrar.py\<close> and \<open>plugins/loader.py\<close>. A Python class or handler is an identity
  \<open>'c\<close>. A plugin's code is not in the repository: an entry point is what loading it gives
  and the calls its \<open>register_plugin\<close> makes on the isolated registry and registrar it is
  handed, followed by what it returns or raises.
\<close>

section \<open>\<open>ExchangeRegistry\<close>\<close>

record 'c ExchangeRegistry =
  feed_classes :: "(string, 'c) dict"
  stream_classes :: "(string, (string, 'c) dict) dict"
  exchange_data_classes :: "(string, 'c) dict"
  balance_handlers :: "(string, 'c) dict"

definition create_isolated :: "'c ExchangeRegistry" where
  "create_isolated = \<lparr>feed_classes = [], stream_classes = [], exchange_data_classes = [],
     balance_handlers = []\<rparr>"

definition register_feed :: "string \<Rightarrow> 'c \<Rightarrow> 'c ExchangeRegistry \<Rightarrow> 'c ExchangeRegistry" where
  "register_feed name c r = r\<lparr>feed_classes := dset name c (feed_classes r)\<rparr>"

definition register_stream :: "string \<Rightarrow> string \<Rightarrow> 'c \<Rightarrow> 'c ExchangeRegistry \<Rightarrow> 'c ExchangeRegistry" where
  "register_stream name stream_type c r =
     r\<lparr>stream_classes :=
        dset name (dset stream_type c (dget_default (stream_classes r) name [])) (stream_classes r)\<rparr>"

definition register_exchange_data :: "string \<Rightarrow> 'c \<Rightarrow> 'c ExchangeRegistry \<Rightarrow> 'c ExchangeRegistry" where
  "register_exchange_data name c r = r\<lparr>exchange_data_classes := dset name c (exchange_data_classes r)\<rparr>"

definition register_balance_handler :: "string \<Rightarrow> 'c \<Rightarrow> 'c ExchangeRegistry \<Rightarrow> 'c ExchangeRegistry" where
  "register_balance_handler name c r = r\<lparr>balance_handlers := dset name c (balance_handlers r)\<rparr>"

definition unregister_feed :: "string \<Rightarrow> 'c ExchangeRegistry \<Rightarrow> bool \<times> 'c ExchangeRegistry" where
  "unregister_feed name r =
     (dget (feed_classes r) name \<noteq> None, r\<lparr>feed_classes := dpop name (feed_classes r)\<rparr>)"

definition get_feed_class :: "'c ExchangeRegistry \<Rightarrow> string \<Rightarrow> 'c option" where
  "get_feed_class r name = dget (feed_classes r) name"

definition get_exchange_data_class :: "'c ExchangeRegistry \<Rightarrow> string \<Rightarrow> 'c option" where
  "get_exchange_data_class r name = dget (exchange_data_classes r) name"

definition get_balance_handler :: "'c ExchangeRegistry \<Rightarrow> string \<Rightarrow> 'c option" where
  "get_balance_handler r name = dget (balance_handlers r) name"

definition get_stream_classes :: "'c ExchangeRegistry \<Rightarrow> string \<Rightarrow> (string, 'c) dict" where
  "get_stream_classes r name = dget_default (stream_classes r) name []"

definition get_stream_class :: "'c ExchangeRegistry \<Rightarrow> string \<Rightarrow> string \<Rightarrow> 'c option" where
  "get_stream_class r name stream_type = dget (dget_default (stream_classes r) name []) stream_type"

definition has_exchange :: "'c ExchangeRegistry \<Rightarrow> string \<Rightarrow> bool" where
  "has_exchange r name \<longleftrightarrow> name \<in> set (dkeys (feed_classes r))"

definition list_exchanges :: "'c ExchangeRegistry \<Rightarrow> string list" where
  "list_exchanges r = dkeys (feed_classes r)"

definition registry_clear :: "'c ExchangeRegistry \<Rightarrow> 'c ExchangeRegistry" where
  "registry_clear r = create_isolated"

text \<open>\<open>create_feed\<close>: the class to be instantiated, or \<open>ExchangeNotFoundError\<close> with the names.\<close>

definition create_feed :: "'c ExchangeRegistry \<Rightarrow> string \<Rightarrow> (string \<times> string list) + 'c" where
  "create_feed r name =
     (case dget (feed_classes r) name of
        None \<Rightarrow> Inl (name, dkeys (feed_classes r))
      | Some c \<Rightarrow> Inr c)"

definition create_exchange_data :: "'c ExchangeRegistry \<Rightarrow> string \<Rightarrow> (string \<times> string list) + 'c" where
  "create_exchange_data r name =
     (case dget (exchange_data_classes r) name of
        None \<Rightarrow> Inl (name, dkeys (exchange_data_classes r))
      | Some c \<Rightarrow> Inr c)"

section \<open>The adapter registrars\<close>

definition normalize_type :: "string \<Rightarrow> string" where
  "normalize_type exchange_type = py_upper (py_strip exchange_type)"

text \<open>\<open>GatewayRuntimeRegistrar\<close> ignores a second adapter for a name.\<close>

definition register_adapter :: "string \<Rightarrow> 'c \<Rightarrow> (string, 'c) dict \<Rightarrow> (string, 'c) dict" where
  "register_adapter exchange_type c adapters =
     (let normalized = normalize_type exchange_type
      in case dget adapters normalized of
           Some existing \<Rightarrow> adapters
         | None \<Rightarrow> dset normalized c adapters)"

definition get_adapter :: "(string, 'c) dict \<Rightarrow> string \<Rightarrow> 'c option" where
  "get_adapter adapters exchange_type = dget adapters (normalize_type exchange_type)"

definition list_adapters :: "(string, 'c) dict \<Rightarrow> string list" where
  "list_adapters adapters = dkeys adapters"

datatype plugin_error =
    PluginOptionalDependency | PluginRegistration | PluginVersionMismatch | PluginImportError
  | PluginOtherError

text \<open>\<open>_IsolatedRuntimeRegistrar\<close> raises on it.\<close>

definition iso_register_adapter ::
    "string \<Rightarrow> 'c \<Rightarrow> (string, 'c) dict \<Rightarrow> plugin_error + (string, 'c) dict" where
  "iso_register_adapter exchange_type c adapters =
     (let normalized = normalize_type exchange_type
      in case dget adapters normalized of
           Some existing \<Rightarrow>
             if existing = c then Inr (dset normalized c adapters) else Inl PluginRegistration
         | None \<Rightarrow> Inr (dset normalized c adapters))"

section \<open>Plugins\<close>

record PluginInfo =
  pi_name :: string
  pi_version :: string
  pi_core_requires :: string
  pi_supported_exchanges :: "string list"
  pi_plugin_module :: string

datatype 'c plugin_call =
    CallFeed string 'c | CallStream string string 'c | CallExchangeData string 'c
  | CallBalance string 'c | CallAdapter string 'c

datatype plugin_end = Raises plugin_error | ReturnsInfo PluginInfo | ReturnsOther

datatype 'c plugin_load = LoadFails plugin_error | Loads "'c plugin_call list" plugin_end

record 'c entry_point =
  ep_name :: string
  ep_module :: string
  ep_load :: "'c plugin_load"

fun run_calls ::
    "'c plugin_call list \<Rightarrow> 'c ExchangeRegistry \<times> (string, 'c) dict
     \<Rightarrow> plugin_error + ('c ExchangeRegistry \<times> (string, 'c) dict)" where
  "run_calls [] s = Inr s"
| "run_calls (CallFeed n c # cs) (r, a) = run_calls cs (register_feed n c r, a)"
| "run_calls (CallStream n t c # cs) (r, a) = run_calls cs (register_stream n t c r, a)"
| "run_calls (CallExchangeData n c # cs) (r, a) = run_calls cs (register_exchange_data n c r, a)"
| "run_calls (CallBalance n c # cs) (r, a) = run_calls cs (register_balance_handler n c r, a)"
| "run_calls (CallAdapter t c # cs) (r, a) =
     (case iso_register_adapter t c a of Inl e \<Rightarrow> Inl e | Inr a' \<Rightarrow> run_calls cs (r, a'))"

section \<open>\<open>PluginLoader\<close>\<close>

record 'c PluginLoader =
  ld_registry :: "'c ExchangeRegistry"
  ld_runtime :: "(string, 'c) dict"
  ld_loaded :: "(string, PluginInfo) dict"
  ld_failed :: "(string, plugin_error) dict"
  ld_skipped :: "(string, plugin_error) dict"

text \<open>
  \<open>core_ok\<close> is \<open>Version(__version__) in SpecifierSet(spec)\<close> of the \<open>packaging\<close> library: a
  truth value, or the exception for an invalid specifier.
\<close>

definition check_core_compatibility ::
    "(string \<Rightarrow> plugin_error + bool) \<Rightarrow> PluginInfo \<Rightarrow> plugin_error + unit" where
  "check_core_compatibility core_ok info =
     (case core_ok (pi_core_requires info) of
        Inl e \<Rightarrow> Inl e
      | Inr b \<Rightarrow> if b then Inr () else Inl PluginVersionMismatch)"

definition check_duplicate_registration ::
    "'c PluginLoader \<Rightarrow> PluginInfo \<Rightarrow> (string, 'c) dict \<Rightarrow> plugin_error + unit" where
  "check_duplicate_registration s info isolated_runtime =
     (let duplicate_exchanges = filter (has_exchange (ld_registry s)) (pi_supported_exchanges info);
          duplicate_adapters =
            filter (\<lambda>t. get_adapter (ld_runtime s) t \<noteq> None) (list_adapters isolated_runtime)
      in if duplicate_exchanges \<noteq> [] \<or> duplicate_adapters \<noteq> [] then Inl PluginRegistration
         else Inr ())"

definition if_some :: "('c \<Rightarrow> 's \<Rightarrow> 's) \<Rightarrow> 'c option \<Rightarrow> 's \<Rightarrow> 's" where
  "if_some f x s = (case x of None \<Rightarrow> s | Some c \<Rightarrow> f c s)"

definition commit_exchange ::
    "'c ExchangeRegistry \<Rightarrow> 'c ExchangeRegistry \<Rightarrow> string \<Rightarrow> 'c ExchangeRegistry" where
  "commit_exchange isolated r name =
     (let r1 = if_some (register_feed name) (get_feed_class isolated name) r;
          r2 = if_some (register_exchange_data name) (get_exchange_data_class isolated name) r1;
          r3 = if_some (register_balance_handler name) (get_balance_handler isolated name) r2
      in foldl (\<lambda>r (stream_type, c). register_stream name stream_type c r) r3
           (get_stream_classes isolated name))"

definition commit_registry ::
    "'c ExchangeRegistry \<Rightarrow> 'c ExchangeRegistry \<Rightarrow> 'c ExchangeRegistry" where
  "commit_registry isolated r = foldl (commit_exchange isolated) r (list_exchanges isolated)"

definition commit_runtime :: "(string, 'c) dict \<Rightarrow> (string, 'c) dict \<Rightarrow> (string, 'c) dict" where
  "commit_runtime isolated_runtime adapters =
     foldl (\<lambda>a (exchange_type, c). register_adapter exchange_type c a) adapters isolated_runtime"

text \<open>The handlers at the end of \<open>_load_one\<close>: an optional dependency skips, the others fail.\<close>

definition record_failure :: "string \<Rightarrow> plugin_error \<Rightarrow> 'c PluginLoader \<Rightarrow> 'c PluginLoader" where
  "record_failure key e s =
     (if e = PluginOptionalDependency then s\<lparr>ld_skipped := dset key e (ld_skipped s)\<rparr>
      else s\<lparr>ld_failed := dset key e (ld_failed s)\<rparr>)"

definition finish_plugin ::
    "(string \<Rightarrow> plugin_error + bool) \<Rightarrow> string \<Rightarrow> 'c ExchangeRegistry \<Rightarrow> (string, 'c) dict
     \<Rightarrow> PluginInfo \<Rightarrow> 'c PluginLoader \<Rightarrow> 'c PluginLoader" where
  "finish_plugin core_ok entry_module isolated isolated_runtime info0 s =
     (let info = (if pi_plugin_module info0 = [] then info0\<lparr>pi_plugin_module := entry_module\<rparr> else info0)
      in case check_core_compatibility core_ok info of
           Inl e \<Rightarrow> record_failure (pi_name info) e s
         | Inr _ \<Rightarrow>
             (case check_duplicate_registration s info isolated_runtime of
                Inl e \<Rightarrow> record_failure (pi_name info) e s
              | Inr _ \<Rightarrow>
                  (let s1 = s\<lparr>ld_registry := commit_registry isolated (ld_registry s),
                              ld_runtime := commit_runtime isolated_runtime (ld_runtime s)\<rparr>
                   in if pi_name info \<in> set (dkeys (ld_loaded s1)) then s1
                      else s1\<lparr>ld_loaded := dset (pi_name info) info (ld_loaded s1)\<rparr>)))"

definition load_one ::
    "(string \<Rightarrow> plugin_error + bool) \<Rightarrow> 'c PluginLoader \<Rightarrow> 'c entry_point \<Rightarrow> 'c PluginLoader" where
  "load_one core_ok s ep =
     (if ep_name ep \<in> set (dkeys (ld_failed s)) \<or> ep_name ep \<in> set (dkeys (ld_loaded s)) then s
      else case ep_load ep of
        LoadFails e \<Rightarrow> record_failure (ep_name ep) e s
      | Loads calls result \<Rightarrow>
          (case run_calls calls (create_isolated, []) of
             Inl e \<Rightarrow> record_failure (ep_name ep) e s
           | Inr (isolated, isolated_runtime) \<Rightarrow>
               (case result of
                  Raises e \<Rightarrow> record_failure (ep_name ep) e s
                | ReturnsOther \<Rightarrow> record_failure (ep_name ep) PluginRegistration s
                | ReturnsInfo info \<Rightarrow>
                    finish_plugin core_ok (ep_module ep) isolated isolated_runtime info s)))"

definition load_all ::
    "(string \<Rightarrow> plugin_error + bool) \<Rightarrow> 'c PluginLoader \<Rightarrow> 'c entry_point list \<Rightarrow> 'c PluginLoader" where
  "load_all core_ok s entry_points = foldl (load_one core_ok) s entry_points"

end
