(* ===== verification/RegistryCorrect.thy ===== *)
theory RegistryCorrect
  imports Registry
begin

text \<open>
  Correctness of the registry, the registrars and the plugin loader: the contract the two
  adapter registrars share, that loading a plugin is all or nothing, that it takes nothing
  away from plugins loaded before as long as it declares what it registers, and what is
  lost when it does not.
\<close>

section \<open>The contract of an adapter registrar\<close>

text \<open>The first adapter registered under a name stays; a refusal changes nothing.\<close>

locale adapter_registrar =
  fixes register :: "string \<Rightarrow> 'c \<Rightarrow> 'r \<Rightarrow> 'e + 'r"
    and adapter :: "'r \<Rightarrow> string \<Rightarrow> 'c option"
  assumes new_name:
      "adapter r t = None \<Longrightarrow> \<exists>r'. register t c r = Inr r' \<and> adapter r' t = Some c"
    and keeps_names: "register t c r = Inr r' \<Longrightarrow> adapter r u = Some d \<Longrightarrow> adapter r' u = Some d"
    and adds_name_only:
      "register t c r = Inr r' \<Longrightarrow> adapter r u = None \<Longrightarrow> adapter r' u \<noteq> None \<Longrightarrow>
       adapter r' u = Some c \<and> adapter r' u = adapter r' t"
begin

fun register_all :: "(string \<times> 'c) list \<Rightarrow> 'r \<Rightarrow> 'r" where
  "register_all [] r = r"
| "register_all ((t, c) # xs) r =
     register_all xs (case register t c r of Inl e \<Rightarrow> r | Inr r' \<Rightarrow> r')"

lemma register_all_keeps: "adapter r u = Some d \<Longrightarrow> adapter (register_all xs r) u = Some d"
  by (induction xs r rule: register_all.induct) (auto split: sum.split, metis keeps_names)

lemma first_registration_wins:
  assumes "adapter r t = None" shows "adapter (register_all ((t, c) # xs) r) t = Some c"
proof -
  from new_name [OF assms, of c] obtain r' where "register t c r = Inr r'" "adapter r' t = Some c"
    by blast
  with register_all_keeps [of r' t c xs] show ?thesis by simp
qed

end

lemma normalize_idem [simp]: "normalize_type (normalize_type t) = normalize_type t"
  by (simp add: normalize_type_def py_strip_upper)

interpretation runtime_registrar: adapter_registrar
  "\<lambda>t c r. (Inr (register_adapter t c r) :: plugin_error + _)" get_adapter
  by unfold_locales (auto simp: register_adapter_def get_adapter_def Let_def split: option.splits if_splits)

interpretation iso_registrar: adapter_registrar iso_register_adapter get_adapter
  by unfold_locales
    (auto simp: iso_register_adapter_def get_adapter_def Let_def split: option.splits if_splits)

section \<open>Committing\<close>

definition stream_of :: "'c ExchangeRegistry \<Rightarrow> string \<Rightarrow> string \<Rightarrow> 'c option" where
  "stream_of r n t = get_stream_class r n t"

lemmas registry_defs = register_feed_def register_stream_def register_exchange_data_def
  register_balance_handler_def get_feed_class_def get_exchange_data_class_def
  get_balance_handler_def get_stream_class_def get_stream_classes_def

definition over :: "'c option \<Rightarrow> 'c option \<Rightarrow> 'c option" where
  "over x y = (case x of None \<Rightarrow> y | Some c \<Rightarrow> Some c)"

lemma over_simps [simp]: "over None y = y" "over (Some c) y = Some c" "over x None = x"
  by (simp_all add: over_def split: option.split)

lemma commit_streams:
  "get_feed_class (foldl (\<lambda>r (t, c). register_stream n t c r) r xs) m = get_feed_class r m"
  "get_exchange_data_class (foldl (\<lambda>r (t, c). register_stream n t c r) r xs) m =
     get_exchange_data_class r m"
  "get_balance_handler (foldl (\<lambda>r (t, c). register_stream n t c r) r xs) m = get_balance_handler r m"
  by (induction xs arbitrary: r) (auto simp: registry_defs)

lemma commit_stream_class:
  "dict_ok xs \<Longrightarrow> get_stream_class (foldl (\<lambda>r (t, c). register_stream n t c r) r xs) m u =
     (if m = n then over (dget xs u) (get_stream_class r m u) else get_stream_class r m u)"
proof (induction xs arbitrary: r)
  case (Cons p xs)
  obtain t c where p: "p = (t, c)" by (cases p)
  have "dget xs t = None" using Cons.prems p by (simp add: dget_None_iff)
  moreover have "get_stream_class (register_stream n t c r) m u =
      (if m = n \<and> u = t then Some c else get_stream_class r m u)"
    by (auto simp: registry_defs dget_default_def split: option.split)
  ultimately show ?case using Cons p by auto
qed simp

definition streams_ok :: "'c ExchangeRegistry \<Rightarrow> bool" where
  "streams_ok r \<longleftrightarrow> (\<forall>n. dict_ok (get_stream_classes r n))"

lemma commit_exchange_get:
  assumes "streams_ok src"
  shows "get_feed_class (commit_exchange src r n) m =
      (if m = n then over (get_feed_class src n) (get_feed_class r m) else get_feed_class r m)"
    "get_exchange_data_class (commit_exchange src r n) m =
      (if m = n then over (get_exchange_data_class src n) (get_exchange_data_class r m)
       else get_exchange_data_class r m)"
    "get_balance_handler (commit_exchange src r n) m =
      (if m = n then over (get_balance_handler src n) (get_balance_handler r m)
       else get_balance_handler r m)"
    "get_stream_class (commit_exchange src r n) m u =
      (if m = n then over (get_stream_class src n u) (get_stream_class r m u)
       else get_stream_class r m u)"
proof -
  have "dict_ok (get_stream_classes src n)" using assms by (simp add: streams_ok_def)
  then show "get_stream_class (commit_exchange src r n) m u =
      (if m = n then over (get_stream_class src n u) (get_stream_class r m u)
       else get_stream_class r m u)"
    by (simp add: commit_exchange_def Let_def commit_stream_class)
      (auto simp: if_some_def registry_defs split: option.split)
qed (simp_all add: commit_exchange_def Let_def commit_streams,
    auto simp: if_some_def registry_defs split: option.split)

lemma commit_list_get:
  assumes "streams_ok src"
  shows "get_feed_class (foldl (commit_exchange src) r ns) m =
      (if m \<in> set ns then over (get_feed_class src m) (get_feed_class r m) else get_feed_class r m)"
    "get_exchange_data_class (foldl (commit_exchange src) r ns) m =
      (if m \<in> set ns then over (get_exchange_data_class src m) (get_exchange_data_class r m)
       else get_exchange_data_class r m)"
    "get_balance_handler (foldl (commit_exchange src) r ns) m =
      (if m \<in> set ns then over (get_balance_handler src m) (get_balance_handler r m)
       else get_balance_handler r m)"
    "get_stream_class (foldl (commit_exchange src) r ns) m u =
      (if m \<in> set ns then over (get_stream_class src m u) (get_stream_class r m u)
       else get_stream_class r m u)"
  by (induction ns arbitrary: r) (auto simp: commit_exchange_get [OF assms] over_def split: option.split)

lemma commit_registry_get:
  assumes "streams_ok src"
  shows "get_feed_class (commit_registry src r) m = over (get_feed_class src m) (get_feed_class r m)"
    "get_exchange_data_class (commit_registry src r) m =
      (if has_exchange src m then over (get_exchange_data_class src m) (get_exchange_data_class r m)
       else get_exchange_data_class r m)"
    "get_balance_handler (commit_registry src r) m =
      (if has_exchange src m then over (get_balance_handler src m) (get_balance_handler r m)
       else get_balance_handler r m)"
    "get_stream_class (commit_registry src r) m u =
      (if has_exchange src m then over (get_stream_class src m u) (get_stream_class r m u)
       else get_stream_class r m u)"
proof -
  have "m \<notin> set (dkeys (feed_classes src)) \<Longrightarrow> get_feed_class src m = None"
    by (simp add: get_feed_class_def dget_None_iff)
  then show "get_feed_class (commit_registry src r) m =
      over (get_feed_class src m) (get_feed_class r m)"
    by (simp add: commit_registry_def list_exchanges_def commit_list_get [OF assms])
qed (simp_all add: commit_registry_def list_exchanges_def has_exchange_def commit_list_get [OF assms])

lemma run_calls_streams_ok:
  "run_calls cs (r, a) = Inr (r', a') \<Longrightarrow> streams_ok r \<Longrightarrow> streams_ok r'"
proof (induction cs "(r, a)" arbitrary: r a rule: run_calls.induct)
  case (3 n t c cs r a)
  have "streams_ok (register_stream n t c r)"
    using "3.prems"(2) by (auto simp: streams_ok_def registry_defs dget_default_def split: option.split)
  with 3 show ?case by simp
qed (auto simp: streams_ok_def registry_defs split: sum.splits)

lemma isolated_ok: "streams_ok create_isolated"
  by (simp add: streams_ok_def create_isolated_def get_stream_classes_def dget_default_def)

section \<open>Loading a plugin\<close>

definition committed ::
    "(string \<Rightarrow> plugin_error + bool) \<Rightarrow> 'c PluginLoader \<Rightarrow> 'c entry_point \<Rightarrow> 'c PluginLoader \<Rightarrow> bool" where
  "committed core_ok s ep s' \<longleftrightarrow>
     (\<exists>calls info src adapters.
        ep_load ep = Loads calls (ReturnsInfo info) \<and>
        run_calls calls (create_isolated, []) = Inr (src, adapters) \<and>
        core_ok (pi_core_requires info) = Inr True \<and>
        (\<forall>x \<in> set (pi_supported_exchanges info). \<not> has_exchange (ld_registry s) x) \<and>
        (\<forall>t \<in> set (list_adapters adapters). get_adapter (ld_runtime s) t = None) \<and>
        ld_registry s' = commit_registry src (ld_registry s) \<and>
        ld_runtime s' = commit_runtime adapters (ld_runtime s) \<and>
        pi_name info \<in> set (dkeys (ld_loaded s')))"

lemma record_failure_keeps [simp]:
  "ld_registry (record_failure k e s) = ld_registry s" "ld_runtime (record_failure k e s) = ld_runtime s"
  "ld_loaded (record_failure k e s) = ld_loaded s"
  by (simp_all add: record_failure_def)

lemma finish_plugin_cases:
  assumes "finish_plugin core_ok md src adapters info s = s'"
  shows "ld_registry s' = ld_registry s \<and> ld_runtime s' = ld_runtime s \<and> ld_loaded s' = ld_loaded s
    \<or> core_ok (pi_core_requires info) = Inr True \<and>
      (\<forall>x \<in> set (pi_supported_exchanges info). \<not> has_exchange (ld_registry s) x) \<and>
      (\<forall>t \<in> set (list_adapters adapters). get_adapter (ld_runtime s) t = None) \<and>
      ld_registry s' = commit_registry src (ld_registry s) \<and>
      ld_runtime s' = commit_runtime adapters (ld_runtime s) \<and>
      pi_name info \<in> set (dkeys (ld_loaded s'))"
  using assms
  by (auto simp: finish_plugin_def Let_def check_core_compatibility_def check_duplicate_registration_def
      filter_empty_conv split: sum.splits if_splits)

lemma load_one_cases:
  "ld_registry (load_one core_ok s ep) = ld_registry s \<and>
     ld_runtime (load_one core_ok s ep) = ld_runtime s \<and>
     ld_loaded (load_one core_ok s ep) = ld_loaded s
   \<or> committed core_ok s ep (load_one core_ok s ep)"
proof (cases "ep_name ep \<in> set (dkeys (ld_failed s)) \<or> ep_name ep \<in> set (dkeys (ld_loaded s))")
  case True
  then show ?thesis by (simp add: load_one_def)
next
  case False
  show ?thesis
  proof (cases "ep_load ep")
    case (LoadFails e)
    with False show ?thesis by (simp add: load_one_def)
  next
    case (Loads calls res)
    show ?thesis
    proof (cases "run_calls calls (create_isolated, [])")
      case (Inl e)
      with False Loads show ?thesis by (simp add: load_one_def)
    next
      case (Inr p)
      obtain src adapters where p: "p = (src, adapters)" by (cases p)
      show ?thesis
      proof (cases res)
        case (ReturnsInfo info)
        with False Loads Inr p have "load_one core_ok s ep =
            finish_plugin core_ok (ep_module ep) src adapters info s"
          by (simp add: load_one_def)
        with finish_plugin_cases [OF this [symmetric]] Loads Inr p ReturnsInfo show ?thesis
          unfolding committed_def by blast
      qed (use False Loads Inr p in \<open>simp_all add: load_one_def\<close>)
    qed
  qed
qed


section \<open>Earlier plugins\<close>

text \<open>A plugin declares what it registers: each of its feeds is for a supported exchange.\<close>

definition declares :: "'c entry_point \<Rightarrow> bool" where
  "declares ep \<longleftrightarrow>
     (\<forall>calls info n c. ep_load ep = Loads calls (ReturnsInfo info) \<longrightarrow> CallFeed n c \<in> set calls \<longrightarrow>
        n \<in> set (pi_supported_exchanges info))"

lemma run_calls_feeds:
  "run_calls cs (r, a) = Inr (r', a') \<Longrightarrow> has_exchange r' n \<Longrightarrow>
   has_exchange r n \<or> (\<exists>c. CallFeed n c \<in> set cs)"
proof (induction cs "(r, a)" arbitrary: r a rule: run_calls.induct)
  case (2 m c cs r a)
  have "has_exchange (register_feed m c r) n \<longleftrightarrow> n = m \<or> has_exchange r n"
    by (simp add: has_exchange_def register_feed_def)
  with 2 show ?case by auto
qed (auto simp: has_exchange_def registry_defs split: sum.splits)

lemma commit_runtime_all: "commit_runtime adapters a = runtime_registrar.register_all adapters a"
  unfolding commit_runtime_def by (induction adapters arbitrary: a) auto

lemma committed_keeps:
  assumes "committed core_ok s ep s'" "declares ep" "has_exchange (ld_registry s) x"
  shows "get_feed_class (ld_registry s') x = get_feed_class (ld_registry s) x"
    "get_exchange_data_class (ld_registry s') x = get_exchange_data_class (ld_registry s) x"
    "get_balance_handler (ld_registry s') x = get_balance_handler (ld_registry s) x"
    "get_stream_class (ld_registry s') x t = get_stream_class (ld_registry s) x t"
    "get_adapter (ld_runtime s) u = Some d \<Longrightarrow> get_adapter (ld_runtime s') u = Some d"
proof -
  from assms(1) obtain calls info src adapters where
    c: "ep_load ep = Loads calls (ReturnsInfo info)"
      "run_calls calls (create_isolated, []) = Inr (src, adapters)"
      "\<forall>x \<in> set (pi_supported_exchanges info). \<not> has_exchange (ld_registry s) x"
      "ld_registry s' = commit_registry src (ld_registry s)"
      "ld_runtime s' = commit_runtime adapters (ld_runtime s)"
    unfolding committed_def by blast
  have ok: "streams_ok src" using run_calls_streams_ok [OF c(2) isolated_ok] .
  have none: "\<not> has_exchange src x"
  proof
    assume "has_exchange src x"
    from run_calls_feeds [OF c(2) this] obtain f where "CallFeed x f \<in> set calls"
      by (auto simp: has_exchange_def create_isolated_def)
    with assms(2,3) c(1,3) show False unfolding declares_def by blast
  qed
  then have "get_feed_class src x = None"
    by (simp add: has_exchange_def get_feed_class_def dget_None_iff)
  then show "get_feed_class (ld_registry s') x = get_feed_class (ld_registry s) x"
    by (simp add: c(4) commit_registry_get [OF ok])
  show "get_exchange_data_class (ld_registry s') x = get_exchange_data_class (ld_registry s) x"
    "get_balance_handler (ld_registry s') x = get_balance_handler (ld_registry s) x"
    "get_stream_class (ld_registry s') x t = get_stream_class (ld_registry s) x t"
    using none by (simp_all add: c(4) commit_registry_get [OF ok])
  show "get_adapter (ld_runtime s) u = Some d \<Longrightarrow> get_adapter (ld_runtime s') u = Some d"
    by (simp add: c(5) commit_runtime_all runtime_registrar.register_all_keeps)
qed

lemma load_one_keeps:
  assumes "declares ep" "get_feed_class (ld_registry s) x = Some c"
  shows "get_feed_class (ld_registry (load_one core_ok s ep)) x = Some c"
    "get_exchange_data_class (ld_registry (load_one core_ok s ep)) x = get_exchange_data_class (ld_registry s) x"
    "get_balance_handler (ld_registry (load_one core_ok s ep)) x = get_balance_handler (ld_registry s) x"
    "get_stream_class (ld_registry (load_one core_ok s ep)) x t = get_stream_class (ld_registry s) x t"
proof -
  have has: "has_exchange (ld_registry s) x"
    using assms(2) by (simp add: has_exchange_def get_feed_class_def dget_Some_key)
  note cases = load_one_cases [of core_ok s ep] and keeps = committed_keeps [OF _ assms(1) has]
  show "get_feed_class (ld_registry (load_one core_ok s ep)) x = Some c"
    using cases keeps(1) assms(2) by metis
  show "get_exchange_data_class (ld_registry (load_one core_ok s ep)) x =
      get_exchange_data_class (ld_registry s) x" using cases keeps(2) by metis
  show "get_balance_handler (ld_registry (load_one core_ok s ep)) x =
      get_balance_handler (ld_registry s) x" using cases keeps(3) by metis
  show "get_stream_class (ld_registry (load_one core_ok s ep)) x t =
      get_stream_class (ld_registry s) x t" using cases keeps(4) by metis
qed

text \<open>
  Loading any number of plugins that declare what they register takes nothing away: an
  exchange that has a feed class keeps it, with its data class, balance handler and stream
  classes.
\<close>

theorem plugins_keep_registrations:
  assumes "\<forall>ep \<in> set eps. declares ep" "get_feed_class (ld_registry s) x = Some c"
  shows "get_feed_class (ld_registry (load_all core_ok s eps)) x = Some c \<and>
    get_exchange_data_class (ld_registry (load_all core_ok s eps)) x =
      get_exchange_data_class (ld_registry s) x \<and>
    get_balance_handler (ld_registry (load_all core_ok s eps)) x = get_balance_handler (ld_registry s) x \<and>
    get_stream_class (ld_registry (load_all core_ok s eps)) x t = get_stream_class (ld_registry s) x t"
  using assms
proof (induction eps arbitrary: s)
  case (Cons ep eps)
  then have "declares ep" by simp
  note k = load_one_keeps [OF this Cons.prems(2)]
  from Cons.IH [of "load_one core_ok s ep"] Cons.prems(1) k show ?case by (simp add: load_all_def)
qed (simp add: load_all_def)

definition witness_plugin :: "string list \<Rightarrow> nat plugin_call list \<Rightarrow> nat entry_point" where
  "witness_plugin supported calls =
     \<lparr>ep_name = ''p'', ep_module = ''m'',
      ep_load = Loads calls (ReturnsInfo \<lparr>pi_name = ''p'', pi_version = ''1'', pi_core_requires = [],
        pi_supported_exchanges = supported, pi_plugin_module = []\<rparr>)\<rparr>"

definition witness_loader :: "nat PluginLoader" where
  "witness_loader =
     \<lparr>ld_registry = register_feed ''A'' 1 create_isolated, ld_runtime = [], ld_loaded = [],
      ld_failed = [], ld_skipped = []\<rparr>"

theorem plugins_keep_registrations_witness:
  "get_feed_class (ld_registry (load_all (\<lambda>spec. Inr True) witness_loader
     [witness_plugin [''B''] [CallFeed ''B'' 2]])) ''A'' = Some 1"
  by (rule plugins_keep_registrations [THEN conjunct1])
    (simp_all add: declares_def witness_plugin_def witness_loader_def registry_defs create_isolated_def)

text \<open>
  The duplicate check looks at the exchanges a plugin declares, the commit at those it
  has a feed for: a plugin that registers a feed it does not declare replaces the feed of
  an earlier plugin, and what it registers for an exchange without a feed is dropped while
  the plugin counts as loaded.
\<close>

theorem undeclared_feed_replaces:
  fixes s :: "'c PluginLoader" and core_ok :: "string \<Rightarrow> plugin_error + bool" and md :: string
    and c d :: 'c
  assumes "core_ok (pi_core_requires info) = Inr True" "pi_supported_exchanges info = []"
    and "n \<notin> set (dkeys (ld_failed s)) \<union> set (dkeys (ld_loaded s))" and "y \<noteq> x"
  defines "s' \<equiv> load_one core_ok s \<lparr>ep_name = n, ep_module = md,
    ep_load = Loads [CallFeed x c, CallExchangeData y d] (ReturnsInfo info)\<rparr>"
  shows "get_feed_class (ld_registry s') x = Some c \<and>
    get_exchange_data_class (ld_registry s') y = get_exchange_data_class (ld_registry s) y \<and>
    pi_name info \<in> set (dkeys (ld_loaded s'))"
  using assms
  by (auto simp: load_one_def finish_plugin_def check_core_compatibility_def Let_def
      check_duplicate_registration_def commit_registry_def commit_exchange_def list_exchanges_def
      create_isolated_def registry_defs if_some_def dget_default_def list_adapters_def)

theorem undeclared_feed_replaces_witness:
  "get_feed_class (ld_registry (load_one (\<lambda>spec. Inr True) witness_loader
     (witness_plugin [] [CallFeed ''A'' 7, CallExchangeData ''B'' 8]))) ''A'' = Some 7"
  unfolding witness_plugin_def
  by (rule undeclared_feed_replaces [THEN conjunct1]) (simp_all add: witness_loader_def)

end
