(* ===== verification/Transport.thy ===== *)
theory Transport
  imports PyVal "HOL-Library.Sublist"
begin

text \<open>
  Model of \<open>src/bt_api_base/feeds/transport_safety.py\<close>: which keys carry credentials, the
  collection of the values under them, and the recursive redaction of payloads. The three
  regular expressions of \<open>sanitize_text\<close> (URLs, \<open>key=value\<close> pairs, bearer tokens) are a
  parameter \<open>clean\<close> here (theory TextPatterns has them); the replacement of known secrets that
  follows them is modelled.
\<close>

section \<open>Strings\<close>

definition redacted :: string where
  "redacted = ''***''"

definition contains :: "string \<Rightarrow> string \<Rightarrow> bool" where
  "contains part s \<longleftrightarrow> (\<exists>i \<in> set [0..<Suc (length s)]. prefix part (drop i s))"

lemma contains_code [code]: "contains part s \<longleftrightarrow> list_ex (\<lambda>i. prefix part (drop i s)) [0..<Suc (length s)]"
  by (auto simp: contains_def list_ex_iff)

text \<open>\<open>str.replace\<close> for a non-empty \<open>old\<close>.\<close>

function py_replace :: "string \<Rightarrow> string \<Rightarrow> string \<Rightarrow> string" where
  "py_replace old new s =
     (case s of
        [] \<Rightarrow> []
      | c # cs \<Rightarrow>
          if old \<noteq> [] \<and> prefix old s then new @ py_replace old new (drop (length old) s)
          else c # py_replace old new cs)"
  by pat_completeness auto
termination
  by (relation "measure (\<lambda>(old, new, s). length s)") auto

declare py_replace.simps [simp del]

lemma py_replace_Nil [simp]: "py_replace old new [] = []"
  by (simp add: py_replace.simps)

lemma py_replace_match:
  "old \<noteq> [] \<Longrightarrow> prefix old s \<Longrightarrow> py_replace old new s = new @ py_replace old new (drop (length old) s)"
  by (subst py_replace.simps) (cases s; simp)

lemma py_replace_other:
  "\<not> (old \<noteq> [] \<and> prefix old (c # cs)) \<Longrightarrow> py_replace old new (c # cs) = c # py_replace old new cs"
  by (subst py_replace.simps) auto

section \<open>Sensitive keys\<close>

definition sensitive_key_parts :: "string list" where
  "sensitive_key_parts =
     [''apikey'', ''accesskey'', ''secret'', ''token'', ''signature'', ''password'', ''passphrase'',
      ''authorization'', ''privatekey'', ''publickey'', ''listenkey'']"

definition normalize_key :: "string \<Rightarrow> string" where
  "normalize_key key = py_lower (filter (\<lambda>c. c \<noteq> CHR ''-'' \<and> c \<noteq> CHR ''_'' \<and> c \<noteq> CHR '' '') key)"

definition is_sensitive_key :: "string \<Rightarrow> bool" where
  "is_sensitive_key key \<longleftrightarrow>
     (let normalized = normalize_key key
      in normalized \<in> {''nonce'', ''timestamp''} \<or> suffix ''sign'' normalized \<or>
         list_ex (\<lambda>part. contains part normalized) sensitive_key_parts)"

definition sensitive_mapping_values :: "(string \<times> pyval) list \<Rightarrow> pyval list" where
  "sensitive_mapping_values d = map snd (filter (\<lambda>(k, v). is_sensitive_key k) d)"

section \<open>Redaction\<close>

definition secret_text :: "pyval \<Rightarrow> string list" where
  "secret_text v =
     (case v of
        PStr s \<Rightarrow> if 4 \<le> length s then [s] else []
      | PInt i \<Rightarrow> if 8 \<le> length (show_int \<bar>i\<bar>) then [show_int i] else []
      | PBool b \<Rightarrow> []
      | _ \<Rightarrow> [])"

fun collect_walk :: "pyval \<Rightarrow> string list" where
  "collect_walk (PDict d) =
     concat (map (\<lambda>p. (if is_sensitive_key (fst p) then secret_text (snd p) else []) @
       collect_walk (snd p)) d)"
| "collect_walk (PList xs) = concat (map collect_walk xs)"
| "collect_walk v = []"

fun dedup :: "'a list \<Rightarrow> 'a list \<Rightarrow> 'a list" where
  "dedup seen [] = rev seen"
| "dedup seen (x # xs) = (if x \<in> set seen then dedup seen xs else dedup (x # seen) xs)"

definition collect_sensitive_values :: "pyval \<Rightarrow> string list" where
  "collect_sensitive_values v = dedup [] (collect_walk v)"

definition sanitize_text :: "(string \<Rightarrow> string) \<Rightarrow> string list \<Rightarrow> string \<Rightarrow> string" where
  "sanitize_text clean secrets text =
     foldl (\<lambda>t s. if s \<noteq> [] then py_replace s redacted t else t) (clean text) secrets"

fun sanitize_item :: "(string \<Rightarrow> string) \<Rightarrow> string list \<Rightarrow> pyval \<Rightarrow> pyval" where
  "sanitize_item clean secrets (PDict d) =
     PDict (map (\<lambda>p. (fst p, if is_sensitive_key (fst p) then PStr redacted
                              else sanitize_item clean secrets (snd p))) d)"
| "sanitize_item clean secrets (PList xs) = PList (map (sanitize_item clean secrets) xs)"
| "sanitize_item clean secrets (PStr s) = PStr (sanitize_text clean secrets s)"
| "sanitize_item clean secrets v = v"

definition sanitize_value :: "(string \<Rightarrow> string) \<Rightarrow> pyval \<Rightarrow> pyval" where
  "sanitize_value clean v = sanitize_item clean (collect_sensitive_values v) v"

section \<open>The WebSocket path of a URL\<close>

fun split_on :: "char \<Rightarrow> string \<Rightarrow> string list" where
  "split_on sep [] = [[]]"
| "split_on sep (c # cs) =
     (if c = sep then [] # split_on sep cs
      else case split_on sep cs of [] \<Rightarrow> [[c]] | w # ws \<Rightarrow> (c # w) # ws)"

fun join_on :: "char \<Rightarrow> string list \<Rightarrow> string" where
  "join_on sep [] = []"
| "join_on sep [w] = w"
| "join_on sep (w # v # ws) = w @ sep # join_on sep (v # ws)"

lemma split_on_plain: "sep \<notin> set s \<Longrightarrow> split_on sep s = [s]"
  by (induction s) auto

lemma split_on_append: "sep \<notin> set s \<Longrightarrow> split_on sep (s @ sep # t) = s # split_on sep t"
  by (induction s) auto

lemma split_on_nonempty: "split_on sep s \<noteq> []"
  by (induction s) (auto split: list.splits)

lemma split_on_many: "sep \<in> set s \<Longrightarrow> 2 \<le> length (split_on sep s)"
proof (induction s)
  case (Cons c s)
  then show ?case
    using split_on_nonempty [of sep s]
    by (cases "split_on sep s") (auto simp: Suc_le_eq)
qed simp

lemma join_split: "join_on sep (split_on sep s) = s"
proof (induction s)
  case (Cons c s)
  obtain w ws where w: "split_on sep s = w # ws" by (cases "split_on sep s") (use Cons in \<open>auto\<close>)
  show ?case
  proof (cases "c = sep")
    case True
    then show ?thesis using Cons w by (cases ws) auto
  next
    case False
    then show ?thesis using Cons w by (cases ws) auto
  qed
qed simp

fun find_index :: "'a \<Rightarrow> 'a list \<Rightarrow> nat option" where
  "find_index x [] = None"
| "find_index x (y # ys) = (if y = x then Some 0 else map_option Suc (find_index x ys))"

fun redact_markers :: "string list \<Rightarrow> string list \<Rightarrow> string list" where
  "redact_markers [] parts = parts"
| "redact_markers (marker # ms) parts =
     (case find_index marker parts of
        None \<Rightarrow> redact_markers ms parts
      | Some i \<Rightarrow>
          if i + 1 < length parts \<and> parts ! (i + 1) \<noteq> [] then parts[i + 1 := redacted]
          else redact_markers ms parts)"

definition redact_websocket_path :: "string \<Rightarrow> string \<Rightarrow> string" where
  "redact_websocket_path path scheme =
     (if scheme \<notin> {''ws'', ''wss''} then path
      else join_on (CHR ''/'') (redact_markers [''ws'', ''stream''] (split_on (CHR ''/'') path)))"

text \<open>\<open>_trim_url_punctuation\<close>\<close>

definition trim_url_punctuation :: "string \<Rightarrow> string \<times> string" where
  "trim_url_punctuation candidate =
     (let punct = (\<lambda>c. c \<in> set ''.,;:)]}'')
      in (rev (dropWhile punct (rev candidate)), rev (takeWhile punct (rev candidate))))"

text \<open>
  \<open>sanitize_url\<close>: splitting, parsing the query and putting the URL together again are
  \<open>urllib.parse\<close>; the parts and the decisions on them are here. \<open>None\<close> for the error of an
  invalid URL.
\<close>

record url_parts =
  url_scheme :: string
  url_username :: "string option"
  url_password :: "string option"
  url_hostname :: "string option"
  url_port :: "nat option"
  url_path :: string
  url_query :: "(string \<times> string) list"
  url_fragment :: string

definition redact_user_info :: "url_parts \<Rightarrow> string" where
  "redact_user_info p =
     (let h = (case url_hostname p of None \<Rightarrow> [] | Some s \<Rightarrow> s);
          h1 = (if contains '':'' h \<and> \<not> prefix ''['' h then ''['' @ h @ '']'' else h);
          h2 = (case url_port p of None \<Rightarrow> h1 | Some n \<Rightarrow> h1 @ '':'' @ show_nat n)
      in if url_username p \<noteq> None \<or> url_password p \<noteq> None then redacted @ ''@'' @ h2 else h2)"

definition sanitize_query :: "(string \<times> string) list \<Rightarrow> (string \<times> string) list" where
  "sanitize_query q = map (\<lambda>(k, v). (k, if is_sensitive_key k then redacted else v)) q"

definition sanitize_url ::
    "(string \<Rightarrow> url_parts option) \<Rightarrow> (string \<Rightarrow> string \<Rightarrow> string \<Rightarrow> (string \<times> string) list \<Rightarrow> string \<Rightarrow> string)
     \<Rightarrow> string \<Rightarrow> string" where
  "sanitize_url urlsplit urlunsplit url =
     (case urlsplit url of
        None \<Rightarrow> ''<redacted-invalid-url>''
      | Some p \<Rightarrow>
          if py_lower (url_scheme p) \<notin> {''http'', ''https'', ''ws'', ''wss''} then url
          else urlunsplit (url_scheme p) (redact_user_info p)
                 (redact_websocket_path (url_path p) (py_lower (url_scheme p)))
                 (sanitize_query (url_query p)) (url_fragment p))"

section \<open>Correctness\<close>

fun clean_value :: "pyval \<Rightarrow> bool" where
  "clean_value (PDict d) \<longleftrightarrow>
     list_all (\<lambda>p. if is_sensitive_key (fst p) then snd p = PStr redacted else clean_value (snd p)) d"
| "clean_value (PList xs) \<longleftrightarrow> list_all clean_value xs"
| "clean_value v = True"

text \<open>Keys and structure, strings left out.\<close>

fun skeleton :: "pyval \<Rightarrow> pyval" where
  "skeleton (PDict d) =
     PDict (map (\<lambda>p. (fst p, if is_sensitive_key (fst p) then PNone else skeleton (snd p))) d)"
| "skeleton (PList xs) = PList (map skeleton xs)"
| "skeleton (PStr s) = PStr []"
| "skeleton v = v"

lemma sanitize_item_clean: "clean_value (sanitize_item clean secrets v)"
  by (induction clean secrets v rule: sanitize_item.induct) (auto simp: list_all_iff)

lemma sanitize_item_skeleton: "skeleton (sanitize_item clean secrets v) = skeleton v"
  by (induction clean secrets v rule: sanitize_item.induct) auto

text \<open>
  In a sanitized payload every value under a credential key, at any depth, is the
  redaction mark, and nothing else changes but the text of strings: keys, nesting, numbers
  and the lengths of lists stay.
\<close>

theorem sanitize_value_redacts:
  "clean_value (sanitize_value clean v) \<and> skeleton (sanitize_value clean v) = skeleton v"
  by (simp add: sanitize_value_def sanitize_item_clean sanitize_item_skeleton)

section \<open>Known secrets do not survive\<close>

fun leaf_strings :: "pyval \<Rightarrow> string list" where
  "leaf_strings (PDict d) = concat (map (\<lambda>p. leaf_strings (snd p)) d)"
| "leaf_strings (PList xs) = concat (map leaf_strings xs)"
| "leaf_strings (PStr s) = [s]"
| "leaf_strings v = []"

definition starless :: "string \<Rightarrow> bool" where
  "starless s \<longleftrightarrow> s \<noteq> [] \<and> CHR ''*'' \<notin> set s"

lemma redacted_stars: "c \<in> set redacted \<Longrightarrow> c = CHR ''*''"
  by (auto simp: redacted_def)

lemma sublist_redacted_append:
  assumes "starless s" "sublist s (redacted @ t)" shows "sublist s t"
proof -
  have no: "u = []" if "sublist u redacted" "set u \<subseteq> set s" for u
    using that assms(1) set_mono_sublist [OF that(1)] redacted_stars
    by (auto simp: starless_def) (metis hd_in_set subsetD)
  from assms(2) consider "sublist s redacted" | "sublist s t"
    | u v where "s = u @ v" "suffix u redacted" "prefix v t"
    by (auto simp: sublist_append)
  then show ?thesis
  proof cases
    case 1
    with no [of s] assms(1) show ?thesis by (simp add: starless_def)
  next
    case (3 u v)
    with no [of u] show ?thesis by (auto intro: prefix_imp_sublist suffix_imp_sublist)
  qed
qed

lemma prefix_replaced:
  "CHR ''*'' \<notin> set p \<Longrightarrow> prefix p (py_replace old redacted t) \<Longrightarrow> prefix p t"
proof (induction t arbitrary: p)
  case (Cons c cs)
  show ?case
  proof (cases "old \<noteq> [] \<and> prefix old (c # cs)")
    case True
    then have "prefix p (redacted @ py_replace old redacted (drop (length old) (c # cs)))"
      using Cons.prems(2) by (simp add: py_replace_match)
    with Cons.prems(1) show ?thesis by (cases p) (auto simp: redacted_def)
  next
    case False
    then have "prefix p (c # py_replace old redacted cs)"
      using Cons.prems(2) by (simp only: py_replace_other [OF False])
    with Cons show ?thesis by (cases p) auto
  qed
qed simp

lemma replace_introduces_none:
  "starless s \<Longrightarrow> \<not> sublist s t \<Longrightarrow> \<not> sublist s (py_replace old redacted t)"
proof (induction t rule: length_induct)
  case (1 t)
  show ?case
  proof (cases t)
    case Nil
    then show ?thesis using 1 by simp
  next
    case (Cons c cs)
    show ?thesis
    proof (cases "old \<noteq> [] \<and> prefix old t")
      case True
      have shorter: "length (drop (length old) t) < length t" using True Cons by auto
      have "\<not> sublist s (drop (length old) t)"
        using "1.prems"(2) sublist_drop sublist_order.order_trans by blast
      with 1 shorter have "\<not> sublist s (py_replace old redacted (drop (length old) t))" by blast
      then have "\<not> sublist s (redacted @ py_replace old redacted (drop (length old) t))"
        using sublist_redacted_append [OF "1.prems"(1)] by blast
      then show ?thesis using True Cons by (simp add: py_replace_match)
    next
      case False
      have r: "py_replace old redacted t = c # py_replace old redacted cs"
        unfolding Cons by (rule py_replace_other) (use False Cons in simp)
      have "\<not> sublist s cs" "\<not> prefix s t"
        using "1.prems"(2) Cons by (auto simp: sublist_Cons_right)
      with 1 Cons have "\<not> sublist s (py_replace old redacted cs)" by auto
      moreover have "\<not> prefix s (c # py_replace old redacted cs)"
      proof
        assume "prefix s (c # py_replace old redacted cs)"
        with "1.prems"(1) obtain p where "s = c # p" "prefix p (py_replace old redacted cs)"
          by (cases s) (auto simp: starless_def)
        with prefix_replaced [of p old cs] "1.prems"(1) \<open>\<not> prefix s t\<close> Cons show False
          by (auto simp: starless_def)
      qed
      ultimately show ?thesis by (simp add: r sublist_Cons_right)
    qed
  qed
qed

lemma replace_removes: "starless s \<Longrightarrow> \<not> sublist s (py_replace s redacted t)"
proof (induction t rule: length_induct)
  case (1 t)
  have ne: "s \<noteq> []" using "1.prems" by (simp add: starless_def)
  show ?case
  proof (cases t)
    case Nil
    then show ?thesis using ne by simp
  next
    case (Cons c cs)
    show ?thesis
    proof (cases "prefix s t")
      case True
      have shorter: "length (drop (length s) t) < length t" using ne Cons by (cases s) auto
      with 1 have "\<not> sublist s (py_replace s redacted (drop (length s) t))" by blast
      then have "\<not> sublist s (redacted @ py_replace s redacted (drop (length s) t))"
        using sublist_redacted_append [OF "1.prems"] by blast
      then show ?thesis using True Cons ne by (simp add: py_replace_match)
    next
      case False
      have r: "py_replace s redacted t = c # py_replace s redacted cs"
        unfolding Cons by (rule py_replace_other) (use False Cons in simp)
      have "\<not> sublist s (py_replace s redacted cs)" using 1 Cons by simp
      moreover have "\<not> prefix s (c # py_replace s redacted cs)"
      proof
        assume "prefix s (c # py_replace s redacted cs)"
        with ne obtain p where "s = c # p" "prefix p (py_replace s redacted cs)"
          by (cases s) auto
        with prefix_replaced [of p s cs] "1.prems" False Cons show False
          by (auto simp: starless_def)
      qed
      ultimately show ?thesis by (simp add: r sublist_Cons_right)
    qed
  qed
qed

lemma sanitize_text_removes:
  assumes "starless s" "s \<in> set secrets"
  shows "\<not> sublist s (sanitize_text clean secrets t)"
proof -
  let ?f = "\<lambda>t s. if s \<noteq> [] then py_replace s redacted t else t"
  have keep: "\<not> sublist s u \<Longrightarrow> \<not> sublist s (foldl ?f u xs)" for u xs
    using replace_introduces_none [OF assms(1)] by (induction xs arbitrary: u) auto
  have "\<not> sublist s (foldl ?f u xs)" if "s \<in> set xs" for u xs
    using that
  proof (induction xs arbitrary: u)
    case (Cons x xs)
    show ?case
    proof (cases "x = s")
      case True
      then show ?thesis using keep [OF replace_removes [OF assms(1)]] assms(1)
        by (simp add: starless_def)
    qed (use Cons in auto)
  qed simp
  with assms(2) show ?thesis by (simp add: sanitize_text_def)
qed

lemma sanitize_item_leaves:
  "starless s \<Longrightarrow> s \<in> set secrets \<Longrightarrow> u \<in> set (leaf_strings (sanitize_item clean secrets v)) \<Longrightarrow>
   \<not> sublist s u"
proof (induction clean secrets v rule: sanitize_item.induct)
  case (1 clean secrets d)
  have "\<not> sublist s redacted" using sublist_redacted_append [OF "1.prems"(1), of "[]"] "1.prems"(1)
    by (auto simp: starless_def)
  with 1 show ?case by (auto split: if_splits)
qed (auto simp: sanitize_text_removes)

lemma set_dedup: "set (dedup seen xs) = set seen \<union> set xs"
  by (induction seen xs rule: dedup.induct) auto



end
