(* ===== verification/Exceptions.thy ===== *)
theory Exceptions
  imports PyVal
begin

text \<open>
  Model of \<open>src/bt_api_base/exceptions.py\<close>: the exception classes with their bases (those
  \<open>error.py\<close> derives from them and Python's own \<open>ConnectionError\<close> included), the predicates
  that sort errors by \<open>isinstance\<close>, and the messages the constructors build.
\<close>

section \<open>The hierarchy\<close>

datatype exc_class =
    PyException | PyConnectionError
  | BtApiError | ExchangeNotFoundError | ExchangeConnectionError | AuthenticationError
  | RequestTimeoutError | RequestError | OrderError | SubscribeError | DataParseError
  | RateLimitError | NetworkError | InvalidSymbolError | InsufficientBalanceError
  | InvalidOrderError | OrderNotFoundError | ConfigurationError | WebSocketError
  | CurrencyNotFoundError | QueueNotInitializedError | RequestFailedError
  | UnifiedErrorClass | UnifiedRateLimitError | UnifiedAuthError | ServerError
  | UnifiedRequestFailedError

fun exc_bases :: "exc_class \<Rightarrow> exc_class list" where
  "exc_bases PyException = []"
| "exc_bases PyConnectionError = [PyException]"
| "exc_bases BtApiError = [PyException]"
| "exc_bases AuthenticationError = [ExchangeConnectionError]"
| "exc_bases InsufficientBalanceError = [OrderError]"
| "exc_bases InvalidOrderError = [OrderError]"
| "exc_bases OrderNotFoundError = [OrderError]"
| "exc_bases QueueNotInitializedError = [DataParseError]"
| "exc_bases RequestFailedError = [RequestError]"
| "exc_bases UnifiedRateLimitError = [UnifiedErrorClass, RateLimitError]"
| "exc_bases UnifiedAuthError = [UnifiedErrorClass, AuthenticationError]"
| "exc_bases ServerError = [UnifiedErrorClass]"
| "exc_bases UnifiedRequestFailedError = [UnifiedErrorClass, RequestFailedError]"
| "exc_bases _ = [BtApiError]"

text \<open>The hierarchy is five levels deep, so five steps up reach every ancestor.\<close>

fun ancestors :: "nat \<Rightarrow> exc_class \<Rightarrow> exc_class list" where
  "ancestors 0 c = [c]"
| "ancestors (Suc n) c = c # concat (map (ancestors n) (exc_bases c))"

definition isinstance :: "exc_class \<Rightarrow> exc_class list \<Rightarrow> bool" where
  "isinstance c classes \<longleftrightarrow> list_ex (\<lambda>d. d \<in> set (ancestors 5 c)) classes"

definition is_network_error :: "exc_class \<Rightarrow> bool" where
  "is_network_error c = isinstance c [NetworkError, RequestTimeoutError, WebSocketError, PyConnectionError]"

definition is_auth_error :: "exc_class \<Rightarrow> bool" where
  "is_auth_error c = isinstance c [AuthenticationError]"

definition is_rate_limit_error :: "exc_class \<Rightarrow> bool" where
  "is_rate_limit_error c = isinstance c [RateLimitError]"

definition is_order_error :: "exc_class \<Rightarrow> bool" where
  "is_order_error c = isinstance c [OrderError]"

definition is_user_recoverable :: "exc_class \<Rightarrow> bool" where
  "is_user_recoverable c =
     isinstance c [InvalidSymbolError, InsufficientBalanceError, InvalidOrderError,
       ConfigurationError, RateLimitError]"

section \<open>Messages\<close>

text \<open>
  The non-ASCII dash between a message and its detail is written \<open>--\<close>. \<open>show\<close> renders the
  numbers and lists that occur in messages, as an f-string does.
\<close>

definition opt_part :: "string \<Rightarrow> string \<Rightarrow> string \<Rightarrow> string" where
  "opt_part before x after = (if x = [] then [] else before @ x @ after)"

definition exchange_not_found_msg :: "(pyval \<Rightarrow> string) \<Rightarrow> string \<Rightarrow> pyval \<Rightarrow> string" where
  "exchange_not_found_msg show exchange available =
     ''Exchange not found: '' @ exchange @
     (if truthy available then ''. Available: '' @ show available else [])"

definition connection_error_msg :: "string \<Rightarrow> string \<Rightarrow> string" where
  "connection_error_msg exchange detail =
     ''Connection failed: '' @ exchange @ opt_part '' -- '' detail []"

definition request_timeout_msg :: "(pyval \<Rightarrow> string) \<Rightarrow> string \<Rightarrow> string \<Rightarrow> pyval \<Rightarrow> string" where
  "request_timeout_msg show exchange url timeout =
     exchange @ '' request timeout ('' @ show timeout @ ''s)'' @ opt_part '': '' url []"

definition request_error_msg :: "string \<Rightarrow> string \<Rightarrow> string \<Rightarrow> string" where
  "request_error_msg exchange url detail =
     exchange @ '' request error'' @ opt_part '': '' url [] @ opt_part '' -- '' detail []"

definition order_error_msg :: "string \<Rightarrow> string \<Rightarrow> string \<Rightarrow> string" where
  "order_error_msg exchange symbol detail =
     exchange @ '' order error'' @ opt_part '' ['' symbol '']'' @ opt_part '': '' detail []"

definition subscribe_error_msg :: "string \<Rightarrow> string \<Rightarrow> string" where
  "subscribe_error_msg exchange detail = exchange @ '' subscribe error'' @ opt_part '': '' detail []"

definition data_parse_error_msg :: "string \<Rightarrow> string \<Rightarrow> string" where
  "data_parse_error_msg container detail =
     ''Data parse error'' @ opt_part '' in '' container [] @ opt_part '': '' detail []"

definition rate_limit_error_msg :: "(pyval \<Rightarrow> string) \<Rightarrow> string \<Rightarrow> pyval \<Rightarrow> string \<Rightarrow> string" where
  "rate_limit_error_msg show exchange retry_after detail =
     exchange @ '' rate limit exceeded'' @
     (if truthy retry_after then '' (retry after '' @ show retry_after @ ''s)'' else []) @
     opt_part '': '' detail []"

definition network_error_msg :: "string \<Rightarrow> string \<Rightarrow> string" where
  "network_error_msg exchange detail = exchange @ '' network error'' @ opt_part '': '' detail []"

definition invalid_symbol_msg :: "string \<Rightarrow> string \<Rightarrow> string \<Rightarrow> string" where
  "invalid_symbol_msg exchange symbol detail =
     exchange @ '' invalid symbol: '' @ symbol @ opt_part '' -- '' detail []"

definition insufficient_balance_msg ::
    "(pyval \<Rightarrow> string) \<Rightarrow> string \<Rightarrow> string \<Rightarrow> pyval \<Rightarrow> pyval \<Rightarrow> string" where
  "insufficient_balance_msg show exchange symbol required available =
     order_error_msg exchange symbol
       (''Insufficient balance'' @
        (if required \<noteq> PNone \<and> available \<noteq> PNone
         then '' (required: '' @ show required @ '', available: '' @ show available @ '')'' else []))"

definition order_not_found_msg :: "string \<Rightarrow> string \<Rightarrow> string \<Rightarrow> string" where
  "order_not_found_msg exchange order_id symbol =
     order_error_msg exchange symbol (''Order not found: '' @ order_id)"

definition configuration_error_msg :: "string \<Rightarrow> string" where
  "configuration_error_msg detail = ''Configuration error'' @ opt_part '': '' detail []"

definition websocket_error_msg :: "string \<Rightarrow> string \<Rightarrow> string" where
  "websocket_error_msg exchange detail = exchange @ '' WebSocket error'' @ opt_part '': '' detail []"

definition currency_not_found_msg :: "string \<Rightarrow> string \<Rightarrow> string" where
  "currency_not_found_msg exchange currency =
     ''Currency '' @ [CHR 39] @ currency @ [CHR 39] @ '' not found in '' @ exchange"

definition queue_not_initialized_msg :: "string \<Rightarrow> string \<Rightarrow> string" where
  "queue_not_initialized_msg queue_name detail =
     data_parse_error_msg ''DataQueue''
       (''Data queue not initialized'' @ opt_part '': '' queue_name [] @ opt_part '' -- '' detail [])"

text \<open>\<open>RequestFailedError\<close> takes its old and its new arguments; the result is the venue kept
  in the object and the message.\<close>

definition request_failed ::
    "(pyval \<Rightarrow> string) \<Rightarrow> string option \<Rightarrow> string \<Rightarrow> string \<Rightarrow> string \<Rightarrow> string \<Rightarrow> int option
     \<Rightarrow> string \<times> string" where
  "request_failed show exchange_name url detail venue message status_code =
     (let name = (if truthy_str exchange_name then the exchange_name else venue);
          msg = (if message \<noteq> [] then message else if detail \<noteq> [] then detail else ''Request failed'');
          msg1 = (case status_code of None \<Rightarrow> msg
                  | Some s \<Rightarrow> msg @ '' (HTTP '' @ show_int s @ '')'')
      in (name, request_error_msg (if name = [] then ''unknown'' else name) url msg1))"

section \<open>What the predicates accept\<close>

lemma ancestors_code [simp]:
  "ancestors (numeral k) c = c # concat (map (ancestors (pred_numeral k)) (exc_bases c))"
  by (simp add: numeral_eq_Suc)

text \<open>
  The predicates sort the error classes without overlap: an error counts as one of
  network, authentication, rate limit or order error at most, and these are exactly the
  classes each accepts. A failed connection (\<open>ExchangeConnectionError\<close>) is none of them.
\<close>

theorem error_predicates_exact:
  "(is_network_error c \<longleftrightarrow> c \<in> {NetworkError, RequestTimeoutError, WebSocketError, PyConnectionError}) \<and>
   (is_auth_error c \<longleftrightarrow> c \<in> {AuthenticationError, UnifiedAuthError}) \<and>
   (is_rate_limit_error c \<longleftrightarrow> c \<in> {RateLimitError, UnifiedRateLimitError}) \<and>
   (is_order_error c \<longleftrightarrow> c \<in> {OrderError, InsufficientBalanceError, InvalidOrderError, OrderNotFoundError}) \<and>
   (is_user_recoverable c \<longleftrightarrow>
      c \<in> {InvalidSymbolError, InsufficientBalanceError, InvalidOrderError, ConfigurationError,
           RateLimitError, UnifiedRateLimitError})"
  by (cases c) (simp_all add: is_network_error_def is_auth_error_def is_rate_limit_error_def
      is_order_error_def is_user_recoverable_def isinstance_def eval_nat_numeral)

end
