(* ===== verification/Errors.thy ===== *)
theory Errors
  imports Transport
begin

text \<open>
  Model of \<open>src/bt_api_base/error.py\<close>: the unified codes and their categories,
  \<open>UnifiedError\<close> with the redaction its constructor does (theory Transport), its subclasses
  and the base and OKX translators. The translators of other exchanges are plugins outside the
  repository.
\<close>

section \<open>Unified codes and categories\<close>

datatype ErrorCategory =
    NETWORK_CAT | AUTH_CAT | RATE_LIMIT_CAT | BUSINESS_CAT | SYSTEM_CAT | CAPABILITY_CAT |
    VALIDATION_CAT | API_CAT | ORDER_CAT | TRADE_CAT | ACCOUNT_CAT

fun category_value :: "ErrorCategory \<Rightarrow> string" where
  "category_value NETWORK_CAT = ''network''"
| "category_value AUTH_CAT = ''auth''"
| "category_value RATE_LIMIT_CAT = ''rate_limit''"
| "category_value BUSINESS_CAT = ''business''"
| "category_value SYSTEM_CAT = ''system''"
| "category_value CAPABILITY_CAT = ''capability''"
| "category_value VALIDATION_CAT = ''validation''"
| "category_value API_CAT = ''api''"
| "category_value ORDER_CAT = ''order''"
| "category_value TRADE_CAT = ''trade''"
| "category_value ACCOUNT_CAT = ''account''"

datatype UnifiedErrorCode =
    NETWORK_TIMEOUT | NETWORK_DISCONNECTED | DNS_ERROR | CONNECTION_REFUSED | INVALID_API_KEY |
    INVALID_SIGNATURE | EXPIRED_TIMESTAMP | PERMISSION_DENIED | SESSION_EXPIRED |
    RATE_LIMIT_EXCEEDED | IP_BANNED | TOO_MANY_REQUESTS | INVALID_SYMBOL | INVALID_PRICE |
    INVALID_VOLUME | INSUFFICIENT_BALANCE | INSUFFICIENT_MARGIN | ORDER_NOT_FOUND |
    ORDER_ALREADY_FILLED | ORDER_CANCELLED | ORDER_TIMEOUT | MARKET_CLOSED |
    POSITION_NOT_FOUND | DUPLICATE_ORDER | INVALID_ORDER | MIN_NOTIONAL | MINIMUM_NOT_MET |
    PRECISION_ERROR | ORDER_CANCEL_FAILED | INVALID_SIDE | INVALID_ORDER_TYPE |
    WITHDRAWAL_FAILED | DEPOSIT_FAILED | TRANSFER_FAILED | ACCOUNT_SUSPENDED |
    EXCHANGE_MAINTENANCE | EXCHANGE_OVERLOADED | INTERNAL_ERROR | UNSUPPORTED_OPERATION |
    NOT_SUPPORTED | NOT_IMPLEMENTED | INVALID_PARAMETER | MISSING_PARAMETER |
    PARAMETER_OUT_OF_RANGE | API_ERROR | ORDER_ERROR | TRADE_ERROR | ACCOUNT_ERROR

fun code_value :: "UnifiedErrorCode \<Rightarrow> int" where
  "code_value NETWORK_TIMEOUT = 1001"
| "code_value NETWORK_DISCONNECTED = 1002"
| "code_value DNS_ERROR = 1003"
| "code_value CONNECTION_REFUSED = 1004"
| "code_value INVALID_API_KEY = 2001"
| "code_value INVALID_SIGNATURE = 2002"
| "code_value EXPIRED_TIMESTAMP = 2003"
| "code_value PERMISSION_DENIED = 2004"
| "code_value SESSION_EXPIRED = 2005"
| "code_value RATE_LIMIT_EXCEEDED = 3001"
| "code_value IP_BANNED = 3002"
| "code_value TOO_MANY_REQUESTS = 3003"
| "code_value INVALID_SYMBOL = 4001"
| "code_value INVALID_PRICE = 4002"
| "code_value INVALID_VOLUME = 4003"
| "code_value INSUFFICIENT_BALANCE = 4004"
| "code_value INSUFFICIENT_MARGIN = 4005"
| "code_value ORDER_NOT_FOUND = 4006"
| "code_value ORDER_ALREADY_FILLED = 4007"
| "code_value ORDER_CANCELLED = 4008"
| "code_value ORDER_TIMEOUT = 4009"
| "code_value MARKET_CLOSED = 4010"
| "code_value POSITION_NOT_FOUND = 4011"
| "code_value DUPLICATE_ORDER = 4012"
| "code_value INVALID_ORDER = 4013"
| "code_value MIN_NOTIONAL = 4014"
| "code_value MINIMUM_NOT_MET = 4015"
| "code_value PRECISION_ERROR = 4016"
| "code_value ORDER_CANCEL_FAILED = 4017"
| "code_value INVALID_SIDE = 4018"
| "code_value INVALID_ORDER_TYPE = 4019"
| "code_value WITHDRAWAL_FAILED = 4020"
| "code_value DEPOSIT_FAILED = 4021"
| "code_value TRANSFER_FAILED = 4022"
| "code_value ACCOUNT_SUSPENDED = 4023"
| "code_value EXCHANGE_MAINTENANCE = 5001"
| "code_value EXCHANGE_OVERLOADED = 5002"
| "code_value INTERNAL_ERROR = 5003"
| "code_value UNSUPPORTED_OPERATION = 5004"
| "code_value NOT_SUPPORTED = 6001"
| "code_value NOT_IMPLEMENTED = 6002"
| "code_value INVALID_PARAMETER = 7001"
| "code_value MISSING_PARAMETER = 7002"
| "code_value PARAMETER_OUT_OF_RANGE = 7003"
| "code_value API_ERROR = 8001"
| "code_value ORDER_ERROR = 8002"
| "code_value TRADE_ERROR = 8003"
| "code_value ACCOUNT_ERROR = 8004"

fun code_name :: "UnifiedErrorCode \<Rightarrow> string" where
  "code_name NETWORK_TIMEOUT = ''NETWORK_TIMEOUT''"
| "code_name NETWORK_DISCONNECTED = ''NETWORK_DISCONNECTED''"
| "code_name DNS_ERROR = ''DNS_ERROR''"
| "code_name CONNECTION_REFUSED = ''CONNECTION_REFUSED''"
| "code_name INVALID_API_KEY = ''INVALID_API_KEY''"
| "code_name INVALID_SIGNATURE = ''INVALID_SIGNATURE''"
| "code_name EXPIRED_TIMESTAMP = ''EXPIRED_TIMESTAMP''"
| "code_name PERMISSION_DENIED = ''PERMISSION_DENIED''"
| "code_name SESSION_EXPIRED = ''SESSION_EXPIRED''"
| "code_name RATE_LIMIT_EXCEEDED = ''RATE_LIMIT_EXCEEDED''"
| "code_name IP_BANNED = ''IP_BANNED''"
| "code_name TOO_MANY_REQUESTS = ''TOO_MANY_REQUESTS''"
| "code_name INVALID_SYMBOL = ''INVALID_SYMBOL''"
| "code_name INVALID_PRICE = ''INVALID_PRICE''"
| "code_name INVALID_VOLUME = ''INVALID_VOLUME''"
| "code_name INSUFFICIENT_BALANCE = ''INSUFFICIENT_BALANCE''"
| "code_name INSUFFICIENT_MARGIN = ''INSUFFICIENT_MARGIN''"
| "code_name ORDER_NOT_FOUND = ''ORDER_NOT_FOUND''"
| "code_name ORDER_ALREADY_FILLED = ''ORDER_ALREADY_FILLED''"
| "code_name ORDER_CANCELLED = ''ORDER_CANCELLED''"
| "code_name ORDER_TIMEOUT = ''ORDER_TIMEOUT''"
| "code_name MARKET_CLOSED = ''MARKET_CLOSED''"
| "code_name POSITION_NOT_FOUND = ''POSITION_NOT_FOUND''"
| "code_name DUPLICATE_ORDER = ''DUPLICATE_ORDER''"
| "code_name INVALID_ORDER = ''INVALID_ORDER''"
| "code_name MIN_NOTIONAL = ''MIN_NOTIONAL''"
| "code_name MINIMUM_NOT_MET = ''MINIMUM_NOT_MET''"
| "code_name PRECISION_ERROR = ''PRECISION_ERROR''"
| "code_name ORDER_CANCEL_FAILED = ''ORDER_CANCEL_FAILED''"
| "code_name INVALID_SIDE = ''INVALID_SIDE''"
| "code_name INVALID_ORDER_TYPE = ''INVALID_ORDER_TYPE''"
| "code_name WITHDRAWAL_FAILED = ''WITHDRAWAL_FAILED''"
| "code_name DEPOSIT_FAILED = ''DEPOSIT_FAILED''"
| "code_name TRANSFER_FAILED = ''TRANSFER_FAILED''"
| "code_name ACCOUNT_SUSPENDED = ''ACCOUNT_SUSPENDED''"
| "code_name EXCHANGE_MAINTENANCE = ''EXCHANGE_MAINTENANCE''"
| "code_name EXCHANGE_OVERLOADED = ''EXCHANGE_OVERLOADED''"
| "code_name INTERNAL_ERROR = ''INTERNAL_ERROR''"
| "code_name UNSUPPORTED_OPERATION = ''UNSUPPORTED_OPERATION''"
| "code_name NOT_SUPPORTED = ''NOT_SUPPORTED''"
| "code_name NOT_IMPLEMENTED = ''NOT_IMPLEMENTED''"
| "code_name INVALID_PARAMETER = ''INVALID_PARAMETER''"
| "code_name MISSING_PARAMETER = ''MISSING_PARAMETER''"
| "code_name PARAMETER_OUT_OF_RANGE = ''PARAMETER_OUT_OF_RANGE''"
| "code_name API_ERROR = ''API_ERROR''"
| "code_name ORDER_ERROR = ''ORDER_ERROR''"
| "code_name TRADE_ERROR = ''TRADE_ERROR''"
| "code_name ACCOUNT_ERROR = ''ACCOUNT_ERROR''"

definition get_category :: "UnifiedErrorCode \<Rightarrow> ErrorCategory" where
  "get_category code =
     (let v = code_value code
      in if 1000 \<le> v \<and> v < 2000 then NETWORK_CAT
         else if 2000 \<le> v \<and> v < 3000 then AUTH_CAT
         else if 3000 \<le> v \<and> v < 4000 then RATE_LIMIT_CAT
         else if 4000 \<le> v \<and> v < 5000 then BUSINESS_CAT
         else if 5000 \<le> v \<and> v < 6000 then SYSTEM_CAT
         else if 6000 \<le> v \<and> v < 7000 then CAPABILITY_CAT
         else VALIDATION_CAT)"

section \<open>\<open>UnifiedError\<close>\<close>

record UnifiedError =
  ue_code :: UnifiedErrorCode
  ue_category :: ErrorCategory
  ue_venue :: string
  ue_message :: pyval
  ue_original_error :: pyval
  ue_context :: pyval

definition pdict_get :: "pyval \<Rightarrow> string \<Rightarrow> pyval" where
  "pdict_get v k = (case v of PDict d \<Rightarrow> dget_default d k PNone | _ \<Rightarrow> PNone)"

text \<open>\<open>__post_init__\<close>: the three fields are sanitized together, as one payload.\<close>

definition unified_error ::
    "(string \<Rightarrow> string) \<Rightarrow> UnifiedErrorCode \<Rightarrow> ErrorCategory \<Rightarrow> string \<Rightarrow> pyval \<Rightarrow> pyval \<Rightarrow> pyval
     \<Rightarrow> UnifiedError" where
  "unified_error clean code category venue message original context =
     (let s = sanitize_value clean
                (PDict [(''message'', message), (''original_error'', original), (''context'', context)])
      in \<lparr>ue_code = code, ue_category = category, ue_venue = venue,
          ue_message = pdict_get s ''message'', ue_original_error = pdict_get s ''original_error'',
          ue_context = pdict_get s ''context''\<rparr>)"

definition ue_to_dict :: "(string \<Rightarrow> string) \<Rightarrow> UnifiedError \<Rightarrow> pyval" where
  "ue_to_dict clean e = sanitize_value clean (PDict
     [(''code'', PInt (code_value (ue_code e))), (''code_name'', PStr (code_name (ue_code e))),
      (''category'', PStr (category_value (ue_category e))), (''venue'', PStr (ue_venue e)),
      (''message'', ue_message e), (''original_error'', ue_original_error e),
      (''context'', ue_context e)])"

definition ue_raw_response :: "(string \<Rightarrow> string) \<Rightarrow> UnifiedError \<Rightarrow> pyval" where
  "ue_raw_response clean e = sanitize_value clean (pdict_get (ue_context e) ''raw_response'')"

definition raw_context :: "pyval \<Rightarrow> pyval" where
  "raw_context response = PDict (if truthy response then [(''raw_response'', response)] else [])"

definition unified_rate_limit_error where
  "unified_rate_limit_error clean venue response message =
     unified_error clean RATE_LIMIT_EXCEEDED RATE_LIMIT_CAT venue message PNone (raw_context response)"

definition unified_auth_error where
  "unified_auth_error clean venue response message =
     unified_error clean INVALID_API_KEY AUTH_CAT venue message PNone (raw_context response)"

definition server_error where
  "server_error clean venue status response message =
     unified_error clean INTERNAL_ERROR SYSTEM_CAT venue message PNone
       (PDict [(''status'', PInt status), (''raw_response'', response)])"

definition unified_request_failed_error where
  "unified_request_failed_error clean venue status response message =
     unified_error clean INTERNAL_ERROR SYSTEM_CAT venue message PNone
       (PDict [(''status'', PInt status), (''raw_response'', response)])"

section \<open>Translators\<close>

text \<open>
  An exchange's map from error codes to unified ones; \<open>None\<close> marks success. Codes of the
  base translator are compared as Python compares dict keys; the maps here have string keys.
\<close>

type_synonym error_map = "(string, UnifiedErrorCode option \<times> string) dict"

definition http_status_map :: "(int, UnifiedErrorCode \<times> string) dict" where
  "http_status_map =
     [(400, (INVALID_PARAMETER, ''Invalid request parameters'')),
      (401, (INVALID_API_KEY, ''Invalid API key'')),
      (403, (PERMISSION_DENIED, ''Permission denied'')),
      (404, (INVALID_SYMBOL, ''Resource not found'')),
      (429, (RATE_LIMIT_EXCEEDED, ''Rate limit exceeded'')),
      (500, (INTERNAL_ERROR, ''Internal server error'')),
      (503, (EXCHANGE_OVERLOADED, ''Service unavailable'')),
      (504, (NETWORK_TIMEOUT, ''Gateway timeout''))]"

text \<open>
  \<open>translate\<close> of the base class. \<open>render\<close> is Python's \<open>str\<close>/f-string rendering of a value.
  A code or status that is a list or dict is unhashable: the dict lookup raises.
\<close>

fun hashable :: "pyval \<Rightarrow> bool" where
  "hashable (PList xs) = False"
| "hashable (PDict d) = False"
| "hashable v = True"

definition lookup_code :: "error_map \<Rightarrow> pyval \<Rightarrow> (UnifiedErrorCode option \<times> string) option" where
  "lookup_code m code = (case code of PStr s \<Rightarrow> dget m s | _ \<Rightarrow> None)"

definition lookup_status :: "pyval \<Rightarrow> (UnifiedErrorCode \<times> string) option" where
  "lookup_status status =
     (case status of
        PInt i \<Rightarrow> dget http_status_map i
      | PFloat r \<Rightarrow> if of_int \<lfloor>r\<rfloor> = r then dget http_status_map \<lfloor>r\<rfloor> else None
      | _ \<Rightarrow> None)"

definition base_translate ::
    "(string \<Rightarrow> string) \<Rightarrow> (pyval \<Rightarrow> string) \<Rightarrow> error_map \<Rightarrow> (string \<times> pyval) list \<Rightarrow> string
     \<Rightarrow> (UnifiedError option) py" where
  "base_translate clean render error_map raw_error venue =
     (let code = dget_default raw_error ''code'' PNone;
          msg = dget_default raw_error ''msg'' (dget_default raw_error ''message'' (PStr []));
          status = dget_default raw_error ''status'' PNone;
          make = (\<lambda>c message original.
                    unified_error clean c (get_category c) venue message (PStr original)
                      (PDict [(''raw_response'', PDict raw_error)]))
      in if code \<noteq> PNone \<and> \<not> hashable code then Inl TypeError
         else case (if code = PNone then None else lookup_code error_map code) of
           Some (None, _) \<Rightarrow> Inr None
         | Some (Some c, default_msg) \<Rightarrow>
             Inr (Some (make c (py_or msg (PStr default_msg)) (render code @ '': '' @ render msg)))
         | None \<Rightarrow>
             if truthy status \<and> \<not> hashable status then Inl TypeError
             else case (if truthy status then lookup_status status else None) of
               Some (c, default_msg) \<Rightarrow>
                 Inr (Some (make c (py_or msg (PStr default_msg))
                   (''HTTP '' @ render status @ '': '' @ render msg)))
             | None \<Rightarrow>
                 Inr (Some (unified_error clean INTERNAL_ERROR SYSTEM_CAT venue
                   (py_or msg (PStr ''Unknown error'')) (PStr (render (PDict raw_error)))
                   (PDict [(''raw_response'', PDict raw_error)]))))"

definition okx_error_map :: error_map where
  "okx_error_map =
     [(''0'', (None, ''Success'')),
      (''50000'', (Some INTERNAL_ERROR, ''Body can not be empty'')),
      (''50001'', (Some EXCHANGE_MAINTENANCE, ''Service temporarily unavailable'')),
      (''50004'', (Some NETWORK_TIMEOUT, ''Endpoint request timeout'')),
      (''50011'', (Some RATE_LIMIT_EXCEEDED, ''Rate limit reached'')),
      (''50013'', (Some EXCHANGE_OVERLOADED, ''System busy'')),
      (''50014'', (Some INVALID_PARAMETER, ''Parameter error'')),
      (''50100'', (Some INVALID_API_KEY, ''API frozen'')),
      (''50101'', (Some INVALID_API_KEY, ''API key does not match the current environment'')),
      (''50102'', (Some EXPIRED_TIMESTAMP, ''Timestamp expired'')),
      (''50103'', (Some INVALID_SIGNATURE, ''Signature invalid'')),
      (''50104'', (Some PERMISSION_DENIED, ''No permission'')),
      (''50105'', (Some PERMISSION_DENIED, ''IP not whitelisted'')),
      (''50119'', (Some INVALID_API_KEY, ''API key does not exist'')),
      (''51000'', (Some INVALID_PARAMETER, ''Parameter error'')),
      (''51001'', (Some INVALID_SYMBOL, ''Instrument ID does not exist'')),
      (''51004'', (Some INVALID_VOLUME, ''Order amount too small'')),
      (''51008'', (Some INSUFFICIENT_BALANCE, ''Insufficient balance'')),
      (''51009'', (Some INSUFFICIENT_MARGIN, ''Insufficient margin'')),
      (''51010'', (Some INVALID_PRICE, ''Price not meeting post-only rule'')),
      (''51020'', (Some ORDER_NOT_FOUND, ''Order does not exist'')),
      (''51023'', (Some DUPLICATE_ORDER, ''Duplicate order'')),
      (''51024'', (Some ORDER_ALREADY_FILLED, ''Order already filled'')),
      (''51503'', (Some INVALID_PARAMETER, ''Reduce-only parameter error''))]"

definition okx_translate ::
    "(string \<Rightarrow> string) \<Rightarrow> (pyval \<Rightarrow> string) \<Rightarrow> (string \<times> pyval) list \<Rightarrow> string
     \<Rightarrow> (UnifiedError option) py" where
  "okx_translate clean render raw_error venue =
     (let code = dget_default raw_error ''code'' (dget_default raw_error ''sCode'' (PStr []));
          msg = dget_default raw_error ''msg'' (dget_default raw_error ''sMsg'' (PStr []));
          code_str = (if code \<noteq> PNone then render code else [])
      in case dget okx_error_map code_str of
           Some (None, _) \<Rightarrow> Inr None
         | Some (Some c, default_msg) \<Rightarrow>
             Inr (Some (unified_error clean c (get_category c) venue (py_or msg (PStr default_msg))
               (PStr (render code @ '': '' @ render msg))
               (PDict [(''raw_response'', PDict raw_error)])))
         | None \<Rightarrow> base_translate clean render okx_error_map raw_error venue)"

end
