(* ===== verification/ErrorsCorrect.thy ===== *)
theory ErrorsCorrect
  imports Errors
begin

text \<open>
  Correctness of \<open>error.py\<close>: which category a translated error has, what the OKX translator
  takes for success, and that an error carries no credential of the response it was made
  from.
\<close>

section \<open>Fields of a unified error\<close>

lemma plain_keys:
  "\<not> is_sensitive_key ''message''" "\<not> is_sensitive_key ''original_error''"
  "\<not> is_sensitive_key ''context''" "\<not> is_sensitive_key ''raw_response''"
  "\<not> is_sensitive_key ''status''"
  by code_simp+

lemma unified_error_simps [simp]:
  "ue_code (unified_error clean c cat venue msg orig ctx) = c"
  "ue_category (unified_error clean c cat venue msg orig ctx) = cat"
  "ue_venue (unified_error clean c cat venue msg orig ctx) = venue"
  by (simp_all add: unified_error_def Let_def)

lemma unified_error_fields:
  fixes clean c cat venue msg orig ctx
  defines "e \<equiv> unified_error clean c cat venue msg orig ctx"
    and "secrets \<equiv> collect_sensitive_values
      (PDict [(''message'', msg), (''original_error'', orig), (''context'', ctx)])"
  shows "ue_message e = sanitize_item clean secrets msg"
    "ue_original_error e = sanitize_item clean secrets orig"
    "ue_context e = sanitize_item clean secrets ctx"
  by (simp_all add: e_def secrets_def unified_error_def sanitize_value_def pdict_get_def
      dget_default_def plain_keys Let_def)

lemma unified_error_secrets:
  "set (collect_walk ctx) \<subseteq> set (collect_sensitive_values
     (PDict [(''message'', msg), (''original_error'', orig), (''context'', ctx)]))"
  by (auto simp: collect_sensitive_values_def set_dedup plain_keys)

definition error_strings :: "UnifiedError \<Rightarrow> string set" where
  "error_strings e = set (leaf_strings (ue_message e)) \<union> set (leaf_strings (ue_original_error e)) \<union>
     set (leaf_strings (ue_context e))"

lemma unified_error_hides:
  assumes "starless s" "s \<in> set (collect_walk ctx)"
    "t \<in> error_strings (unified_error clean c cat venue msg orig ctx)"
  shows "\<not> sublist s t"
proof -
  let ?secrets = "collect_sensitive_values
      (PDict [(''message'', msg), (''original_error'', orig), (''context'', ctx)])"
  have "s \<in> set ?secrets" using unified_error_secrets assms(2) by blast
  from sanitize_item_leaves [OF assms(1) this] assms(3) show ?thesis
    by (auto simp: error_strings_def unified_error_fields)
qed

section \<open>Translation\<close>

text \<open>How a translated error was made.\<close>

definition made_from :: "(string \<Rightarrow> string) \<Rightarrow> (string \<times> pyval) list \<Rightarrow> string \<Rightarrow> UnifiedError \<Rightarrow> bool" where
  "made_from clean raw venue e \<longleftrightarrow>
     (\<exists>c msg orig. e = unified_error clean c (get_category c) venue msg orig
        (PDict [(''raw_response'', PDict raw)]))"

lemma base_translate_made:
  "base_translate clean render m raw venue = Inr (Some e) \<Longrightarrow> made_from clean raw venue e"
proof -
  assume "base_translate clean render m raw venue = Inr (Some e)"
  moreover have "get_category INTERNAL_ERROR = SYSTEM_CAT" by (simp add: get_category_def)
  ultimately show ?thesis
    by (auto simp: base_translate_def made_from_def Let_def split: if_splits option.splits prod.splits)
      metis+
qed

lemma okx_translate_made:
  "okx_translate clean render raw venue = Inr (Some e) \<Longrightarrow> made_from clean raw venue e"
  by (auto simp: okx_translate_def made_from_def Let_def split: option.splits prod.splits
      dest!: base_translate_made)

lemma get_category_range:
  "get_category c \<notin> {API_CAT, ORDER_CAT, TRADE_CAT, ACCOUNT_CAT}"
  by (simp add: get_category_def Let_def)

text \<open>
  A translated error has the category of its code's thousand, for every error map. The
  categories \<open>API\<close>, \<open>ORDER\<close>, \<open>TRADE\<close> and \<open>ACCOUNT\<close> are never given: the codes 8001 to 8004
  count as validation errors.
\<close>

theorem translated_category:
  assumes "base_translate clean render error_map raw venue = Inr (Some e)"
  shows "ue_category e = get_category (ue_code e) \<and>
    ue_category e \<notin> {API_CAT, ORDER_CAT, TRADE_CAT, ACCOUNT_CAT} \<and>
    (ue_code e \<in> {API_ERROR, ORDER_ERROR, TRADE_ERROR, ACCOUNT_ERROR} \<longrightarrow>
       ue_category e = VALIDATION_CAT)"
proof -
  from base_translate_made [OF assms] obtain c msg orig where
    "e = unified_error clean c (get_category c) venue msg orig (PDict [(''raw_response'', PDict raw)])"
    by (auto simp: made_from_def)
  then show ?thesis using get_category_range [of c] by (auto simp: get_category_def)
qed

theorem translated_category_witness:
  "ue_category (case base_translate id (\<lambda>v. []) [(''7'', (Some ORDER_ERROR, ''bad order''))]
      [(''code'', PStr ''7'')] ''X'' of Inr (Some e) \<Rightarrow> e) = VALIDATION_CAT"
proof -
  obtain e where e: "base_translate id (\<lambda>v. []) [(''7'', (Some ORDER_ERROR, ''bad order''))]
      [(''code'', PStr ''7'')] ''X'' = Inr (Some e)" "ue_code e = ORDER_ERROR"
    by (simp add: base_translate_def dget_default_def lookup_code_def Let_def)
  from translated_category [OF e(1)] e show ?thesis by (simp add: get_category_def)
qed

lemma base_translate_total:
  assumes "hashable (dget_default raw ''code'' PNone)" "hashable (dget_default raw ''status'' PNone)"
    and "\<And>d. dget_default raw ''code'' PNone \<noteq> PNone \<Longrightarrow>
      lookup_code m (dget_default raw ''code'' PNone) \<noteq> Some (None, d)"
  shows "\<exists>e. base_translate clean render m raw venue = Inr (Some e)"
proof -
  let ?code = "dget_default raw ''code'' PNone" and ?status = "dget_default raw ''status'' PNone"
  let ?l = "if ?code = PNone then None else lookup_code m ?code"
  let ?s = "if truthy ?status then lookup_status ?status else None"
  have h: "(?code \<noteq> PNone \<and> \<not> hashable ?code) = False" "(truthy ?status \<and> \<not> hashable ?status) = False"
    using assms(1,2) by simp_all
  show ?thesis
  proof (cases ?l)
    case None
    then show ?thesis
      unfolding base_translate_def Let_def h if_False None option.case
      by (cases ?s) (auto simp: prod.case_eq_if)
  next
    case (Some p)
    obtain oc d where p: "p = (oc, d)" by (cases p)
    with Some assms(3) [of d] obtain c where "oc = Some c" by (cases oc) (auto split: if_splits)
    with Some p show ?thesis
      unfolding base_translate_def Let_def h if_False Some p prod.case option.case by simp
  qed
qed

definition okx_code :: "(string \<times> pyval) list \<Rightarrow> pyval" where
  "okx_code raw = dget_default raw ''code'' (dget_default raw ''sCode'' (PStr []))"

lemma okx_success_code: "dget okx_error_map k = Some (None, d) \<longleftrightarrow> k = ''0'' \<and> d = ''Success''"
  by (auto simp: okx_error_map_def)

lemma okx_translate_hit:
  assumes "dget okx_error_map (if okx_code raw \<noteq> PNone then render (okx_code raw) else []) = Some (oc, d)"
  shows "\<exists>r. okx_translate clean render raw venue = Inr r \<and> (r = None \<longleftrightarrow> oc = None)"
  using assms unfolding okx_translate_def Let_def okx_code_def [symmetric]
  by (cases oc) simp_all

lemma okx_translate_miss:
  assumes "dget okx_error_map (if okx_code raw \<noteq> PNone then render (okx_code raw) else []) = None"
  shows "okx_translate clean render raw venue = base_translate clean render okx_error_map raw venue"
  using assms unfolding okx_translate_def Let_def okx_code_def [symmetric] by simp

lemma okx_translate_success:
  assumes "hashable (okx_code raw)" "hashable (dget_default raw ''status'' PNone)"
    and "render PNone \<noteq> ''0''" "\<forall>s. render (PStr s) = s"
  shows "\<exists>r. okx_translate clean render raw venue = Inr r \<and> (r = None \<longleftrightarrow> render (okx_code raw) = ''0'')"
proof -
  let ?str = "if okx_code raw \<noteq> PNone then render (okx_code raw) else []"
  have str: "render (okx_code raw) = ''0'' \<longleftrightarrow> ?str = ''0''" using assms(3) by auto
  show ?thesis
  proof (cases "dget okx_error_map ?str")
    case (Some p)
    obtain oc d where p: "p = (oc, d)" by (cases p)
    have "oc = None \<longleftrightarrow> ?str = ''0''"
    proof
      assume "oc = None"
      with Some p okx_success_code [of ?str d] show "?str = ''0''" by simp
    next
      assume "?str = ''0''"
      moreover have "dget okx_error_map ''0'' = Some (None, ''Success'')"
        using okx_success_code [of "''0''"] by blast
      ultimately show "oc = None" using Some p by simp
    qed
    with okx_translate_hit [of raw render oc d clean venue] Some p str show ?thesis by metis
  next
    case None
    have code: "dget_default raw ''code'' PNone \<in> {okx_code raw, PNone}"
      by (simp add: dget_default_def okx_code_def split: option.split)
    have "\<exists>e. base_translate clean render okx_error_map raw venue = Inr (Some e)"
    proof (rule base_translate_total)
      show "hashable (dget_default raw ''code'' PNone)" using code assms(1) by auto
      show "hashable (dget_default raw ''status'' PNone)" by (rule assms(2))
      fix d assume "dget_default raw ''code'' PNone \<noteq> PNone"
      with code have c: "dget_default raw ''code'' PNone = okx_code raw" by auto
      with \<open>_ \<noteq> PNone\<close> None assms(4)
      show "lookup_code okx_error_map (dget_default raw ''code'' PNone) \<noteq> Some (None, d)"
        by (cases "okx_code raw") (simp_all add: lookup_code_def)
    qed
    moreover have "?str \<noteq> ''0''"
    proof
      assume "?str = ''0''"
      with None have "dget okx_error_map ''0'' = None" by (simp only:)
      with okx_success_code [of "''0''" "''Success''"] show False by simp
    qed
    ultimately show ?thesis using okx_translate_miss [of raw render clean venue] None str by auto
  qed
qed

text \<open>
  The OKX translator takes a response for a success exactly when its code (or sub-code)
  renders as \<open>0\<close>, and the errors it makes carry no credential of the response, in their
  message, their original text or their context, whatever the regular expressions do.
\<close>

theorem okx_translate_safe:
  assumes "hashable (dget_default raw ''code'' (dget_default raw ''sCode'' (PStr [])))"
    and "hashable (dget_default raw ''status'' PNone)" and "render PNone \<noteq> ''0''"
    and "\<forall>s. render (PStr s) = s"
  shows "\<exists>r. okx_translate clean render raw venue = Inr r \<and>
    (r = None \<longleftrightarrow> render (dget_default raw ''code'' (dget_default raw ''sCode'' (PStr []))) = ''0'') \<and>
    (\<forall>e s t. r = Some e \<longrightarrow> s \<in> set (collect_walk (PDict raw)) \<longrightarrow> CHR ''*'' \<notin> set s \<longrightarrow> s \<noteq> [] \<longrightarrow>
       t \<in> error_strings e \<longrightarrow> \<not> sublist s t)"
proof -
  obtain r where r: "okx_translate clean render raw venue = Inr r"
    and none: "r = None \<longleftrightarrow>
      render (dget_default raw ''code'' (dget_default raw ''sCode'' (PStr []))) = ''0''"
    using okx_translate_success [of raw render clean venue] assms unfolding okx_code_def by blast
  have "\<not> sublist s t" if "r = Some e" "s \<in> set (collect_walk (PDict raw))" "starless s"
    "t \<in> error_strings e" for e s t
  proof -
    from okx_translate_made [of clean render raw venue e] r that(1) obtain c msg orig where
      e: "e = unified_error clean c (get_category c) venue msg orig (PDict [(''raw_response'', PDict raw)])"
      by (auto simp: made_from_def)
    have "s \<in> set (collect_walk (PDict [(''raw_response'', PDict raw)]))"
      using that(2) by (simp add: plain_keys)
    with unified_error_hides [OF that(3)] that(4) e show ?thesis by blast
  qed
  with r none show ?thesis by (auto simp: starless_def)
qed

theorem okx_translate_safe_witness:
  "\<exists>r. okx_translate id (\<lambda>v. case v of PStr s \<Rightarrow> s | _ \<Rightarrow> []) [(''sCode'', PStr ''0'')] ''OKX'' = Inr r \<and> r = None"
  using okx_translate_safe [of "[(''sCode'', PStr ''0'')]" "\<lambda>v. case v of PStr s \<Rightarrow> s | _ \<Rightarrow> []" id "''OKX''"]
  by (auto simp: dget_default_def)

end
