(* ===== verification/HttpClient.thy ===== *)
theory HttpClient
  imports Errors Exceptions
begin

text \<open>
  Model of \<open>src/bt_api_base/feeds/http_client.py\<close>: how a request's arguments are put
  together, how a response becomes a result or an error, and the life of the two clients.
  \<open>httpx\<close> itself, its connections and its errors are outside: a response is its status, its
  JSON body if it has one, its text and its \<open>Retry-After\<close> header. \<open>clean\<close> is the regular
  expression part of \<open>sanitize_text\<close>, \<open>render\<close> is \<open>str\<close>, \<open>parse_float\<close> is \<open>float\<close> on strings.
\<close>

section \<open>Requests\<close>

text \<open>
  The header dict is the caller's own object when it is not empty; the store keeps what it
  holds after the call.
\<close>

record request_kwargs =
  rk_headers :: "(string \<times> string) list option"
  rk_params :: "pyval option"
  rk_json :: "pyval option"
  rk_content :: "pyval option"
  rk_timeout :: "time option"

definition cookie_header :: "(string \<times> string) list \<Rightarrow> string" where
  "cookie_header cookies =
     (case map (\<lambda>(k, v). k @ ''='' @ v) cookies of
        [] \<Rightarrow> []
      | c # cs \<Rightarrow> c @ concat (map (\<lambda>d. ''; '' @ d) cs))"

definition prepare_request ::
    "(string \<times> string) list option \<Rightarrow> pyval option \<Rightarrow> pyval option \<Rightarrow> pyval option \<Rightarrow> time option
     \<Rightarrow> (string \<times> string) list option \<Rightarrow> request_kwargs \<times> (string \<times> string) list option" where
  "prepare_request headers params json_data content timeout cookies =
     (let given = (case headers of None \<Rightarrow> None | Some h \<Rightarrow> if h = [] then None else Some h);
          with_cookies =
            (case cookies of
               None \<Rightarrow> given
             | Some c \<Rightarrow>
                 if c = [] then given
                 else Some (dset ''Cookie'' (cookie_header c) (case given of None \<Rightarrow> [] | Some h \<Rightarrow> h)))
      in (\<lparr>rk_headers = with_cookies, rk_params = params, rk_json = json_data, rk_content = content,
           rk_timeout = timeout\<rparr>,
          case given of None \<Rightarrow> headers | Some h \<Rightarrow> with_cookies))"

text \<open>The errors of the transport become \<open>RequestFailedError\<close>s with a sanitized message.\<close>

datatype transport_error = TimeoutException string | ConnectError string | OtherRequestError string

definition header_secrets :: "(pyval \<Rightarrow> string) \<Rightarrow> (string \<times> string) list option \<Rightarrow> string list" where
  "header_secrets render headers =
     (case headers of None \<Rightarrow> []
      | Some h \<Rightarrow> map snd (filter (\<lambda>(k, v). is_sensitive_key k) h))"

definition transport_failure ::
    "(string \<Rightarrow> string) \<Rightarrow> (pyval \<Rightarrow> string) \<Rightarrow> bool \<Rightarrow> string \<Rightarrow> (string \<times> string) list option
     \<Rightarrow> transport_error \<Rightarrow> string \<times> string" where
  "transport_failure clean render is_async venue headers e =
     (let safe = sanitize_text clean (header_secrets render headers);
          message =
            (case e of
               TimeoutException s \<Rightarrow> (if is_async then ''Async request timeout: '' else ''Request timeout: '') @ safe s
             | ConnectError s \<Rightarrow> (if is_async then ''Async connection error: '' else ''Connection error: '') @ safe s
             | OtherRequestError s \<Rightarrow>
                 (if is_async then ''Async HTTP client error: '' else ''HTTP client error: '') @ safe s)
      in request_failed render None [] [] venue message None)"

section \<open>Responses\<close>

record response =
  rs_status :: int
  rs_json :: "pyval option"
  rs_text :: string
  rs_retry_after :: "string option"

datatype http_error =
    HttpRateLimit UnifiedError "time option"
  | HttpAuth UnifiedError
  | HttpServer UnifiedError
  | HttpRequestFailed "string \<times> string" int
  | HttpPython pyerr

definition body_message :: "pyval \<Rightarrow> string \<Rightarrow> pyval py" where
  "body_message body dflt =
     (case body of
        PDict d \<Rightarrow> Inr (dget_default d ''msg'' (dget_default d ''message'' (PStr dflt)))
      | _ \<Rightarrow> Inl AttributeError)"

definition handle_error ::
    "(string \<Rightarrow> string) \<Rightarrow> (pyval \<Rightarrow> string) \<Rightarrow> (string \<Rightarrow> time option) \<Rightarrow> string \<Rightarrow> response \<Rightarrow> http_error" where
  "handle_error clean render parse_float venue r =
     (let status = rs_status r;
          body = (case rs_json r of Some j \<Rightarrow> j | None \<Rightarrow> PDict [(''text'', PStr (rs_text r))]);
          http = (\<lambda>m. ''HTTP '' @ show_int status @ '': '' @ sanitize_text clean [] (render m))
      in if status = 429
         then HttpRateLimit
                (unified_rate_limit_error clean venue body (PStr ''Rate limit exceeded''))
                (case rs_retry_after r of None \<Rightarrow> None | Some s \<Rightarrow> parse_float s)
         else if status = 401 \<or> status = 403
         then (case body_message body ''Auth error'' of
                 Inl e \<Rightarrow> HttpPython e
               | Inr m \<Rightarrow> HttpAuth (unified_auth_error clean venue body (PStr (http m))))
         else if 500 \<le> status
         then HttpServer (server_error clean venue status body (PStr ''Server error''))
         else (case body_message body ''Request failed'' of
                 Inl e \<Rightarrow> HttpPython e
               | Inr m \<Rightarrow> HttpRequestFailed
                   (request_failed render None [] [] venue (http m) (Some status)) status))"

definition process_response ::
    "(string \<Rightarrow> string) \<Rightarrow> (pyval \<Rightarrow> string) \<Rightarrow> (string \<Rightarrow> time option) \<Rightarrow> string \<Rightarrow> response
     \<Rightarrow> http_error + pyval" where
  "process_response clean render parse_float venue r =
     (let status = rs_status r
      in if 200 \<le> status \<and> status < 300
         then (case rs_json r of
                 Some j \<Rightarrow> Inr j
               | None \<Rightarrow> Inr (PDict [(''text'', PStr (rs_text r)), (''status_code'', PInt status)]))
         else if 400 \<le> status \<and> status < 500 \<and> status \<notin> {404, 410} \<and> rs_json r \<noteq> None
         then Inr (the (rs_json r))
         else Inl (handle_error clean render parse_float venue r))"

section \<open>Clients\<close>

datatype async_client = NoClient | OpenClient nat | ClosedClient nat

record http_clients =
  hc_sync_open :: bool
  hc_async :: async_client
  hc_made :: nat

definition get_async_client :: "http_clients \<Rightarrow> nat \<times> http_clients" where
  "get_async_client s =
     (case hc_async s of
        OpenClient n \<Rightarrow> (n, s)
      | _ \<Rightarrow> (hc_made s, s\<lparr>hc_async := OpenClient (hc_made s), hc_made := hc_made s + 1\<rparr>))"

definition http_close :: "http_clients \<Rightarrow> http_clients" where
  "http_close s = s\<lparr>hc_sync_open := False, hc_async := NoClient\<rparr>"

definition http_aclose :: "http_clients \<Rightarrow> http_clients" where
  "http_aclose s =
     s\<lparr>hc_sync_open := False,
       hc_async := (case hc_async s of OpenClient n \<Rightarrow> ClosedClient n | c \<Rightarrow> c)\<rparr>"

section \<open>Correctness\<close>

text \<open>
  A response is an error exactly when its status is neither 2xx nor a 4xx other than
  404 and 410 with a JSON body; so the body of a rate-limited (429) or unauthorised (401,
  403) response that is JSON is returned as an ordinary result, and the rate-limit error is
  raised only for one that is not.
\<close>

theorem process_response_outcome:
  "((\<exists>j. process_response clean render parse_float venue r = Inr j) \<longleftrightarrow>
      200 \<le> rs_status r \<and> rs_status r < 300 \<or>
      400 \<le> rs_status r \<and> rs_status r < 500 \<and> rs_status r \<noteq> 404 \<and> rs_status r \<noteq> 410 \<and> rs_json r \<noteq> None) \<and>
   ((\<exists>e t. process_response clean render parse_float venue r = Inl (HttpRateLimit e t)) \<longleftrightarrow>
      rs_status r = 429 \<and> rs_json r = None) \<and>
   (\<forall>j. rs_status r = 429 \<and> rs_json r = Some j \<longrightarrow>
      process_response clean render parse_float venue r = Inr j)"
proof -
  have "(\<exists>e t. handle_error clean render parse_float venue r = HttpRateLimit e t) \<longleftrightarrow> rs_status r = 429"
    by (auto simp: handle_error_def Let_def split: sum.split)
  then show ?thesis
    by (auto simp: process_response_def Let_def split: option.split)
qed

theorem process_response_outcome_witness:
  "process_response id (\<lambda>v. []) (\<lambda>s. None) ''X''
     \<lparr>rs_status = 429, rs_json = Some (PDict []), rs_text = [], rs_retry_after = Some ''1''\<rparr> = Inr (PDict [])"
  using process_response_outcome [of id "\<lambda>v. []" "\<lambda>s. None" "''X''"
    "\<lparr>rs_status = 429, rs_json = Some (PDict []), rs_text = [], rs_retry_after = Some ''1''\<rparr>"]
  by simp

text \<open>
  With cookies, \<open>request\<close> writes the \<open>Cookie\<close> header into the caller's own header dict
  when that is not empty: a second request with the same dict and no cookies sends them too.
\<close>

theorem cookies_leak_into_headers:
  assumes "h \<noteq> []" "cookies \<noteq> []"
    and "prepare_request (Some h) params json content timeout (Some cookies) = (k1, h1)"
    and "prepare_request h1 params2 json2 content2 timeout2 None = (k2, h2)"
  shows "\<exists>sent. rk_headers k2 = Some sent \<and> dget sent ''Cookie'' = Some (cookie_header cookies)"
proof -
  have "h1 = Some (dset ''Cookie'' (cookie_header cookies) h)"
    using assms(1-3) by (simp add: prepare_request_def Let_def split: if_splits)
  moreover have "dset ''Cookie'' (cookie_header cookies) h \<noteq> []"
    using assms(1) by (cases h) (auto split: if_splits)
  ultimately have "rk_headers k2 = Some (dset ''Cookie'' (cookie_header cookies) h)"
    using assms(4) by (auto simp: prepare_request_def Let_def)
  then show ?thesis by simp
qed

theorem cookies_leak_into_headers_witness:
  "\<exists>sent. rk_headers (fst (prepare_request
      (snd (prepare_request (Some [(''A'', ''1'')]) None None None None (Some [(''sid'', ''7'')])))
      None None None None None)) = Some sent \<and> dget sent ''Cookie'' = Some ''sid=7''"
proof -
  have c: "cookie_header [(''sid'', ''7'')] = ''sid=7''" by (simp add: cookie_header_def)
  let ?p1 = "prepare_request (Some [(''A'', ''1'')]) None None None None (Some [(''sid'', ''7'')])"
  let ?p2 = "prepare_request (snd ?p1) None None None None None"
  have "?p1 = (fst ?p1, snd ?p1)" "?p2 = (fst ?p2, snd ?p2)" by simp_all
  from cookies_leak_into_headers [OF _ _ this] c show ?thesis by simp
qed

end
