(* ===== verification/ConnPool.thy ===== *)
theory ConnPool
  imports PyPrelude
begin

text \<open>
  Model of \<open>src/bt_api_base/connection_pool.py\<close>. A connection is a number, each call of the
  factory that succeeds making a new one; a health check is a predicate on connections at the
  time of the call (\<open>\<lambda>c. True\<close> when there is none). Each operation is one critical section.
  \<open>cp_closed\<close> lists the connections the pool has shut.
\<close>

section \<open>\<open>ConnectionPool\<close>\<close>

type_synonym conn = nat

record ConnectionPool =
  cp_max_size :: nat
  cp_min_size :: nat
  cp_max_idle :: time
  cp_pool :: "(conn \<times> time) list"
  cp_in_use :: "conn pyset"
  cp_closed :: "conn list"
  cp_made :: nat
  cp_running :: bool

definition cp_init :: "nat \<Rightarrow> nat \<Rightarrow> time \<Rightarrow> ConnectionPool" where
  "cp_init max_size min_size max_idle =
     \<lparr>cp_max_size = max_size, cp_min_size = min_size, cp_max_idle = max_idle, cp_pool = [],
      cp_in_use = [], cp_closed = [], cp_made = 0, cp_running = False\<rparr>"

definition cp_close :: "conn \<Rightarrow> ConnectionPool \<Rightarrow> ConnectionPool" where
  "cp_close c p = p\<lparr>cp_closed := cp_closed p @ [c]\<rparr>"

text \<open>
  Up to \<open>n\<close> new connections at the end of the pool; \<open>oks\<close> calls of the factory succeed
  before one raises, and the exception leaves the loop (the first component).
\<close>

definition cp_fill :: "nat \<Rightarrow> nat \<Rightarrow> time \<Rightarrow> ConnectionPool \<Rightarrow> bool \<times> ConnectionPool" where
  "cp_fill oks n now p =
     (oks < n, p\<lparr>cp_pool := cp_pool p @ map (\<lambda>i. (cp_made p + i, now)) [0..<min oks n],
                 cp_made := cp_made p + min oks n\<rparr>)"

text \<open>
  \<open>start\<close> sets the running flag before it fills the pool, so a factory that raises leaves
  a pool that counts as started.
\<close>

definition cp_start :: "nat \<Rightarrow> time \<Rightarrow> ConnectionPool \<Rightarrow> bool \<times> ConnectionPool" where
  "cp_start oks now p =
     (if cp_running p then (False, p) else cp_fill oks (cp_min_size p) now (p\<lparr>cp_running := True\<rparr>))"

definition cp_stop :: "ConnectionPool \<Rightarrow> ConnectionPool" where
  "cp_stop p =
     p\<lparr>cp_running := False, cp_closed := cp_closed p @ map fst (cp_pool p) @ cp_in_use p,
       cp_pool := [], cp_in_use := []\<rparr>"

datatype acquired = Conn conn | PoolExhausted | FactoryFailed

text \<open>One pass of the loop of \<open>acquire\<close>: unhealthy connections are shut on the way.\<close>

fun cp_scan :: "(conn \<Rightarrow> bool) \<Rightarrow> (conn \<times> time) list \<Rightarrow> conn list \<Rightarrow> conn option \<times> (conn \<times> time) list \<times> conn list" where
  "cp_scan healthy [] shut = (None, [], shut)"
| "cp_scan healthy ((c, t) # rest) shut =
     (if healthy c then (Some c, rest, shut) else cp_scan healthy rest (shut @ [c]))"

definition cp_try_acquire ::
    "(conn \<Rightarrow> bool) \<Rightarrow> bool \<Rightarrow> ConnectionPool \<Rightarrow> acquired \<times> ConnectionPool" where
  "cp_try_acquire healthy factory_ok p =
     (case cp_scan healthy (cp_pool p) (cp_closed p) of
        (found, rest, shut) \<Rightarrow>
          (let p1 = p\<lparr>cp_pool := rest, cp_closed := shut\<rparr>
           in case found of
                Some c \<Rightarrow> (Conn c, p1\<lparr>cp_in_use := sadd c (cp_in_use p1)\<rparr>)
              | None \<Rightarrow>
                  if length (cp_in_use p1) < cp_max_size p1
                  then if factory_ok
                    then (Conn (cp_made p1), p1\<lparr>cp_in_use := sadd (cp_made p1) (cp_in_use p1),
                                                cp_made := cp_made p1 + 1\<rparr>)
                    else (FactoryFailed, p1)
                  else (PoolExhausted, p1)))"

text \<open>
  \<open>acquire\<close>: without a timeout an exhausted pool raises at once. With one, each turn of
  the loop reads the monotonic clock and waits. A turn of \<open>env\<close> gives the health checks and
  whether the factory succeeds, the reading, and what other threads do to the pool until
  the wait ends. \<open>None\<close>: still waiting.
\<close>

datatype acquire_end = Acquired conn | RaisesExhausted | RaisesTimeout | RaisesFactory

fun cp_acquire_wait ::
    "time \<Rightarrow> ((conn \<Rightarrow> bool) \<times> bool \<times> time \<times> (ConnectionPool \<Rightarrow> ConnectionPool)) list
     \<Rightarrow> ConnectionPool \<Rightarrow> (acquire_end \<times> ConnectionPool) option" where
  "cp_acquire_wait deadline [] p = None"
| "cp_acquire_wait deadline ((healthy, ok, now, others) # env) p =
     (case cp_try_acquire healthy ok p of
        (Conn c, p') \<Rightarrow> Some (Acquired c, p')
      | (FactoryFailed, p') \<Rightarrow> Some (RaisesFactory, p')
      | (PoolExhausted, p') \<Rightarrow>
          if deadline - now \<le> 0 then Some (RaisesTimeout, p')
          else cp_acquire_wait deadline env (others p'))"

definition cp_acquire :: "(conn \<Rightarrow> bool) \<Rightarrow> bool \<Rightarrow> ConnectionPool \<Rightarrow> acquire_end \<times> ConnectionPool" where
  "cp_acquire healthy factory_ok p =
     (case cp_try_acquire healthy factory_ok p of
        (Conn c, p') \<Rightarrow> (Acquired c, p')
      | (FactoryFailed, p') \<Rightarrow> (RaisesFactory, p')
      | (PoolExhausted, p') \<Rightarrow> (RaisesExhausted, p'))"

text \<open>\<open>release\<close>; the first component says whether a waiting thread is notified.\<close>

definition cp_release :: "(conn \<Rightarrow> bool) \<Rightarrow> time \<Rightarrow> conn \<Rightarrow> ConnectionPool \<Rightarrow> bool \<times> ConnectionPool" where
  "cp_release healthy now c p =
     (if c \<notin> set (cp_in_use p) then (False, p)
      else let p1 = p\<lparr>cp_in_use := sdiscard c (cp_in_use p)\<rparr>
           in if \<not> healthy c then (False, cp_close c p1)
              else (True, p1\<lparr>cp_pool := cp_pool p1 @ [(c, now)]\<rparr>))"

definition cp_cleanup :: "nat \<Rightarrow> time \<Rightarrow> ConnectionPool \<Rightarrow> bool \<times> ConnectionPool" where
  "cp_cleanup oks now p =
     (let idle = (\<lambda>(c, last_used). cp_max_idle p < now - last_used);
          p1 = p\<lparr>cp_pool := filter (\<lambda>x. \<not> idle x) (cp_pool p),
                 cp_closed := cp_closed p @ map fst (filter idle (cp_pool p))\<rparr>
      in cp_fill oks (cp_min_size p1 - length (cp_pool p1)) now p1)"

definition cp_size :: "ConnectionPool \<Rightarrow> nat \<times> nat" where
  "cp_size p = (length (cp_pool p), length (cp_in_use p))"

datatype cp_op =
    Start nat time | Stop | Acquire "conn \<Rightarrow> bool" bool | Release "conn \<Rightarrow> bool" time conn | CleanupIdle nat time

fun cp_step :: "ConnectionPool \<Rightarrow> cp_op \<Rightarrow> ConnectionPool" where
  "cp_step p (Start oks now) = snd (cp_start oks now p)"
| "cp_step p Stop = cp_stop p"
| "cp_step p (Acquire healthy ok) = snd (cp_acquire healthy ok p)"
| "cp_step p (Release healthy now c) = snd (cp_release healthy now c p)"
| "cp_step p (CleanupIdle oks now) = snd (cp_cleanup oks now p)"

section \<open>\<open>AsyncConnectionPool\<close>\<close>

text \<open>
  \<open>acquire\<close> takes a permit of the semaphore before it calls the factory; \<open>Blocked\<close> is a
  coroutine that waits for a permit.
\<close>

record AsyncPool =
  ap_permits :: nat
  ap_pool :: "(conn \<times> time) list"
  ap_in_use :: "conn pyset"
  ap_made :: nat

definition ap_init :: "nat \<Rightarrow> AsyncPool" where
  "ap_init max_size = \<lparr>ap_permits = max_size, ap_pool = [], ap_in_use = [], ap_made = 0\<rparr>"

datatype ap_result = AsyncConn conn | AsyncFactoryFailed | Blocked

definition ap_acquire :: "bool \<Rightarrow> AsyncPool \<Rightarrow> ap_result \<times> AsyncPool" where
  "ap_acquire factory_ok p =
     (if ap_permits p = 0 then (Blocked, p)
      else let p1 = p\<lparr>ap_permits := ap_permits p - 1\<rparr>
           in case ap_pool p1 of
                (c, t) # rest \<Rightarrow> (AsyncConn c, p1\<lparr>ap_pool := rest, ap_in_use := sadd c (ap_in_use p1)\<rparr>)
              | [] \<Rightarrow>
                  if factory_ok
                  then (AsyncConn (ap_made p1), p1\<lparr>ap_in_use := sadd (ap_made p1) (ap_in_use p1),
                                                   ap_made := ap_made p1 + 1\<rparr>)
                  else (AsyncFactoryFailed, p1))"

definition ap_release :: "time \<Rightarrow> conn \<Rightarrow> AsyncPool \<Rightarrow> AsyncPool" where
  "ap_release now c p =
     (if c \<notin> set (ap_in_use p) then p
      else p\<lparr>ap_in_use := sdiscard c (ap_in_use p), ap_pool := ap_pool p @ [(c, now)],
             ap_permits := ap_permits p + 1\<rparr>)"

section \<open>No connection is handed out twice\<close>

text \<open>Idle, used and shut connections are apart, and only made ones exist.\<close>

definition parts_ok :: "conn list \<Rightarrow> conn list \<Rightarrow> conn list \<Rightarrow> nat \<Rightarrow> bool" where
  "parts_ok P U C n \<longleftrightarrow> distinct P \<and> distinct U \<and> set P \<inter> set U = {} \<and>
     (set P \<union> set U) \<inter> set C = {} \<and> set P \<union> set U \<union> set C \<subseteq> {..<n}"

definition cp_ok :: "ConnectionPool \<Rightarrow> bool" where
  "cp_ok p = parts_ok (map fst (cp_pool p)) (cp_in_use p) (cp_closed p) (cp_made p)"

lemma cp_init_ok: "cp_ok (cp_init a b i)"
  by (simp add: cp_ok_def parts_ok_def cp_init_def)

lemma parts_ok_add:
  assumes "parts_ok P U C n" "distinct Q" "set Q = {n..<n + k}"
  shows "parts_ok (P @ Q) U C (n + k)"
proof -
  have out: "x \<notin> {n..<n + k}" if "x \<in> set P \<union> set U \<union> set C" for x
    using that assms(1) unfolding parts_ok_def by fastforce
  show ?thesis
    unfolding parts_ok_def set_append distinct_append assms(3)
  proof (intro conjI)
    show "set P \<inter> {n..<n + k} = {}" "(set P \<union> {n..<n + k}) \<inter> set U = {}"
      "(set P \<union> {n..<n + k} \<union> set U) \<inter> set C = {}"
      using out assms(1) unfolding parts_ok_def by blast+
    show "set P \<union> {n..<n + k} \<union> set U \<union> set C \<subseteq> {..<n + k}"
      using assms(1) unfolding parts_ok_def by fastforce
  qed (use assms in \<open>simp_all add: parts_ok_def\<close>)
qed

lemma parts_ok_make: "parts_ok P U C n \<Longrightarrow> parts_ok (P @ map ((+) n) [0..<k]) U C (n + k)"
  by (erule parts_ok_add) (simp_all add: distinct_map image_add_atLeastLessThan add.commute)

lemma parts_ok_new: "parts_ok P U C n \<Longrightarrow> n \<notin> set P \<union> set U \<union> set C"
  unfolding parts_ok_def by (meson lessThan_iff less_irrefl subsetD)

lemma parts_ok_use_new:
  assumes "parts_ok P U C n" shows "parts_ok P (sadd n U) C (n + 1)"
  unfolding parts_ok_def set_sadd
proof (intro conjI)
  show "set P \<inter> insert n (set U) = {}" "(set P \<union> insert n (set U)) \<inter> set C = {}"
    using parts_ok_new [OF assms] assms unfolding parts_ok_def by blast+
  show "set P \<union> insert n (set U) \<union> set C \<subseteq> {..<n + 1}"
    using assms unfolding parts_ok_def by fastforce
qed (use assms in \<open>simp_all add: parts_ok_def\<close>)

lemma parts_ok_shut: "parts_ok (B @ P) U C n \<Longrightarrow> parts_ok P U (C @ B) n"
  unfolding parts_ok_def set_append distinct_append by blast

lemma parts_ok_use:
  "parts_ok (c # P) U C n \<Longrightarrow> parts_ok P (sadd c U) C n \<and> c \<notin> set U \<and> c \<notin> set C"
  unfolding parts_ok_def by (simp; blast)

lemma cp_fill_ok: "cp_ok p \<Longrightarrow> cp_ok (snd (cp_fill oks n now p))"
  using parts_ok_make [of "map fst (cp_pool p)" "cp_in_use p" "cp_closed p" "cp_made p" "min oks n"]
  by (simp add: cp_ok_def cp_fill_def comp_def)

lemma cp_scan_split:
  "cp_scan healthy pool shut = (found, rest, shut') \<Longrightarrow>
   \<exists>bad. (\<forall>x \<in> set bad. \<not> healthy (fst x)) \<and> shut' = shut @ map fst bad \<and>
     (case found of
        None \<Rightarrow> pool = bad \<and> rest = []
      | Some c \<Rightarrow> healthy c \<and> (\<exists>t. pool = bad @ (c, t) # rest))"
proof (induction pool arbitrary: shut)
  case (Cons x pool)
  obtain c t where x: "x = (c, t)" by (cases x)
  show ?case
  proof (cases "healthy c")
    case True
    then show ?thesis using Cons.prems x by (auto intro!: exI [of _ "[]"])
  next
    case False
    with Cons.IH [of "shut @ [c]"] Cons.prems x obtain bad where
      b: "\<forall>x \<in> set bad. \<not> healthy (fst x)" "shut' = (shut @ [c]) @ map fst bad"
        "case found of None \<Rightarrow> pool = bad \<and> rest = []
         | Some c \<Rightarrow> healthy c \<and> (\<exists>t. pool = bad @ (c, t) # rest)"
      by auto
    with False x show ?thesis
      by (intro exI [of _ "(c, t) # bad"]) (auto split: option.splits)
  qed
qed auto

lemma cp_try_acquire_ok:
  assumes ok: "cp_ok p" and r: "cp_try_acquire healthy fok p = (res, p')"
  shows "cp_ok p' \<and>
    (case res of
       Conn c \<Rightarrow> c \<notin> set (cp_in_use p) \<and> c \<notin> set (cp_closed p) \<and>
         set (cp_in_use p') = insert c (set (cp_in_use p)) \<and>
         (c \<in> set (map fst (cp_pool p)) \<and> healthy c \<or> c = cp_made p)
     | _ \<Rightarrow> set (cp_in_use p') = set (cp_in_use p))"
proof -
  obtain found rest shut where s: "cp_scan healthy (cp_pool p) (cp_closed p) = (found, rest, shut)"
    by (metis prod_cases3)
  from cp_scan_split [OF s] obtain bad where b: "shut = cp_closed p @ map fst bad"
    "case found of None \<Rightarrow> cp_pool p = bad \<and> rest = []
     | Some c \<Rightarrow> healthy c \<and> (\<exists>t. cp_pool p = bad @ (c, t) # rest)" by blast
  show ?thesis
  proof (cases found)
    case None
    with b(2) have pool: "cp_pool p = bad" "rest = []" by auto
    with ok have shut: "parts_ok [] (cp_in_use p) (cp_closed p @ map fst bad) (cp_made p)"
      by (intro parts_ok_shut) (simp add: cp_ok_def)
    from parts_ok_use_new [OF shut] parts_ok_new [OF shut] r s None b(1) pool shut show ?thesis
      by (auto simp: cp_try_acquire_def Let_def cp_ok_def split: if_splits)
  next
    case (Some c)
    with b(2) obtain t where pool: "healthy c" "cp_pool p = bad @ (c, t) # rest" by auto
    with ok have "parts_ok (c # map fst rest) (cp_in_use p) (cp_closed p @ map fst bad) (cp_made p)"
      by (intro parts_ok_shut) (simp add: cp_ok_def)
    from parts_ok_use [OF this] r s Some b(1) pool show ?thesis
      by (auto simp: cp_try_acquire_def Let_def cp_ok_def)
  qed
qed

lemma cp_release_ok:
  assumes "cp_ok p" shows "cp_ok (snd (cp_release healthy now c p))"
proof (cases "c \<in> set (cp_in_use p)")
  case True
  let ?P = "map fst (cp_pool p)"
  have ok: "parts_ok ?P (cp_in_use p) (cp_closed p) (cp_made p)" using assms by (simp add: cp_ok_def)
  have "parts_ok ?P (sdiscard c (cp_in_use p)) (cp_closed p @ [c]) (cp_made p)"
    using ok True unfolding parts_ok_def set_sdiscard set_append
    by (intro conjI distinct_sdiscard) (simp_all; blast)+
  moreover have "parts_ok (?P @ [c]) (sdiscard c (cp_in_use p)) (cp_closed p) (cp_made p)"
    using ok True unfolding parts_ok_def set_sdiscard set_append distinct_append
    by (intro conjI distinct_sdiscard) (simp_all; blast)+
  ultimately show ?thesis using True by (simp add: cp_release_def cp_close_def Let_def cp_ok_def)
qed (use assms in \<open>simp add: cp_release_def\<close>)

lemma cp_keep_ok:
  assumes "cp_ok p"
  shows "cp_ok (p\<lparr>cp_pool := filter (\<lambda>x. \<not> P x) (cp_pool p),
    cp_closed := cp_closed p @ map fst (filter P (cp_pool p))\<rparr>)"
proof -
  have d: "distinct (map fst (cp_pool p))" using assms by (simp add: cp_ok_def parts_ok_def)
  then have apart: "fst ` {x \<in> set (cp_pool p). \<not> P x} \<inter> fst ` {x \<in> set (cp_pool p). P x} = {}"
    by (force simp: distinct_map inj_on_def)
  have sub: "set (map fst (filter Q (cp_pool p))) \<subseteq> set (map fst (cp_pool p))" for Q by auto
  have "set (map fst (filter (\<lambda>x. \<not> P x) (cp_pool p))) \<inter> set (map fst (filter P (cp_pool p))) = {}"
    using apart by (simp only: set_map set_filter)
  moreover have "distinct (map fst (filter (\<lambda>x. \<not> P x) (cp_pool p)))"
    by (rule distinct_map_filter) (rule d)
  ultimately have "parts_ok (map fst (filter (\<lambda>x. \<not> P x) (cp_pool p))) (cp_in_use p)
      (cp_closed p @ map fst (filter P (cp_pool p))) (cp_made p)"
    using assms sub [of P] sub [of "\<lambda>x. \<not> P x"]
    unfolding cp_ok_def parts_ok_def set_append by (intro conjI; blast)
  then show ?thesis by (simp add: cp_ok_def)
qed

lemma cp_cleanup_ok: "cp_ok p \<Longrightarrow> cp_ok (snd (cp_cleanup oks now p))"
  unfolding cp_cleanup_def Let_def by (intro cp_fill_ok cp_keep_ok)

lemma cp_start_ok: "cp_ok p \<Longrightarrow> cp_ok (snd (cp_start oks now p))"
  using cp_fill_ok [of "p\<lparr>cp_running := True\<rparr>"] by (simp add: cp_start_def cp_ok_def)

lemma cp_stop_ok: "cp_ok p \<Longrightarrow> cp_ok (cp_stop p)"
  by (simp add: cp_stop_def cp_ok_def parts_ok_def)

lemma cp_acquire_snd: "snd (cp_acquire healthy ok p) = snd (cp_try_acquire healthy ok p)"
  by (auto simp: cp_acquire_def split: prod.split acquired.split)

interpretation cp: op_system "cp_init max_size min_size max_idle" cp_step cp_ok
  for max_size min_size max_idle
proof
  show "cp_ok (cp_init max_size min_size max_idle)" by (rule cp_init_ok)
  fix p x assume ok: "cp_ok p"
  show "cp_ok (cp_step p x)"
  proof (cases x)
    case (Acquire healthy fok)
    obtain res p' where r: "cp_try_acquire healthy fok p = (res, p')" by (metis surj_pair)
    with cp_try_acquire_ok [OF ok r] Acquire show ?thesis by (simp add: cp_acquire_snd)
  qed (use ok in \<open>simp_all add: cp_start_ok cp_stop_ok cp_release_ok cp_cleanup_ok\<close>)
qed

section \<open>Properties\<close>



lemma acquire_idle:
  assumes "cp_pool p \<noteq> []"
  shows "snd (cp_acquire (\<lambda>_. True) ok p) =
    p\<lparr>cp_pool := tl (cp_pool p), cp_in_use := sadd (fst (hd (cp_pool p))) (cp_in_use p)\<rparr>"
  using assms by (cases "cp_pool p") (auto simp: cp_acquire_def cp_try_acquire_def)

lemma acquire_cleanup_grows:
  assumes "cp_ok p" "cp_pool p \<noteq> []" "cp_min_size p = Suc m"
  shows "let q = snd (cp_cleanup (Suc m) now (snd (cp_acquire (\<lambda>_. True) True p)))
    in cp_ok q \<and> cp_pool q \<noteq> [] \<and> cp_min_size q = Suc m \<and> length (cp_in_use q) = Suc (length (cp_in_use p))"
proof -
  let ?r = "snd (cp_acquire (\<lambda>_. True) True p)" let ?q = "snd (cp_cleanup (Suc m) now ?r)"
  have "cp_ok ?r" using cp.step_inv [OF assms(1), of "Acquire (\<lambda>_. True) True"] by simp
  then have "cp_ok ?q" by (rule cp_cleanup_ok)
  moreover have "fst (hd (cp_pool p)) \<notin> set (cp_in_use p)"
    using assms(1,2) by (cases "cp_pool p") (auto simp: cp_ok_def parts_ok_def)
  then have "length (cp_in_use ?q) = Suc (length (cp_in_use p))"
    using assms(2) by (simp add: acquire_idle cp_cleanup_def cp_fill_def Let_def sadd_def)
  moreover have "cp_pool ?q \<noteq> []" "cp_min_size ?q = Suc m"
    using assms(2,3) by (auto simp: acquire_idle cp_cleanup_def cp_fill_def Let_def)
  ultimately show ?thesis by (simp add: Let_def)
qed

text \<open>
  \<open>max_size\<close> bounds only what \<open>acquire\<close> makes. A pool with a positive minimal size that is
  started hands out a connection after every cleanup round, which refills the pool without
  counting the connections in use: after \<open>k\<close> rounds \<open>k\<close> connections are in use, whatever
  \<open>max_size\<close> is.
\<close>

theorem max_size_not_enforced:
  "snd (cp_size (foldl cp_step (cp_init max_size (Suc m) max_idle)
     (Start (Suc m) 0 # concat (replicate k [Acquire (\<lambda>_. True) True, CleanupIdle (Suc m) 0])))) = k"
proof -
  let ?p0 = "snd (cp_start (Suc m) 0 (cp_init max_size (Suc m) max_idle))"
  have grows: "cp_ok p \<Longrightarrow> cp_pool p \<noteq> [] \<Longrightarrow> cp_min_size p = Suc m \<Longrightarrow>
      length (cp_in_use (foldl cp_step p
        (concat (replicate k [Acquire (\<lambda>_. True) True, CleanupIdle (Suc m) 0])))) =
      length (cp_in_use p) + k" for p k
  proof (induction k arbitrary: p)
    case (Suc k)
    from acquire_cleanup_grows [OF Suc.prems, of 0] Suc.IH show ?case by (simp add: Let_def)
  qed simp
  have "cp_ok ?p0" by (intro cp_start_ok cp_init_ok)
  moreover have "cp_pool ?p0 \<noteq> []" "cp_min_size ?p0 = Suc m" "cp_in_use ?p0 = []"
    by (simp_all add: cp_start_def cp_init_def cp_fill_def)
  ultimately show ?thesis using grows [of ?p0 k] by (simp add: cp_size_def)
qed

text \<open>
  A call of \<open>AsyncConnectionPool.acquire\<close> whose factory raises keeps its permit of the
  semaphore: after \<open>max_size\<close> of them every later acquire blocks, although no connection
  exists, and no release can change that.
\<close>

theorem async_pool_leaks_permits:
  "ap_acquire factory_ok (((\<lambda>p. snd (ap_acquire False p)) ^^ n) (ap_init n)) =
     (Blocked, ((\<lambda>p. snd (ap_acquire False p)) ^^ n) (ap_init n)) \<and>
   ap_release now c (((\<lambda>p. snd (ap_acquire False p)) ^^ n) (ap_init n)) =
     ((\<lambda>p. snd (ap_acquire False p)) ^^ n) (ap_init n)"
proof -
  have "k \<le> n \<Longrightarrow> ((\<lambda>p. snd (ap_acquire False p)) ^^ k) (ap_init n) = (ap_init n)\<lparr>ap_permits := n - k\<rparr>" for k
    by (induction k) (auto simp: ap_acquire_def ap_init_def Let_def)
  from this [of n] show ?thesis by (simp add: ap_acquire_def ap_release_def ap_init_def)
qed

end
