(* ===== verification/Feed.thy ===== *)
theory Feed
  imports HttpClient
begin

text \<open>
  Model of \<open>src/bt_api_base/feeds/feed.py\<close> with its bases: the retrying \<open>http_request\<close> over the
  HTTP client, the TLS settings and the asynchronous request of \<open>functions/async_base.py\<close>, the
  connection state of \<open>feeds/connection_mixin.py\<close> and the capability check of
  \<open>feeds/capability.py\<close>. The abstract request methods of a feed only raise.
\<close>

section \<open>TLS settings\<close>

text \<open>
  A TLS context is an object that its owner may change later, so it is an address in a
  store. An option is \<open>True\<close>, \<open>False\<close>, \<open>None\<close>, a context or some other value.
\<close>

record ssl_context =
  ctx_check_hostname :: bool
  ctx_cert_required :: bool

type_synonym ssl_store = "nat \<Rightarrow> ssl_context"

datatype tls_option = OptTrue | OptFalse | OptNone | OptContext nat | OptOther

definition require_verified_ssl_context :: "ssl_store \<Rightarrow> nat \<Rightarrow> string + nat" where
  "require_verified_ssl_context store ctx =
     (if \<not> ctx_check_hostname (store ctx) \<or> \<not> ctx_cert_required (store ctx)
      then Inl ''TLS context must enable hostname checks and require certificate validation''
      else Inr ctx)"

definition resolve_ssl_context ::
    "ssl_store \<Rightarrow> nat \<Rightarrow> (string, tls_option) dict \<Rightarrow> string + nat" where
  "resolve_ssl_context store default_ctx options =
     (case List.find (\<lambda>key. dget options key \<noteq> None \<and> dget options key \<noteq> Some OptTrue)
             [''verify_ssl'', ''ssl_verify''] of
        Some key \<Rightarrow> Inl (key @ '' cannot disable TLS certificate verification'')
      | None \<Rightarrow>
          (let configured = List.map_filter (dget options) [''ssl'', ''async_ssl'', ''ssl_context''];
               contexts = List.map_filter (\<lambda>v. case v of OptContext c \<Rightarrow> Some c | _ \<Rightarrow> None) configured
           in if OptFalse \<in> set configured
              then Inl ''TLS certificate verification cannot be disabled''
              else if 1 < length (remdups contexts)
              then Inl ''Conflicting TLS contexts were provided''
              else if OptOther \<in> set configured
              then Inl ''TLS configuration must be True or a verified SSLContext''
              else require_verified_ssl_context store
                     (case contexts of [] \<Rightarrow> default_ctx | c # _ \<Rightarrow> c)))"

section \<open>Asynchronous requests\<close>

record session =
  ses_open :: bool
  ses_ctx :: nat

text \<open>\<open>get_session\<close> checks the context again, at the time the session is made.\<close>

definition get_session :: "ssl_store \<Rightarrow> nat \<Rightarrow> string + session" where
  "get_session store ctx =
     (case require_verified_ssl_context store ctx of
        Inl e \<Rightarrow> Inl e
      | Inr c \<Rightarrow> Inr \<lparr>ses_open = True, ses_ctx = c\<rparr>)"

definition text_secrets :: "(pyval \<Rightarrow> string) \<Rightarrow> (string \<times> pyval) list option \<Rightarrow> string list" where
  "text_secrets render d =
     (case d of None \<Rightarrow> []
      | Some d \<Rightarrow> map render (filter (\<lambda>v. v \<noteq> PNone) (sensitive_mapping_values d)))"

text \<open>
  What the exchange does is \<open>outcome\<close>: the JSON value of the body, whatever the status, or
  the text of the exception. \<open>body\<close> is the body if it is a mapping.
\<close>

datatype aio_outcome = AioJson pyval | AioError string

definition async_failure ::
    "(string \<Rightarrow> string) \<Rightarrow> (pyval \<Rightarrow> string) \<Rightarrow> string \<Rightarrow> (string \<times> pyval) list option
     \<Rightarrow> (string \<times> pyval) list option \<Rightarrow> string \<Rightarrow> string \<times> string" where
  "async_failure clean render venue headers body text_of_error =
     request_failed render None [] [] venue
       (''Async request failed: '' @
        sanitize_text clean (text_secrets render headers @ text_secrets render body) text_of_error)
       None"

definition async_http_request ::
    "(string \<Rightarrow> string) \<Rightarrow> (pyval \<Rightarrow> string) \<Rightarrow> string \<Rightarrow> ssl_store \<Rightarrow> nat
     \<Rightarrow> (string \<times> pyval) list option \<Rightarrow> (string \<times> pyval) list option \<Rightarrow> aio_outcome \<Rightarrow> session option
     \<Rightarrow> (string \<times> string + pyval) \<times> session option" where
  "async_http_request clean render venue store ctx headers body outcome session =
     (case (case session of
              Some s \<Rightarrow> if ses_open s then Inr s else get_session store ctx
            | None \<Rightarrow> get_session store ctx) of
        Inl msg \<Rightarrow> (Inl (async_failure clean render venue headers body msg), session)
      | Inr s \<Rightarrow>
          (case outcome of
             AioJson j \<Rightarrow> (Inr j, Some s)
           | AioError e \<Rightarrow> (Inl (async_failure clean render venue headers body e), Some s)))"

section \<open>Requests with retries\<close>

text \<open>
  One call of the HTTP client: the exchange answers or the transport fails. The exceptions
  that come out of it are \<open>RequestFailedError\<close>s, with or without a status code, or others.
\<close>

datatype client_reply = Answer response | NoAnswer transport_error

datatype client_exc = FromResponse http_error | FromTransport "string \<times> string"

definition client_request ::
    "(string \<Rightarrow> string) \<Rightarrow> (pyval \<Rightarrow> string) \<Rightarrow> (string \<Rightarrow> time option) \<Rightarrow> string
     \<Rightarrow> (string \<times> string) list option \<Rightarrow> client_reply \<Rightarrow> client_exc + pyval" where
  "client_request clean render parse_float venue headers reply =
     (case reply of
        Answer r \<Rightarrow>
          (case process_response clean render parse_float venue r of
             Inl e \<Rightarrow> Inl (FromResponse e)
           | Inr j \<Rightarrow> Inr j)
      | NoAnswer t \<Rightarrow> Inl (FromTransport (transport_failure clean render False venue headers t)))"

text \<open>The message and the status code of a \<open>RequestFailedError\<close>; \<open>None\<close> for another exception.\<close>

definition request_failure :: "client_exc \<Rightarrow> (string \<times> int option) option" where
  "request_failure e =
     (case e of
        FromTransport (_, msg) \<Rightarrow> Some (msg, None)
      | FromResponse (HttpRequestFailed (_, msg) status) \<Rightarrow> Some (msg, Some status)
      | _ \<Rightarrow> None)"

definition is_gone :: "string \<Rightarrow> int option \<Rightarrow> bool" where
  "is_gone msg status \<longleftrightarrow>
     status \<in> {Some 404, Some 410} \<or> contains ''404'' msg \<or> contains ''410'' msg"

text \<open>
  \<open>_retry_backoff\<close>: a negative \<open>Retry-After\<close> makes \<open>sleep\<close> raise \<open>ValueError\<close>, which is caught,
  and the backoff takes over.
\<close>

definition retry_after :: "client_exc \<Rightarrow> time option" where
  "retry_after e = (case e of FromResponse (HttpRateLimit _ t) \<Rightarrow> t | _ \<Rightarrow> None)"

definition backoff :: "nat \<Rightarrow> time" where
  "backoff attempt = min (1 / 2 * 2 ^ attempt) 2"

definition retry_backoff :: "nat \<Rightarrow> client_exc \<Rightarrow> time" where
  "retry_backoff attempt e =
     (case retry_after e of
        Some t \<Rightarrow> if 0 \<le> t then t else backoff attempt
      | None \<Rightarrow> backoff attempt)"

datatype feed_end =
    Returns pyval | RaisesGone | RaisesRequestTimeout | RaisesClient client_exc | ReturnsNone

text \<open>
  The loop over the attempts; \<open>env i\<close> is what attempt \<open>i\<close> meets. The result is how the call
  ends, its sleeps and the number of requests it sent. The method of the request plays no
  part in it.
\<close>

fun attempt_loop ::
    "(nat \<Rightarrow> client_exc + pyval) \<Rightarrow> nat \<Rightarrow> nat \<Rightarrow> nat \<Rightarrow> feed_end \<times> time list \<times> nat" where
  "attempt_loop env max_retries attempt 0 = (ReturnsNone, [], 0)"
| "attempt_loop env max_retries attempt (Suc left) =
     (case env attempt of
        Inr v \<Rightarrow> (Returns v, [], 1)
      | Inl e \<Rightarrow>
          (let again = (case attempt_loop env max_retries (Suc attempt) left of
                          (result, sleeps, sent) \<Rightarrow> (result, retry_backoff attempt e # sleeps, Suc sent))
           in case request_failure e of
                Some (msg, status) \<Rightarrow>
                  if is_gone msg status then (RaisesGone, [], 1)
                  else if Suc attempt < max_retries then again
                  else if contains ''timeout'' (py_lower msg) then (RaisesRequestTimeout, [], 1)
                  else (RaisesClient e, [], 1)
              | None \<Rightarrow>
                  if Suc attempt < max_retries then again else (RaisesClient e, [], 1)))"

definition http_request ::
    "(string \<Rightarrow> string) \<Rightarrow> (pyval \<Rightarrow> string) \<Rightarrow> (string \<Rightarrow> time option) \<Rightarrow> string
     \<Rightarrow> (string \<times> string) list option \<Rightarrow> (nat \<Rightarrow> client_reply) \<Rightarrow> nat \<Rightarrow> feed_end \<times> time list \<times> nat" where
  "http_request clean render parse_float venue headers replies max_retries =
     attempt_loop
       (\<lambda>i. client_request clean render parse_float venue
              (Some (case headers of None \<Rightarrow> [] | Some h \<Rightarrow> h)) (replies i))
       max_retries 0 max_retries"

section \<open>Connection state and capabilities\<close>

datatype FeedConnectionState = DISCONNECTED | CONNECTING | CONNECTED | AUTHENTICATED | ERROR

definition feed_connect :: "FeedConnectionState \<Rightarrow> FeedConnectionState" where
  "feed_connect s = CONNECTED"

definition feed_disconnect :: "FeedConnectionState \<Rightarrow> FeedConnectionState" where
  "feed_disconnect s = DISCONNECTED"

definition feed_is_connected :: "FeedConnectionState \<Rightarrow> bool" where
  "feed_is_connected s \<longleftrightarrow> s \<in> {CONNECTED, AUTHENTICATED}"

datatype Capability =
    GET_TICK | GET_DEPTH | GET_KLINE | GET_FUNDING_RATE | GET_MARK_PRICE | GET_CLEAR_PRICE
  | MAKE_ORDER | CANCEL_ORDER | CANCEL_ALL | CANCEL_ALL_SYMBOL | QUERY_ORDER | QUERY_OPEN_ORDERS
  | GET_DEALS | GET_BALANCE | GET_ACCOUNT | GET_POSITION | MARKET_STREAM | ACCOUNT_STREAM
  | CROSS_MARGIN | ISOLATED_MARGIN | HEDGE_MODE | BATCH_ORDER | CONDITIONAL_ORDER
  | TRAILING_STOP | OCO_ORDER | GET_EXCHANGE_INFO | GET_SERVER_TIME

definition has_capability :: "Capability set \<Rightarrow> Capability \<Rightarrow> bool" where
  "has_capability capabilities cap \<longleftrightarrow> cap \<in> capabilities"

definition require_capability :: "Capability set \<Rightarrow> Capability \<Rightarrow> Capability + unit" where
  "require_capability capabilities cap =
     (if has_capability capabilities cap then Inr () else Inl cap)"

section \<open>TLS verification cannot be switched off\<close>

definition verified :: "ssl_context \<Rightarrow> bool" where
  "verified c \<longleftrightarrow> ctx_check_hostname c \<and> ctx_cert_required c"

lemma require_verified [simp]:
  "require_verified_ssl_context store ctx = Inr c \<longleftrightarrow> c = ctx \<and> verified (store ctx)"
  by (auto simp: require_verified_ssl_context_def verified_def)

text \<open>
  C29. Whatever options a feed is made with: when its constructor does not raise, the TLS
  context it took is one of the options or the default one and verifies host names and
  certificates, no verification flag was anything but true, and no TLS option was false or
  an unknown value. A session opened later uses that context and the context verifies at
  that time too, even if its owner has changed it.
\<close>

theorem tls_always_verified:
  assumes "resolve_ssl_context store default_ctx options = Inr c"
  shows "verified (store c) \<and>
    (c = default_ctx \<or> (\<exists>key. dget options key = Some (OptContext c))) \<and>
    (\<forall>key \<in> {''verify_ssl'', ''ssl_verify''}. dget options key \<in> {None, Some OptTrue}) \<and>
    (\<forall>key \<in> {''ssl'', ''async_ssl'', ''ssl_context''}. dget options key \<notin> {Some OptFalse, Some OptOther}) \<and>
    (\<forall>later s. get_session later c = Inr s \<longrightarrow> ses_ctx s = c \<and> verified (later c))"
proof -
  let ?configured = "List.map_filter (dget options) [''ssl'', ''async_ssl'', ''ssl_context'']"
  have mem0: "v \<in> set ?configured \<longleftrightarrow>
      (\<exists>key \<in> {''ssl'', ''async_ssl'', ''ssl_context''}. dget options key = Some v)" for v
    by (auto simp: List.map_filter_def)
  have flags: "List.find (\<lambda>key. dget options key \<noteq> None \<and> dget options key \<noteq> Some OptTrue)
      [''verify_ssl'', ''ssl_verify''] = None" (is "?find = None")
  proof (cases ?find)
    case (Some k)
    have False using assms unfolding resolve_ssl_context_def Some option.case by (simp only: sum.distinct)
    then show ?thesis ..
  qed
  define cfg where "cfg = ?configured"
  define ctxs where "ctxs = List.map_filter (\<lambda>v. case v of OptContext c \<Rightarrow> Some c | _ \<Rightarrow> None) cfg"
  have "(if OptFalse \<in> set cfg then Inl ''TLS certificate verification cannot be disabled''
      else if 1 < length (remdups ctxs) then Inl ''Conflicting TLS contexts were provided''
      else if OptOther \<in> set cfg
      then Inl ''TLS configuration must be True or a verified SSLContext''
      else require_verified_ssl_context store (case ctxs of [] \<Rightarrow> default_ctx | c # _ \<Rightarrow> c)) = Inr c"
    using assms unfolding resolve_ssl_context_def flags option.case Let_def cfg_def ctxs_def .
  then have r: "OptFalse \<notin> set cfg" "OptOther \<notin> set cfg"
    "c = (case ctxs of [] \<Rightarrow> default_ctx | c # _ \<Rightarrow> c)" "verified (store c)"
    by (auto split: if_splits)
  have mem: "v \<in> set cfg \<longleftrightarrow> (\<exists>key \<in> {''ssl'', ''async_ssl'', ''ssl_context''}. dget options key = Some v)" for v
    unfolding cfg_def by (rule mem0)
  have "c = default_ctx \<or> OptContext c \<in> set cfg"
  proof (cases ctxs)
    case (Cons d ds)
    then have "d \<in> set ctxs" by simp
    then have "OptContext d \<in> set cfg"
      by (auto simp: ctxs_def List.map_filter_def split: tls_option.splits)
    with r(3) Cons show ?thesis by simp
  qed (use r(3) in simp)
  then have "c = default_ctx \<or> (\<exists>key. dget options key = Some (OptContext c))"
    by (auto simp: mem)
  moreover have "\<forall>key \<in> {''verify_ssl'', ''ssl_verify''}. dget options key \<in> {None, Some OptTrue}"
    using flags unfolding find_None_iff by auto
  moreover have "\<forall>later s. get_session later c = Inr s \<longrightarrow> ses_ctx s = c \<and> verified (later c)"
    by (auto simp: get_session_def split: sum.splits)
  moreover have "\<forall>key \<in> {''ssl'', ''async_ssl'', ''ssl_context''}.
      dget options key \<notin> {Some OptFalse, Some OptOther}"
    using r(1,2) unfolding mem by (metis insertE empty_iff)
  ultimately show ?thesis using r(4) by (intro conjI)
qed

theorem tls_always_verified_witness:
  "verified (\<lparr>ctx_check_hostname = True, ctx_cert_required = True\<rparr>) \<and>
   resolve_ssl_context (\<lambda>_. \<lparr>ctx_check_hostname = True, ctx_cert_required = True\<rparr>) 0
     [(''ssl'', OptContext 7)] = Inr 7"
proof -
  have "resolve_ssl_context (\<lambda>_. \<lparr>ctx_check_hostname = True, ctx_cert_required = True\<rparr>) 0
     [(''ssl'', OptContext 7)] = Inr 7"
    by (simp add: resolve_ssl_context_def List.map_filter_def verified_def)
  with tls_always_verified [OF this] show ?thesis by simp
qed

section \<open>Retries\<close>

text \<open>An outcome after which the loop stops whatever attempts are left.\<close>

fun stops :: "client_exc + pyval \<Rightarrow> bool" where
  "stops (Inr v) = True"
| "stops (Inl e) = (case request_failure e of Some (msg, status) \<Rightarrow> is_gone msg status | None \<Rightarrow> False)"

fun end_of :: "client_exc + pyval \<Rightarrow> feed_end" where
  "end_of (Inr v) = Returns v"
| "end_of (Inl e) =
     (case request_failure e of
        Some (msg, status) \<Rightarrow>
          if is_gone msg status then RaisesGone
          else if contains ''timeout'' (py_lower msg) then RaisesRequestTimeout else RaisesClient e
      | None \<Rightarrow> RaisesClient e)"

lemma attempt_loop_Suc:
  "a + Suc k = n \<Longrightarrow> attempt_loop env n a (Suc k) =
     (if stops (env a) \<or> k = 0 then (end_of (env a), [], 1)
      else case attempt_loop env n (Suc a) k of
        (result, sleeps, sent) \<Rightarrow> (result, retry_backoff a (projl (env a)) # sleeps, Suc sent))"
  by (auto simp: Let_def split: sum.split option.split prod.split)

lemma attempt_loop_spec:
  "a + Suc k = n \<Longrightarrow> attempt_loop env n a (Suc k) = (result, sleeps, sent) \<Longrightarrow>
   1 \<le> sent \<and> sent \<le> Suc k \<and> (\<forall>i < sent - 1. \<not> stops (env (a + i))) \<and>
   (sent = Suc k \<or> stops (env (a + sent - 1))) \<and> result = end_of (env (a + sent - 1)) \<and>
   sleeps = map (\<lambda>i. retry_backoff (a + i) (projl (env (a + i)))) [0..<sent - 1]"
proof (induction k arbitrary: a result sleeps sent)
  case 0
  then show ?case by (auto simp: attempt_loop_Suc simp del: attempt_loop.simps)
next
  case (Suc k)
  show ?case
  proof (cases "stops (env a)")
    case True
    then show ?thesis
      using Suc.prems by (auto simp: attempt_loop_Suc simp del: attempt_loop.simps)
  next
    case False
    obtain r' s' m where rest: "attempt_loop env n (Suc a) (Suc k) = (r', s', m)" by (metis prod_cases3)
    have eq: "result = r'" "sleeps = retry_backoff a (projl (env a)) # s'" "sent = Suc m"
      using Suc.prems False rest by (auto simp: attempt_loop_Suc simp del: attempt_loop.simps)
    have IH: "1 \<le> m \<and> m \<le> Suc k \<and> (\<forall>i < m - 1. \<not> stops (env (Suc a + i))) \<and>
       (m = Suc k \<or> stops (env (Suc a + m - 1))) \<and> r' = end_of (env (Suc a + m - 1)) \<and>
       s' = map (\<lambda>i. retry_backoff (Suc a + i) (projl (env (Suc a + i)))) [0..<m - 1]"
      by (rule Suc.IH [OF _ rest]) (use Suc.prems(1) in simp)
    then obtain m' where m: "m = Suc m'" by (cases m) auto
    have "\<not> stops (env (a + i))" if "i < m" for i
      using that IH False m by (cases i) auto
    moreover have "map (\<lambda>i. retry_backoff (a + i) (projl (env (a + i)))) [0..<m] =
        retry_backoff a (projl (env a)) # s'"
      using IH by (simp add: m upt_conv_Cons map_Suc_upt [symmetric] comp_def del: upt_Suc)
    ultimately show ?thesis using IH by (simp add: eq m)
  qed
qed

text \<open>
  C30. \<open>http_request\<close> with \<open>n\<close> attempts sends at least one and at most \<open>n\<close> requests, whatever
  their method; it goes on exactly while an attempt neither answered nor was told that the
  endpoint is gone, ends as the last attempt says, and sleeps between attempts as
  \<open>Retry-After\<close> or the backoff of at most two seconds asks. With \<open>n = 0\<close> it sends nothing
  and returns \<open>None\<close>.
\<close>

theorem http_request_spec:
  "http_request clean render parse_float venue headers replies 0 = (ReturnsNone, [], 0) \<and>
   (let env = (\<lambda>i. client_request clean render parse_float venue
                     (Some (case headers of None \<Rightarrow> [] | Some h \<Rightarrow> h)) (replies i));
        (result, sleeps, sent) = http_request clean render parse_float venue headers replies (Suc n)
    in 1 \<le> sent \<and> sent \<le> Suc n \<and> (\<forall>i < sent - 1. \<not> stops (env i)) \<and>
       (sent = Suc n \<or> stops (env (sent - 1))) \<and> result = end_of (env (sent - 1)) \<and>
       sleeps = map (\<lambda>i. retry_backoff i (projl (env i))) [0..<sent - 1] \<and>
       (\<forall>i. backoff i \<le> 2))"
proof -
  let ?env = "\<lambda>i. client_request clean render parse_float venue
                     (Some (case headers of None \<Rightarrow> [] | Some h \<Rightarrow> h)) (replies i)"
  obtain result sleeps sent where
    r: "http_request clean render parse_float venue headers replies (Suc n) = (result, sleeps, sent)"
    by (metis prod_cases3)
  then have "attempt_loop ?env (Suc n) 0 (Suc n) = (result, sleeps, sent)"
    by (simp add: http_request_def)
  from attempt_loop_spec [OF _ this] show ?thesis
    unfolding Let_def r by (simp add: http_request_def backoff_def)
qed

section \<open>Rate limits are not retried\<close>

theorem http_request_spec_witness:
  "\<forall>replies. snd (snd (http_request (\<lambda>s. s) (\<lambda>v. []) (\<lambda>s. None) ''OKX'' None replies (Suc 0))) = 1"
proof
  fix replies
  obtain result sleeps sent where
    h: "http_request (\<lambda>s. s) (\<lambda>v. []) (\<lambda>s. None) ''OKX'' None replies (Suc 0) = (result, sleeps, sent)"
    by (metis prod_cases3)
  from http_request_spec [of "\<lambda>s. s" "\<lambda>v. []" "\<lambda>s. None" "''OKX''" None replies 0, unfolded Let_def h prod.case]
  have "1 \<le> sent \<and> sent \<le> Suc 0" by blast
  then show "snd (snd (http_request (\<lambda>s. s) (\<lambda>v. []) (\<lambda>s. None) ''OKX'' None replies (Suc 0))) = 1"
    by (simp add: h)
qed

text \<open>
  Composed with the HTTP client, the retry loop never sees a rate limit whose body is
  JSON: such an answer to the first attempt is what \<open>http_request\<close> returns, after one request
  and no sleep, whatever its \<open>Retry-After\<close> header says. Without a JSON body and with attempts
  left the loop sleeps the \<open>Retry-After\<close> time and sends again.
\<close>

theorem rate_limit_not_retried:
  assumes "replies 0 = Answer r" "rs_status r = 429" "0 < n"
  shows "(\<forall>j. rs_json r = Some j \<longrightarrow>
      http_request clean render parse_float venue headers replies n = (Returns j, [], 1)) \<and>
    (rs_json r = None \<longrightarrow> 1 < n \<longrightarrow>
      (\<exists>result sleeps sent. http_request clean render parse_float venue headers replies n =
        (result, (case rs_retry_after r of
           None \<Rightarrow> 1 / 2
         | Some s \<Rightarrow> (case parse_float s of None \<Rightarrow> 1 / 2 | Some t \<Rightarrow> if 0 \<le> t then t else 1 / 2)) # sleeps,
         sent)))"
proof -
  let ?env = "\<lambda>i. client_request clean render parse_float venue
                     (Some (case headers of None \<Rightarrow> [] | Some h \<Rightarrow> h)) (replies i)"
  obtain k where k: "n = Suc k" using assms(3) by (cases n) auto
  show ?thesis
  proof (intro conjI allI impI)
    fix j assume "rs_json r = Some j"
    then have "?env 0 = Inr j"
      using assms(1,2) by (simp add: client_request_def process_response_def)
    then show "http_request clean render parse_float venue headers replies n = (Returns j, [], 1)"
      by (simp add: http_request_def k)
  next
    assume "rs_json r = None" "1 < n"
    then obtain e where "?env 0 = Inl (FromResponse (HttpRateLimit e
        (case rs_retry_after r of None \<Rightarrow> None | Some s \<Rightarrow> parse_float s)))"
      using assms(1,2) by (simp add: client_request_def process_response_def handle_error_def Let_def)
    moreover obtain result sleeps sent where "attempt_loop ?env n (Suc 0) k = (result, sleeps, sent)"
      by (metis prod_cases3)
    ultimately show "\<exists>result sleeps sent. http_request clean render parse_float venue headers replies n =
        (result, (case rs_retry_after r of
           None \<Rightarrow> 1 / 2
         | Some s \<Rightarrow> (case parse_float s of None \<Rightarrow> 1 / 2 | Some t \<Rightarrow> if 0 \<le> t then t else 1 / 2)) # sleeps,
         sent)"
      using \<open>1 < n\<close>
      by (auto simp: http_request_def k Let_def request_failure_def retry_backoff_def retry_after_def
          backoff_def split: option.split)
  qed
qed

theorem rate_limit_not_retried_witness:
  "http_request id (\<lambda>_. []) (\<lambda>_. Some 30) ''OKX'' None
     (\<lambda>_. Answer \<lparr>rs_status = 429, rs_json = Some (PDict [(''code'', PInt 429)]), rs_text = [],
                    rs_retry_after = Some ''30''\<rparr>) 3 =
   (Returns (PDict [(''code'', PInt 429)]), [], 1)"
  by (rule rate_limit_not_retried [THEN conjunct1, rule_format, OF refl]) simp_all

text \<open>
  A transport failure whose message holds the digits 404 anywhere, for instance in a port or
  an address, counts as a missing endpoint: it is not retried and the error says so.
\<close>

lemma digits_404_mean_gone:
  assumes "replies 0 = NoAnswer t" "0 < n"
    and "contains ''404'' (snd (transport_failure clean render False venue
           (Some (case headers of None \<Rightarrow> [] | Some h \<Rightarrow> h)) t))"
  shows "http_request clean render parse_float venue headers replies n = (RaisesGone, [], 1)"
proof -
  obtain k where k: "n = Suc k" using assms(2) by (cases n) auto
  obtain v msg where t: "transport_failure clean render False venue
      (Some (case headers of None \<Rightarrow> [] | Some h \<Rightarrow> h)) t = (v, msg)" by fastforce
  with assms(1,3) show ?thesis
    by (simp add: http_request_def k client_request_def request_failure_def is_gone_def)
qed

section \<open>Secrets in failures\<close>

lemma text_secrets_mem:
  "(key, v) \<in> set d \<Longrightarrow> is_sensitive_key key \<Longrightarrow> v \<noteq> PNone \<Longrightarrow> render v \<in> set (text_secrets render (Some d))"
  by (auto simp: text_secrets_def sensitive_mapping_values_def intro!: image_eqI [of _ render v] image_eqI [of _ snd "(key, v)"])

text \<open>
  The message of a failed asynchronous request is a fixed beginning with the venue and a
  text in which no value of a credential header or credential body field occurs.
\<close>

theorem async_failure_hides_secrets:
  assumes "dget_pairs = (case headers of None \<Rightarrow> [] | Some h \<Rightarrow> h) @ (case body of None \<Rightarrow> [] | Some b \<Rightarrow> b)"
    and "(key, v) \<in> set dget_pairs" "is_sensitive_key key" "v \<noteq> PNone" "starless (render v)"
    and "async_http_request clean render venue store ctx headers body outcome ses = (Inl (name, msg), ses')"
  shows "\<exists>t. msg = request_error_msg (if venue = [] then ''unknown'' else venue) []
      (''Async request failed: '' @ t) \<and> \<not> sublist (render v) t"
proof -
  obtain err where "async_failure clean render venue headers body err = (name, msg)"
    using assms(6) by (auto simp: async_http_request_def split: sum.splits option.splits aio_outcome.splits if_splits)
  moreover have "render v \<in> set (text_secrets render headers @ text_secrets render body)"
    using assms(1-4) text_secrets_mem [of key v _ render] by (auto split: option.splits)
  ultimately show ?thesis
    using sanitize_text_removes [OF assms(5)]
    by (auto simp: async_failure_def request_failed_def Let_def)
qed

theorem async_failure_hides_secrets_witness:
  "\<not> sublist ''s3cret'' (sanitize_text id [''s3cret''] ''url?sign=s3cret'')
   \<and> (\<exists>t. snd (async_failure id (\<lambda>v. case v of PStr s \<Rightarrow> s | _ \<Rightarrow> []) ''OKX''
        (Some [(''Api-Key'', PStr ''s3cret'')]) None ''url?sign=s3cret'') =
      request_error_msg ''OKX'' [] (''Async request failed: '' @ t) \<and> \<not> sublist ''s3cret'' t)"
proof -
  let ?r = "\<lambda>v. case v of PStr s \<Rightarrow> s | _ \<Rightarrow> []" and ?h = "Some [(''Api-Key'', PStr ''s3cret'')]"
  let ?f = "async_failure id ?r ''OKX'' ?h None ''url?sign=s3cret''"
  have k: "is_sensitive_key ''Api-Key''" by code_simp
  have s: "starless ''s3cret''" by (simp add: starless_def)
  have "async_http_request id ?r ''OKX'' (\<lambda>_. \<lparr>ctx_check_hostname = True, ctx_cert_required = True\<rparr>) 0
      ?h None (AioError ''url?sign=s3cret'') (Some \<lparr>ses_open = True, ses_ctx = 0\<rparr>) =
      (Inl (fst ?f, snd ?f), Some \<lparr>ses_open = True, ses_ctx = 0\<rparr>)"
    by (simp add: async_http_request_def)
  from async_failure_hides_secrets [OF refl _ k _ _ this, of "PStr ''s3cret''"] s
    sanitize_text_removes [OF s, of "[''s3cret'']" id "''url?sign=s3cret''"]
  show ?thesis by simp
qed

end
