(* ===== verification/WebSocket.thy ===== *)
theory WebSocket
  imports Transport
begin

text \<open>
  Model of \<open>src/bt_api_base/websocket_manager.py\<close>: one managed connection with its
  subscriptions, its message loop and its reconnection, and the manager with its pools. The
  network is a parameter of each operation: whether a connect or a send succeeds, and what
  \<open>recv\<close> gives. A callback is a number; which callbacks ran is the result of a dispatch.
\<close>

section \<open>Configuration\<close>

record WebSocketConfig =
  wf_scheme :: string
  wf_netloc :: string
  wf_exchange_name :: string
  wf_max_connections :: int
  wf_heartbeat_interval :: time
  wf_reconnect_interval :: time
  wf_max_reconnect_attempts :: int
  wf_message_queue_size :: int
  wf_subscription_limits :: "(string, int) dict"

definition default_limits :: "(string, int) dict" where
  "default_limits = [(''ticker'', 100), (''depth'', 50), (''trades'', 100), (''kline'', 200)]"

text \<open>
  \<open>__post_init__\<close>: the message of the error it raises. Scheme and netloc are what \<open>urlparse\<close>
  finds in the URL; the number fields have their declared types.
\<close>

definition validate_config :: "WebSocketConfig \<Rightarrow> string option" where
  "validate_config f =
     (if wf_scheme f \<notin> {''ws'', ''wss''} \<or> wf_netloc f = []
      then Some ''url must be a valid ws/wss URL''
      else if py_strip (wf_exchange_name f) = []
      then Some ''exchange_name must be a non-empty string''
      else if wf_max_connections f \<le> 0 then Some ''max_connections must be a positive integer''
      else if wf_heartbeat_interval f \<le> 0 then Some ''heartbeat_interval must be > 0''
      else if wf_reconnect_interval f \<le> 0 then Some ''reconnect_interval must be > 0''
      else if wf_max_reconnect_attempts f < 0 then Some ''max_reconnect_attempts must be >= 0''
      else if wf_message_queue_size f \<le> 0 then Some ''message_queue_size must be a positive integer''
      else None)"

section \<open>Subscriptions of one connection\<close>

record Subscription =
  sb_id :: string
  sb_topic :: string
  sb_symbol :: string
  sb_params :: pyval
  sb_callback :: "nat option"

record ws_conn =
  wc_config :: WebSocketConfig
  wc_id :: string
  wc_socket :: bool
  wc_connected :: bool
  wc_running :: bool
  wc_subs :: "(string, Subscription) dict"
  wc_count :: "(string, int) dict"
  wc_attempts :: nat
  wc_sent :: "pyval list"
  wc_received :: nat
  wc_reconnects :: nat

definition ws_new :: "WebSocketConfig \<Rightarrow> string \<Rightarrow> ws_conn" where
  "ws_new f cid =
     \<lparr>wc_config = f, wc_id = cid, wc_socket = False, wc_connected = False, wc_running = False,
      wc_subs = [], wc_count = [], wc_attempts = 0, wc_sent = [], wc_received = 0, wc_reconnects = 0\<rparr>"

definition ws_exchange :: "ws_conn \<Rightarrow> string" where
  "ws_exchange c = wf_exchange_name (wc_config c)"

text \<open>\<open>connect\<close>; the first component says whether it raises.\<close>

definition ws_connect :: "bool \<Rightarrow> ws_conn \<Rightarrow> bool \<times> ws_conn" where
  "ws_connect ok c =
     (if wc_connected c then (False, c)
      else if ok
      then (False, c\<lparr>wc_socket := True, wc_connected := True, wc_running := True, wc_attempts := 0\<rparr>)
      else (True, c\<lparr>wc_socket := False\<rparr>))"

definition ws_disconnect :: "ws_conn \<Rightarrow> ws_conn" where
  "ws_disconnect c = c\<lparr>wc_running := False, wc_socket := False, wc_connected := False\<rparr>"

definition stream_name :: "string \<Rightarrow> string \<Rightarrow> string" where
  "stream_name symbol topic = py_lower symbol @ ''@'' @ topic"

definition subscription_message :: "string \<Rightarrow> Subscription \<Rightarrow> pyval" where
  "subscription_message exchange s =
     (if prefix ''BINANCE'' exchange
      then PDict [(''method'', PStr ''SUBSCRIBE''),
                  (''params'', PList [PStr (stream_name (sb_symbol s) (sb_topic s))]),
                  (''id'', PStr (sb_id s))]
      else if prefix ''OKX'' exchange
      then PDict [(''op'', PStr ''subscribe''),
                  (''args'', PList [PDict [(''channel'', PStr (sb_topic s)), (''instId'', PStr (sb_symbol s))]])]
      else PDict [(''action'', PStr ''subscribe''), (''topic'', PStr (sb_topic s)),
                  (''symbol'', PStr (sb_symbol s)), (''params'', sb_params s)])"

definition unsubscription_message :: "string \<Rightarrow> Subscription \<Rightarrow> pyval" where
  "unsubscription_message exchange s =
     (if prefix ''BINANCE'' exchange
      then PDict [(''method'', PStr ''UNSUBSCRIBE''),
                  (''params'', PList [PStr (stream_name (sb_symbol s) (sb_topic s))]),
                  (''id'', PStr (sb_id s))]
      else if prefix ''OKX'' exchange
      then PDict [(''op'', PStr ''unsubscribe''),
                  (''args'', PList [PDict [(''channel'', PStr (sb_topic s)), (''instId'', PStr (sb_symbol s))]])]
      else PDict [(''action'', PStr ''unsubscribe''), (''topic'', PStr (sb_topic s)),
                  (''symbol'', PStr (sb_symbol s))])"

datatype ws_result = WsOk | WsRateLimit | WsError | WsValueError

definition send_message :: "bool \<Rightarrow> pyval \<Rightarrow> ws_conn \<Rightarrow> ws_result \<times> ws_conn" where
  "send_message ok message c =
     (if \<not> wc_connected c \<or> \<not> wc_socket c then (WsError, c)
      else if ok then (WsOk, c\<lparr>wc_sent := wc_sent c @ [message]\<rparr>)
      else (WsError, c))"

definition topic_limit :: "ws_conn \<Rightarrow> string \<Rightarrow> int" where
  "topic_limit c topic = dget_default (wf_subscription_limits (wc_config c)) topic 100"

text \<open>The subscription is stored and counted before it is sent, and stays if the send fails.\<close>

definition ws_subscribe :: "bool \<Rightarrow> Subscription \<Rightarrow> ws_conn \<Rightarrow> ws_result \<times> ws_conn" where
  "ws_subscribe ok s c =
     (let n = dget_default (wc_count c) (sb_topic s) 0
      in if topic_limit c (sb_topic s) \<le> n then (WsRateLimit, c)
         else send_message ok (subscription_message (ws_exchange c) s)
                (c\<lparr>wc_subs := dset (sb_id s) s (wc_subs c),
                   wc_count := dset (sb_topic s) (n + 1) (wc_count c)\<rparr>))"

definition ws_unsubscribe :: "bool \<Rightarrow> string \<Rightarrow> ws_conn \<Rightarrow> ws_result \<times> ws_conn" where
  "ws_unsubscribe ok sid c =
     (case dget (wc_subs c) sid of
        None \<Rightarrow> (WsOk, c)
      | Some s \<Rightarrow>
          send_message ok (unsubscription_message (ws_exchange c) s)
            (c\<lparr>wc_subs := dpop sid (wc_subs c),
               wc_count := dset (sb_topic s) (dget_default (wc_count c) (sb_topic s) 0 - 1) (wc_count c)\<rparr>))"

section \<open>Messages\<close>

text \<open>\<open>k in v\<close>, \<open>v[k]\<close> and \<open>v.get(k, d)\<close> for a value that came out of \<open>json.loads\<close>.\<close>

fun py_in :: "string \<Rightarrow> pyval \<Rightarrow> bool py" where
  "py_in k (PDict d) = Inr (k \<in> set (dkeys d))"
| "py_in k (PList xs) = Inr (PStr k \<in> set xs)"
| "py_in k (PStr s) = Inr (contains k s)"
| "py_in k _ = Inl TypeError"

fun py_item :: "string \<Rightarrow> pyval \<Rightarrow> pyval py" where
  "py_item k (PDict d) = (case dget d k of Some v \<Rightarrow> Inr v | None \<Rightarrow> Inl KeyError)"
| "py_item k _ = Inl TypeError"

fun py_get :: "string \<Rightarrow> pyval \<Rightarrow> pyval \<Rightarrow> pyval py" where
  "py_get k dflt (PDict d) = Inr (dget_default d k dflt)"
| "py_get k dflt _ = Inl AttributeError"

definition py_bind :: "'a py \<Rightarrow> ('a \<Rightarrow> 'b py) \<Rightarrow> 'b py" where
  "py_bind m f = (case m of Inl e \<Rightarrow> Inl e | Inr x \<Rightarrow> f x)"

definition extract_topic_symbol :: "string \<Rightarrow> pyval \<Rightarrow> (pyval \<times> pyval) py" where
  "extract_topic_symbol exchange message =
     (if prefix ''BINANCE'' exchange
      then py_bind (py_in ''stream'' message) (\<lambda>has_stream.
        if has_stream
        then py_bind (py_item ''stream'' message) (\<lambda>stream.
          case stream of
            PStr s \<Rightarrow>
              (case split_on CHR ''@'' s of
                 [symbol, topic] \<Rightarrow> Inr (PStr topic, PStr (py_upper symbol))
               | _ \<Rightarrow> Inr (PNone, PNone))
          | _ \<Rightarrow> Inl AttributeError)
        else Inr (PNone, PNone))
      else if prefix ''OKX'' exchange
      then py_bind (py_in ''arg'' message) (\<lambda>has_arg.
        if \<not> has_arg then Inr (PNone, PNone)
        else py_bind (py_in ''data'' message) (\<lambda>has_data.
          if \<not> has_data then Inr (PNone, PNone)
          else py_bind (py_item ''arg'' message) (\<lambda>arg.
            py_bind (py_get ''channel'' PNone arg) (\<lambda>topic.
              py_bind (py_get ''instId'' PNone arg) (\<lambda>symbol. Inr (topic, symbol))))))
      else Inr (PNone, PNone))"

definition matching_callbacks :: "pyval \<Rightarrow> pyval \<Rightarrow> ws_conn \<Rightarrow> nat list" where
  "matching_callbacks topic symbol c =
     List.map_filter sb_callback
       (filter (\<lambda>s. PStr (sb_topic s) = topic \<and> PStr (sb_symbol s) = symbol) (dvalues (wc_subs c)))"

definition handle_data_message :: "pyval \<Rightarrow> ws_conn \<Rightarrow> nat list py" where
  "handle_data_message message c =
     py_bind (extract_topic_symbol (ws_exchange c) message) (\<lambda>(topic, symbol).
       Inr (if truthy topic \<and> truthy symbol then matching_callbacks topic symbol c else []))"

text \<open>
  \<open>_handle_message\<close>: the callbacks it runs. An event message is only logged, an unknown one
  is logged with its \<open>keys()\<close>.
\<close>

definition handle_message :: "pyval \<Rightarrow> ws_conn \<Rightarrow> nat list py" where
  "handle_message message c =
     py_bind (py_in ''result'' message) (\<lambda>has_result.
       py_bind (if has_result then Inr True else py_in ''data'' message) (\<lambda>has_data.
         if has_data then handle_data_message message c
         else py_bind (py_in ''event'' message) (\<lambda>has_event.
           if has_event then py_bind (py_get ''event'' (PStr []) message) (\<lambda>_. Inr [])
           else (case message of PDict _ \<Rightarrow> Inr [] | _ \<Rightarrow> Inl AttributeError))))"

section \<open>The message loop\<close>

text \<open>
  What one \<open>recv\<close> gives: a decoded message, one that is not JSON or not UTF-8, one whose
  compressed data is broken (\<open>zlib.error\<close>), a closed connection or a network error. The loop
  catches some exceptions; any other ends the task while the connection stays connected.
\<close>

datatype received =
    Message pyval | NotJson | BrokenCompression | ConnectionClosed | NetworkFailure

datatype turn = Handled "nat list" | Disconnected | TaskDies

definition process_turn :: "received \<Rightarrow> ws_conn \<Rightarrow> turn" where
  "process_turn r c =
     (case r of
        Message m \<Rightarrow>
          (case handle_message m c of
             Inr calls \<Rightarrow> Handled calls
           | Inl e \<Rightarrow> if e \<in> {KeyError, ValueError, TypeError} then Handled [] else TaskDies)
      | NotJson \<Rightarrow> Handled []
      | BrokenCompression \<Rightarrow> TaskDies
      | ConnectionClosed \<Rightarrow> Disconnected
      | NetworkFailure \<Rightarrow> Disconnected)"

datatype loop_end = LoopStops | AwaitsMessage | LoopDisconnects | LoopDies

text \<open>
  \<open>_process_messages\<close> with \<open>fuel\<close> turns: the callbacks run and how the loop ends; \<open>None\<close> when
  it still turns. Without a socket a turn neither receives nor waits.
\<close>

fun process_loop :: "nat \<Rightarrow> received list \<Rightarrow> ws_conn \<Rightarrow> (nat list \<times> loop_end) option" where
  "process_loop 0 msgs c = None"
| "process_loop (Suc fuel) msgs c =
     (if \<not> wc_running c then Some ([], LoopStops)
      else if \<not> wc_socket c then process_loop fuel msgs c
      else case msgs of
        [] \<Rightarrow> Some ([], AwaitsMessage)
      | r # rs \<Rightarrow>
          (case process_turn r c of
             Handled calls \<Rightarrow>
               map_option (\<lambda>(cs, e). (calls @ cs, e)) (process_loop fuel rs c)
           | Disconnected \<Rightarrow> Some ([], LoopDisconnects)
           | TaskDies \<Rightarrow> Some ([], LoopDies)))"

section \<open>Reconnection\<close>

text \<open>\<open>_restore_subscriptions\<close>: the first send that fails raises.\<close>

fun restore_subscriptions :: "bool list \<Rightarrow> Subscription list \<Rightarrow> ws_conn \<Rightarrow> bool \<times> ws_conn" where
  "restore_subscriptions oks [] c = (False, c)"
| "restore_subscriptions oks (s # ss) c =
     (case send_message (oks \<noteq> [] \<and> hd oks) (subscription_message (ws_exchange c) s) c of
        (WsOk, c') \<Rightarrow> restore_subscriptions (tl oks) ss c'
      | (_, c') \<Rightarrow> (True, c'))"

datatype reconnect_end = Reconnected | GaveUp | StillTrying

definition reconnect_wait :: "ws_conn \<Rightarrow> time" where
  "reconnect_wait c = min (wf_reconnect_interval (wc_config c) * 2 ^ wc_attempts c) 60"

text \<open>
  The loop of \<open>_handle_disconnect\<close>. A turn of the environment says whether the connect
  succeeds and which sends of the restore do; the result has the waits.
\<close>

fun reconnect_loop ::
    "(bool \<times> bool list) list \<Rightarrow> ws_conn \<Rightarrow> time list \<times> reconnect_end \<times> ws_conn" where
  "reconnect_loop env c =
     (if \<not> (wc_running c \<and> int (wc_attempts c) < wf_max_reconnect_attempts (wc_config c))
      then ([], GaveUp, c\<lparr>wc_running := False\<rparr>)
      else case env of
        [] \<Rightarrow> ([], StillTrying, c)
      | (ok, oks) # env' \<Rightarrow>
          (let c1 = c\<lparr>wc_attempts := wc_attempts c + 1, wc_reconnects := wc_reconnects c + 1\<rparr>;
               wait = reconnect_wait c1;
               failed = (\<lambda>c'. case reconnect_loop env' (c'\<lparr>wc_connected := False, wc_socket := False\<rparr>) of
                           (waits, result, d) \<Rightarrow> (wait # waits, result, d))
           in case ws_connect ok c1 of
                (True, c2) \<Rightarrow> failed c2
              | (False, c2) \<Rightarrow>
                  (case restore_subscriptions oks (dvalues (wc_subs c2)) c2 of
                     (False, c3) \<Rightarrow> ([wait], Reconnected, c3)
                   | (True, c3) \<Rightarrow> failed c3)))"

declare reconnect_loop.simps [simp del]

definition handle_disconnect ::
    "(bool \<times> bool list) list \<Rightarrow> ws_conn \<Rightarrow> time list \<times> reconnect_end \<times> ws_conn" where
  "handle_disconnect env c = reconnect_loop env (c\<lparr>wc_connected := False, wc_socket := False\<rparr>)"

section \<open>The manager\<close>

text \<open>
  A connection is named by its place in its pool: pools only grow until they are cleared.
\<close>

record WebSocketManager =
  wm_pools :: "(string, ws_conn list) dict"
  wm_configs :: "(string, WebSocketConfig) dict"
  wm_round_robin :: "(string, nat) dict"
  wm_published :: "(string \<times> string) list"

definition wm_new :: WebSocketManager where
  "wm_new = \<lparr>wm_pools = [], wm_configs = [], wm_round_robin = [], wm_published = []\<rparr>"

definition add_exchange :: "WebSocketConfig \<Rightarrow> WebSocketManager \<Rightarrow> WebSocketManager" where
  "add_exchange f m =
     m\<lparr>wm_configs := dset (wf_exchange_name f) f (wm_configs m),
       wm_pools := dset (wf_exchange_name f) [] (wm_pools m)\<rparr>"

definition is_available :: "ws_conn \<Rightarrow> bool" where
  "is_available c \<longleftrightarrow> wc_connected c \<and> length (wc_subs c) < 50"

fun find_place :: "('a \<Rightarrow> bool) \<Rightarrow> 'a list \<Rightarrow> nat option" where
  "find_place P [] = None"
| "find_place P (x # xs) = (if P x then Some 0 else map_option Suc (find_place P xs))"

definition wm_get_connection ::
    "bool \<Rightarrow> string \<Rightarrow> WebSocketManager \<Rightarrow> (ws_result + nat) \<times> WebSocketManager" where
  "wm_get_connection connect_ok exchange m =
     (case (dget (wm_pools m) exchange, dget (wm_configs m) exchange) of
        (Some pool, Some f) \<Rightarrow>
          (case find_place is_available pool of
             Some i \<Rightarrow> (Inr i, m)
           | None \<Rightarrow>
               if int (length pool) < wf_max_connections f
               then (case ws_connect connect_ok (ws_new f (exchange @ ''_'' @ show_int (int (length pool)))) of
                       (True, _) \<Rightarrow> (Inl WsError, m)
                     | (False, c) \<Rightarrow>
                         (Inr (length pool), m\<lparr>wm_pools := dset exchange (pool @ [c]) (wm_pools m)\<rparr>))
               else (let rr = dget_default (wm_round_robin m) exchange 0
                     in (Inr (rr mod length pool),
                         m\<lparr>wm_round_robin := dset exchange (rr + 1) (wm_round_robin m)\<rparr>)))
      | _ \<Rightarrow> (Inl WsValueError, m))"

definition subscription_id :: "string \<Rightarrow> string \<Rightarrow> string \<Rightarrow> time \<Rightarrow> string" where
  "subscription_id exchange topic symbol now =
     exchange @ ''_'' @ topic @ ''_'' @ symbol @ ''_'' @ show_int \<lfloor>now\<rfloor>"

definition wm_subscribe ::
    "bool \<Rightarrow> bool \<Rightarrow> time \<Rightarrow> string \<Rightarrow> string \<Rightarrow> string \<Rightarrow> nat \<Rightarrow> pyval option \<Rightarrow> WebSocketManager
     \<Rightarrow> (ws_result + string) \<times> WebSocketManager" where
  "wm_subscribe connect_ok send_ok now exchange topic symbol callback params m =
     (case wm_get_connection connect_ok exchange m of
        (Inl e, m1) \<Rightarrow> (Inl e, m1)
      | (Inr i, m1) \<Rightarrow>
          (let pool = the (dget (wm_pools m1) exchange);
               sid = subscription_id exchange topic symbol now;
               s = \<lparr>sb_id = sid, sb_topic = topic, sb_symbol = symbol,
                    sb_params = (case params of Some p \<Rightarrow> if truthy p then p else PDict [] | None \<Rightarrow> PDict []),
                    sb_callback = Some callback\<rparr>;
               (r, c) = ws_subscribe send_ok s (pool ! i);
               m2 = m1\<lparr>wm_pools := dset exchange (pool[i := c]) (wm_pools m1)\<rparr>
           in if r = WsOk
              then (Inr sid, m2\<lparr>wm_published := wm_published m2 @ [(''websocket_subscribed'', sid)]\<rparr>)
              else (Inl r, m2)))"

definition wm_unsubscribe ::
    "bool \<Rightarrow> string \<Rightarrow> string \<Rightarrow> WebSocketManager \<Rightarrow> ws_result \<times> WebSocketManager" where
  "wm_unsubscribe send_ok exchange sid m =
     (case dget (wm_pools m) exchange of
        None \<Rightarrow> (WsValueError, m)
      | Some pool \<Rightarrow>
          (let (r, m1) =
             (case find_place (\<lambda>c. sid \<in> set (dkeys (wc_subs c))) pool of
                None \<Rightarrow> (WsOk, m)
              | Some i \<Rightarrow>
                  (let (r, c) = ws_unsubscribe send_ok sid (pool ! i)
                   in (r, m\<lparr>wm_pools := dset exchange (pool[i := c]) (wm_pools m)\<rparr>)))
           in if r = WsOk
              then (WsOk, m1\<lparr>wm_published := wm_published m1 @ [(''websocket_unsubscribed'', sid)]\<rparr>)
              else (r, m1)))"

definition wm_close_all :: "WebSocketManager \<Rightarrow> WebSocketManager" where
  "wm_close_all m =
     m\<lparr>wm_pools := map (\<lambda>(e, pool). (e, [])) (wm_pools m),
       wm_round_robin := foldl (\<lambda>rr (e, pool). dset e 0 rr) (wm_round_robin m) (wm_pools m)\<rparr>"

definition pool_stats :: "ws_conn list \<Rightarrow> nat \<times> nat \<times> nat" where
  "pool_stats pool =
     (length pool, length (filter wc_connected pool), sum_list (map (\<lambda>c. length (wc_subs c)) pool))"

end
