(* ===== verification/WebSocketCorrect.thy ===== *)
theory WebSocketCorrect
  imports WebSocket
begin

text \<open>
  What the model of \<open>websocket_manager.py\<close> guarantees: the limits on subscriptions and
  connections, the reconnection with its bound and the two ways it misses it, which messages
  reach which callbacks and which end the message loop.
\<close>

section \<open>Subscription limits\<close>

datatype ws_op =
    OpConnect bool | OpDisconnect | OpSubscribe bool Subscription | OpUnsubscribe bool string
  | OpReconnect "(bool \<times> bool list) list"

fun ws_step :: "ws_conn \<Rightarrow> ws_op \<Rightarrow> ws_conn" where
  "ws_step c (OpConnect ok) = snd (ws_connect ok c)"
| "ws_step c OpDisconnect = ws_disconnect c"
| "ws_step c (OpSubscribe ok s) = snd (ws_subscribe ok s c)"
| "ws_step c (OpUnsubscribe ok sid) = snd (ws_unsubscribe ok sid c)"
| "ws_step c (OpReconnect env) = snd (snd (handle_disconnect env c))"

definition subs_of :: "string \<Rightarrow> (string, Subscription) dict \<Rightarrow> nat" where
  "subs_of topic d = length (filter (\<lambda>s. sb_topic s = topic) (dvalues d))"

definition count_of :: "ws_conn \<Rightarrow> string \<Rightarrow> int" where
  "count_of c topic = dget_default (wc_count c) topic 0"

definition ws_inv :: "WebSocketConfig \<Rightarrow> ws_conn \<Rightarrow> bool" where
  "ws_inv f c \<longleftrightarrow> wc_config c = f \<and> dict_ok (wc_subs c) \<and>
     (\<forall>sid s. dget (wc_subs c) sid = Some s \<longrightarrow> sb_id s = sid) \<and>
     (\<forall>topic. int (subs_of topic (wc_subs c)) \<le> count_of c topic \<and>
        count_of c topic \<le> max 0 (dget_default (wf_subscription_limits f) topic 100))"

lemma subs_of_dset:
  "dict_ok d \<Longrightarrow> subs_of topic (dset k s d) =
     subs_of topic (dpop k d) + (if sb_topic s = topic then 1 else 0)"
proof (induction d)
  case (Cons p d)
  show ?case
  proof (cases "fst p = k")
    case True
    then have "dpop k d = d" using Cons.prems by (auto intro!: dpop_fresh)
    with True show ?thesis by (cases p) (simp add: subs_of_def dvalues_def)
  next
    case False
    with Cons show ?thesis by (cases p) (auto simp: subs_of_def dvalues_def)
  qed
qed (simp add: subs_of_def dvalues_def)

lemma subs_of_dpop:
  "dict_ok d \<Longrightarrow> dget d k = Some s \<Longrightarrow>
     subs_of topic d = subs_of topic (dpop k d) + (if sb_topic s = topic then 1 else 0)"
proof (induction d)
  case (Cons p d)
  show ?case
  proof (cases "fst p = k")
    case True
    then have "dpop k d = d" using Cons.prems by (auto intro!: dpop_fresh)
    with True Cons.prems show ?thesis by (cases p) (auto simp: subs_of_def dvalues_def)
  next
    case False
    with Cons show ?thesis by (cases p) (auto simp: subs_of_def dvalues_def)
  qed
qed simp

lemma subs_of_dpop_le: "subs_of topic (dpop k d) \<le> subs_of topic d"
  unfolding subs_of_def dvalues_def dpop_def by (induction d) auto

text \<open>Sending leaves all but the log of sent messages.\<close>

definition ws_core where
  "ws_core c = (wc_config c, wc_subs c, wc_count c, wc_attempts c, wc_running c, wc_socket c,
     wc_connected c, wc_reconnects c)"

lemma ws_coreD:
  assumes "ws_core c' = ws_core c"
  shows "wc_config c' = wc_config c" "wc_subs c' = wc_subs c" "wc_count c' = wc_count c"
    "wc_attempts c' = wc_attempts c" "wc_running c' = wc_running c" "wc_socket c' = wc_socket c"
    "wc_connected c' = wc_connected c" "wc_reconnects c' = wc_reconnects c"
  using assms by (simp_all add: ws_core_def)

lemma send_message_keeps: "send_message ok m c = (r, c') \<Longrightarrow> ws_core c' = ws_core c"
  by (auto simp: send_message_def ws_core_def split: if_splits)

lemma ws_inv_cong:
  "ws_inv f c \<Longrightarrow> wc_config c' = wc_config c \<Longrightarrow> wc_subs c' = wc_subs c \<Longrightarrow> wc_count c' = wc_count c \<Longrightarrow>
   ws_inv f c'"
  by (simp add: ws_inv_def count_of_def)

lemma ws_inv_send: "ws_inv f c \<Longrightarrow> ws_inv f (snd (send_message ok m c))"
  by (cases "send_message ok m c")
    (metis snd_conv send_message_keeps ws_coreD(1-3) ws_inv_cong)

lemma ws_subscribe_inv:
  assumes inv: "ws_inv f c" shows "ws_inv f (snd (ws_subscribe ok s c))"
proof (cases "topic_limit c (sb_topic s) \<le> count_of c (sb_topic s)")
  case True
  then show ?thesis using inv by (simp add: ws_subscribe_def count_of_def Let_def)
next
  case False
  let ?c = "c\<lparr>wc_subs := dset (sb_id s) s (wc_subs c),
      wc_count := dset (sb_topic s) (count_of c (sb_topic s) + 1) (wc_count c)\<rparr>"
  have ok: "dict_ok (wc_subs c)" and cfg: "wc_config c = f" using inv by (auto simp: ws_inv_def)
  have "ws_inv f ?c"
    unfolding ws_inv_def
  proof (intro conjI allI)
    fix topic
    have old: "int (subs_of topic (wc_subs c)) \<le> count_of c topic"
      "count_of c topic \<le> max 0 (dget_default (wf_subscription_limits f) topic 100)"
      using inv by (auto simp: ws_inv_def)
    have new: "count_of ?c topic = (if topic = sb_topic s then count_of c topic + 1 else count_of c topic)"
      by (simp add: count_of_def dget_default_def)
    show "int (subs_of topic (wc_subs ?c)) \<le> count_of ?c topic"
      unfolding new using old(1) subs_of_dpop_le [of topic "sb_id s" "wc_subs c"]
      by (cases "topic = sb_topic s") (auto simp: subs_of_dset [OF ok])
    show "count_of ?c topic \<le> max 0 (dget_default (wf_subscription_limits f) topic 100)"
      unfolding new using old(2) False cfg by (cases "topic = sb_topic s") (auto simp: topic_limit_def)
  qed (use inv ok in \<open>auto simp: ws_inv_def\<close>)
  moreover have "snd (ws_subscribe ok s c) = snd (send_message ok (subscription_message (ws_exchange c) s) ?c)"
    using False by (simp add: ws_subscribe_def count_of_def Let_def)
  ultimately show ?thesis by (simp only: ws_inv_send)
qed

lemma ws_unsubscribe_inv:
  assumes inv: "ws_inv f c" shows "ws_inv f (snd (ws_unsubscribe ok sid c))"
proof (cases "dget (wc_subs c) sid")
  case None
  then show ?thesis using inv by (simp add: ws_unsubscribe_def)
next
  case (Some s)
  let ?c = "c\<lparr>wc_subs := dpop sid (wc_subs c),
      wc_count := dset (sb_topic s) (count_of c (sb_topic s) - 1) (wc_count c)\<rparr>"
  have ok: "dict_ok (wc_subs c)" using inv by (auto simp: ws_inv_def)
  have "ws_inv f ?c"
    unfolding ws_inv_def
  proof (intro conjI allI)
    fix topic
    have old: "int (subs_of topic (wc_subs c)) \<le> count_of c topic"
      "count_of c topic \<le> max 0 (dget_default (wf_subscription_limits f) topic 100)"
      using inv by (auto simp: ws_inv_def)
    have new: "count_of ?c topic = (if topic = sb_topic s then count_of c topic - 1 else count_of c topic)"
      by (simp add: count_of_def dget_default_def)
    show "int (subs_of topic (wc_subs ?c)) \<le> count_of ?c topic"
      unfolding new using old(1) subs_of_dpop [OF ok Some, of topic] by (cases "topic = sb_topic s") auto
    show "count_of ?c topic \<le> max 0 (dget_default (wf_subscription_limits f) topic 100)"
      unfolding new using old(2) by (cases "topic = sb_topic s") auto
  qed (use inv ok in \<open>auto simp: ws_inv_def split: if_splits\<close>)
  moreover have "snd (ws_unsubscribe ok sid c) =
      snd (send_message ok (unsubscription_message (ws_exchange c) s) ?c)"
    using Some by (simp add: ws_unsubscribe_def count_of_def Let_def)
  ultimately show ?thesis by (simp only: ws_inv_send)
qed

section \<open>Reconnection\<close>

lemma restore_keeps: "restore_subscriptions oks ss c = (r, c') \<Longrightarrow> ws_core c' = ws_core c"
proof (induction ss arbitrary: oks c)
  case (Cons s ss)
  obtain q d where sm: "send_message (oks \<noteq> [] \<and> hd oks) (subscription_message (ws_exchange c) s) c = (q, d)"
    by fastforce
  note k = send_message_keeps [OF sm]
  show ?case
  proof (cases q)
    case WsOk
    with Cons.prems sm have "restore_subscriptions (tl oks) ss d = (r, c')" by simp
    from Cons.IH [OF this] k show ?thesis by simp
  qed (use Cons.prems sm k in auto)
qed simp

lemma reconnect_loop_done:
  "\<not> (wc_running c \<and> int (wc_attempts c) < wf_max_reconnect_attempts (wc_config c)) \<Longrightarrow>
   reconnect_loop env c = ([], GaveUp, c\<lparr>wc_running := False\<rparr>)"
  by (subst reconnect_loop.simps) simp

definition next_attempt :: "ws_conn \<Rightarrow> ws_conn" where
  "next_attempt c = c\<lparr>wc_attempts := wc_attempts c + 1, wc_reconnects := wc_reconnects c + 1\<rparr>"

definition dropped :: "ws_conn \<Rightarrow> ws_conn" where
  "dropped c = c\<lparr>wc_connected := False, wc_socket := False\<rparr>"

text \<open>The three ways a turn of the reconnect loop can go.\<close>

lemma reconnect_loop_turn:
  assumes "wc_running c" "int (wc_attempts c) < wf_max_reconnect_attempts (wc_config c)"
  shows "reconnect_loop [] c = ([], StillTrying, c)"
    "ws_connect ok (next_attempt c) = (True, c2) \<Longrightarrow>
       reconnect_loop ((ok, oks) # env) c =
         (let (ws, r, d) = reconnect_loop env (dropped c2) in (reconnect_wait (next_attempt c) # ws, r, d))"
    "ws_connect ok (next_attempt c) = (False, c2) \<Longrightarrow>
       restore_subscriptions oks (dvalues (wc_subs c2)) c2 = (True, c3) \<Longrightarrow>
       reconnect_loop ((ok, oks) # env) c =
         (let (ws, r, d) = reconnect_loop env (dropped c3) in (reconnect_wait (next_attempt c) # ws, r, d))"
    "ws_connect ok (next_attempt c) = (False, c2) \<Longrightarrow>
       restore_subscriptions oks (dvalues (wc_subs c2)) c2 = (False, c3) \<Longrightarrow>
       reconnect_loop ((ok, oks) # env) c = ([reconnect_wait (next_attempt c)], Reconnected, c3)"
  using assms by (subst reconnect_loop.simps, simp add: next_attempt_def dropped_def Let_def)+

lemma dropped_simps [simp]:
  "wc_config (dropped c) = wc_config c" "wc_subs (dropped c) = wc_subs c" "wc_count (dropped c) = wc_count c"
  "wc_running (dropped c) = wc_running c" "wc_attempts (dropped c) = wc_attempts c"
  "wc_socket (dropped c) = False" "wc_connected (dropped c) = False"
  by (simp_all add: dropped_def)

lemma next_attempt_simps [simp]:
  "wc_config (next_attempt c) = wc_config c" "wc_subs (next_attempt c) = wc_subs c"
  "wc_count (next_attempt c) = wc_count c" "wc_running (next_attempt c) = wc_running c"
  "wc_attempts (next_attempt c) = Suc (wc_attempts c)" "wc_connected (next_attempt c) = wc_connected c"
  by (simp_all add: next_attempt_def)

definition ws_book where
  "ws_book c = (wc_config c, wc_subs c, wc_count c)"

lemma ws_book_simps [simp]:
  "ws_book (dropped c) = ws_book c" "ws_book (next_attempt c) = ws_book c"
  "ws_book (c\<lparr>wc_running := b\<rparr>) = ws_book c"
  by (simp_all add: ws_book_def)

lemma ws_connect_book: "ws_connect ok c = (r, c') \<Longrightarrow> ws_book c' = ws_book c"
  by (auto simp: ws_connect_def ws_book_def split: if_splits)

lemma ws_core_book: "ws_core c' = ws_core c \<Longrightarrow> ws_book c' = ws_book c"
  by (simp add: ws_core_def ws_book_def)

lemma reconnect_keeps: "ws_book (snd (snd (reconnect_loop env c))) = ws_book c"
proof (induction env arbitrary: c)
  case Nil
  show ?case
    by (cases "wc_running c \<and> int (wc_attempts c) < wf_max_reconnect_attempts (wc_config c)")
      (simp_all add: reconnect_loop_done reconnect_loop_turn)
next
  case (Cons a env)
  obtain ok oks where a: "a = (ok, oks)" by (cases a)
  show ?case
  proof (cases "wc_running c \<and> int (wc_attempts c) < wf_max_reconnect_attempts (wc_config c)")
    case True
    obtain r c2 where c2: "ws_connect ok (next_attempt c) = (r, c2)" by fastforce
    obtain q c3 where c3: "restore_subscriptions oks (dvalues (wc_subs c2)) c2 = (q, c3)" by fastforce
    have books: "ws_book c2 = ws_book c" "ws_book c3 = ws_book c"
      using ws_connect_book [OF c2] ws_core_book [OF restore_keeps [OF c3]] by simp_all
    show ?thesis
      using True books Cons.IH [of "dropped c2"] Cons.IH [of "dropped c3"] c2 c3
      by (cases r; cases q) (simp_all add: a reconnect_loop_turn case_prod_unfold Let_def)
  qed (simp add: reconnect_loop_done)
qed

lemma ws_step_inv: "ws_inv f c \<Longrightarrow> ws_inv f (ws_step c x)"
proof (cases x)
  case (OpReconnect env)
  assume inv: "ws_inv f c"
  from reconnect_keeps [of env "dropped c"] inv OpReconnect show ?thesis
    by (auto simp: handle_disconnect_def dropped_def ws_book_def intro: ws_inv_cong)
next
  case (OpConnect ok)
  assume "ws_inv f c"
  then show ?thesis using OpConnect
    by (auto simp: ws_connect_def intro: ws_inv_cong)
qed (auto simp: ws_subscribe_inv ws_unsubscribe_inv ws_disconnect_def intro: ws_inv_cong)

lemma ws_new_inv: "ws_inv f (ws_new f cid)"
  by (simp add: ws_inv_def ws_new_def subs_of_def dvalues_def count_of_def dget_default_def)

interpretation ws: op_system "ws_new f cid" ws_step "ws_inv f" for f cid
  by unfold_locales (rule ws_new_inv, rule ws_step_inv)

section \<open>Properties of a connection\<close>

text \<open>
  C15. Whatever a connection went through (connects, disconnects, subscriptions and
  unsubscriptions whose sends succeed or fail, reconnections), it never holds more
  subscriptions of a topic than the configured limit of the topic, 100 when there is none.
\<close>

theorem subscription_limit_holds:
  "int (subs_of topic (wc_subs (foldl ws_step (ws_new f cid) ops)))
     \<le> max 0 (dget_default (wf_subscription_limits f) topic 100)"
  using ws.reach_inv [of f cid ops] unfolding ws_inv_def by (meson order_trans)

text \<open>
  The identifier of a subscription has the time in whole seconds, so asking twice within
  a second for the same stream stores one subscription and counts two; unsubscribing then
  gives back one of the two, and a slot of the topic is lost for the life of the connection.
\<close>

theorem duplicate_subscription_leaks_slot:
  assumes "sb_id s1 = subscription_id exchange topic symbol ta"
    and "sb_id s2 = subscription_id exchange topic symbol tb" and "\<lfloor>ta\<rfloor> = \<lfloor>tb\<rfloor>"
    and "sb_topic s1 = topic" "sb_topic s2 = topic"
    and "dget (wc_subs c) (sb_id s1) = None" "count_of c topic + 2 \<le> topic_limit c topic"
    and "wc_connected c" "wc_socket c"
  defines "c' \<equiv> snd (ws_unsubscribe True (sb_id s1) (snd (ws_subscribe True s2 (snd (ws_subscribe True s1 c)))))"
  shows "dget (wc_subs c') sid = dget (wc_subs c) sid \<and> count_of c' topic = count_of c topic + 1"
proof -
  have same: "sb_id s2 = sb_id s1" using assms(1-3) by (simp add: subscription_id_def)
  have lim: "dget_default (wc_count c) topic 0 + 2 \<le> topic_limit c topic"
    using assms(7) by (simp add: count_of_def)
  let ?s1 = "snd (ws_subscribe True s1 c)"
  have s1: "?s1 = c\<lparr>wc_subs := dset (sb_id s1) s1 (wc_subs c),
      wc_count := dset topic (dget_default (wc_count c) topic 0 + 1) (wc_count c),
      wc_sent := wc_sent c @ [subscription_message (ws_exchange c) s1]\<rparr>"
    using assms(4,8,9) lim by (simp add: ws_subscribe_def send_message_def Let_def)
  let ?s2 = "snd (ws_subscribe True s2 ?s1)"
  have s2: "wc_subs ?s2 = dset (sb_id s1) s2 (dset (sb_id s1) s1 (wc_subs c))"
    "dget_default (wc_count ?s2) topic 0 = dget_default (wc_count c) topic 0 + 2"
    "wc_connected ?s2" "wc_socket ?s2"
    using assms(5,8,9) lim unfolding s1
    by (simp_all add: ws_subscribe_def send_message_def Let_def same topic_limit_def dget_default_def)
  have "c' = snd (ws_unsubscribe True (sb_id s1) ?s2)" by (simp add: c'_def)
  then show ?thesis
    using s2 assms(5,6) by (auto simp: ws_unsubscribe_def send_message_def count_of_def dget_default_def)
qed

theorem duplicate_subscription_leaks_slot_witness:
  "\<exists>c. wc_subs c = [] \<and> count_of c ''ticker'' = 1"
proof -
  let ?f = "\<lparr>wf_scheme = ''wss'', wf_netloc = ''x'', wf_exchange_name = ''OKX'', wf_max_connections = 5,
    wf_heartbeat_interval = 30, wf_reconnect_interval = 5, wf_max_reconnect_attempts = 10,
    wf_message_queue_size = 100, wf_subscription_limits = default_limits\<rparr>"
  let ?c = "snd (ws_connect True (ws_new ?f ''OKX_0''))"
  let ?s = "\<lparr>sb_id = subscription_id ''OKX'' ''ticker'' ''BTC'' 7, sb_topic = ''ticker'', sb_symbol = ''BTC'',
    sb_params = PDict [], sb_callback = None\<rparr>"
  have c: "wc_subs ?c = []" "wc_count ?c = []" "wc_config ?c = ?f" "wc_connected ?c" "wc_socket ?c"
    by (simp_all add: ws_connect_def ws_new_def)
  let ?e = "snd (ws_unsubscribe True (sb_id ?s) (snd (ws_subscribe True ?s (snd (ws_subscribe True ?s ?c)))))"
  have t: "dget (wc_subs ?e) sid = dget (wc_subs ?c) sid \<and> count_of ?e ''ticker'' = count_of ?c ''ticker'' + 1"
    for sid
    by (rule duplicate_subscription_leaks_slot [where symbol = "''BTC''" and exchange = "''OKX''" and ta = 7 and tb = 7])
      (simp_all add: ws_connect_def ws_new_def count_of_def topic_limit_def dget_default_def default_limits_def)
  then have "dget (wc_subs ?e) sid = None" for sid by (simp add: c)
  then have "wc_subs ?e = []" by (metis dget_None_iff dkeys_def list.map_disc_iff set_empty ex_in_conv)
  with t [of "[]"] show ?thesis by (intro exI [of _ ?e]) (simp add: c count_of_def dget_default_def)
qed

text \<open>The waits between failing attempts.\<close>

definition wait_after :: "WebSocketConfig \<Rightarrow> nat \<Rightarrow> time" where
  "wait_after f attempt = min (wf_reconnect_interval f * 2 ^ attempt) 60"

lemma reconnect_all_fail:
  assumes "wc_running c" "\<not> wc_connected c" "\<forall>t \<in> set env. \<not> fst t"
    and "nat (wf_max_reconnect_attempts (wc_config c) - int (wc_attempts c)) = n" "n \<le> length env"
  shows "\<exists>d. reconnect_loop env c =
      (map (wait_after (wc_config c)) [wc_attempts c + 1..<wc_attempts c + 1 + n], GaveUp, d) \<and>
    \<not> wc_running d \<and> ws_book d = ws_book c"
  using assms
proof (induction n arbitrary: env c)
  case 0
  then show ?case by (intro exI [of _ "c\<lparr>wc_running := False\<rparr>"]) (simp add: reconnect_loop_done)
next
  case (Suc n)
  then obtain oks env' where env: "env = (False, oks) # env'" by (cases env) auto
  have less: "int (wc_attempts c) < wf_max_reconnect_attempts (wc_config c)" using Suc.prems(4) by linarith
  have con: "ws_connect False (next_attempt c) = (True, (next_attempt c)\<lparr>wc_socket := False\<rparr>)"
    using Suc.prems(2) by (simp add: ws_connect_def)
  let ?d = "dropped ((next_attempt c)\<lparr>wc_socket := False\<rparr>)"
  have "nat (wf_max_reconnect_attempts (wc_config ?d) - int (wc_attempts ?d)) = n"
    using Suc.prems(4) by simp
  from Suc.IH [OF _ _ _ this, of env'] Suc.prems env obtain d where
    "reconnect_loop env' ?d =
      (map (wait_after (wc_config c)) [wc_attempts c + 2..<wc_attempts c + 2 + n], GaveUp, d)"
    "\<not> wc_running d" "ws_book d = ws_book c"
    by (auto simp: ws_book_def)
  with reconnect_loop_turn(2) [OF Suc.prems(1) less con, of oks env'] show ?case
    by (simp add: env upt_conv_Cons reconnect_wait_def wait_after_def del: upt_Suc)
qed

text \<open>
  When every connect fails, \<open>_handle_disconnect\<close> makes exactly the attempts left, waits
  before each the doubled interval capped at a minute, stops running and keeps the
  subscriptions.
\<close>

theorem reconnect_gives_up:
  assumes "wc_running c" "\<forall>t \<in> set env. \<not> fst t"
    and "nat (wf_max_reconnect_attempts (wc_config c) - int (wc_attempts c)) = n" "n \<le> length env"
  shows "\<exists>d. handle_disconnect env c =
      (map (wait_after (wc_config c)) [wc_attempts c + 1..<wc_attempts c + 1 + n], GaveUp, d) \<and>
    \<not> wc_running d \<and> wc_subs d = wc_subs c"
  using reconnect_all_fail [of "dropped c" env n] assms
  by (auto simp: handle_disconnect_def dropped_def ws_book_def)

theorem reconnect_gives_up_witness:
  "\<exists>f d. handle_disconnect [(False, []), (False, [])]
      ((ws_new f ''c'')\<lparr>wc_running := True\<rparr>) = ([10, 20], GaveUp, d)"
proof -
  let ?f = "\<lparr>wf_scheme = ''wss'', wf_netloc = ''x'', wf_exchange_name = ''OKX'', wf_max_connections = 5,
    wf_heartbeat_interval = 30, wf_reconnect_interval = 5, wf_max_reconnect_attempts = 2,
    wf_message_queue_size = 100, wf_subscription_limits = []\<rparr>"
  have "\<exists>d. handle_disconnect [(False, []), (False, [])] ((ws_new ?f ''c'')\<lparr>wc_running := True\<rparr>) =
      (map (wait_after ?f) [1..<3], GaveUp, d) \<and> \<not> wc_running d \<and> wc_subs d = []"
    using reconnect_gives_up [of "(ws_new ?f ''c'')\<lparr>wc_running := True\<rparr>" "[(False, []), (False, [])]" 2]
    by (simp add: ws_new_def numeral_eq_Suc)
  moreover have "map (wait_after ?f) [1..<3] = [10, 20]"
    by (simp add: wait_after_def upt_rec)
  ultimately show ?thesis by metis
qed

section \<open>A server that accepts and drops\<close>

lemma spinning_loop:
  "wc_running c \<Longrightarrow> \<not> wc_socket c \<Longrightarrow> process_loop fuel msgs c = None"
  by (induction fuel) auto

lemma flapping_loop:
  assumes "wc_running c" "\<not> wc_connected c" "wc_subs c \<noteq> []"
    and "int (wc_attempts c) < wf_max_reconnect_attempts (wc_config c)"
  shows "\<exists>d. reconnect_loop (replicate (Suc n) (True, [])) c =
      (reconnect_wait (next_attempt c) # replicate n (wait_after (wc_config c) 1), StillTrying, d) \<and>
    wc_running d \<and> \<not> wc_socket d \<and> ws_book d = ws_book c"
  using assms
proof (induction n arbitrary: c)
  case (0 c)
  let ?c2 = "(next_attempt c)\<lparr>wc_socket := True, wc_connected := True, wc_running := True, wc_attempts := 0\<rparr>"
  have con: "ws_connect True (next_attempt c) = (False, ?c2)" using 0 by (simp add: ws_connect_def)
  obtain s ss where subs: "dvalues (wc_subs c) = s # ss" using 0 by (cases "wc_subs c") (auto simp: dvalues_def)
  have res: "restore_subscriptions [] (dvalues (wc_subs ?c2)) ?c2 = (True, ?c2)"
    by (simp add: subs send_message_def)
  have d: "wc_running (dropped ?c2)" "int (wc_attempts (dropped ?c2)) < wf_max_reconnect_attempts (wc_config (dropped ?c2))"
    using 0 by simp_all
  show ?case
    using reconnect_loop_turn(3) [OF 0(1,4) con res, of "[]"] reconnect_loop_turn(1) [OF d]
    by (simp add: ws_book_def)
next
  case (Suc n c)
  let ?c2 = "(next_attempt c)\<lparr>wc_socket := True, wc_connected := True, wc_running := True, wc_attempts := 0\<rparr>"
  have con: "ws_connect True (next_attempt c) = (False, ?c2)" using Suc.prems by (simp add: ws_connect_def)
  obtain s ss where subs: "dvalues (wc_subs c) = s # ss"
    using Suc.prems by (cases "wc_subs c") (auto simp: dvalues_def)
  have res: "restore_subscriptions [] (dvalues (wc_subs ?c2)) ?c2 = (True, ?c2)"
    by (simp add: subs send_message_def)
  have pre: "wc_running (dropped ?c2)" "\<not> wc_connected (dropped ?c2)" "wc_subs (dropped ?c2) \<noteq> []"
    "int (wc_attempts (dropped ?c2)) < wf_max_reconnect_attempts (wc_config (dropped ?c2))"
    using Suc.prems by simp_all
  have w: "reconnect_wait (next_attempt (dropped ?c2)) = wait_after (wc_config c) 1"
    by (simp add: reconnect_wait_def wait_after_def)
  from Suc.IH [OF pre] obtain d where
    "reconnect_loop (replicate (Suc n) (True, [])) (dropped ?c2) =
      (wait_after (wc_config c) 1 # replicate n (wait_after (wc_config c) 1), StillTrying, d)"
    "wc_running d" "\<not> wc_socket d" "ws_book d = ws_book c"
    unfolding w by (auto simp: ws_book_def)
  with reconnect_loop_turn(3) [OF Suc.prems(1,4) con res, of "replicate (Suc n) (True, [])"] show ?case
    by (simp add: replicate_Suc [symmetric] del: replicate_Suc)
qed

text \<open>
  A server that accepts the connection and then refuses the first subscription is never
  given up on: \<open>connect\<close> resets the attempt counter before the subscriptions are restored,
  so after any number of rounds the loop goes on, waiting no longer than twice the interval
  from the second round on, however small the configured maximum is. And after each such
  round the connection is running without a socket, in which state the message task that
  \<open>connect\<close> started spins: no number of turns ends it or takes a message.
\<close>

theorem flapping_server_never_given_up:
  assumes "wc_running c" "wc_subs c \<noteq> []"
    and "int (wc_attempts c) < wf_max_reconnect_attempts (wc_config c)"
  shows "\<exists>d. handle_disconnect (replicate (Suc n) (True, [])) c =
      (wait_after (wc_config c) (wc_attempts c + 1) # replicate n (wait_after (wc_config c) 1), StillTrying, d) \<and>
    (\<forall>fuel msgs. process_loop fuel msgs d = None)"
proof -
  have "reconnect_wait (next_attempt (dropped c)) = wait_after (wc_config c) (wc_attempts c + 1)"
    by (simp add: reconnect_wait_def wait_after_def)
  with flapping_loop [of "dropped c" n] assms show ?thesis
    by (auto simp: handle_disconnect_def dropped_def [symmetric] spinning_loop)
qed

theorem flapping_server_never_given_up_witness:
  "\<exists>c d. wf_max_reconnect_attempts (wc_config c) = 1 \<and>
     snd (handle_disconnect (replicate 100 (True, [])) c) = (StillTrying, d)"
proof -
  let ?f = "\<lparr>wf_scheme = ''wss'', wf_netloc = ''x'', wf_exchange_name = ''OKX'', wf_max_connections = 5,
    wf_heartbeat_interval = 30, wf_reconnect_interval = 5, wf_max_reconnect_attempts = 1,
    wf_message_queue_size = 100, wf_subscription_limits = []\<rparr>"
  let ?s = "\<lparr>sb_id = ''s'', sb_topic = ''ticker'', sb_symbol = ''BTC'', sb_params = PDict [], sb_callback = None\<rparr>"
  let ?c = "(ws_new ?f ''c'')\<lparr>wc_running := True, wc_subs := [(''s'', ?s)]\<rparr>"
  have "\<exists>d. handle_disconnect (replicate (Suc 99) (True, [])) ?c =
      (wait_after (wc_config ?c) (wc_attempts ?c + 1) # replicate 99 (wait_after (wc_config ?c) 1), StillTrying, d) \<and>
    (\<forall>fuel msgs. process_loop fuel msgs d = None)"
    by (rule flapping_server_never_given_up) (simp_all add: ws_new_def)
  then obtain d where "snd (handle_disconnect (replicate (Suc 99) (True, [])) ?c) = (StillTrying, d)" by auto
  then show ?thesis by (intro exI [of _ ?c] exI [of _ d]) (simp add: ws_new_def)
qed

section \<open>Messages and callbacks\<close>

lemma upper_lower_char: "upper_char (lower_char c) = upper_char c"
proof -
  consider "65 \<le> (of_char c :: nat) \<and> (of_char c :: nat) \<le> 90" | "\<not> (65 \<le> (of_char c :: nat) \<and> (of_char c :: nat) \<le> 90)"
    by blast
  then show ?thesis
  proof cases
    case 1
    then have "(of_char (char_of ((of_char c :: nat) + 32) :: char) :: nat) = of_char c + 32" by simp
    with 1 show ?thesis by (simp add: upper_char_def lower_char_def Let_def)
  next
    case 2
    then have "lower_char c = c" by (auto simp: lower_char_def Let_def)
    then show ?thesis by simp
  qed
qed

lemma upper_lower: "py_upper (py_lower s) = py_upper s"
  by (simp add: py_upper_def py_lower_def upper_lower_char)

lemma lower_at: "CHR ''@'' \<in> set (py_lower s) \<longleftrightarrow> CHR ''@'' \<in> set s"
proof -
  have at_iff: "lower_char c = CHR ''@'' \<longleftrightarrow> c = CHR ''@''" for c
  proof (cases "65 \<le> (of_char c :: nat) \<and> (of_char c :: nat) \<le> 90")
    case True
    then have n: "(of_char (lower_char c) :: nat) = of_char c + 32" by (simp add: lower_char_def Let_def)
    have at: "(of_char CHR ''@'' :: nat) = 64" by simp
    have "lower_char c \<noteq> CHR ''@''" "c \<noteq> CHR ''@''"
      proof -
      show "lower_char c \<noteq> CHR ''@''"
      proof
        assume "lower_char c = CHR ''@''"
        then have "(of_char (lower_char c) :: nat) = 64" using at by (simp only:)
        with n True show False by linarith
      qed
      show "c \<noteq> CHR ''@''"
      proof
        assume "c = CHR ''@''"
        then have "(of_char c :: nat) = 64" using at by (simp only:)
        with True show False by linarith
      qed
    qed
    then show ?thesis by simp
  next
    case False
    then have "lower_char c = c" by (auto simp: lower_char_def Let_def)
    then show ?thesis by simp
  qed
  have "CHR ''@'' \<in> lower_char ` set s \<longleftrightarrow> CHR ''@'' \<in> set s"
    using at_iff by (metis (no_types) imageE imageI)
  then show ?thesis by (simp only: py_lower_def set_map)
qed

text \<open>
  On a Binance connection the stream named in a subscription message comes back to its
  subscriber: a data message of that stream runs, in the order of subscribing, the callbacks
  of exactly the subscriptions with the topic and the symbol in upper case, if neither has
  an at sign. For a topic with one, such as \<open>depth@100ms\<close>, no callback is ever run.
\<close>

theorem binance_stream_roundtrip:
  assumes "prefix ''BINANCE'' (ws_exchange c)" "CHR ''@'' \<notin> set symbol" "symbol \<noteq> []"
  shows "(CHR ''@'' \<notin> set topic \<longrightarrow> topic \<noteq> [] \<longrightarrow>
      handle_message (PDict [(''stream'', PStr (stream_name symbol topic)), (''data'', payload)]) c =
        Inr (List.map_filter sb_callback
          (filter (\<lambda>s. sb_topic s = topic \<and> sb_symbol s = py_upper symbol) (dvalues (wc_subs c))))) \<and>
    (CHR ''@'' \<in> set topic \<longrightarrow>
      handle_message (PDict [(''stream'', PStr (stream_name symbol topic)), (''data'', payload)]) c = Inr [])"
proof -
  have name: "stream_name symbol topic = py_lower symbol @ CHR ''@'' # topic" by (simp add: stream_name_def)
  have parts: "split_on CHR ''@'' (stream_name symbol topic) = py_lower symbol # split_on CHR ''@'' topic"
    unfolding name by (rule split_on_append) (use assms(2) lower_at in simp)
  have up: "py_upper symbol \<noteq> []" using assms(3) by (simp add: py_upper_def)
  have h: "handle_message (PDict [(''stream'', PStr (stream_name symbol topic)), (''data'', payload)]) c =
      (case split_on CHR ''@'' topic of
         [t] \<Rightarrow> Inr (if t \<noteq> [] then matching_callbacks (PStr t) (PStr (py_upper symbol)) c else [])
       | _ \<Rightarrow> Inr [])"
    using assms(1) up
    by (auto simp: handle_message_def handle_data_message_def extract_topic_symbol_def py_bind_def parts
        upper_lower split: list.split)
  show ?thesis
  proof (intro conjI impI)
    assume "CHR ''@'' \<notin> set topic" "topic \<noteq> []"
    then show "handle_message (PDict [(''stream'', PStr (stream_name symbol topic)), (''data'', payload)]) c =
        Inr (List.map_filter sb_callback
          (filter (\<lambda>s. sb_topic s = topic \<and> sb_symbol s = py_upper symbol) (dvalues (wc_subs c))))"
      unfolding h by (simp add: split_on_plain matching_callbacks_def)
  next
    assume "CHR ''@'' \<in> set topic"
    from split_on_many [OF this] obtain a b bs where "split_on CHR ''@'' topic = a # b # bs"
      by (cases "split_on CHR ''@'' topic"; cases "tl (split_on CHR ''@'' topic)") auto
    then show "handle_message (PDict [(''stream'', PStr (stream_name symbol topic)), (''data'', payload)]) c = Inr []"
      unfolding h by simp
  qed
qed

theorem binance_stream_roundtrip_witness:
  "stream_name ''BTCUSDT'' ''trade'' = ''btcusdt@trade'' \<and>
   (\<exists>c. handle_message (PDict [(''stream'', PStr (stream_name ''BTCUSDT'' ''trade'')), (''data'', PNone)]) c = Inr [7])"
proof -
  let ?f = "\<lparr>wf_scheme = ''wss'', wf_netloc = ''x'', wf_exchange_name = ''BINANCE'', wf_max_connections = 5,
    wf_heartbeat_interval = 30, wf_reconnect_interval = 5, wf_max_reconnect_attempts = 1,
    wf_message_queue_size = 100, wf_subscription_limits = []\<rparr>"
  let ?s = "\<lparr>sb_id = ''s'', sb_topic = ''trade'', sb_symbol = ''BTCUSDT'', sb_params = PDict [], sb_callback = Some 7\<rparr>"
  let ?c = "(ws_new ?f ''c'')\<lparr>wc_subs := [(''s'', ?s)]\<rparr>"
  have up: "py_upper ''BTCUSDT'' = ''BTCUSDT''" "stream_name ''BTCUSDT'' ''trade'' = ''btcusdt@trade''"
    by code_simp+
  have "prefix ''BINANCE'' (ws_exchange ?c)" by (simp add: ws_exchange_def ws_new_def)
  from binance_stream_roundtrip [OF this, of "''BTCUSDT''" "''trade''" PNone] up show ?thesis
    by (intro conjI exI [of _ ?c]) (simp_all add: ws_new_def dvalues_def List.map_filter_def)
qed

lemma handle_message_dict:
  assumes "\<forall>s. dget d ''stream'' = Some s \<longrightarrow> (\<exists>t. s = PStr t)"
    and "\<forall>a. dget d ''arg'' = Some a \<longrightarrow> (\<exists>e. a = PDict e)"
  shows "\<exists>calls. handle_message (PDict d) c = Inr calls"
proof -
  have "\<exists>r. extract_topic_symbol (ws_exchange c) (PDict d) = Inr r"
  proof (cases "prefix ''BINANCE'' (ws_exchange c)")
    case True
    show ?thesis
    proof (cases "dget d ''stream''")
      case (Some s)
      with assms(1) obtain t where "s = PStr t" by blast
      with Some True show ?thesis
        by (auto simp: extract_topic_symbol_def py_bind_def dget_Some_iff_mem split: list.split)
    qed (use True in \<open>auto simp: extract_topic_symbol_def py_bind_def dget_None_iff\<close>)
  next
    case False
    show ?thesis
    proof (cases "dget d ''arg''")
      case (Some a)
      with assms(2) obtain e where "a = PDict e" by blast
      with Some False show ?thesis
        by (auto simp: extract_topic_symbol_def py_bind_def dget_Some_iff_mem)
    qed (use False in \<open>auto simp: extract_topic_symbol_def py_bind_def dget_None_iff\<close>)
  qed
  then show ?thesis
    by (auto simp: handle_message_def handle_data_message_def py_bind_def split: prod.split)
qed

text \<open>
  A message that is a JSON object, with a string under \<open>stream\<close> and an object under
  \<open>arg\<close> if it has them, never ends the message loop. A JSON array without one of the marker
  strings does, and so does data that does not decompress: the task ends with an exception
  nobody handles, the connection still counts as connected and later messages are not
  received.
\<close>

theorem message_loop_survival:
  "(\<forall>d. (\<forall>s. dget d ''stream'' = Some s \<longrightarrow> (\<exists>t. s = PStr t)) \<longrightarrow>
        (\<forall>a. dget d ''arg'' = Some a \<longrightarrow> (\<exists>e. a = PDict e)) \<longrightarrow>
        (\<exists>calls. process_turn (Message (PDict d)) c = Handled calls)) \<and>
   (\<forall>xs. set xs \<inter> {PStr ''result'', PStr ''data'', PStr ''event''} = {} \<longrightarrow>
        process_turn (Message (PList xs)) c = TaskDies) \<and>
   (\<forall>r rs fuel. process_turn r c = TaskDies \<longrightarrow> wc_running c \<longrightarrow> wc_socket c \<longrightarrow>
        process_loop (Suc fuel) (r # rs) c = Some ([], LoopDies)) \<and>
   process_turn BrokenCompression c = TaskDies"
proof (intro conjI allI impI)
  fix d assume "\<forall>s. dget d ''stream'' = Some s \<longrightarrow> (\<exists>t. s = PStr t)"
    "\<forall>a. dget d ''arg'' = Some a \<longrightarrow> (\<exists>e. a = PDict e)"
  from handle_message_dict [OF this, of c] show "\<exists>calls. process_turn (Message (PDict d)) c = Handled calls"
    by (auto simp: process_turn_def)
next
  fix xs assume "set xs \<inter> {PStr ''result'', PStr ''data'', PStr ''event''} = {}"
  then show "process_turn (Message (PList xs)) c = TaskDies"
    by (auto simp: process_turn_def handle_message_def py_bind_def)
qed (simp_all add: process_turn_def)

theorem message_loop_survival_witness:
  "\<forall>c. process_turn (Message (PList [PInt 0, PStr ''hb''])) c = TaskDies"
  by (rule allI, rule message_loop_survival [THEN conjunct2, THEN conjunct1, rule_format]) simp

section \<open>The pools of the manager\<close>

datatype wm_op =
    AddExchange WebSocketConfig | GetConnection bool string
  | WmSubscribe bool bool time string string string nat "pyval option"
  | WmUnsubscribe bool string string | CloseAll | WmConn string nat ws_op

text \<open>\<open>WmConn\<close> is anything that happens to one connection of a pool by itself.\<close>

fun wm_step :: "WebSocketManager \<Rightarrow> wm_op \<Rightarrow> WebSocketManager" where
  "wm_step m (AddExchange f) = (if validate_config f = None then add_exchange f m else m)"
| "wm_step m (GetConnection ok e) = snd (wm_get_connection ok e m)"
| "wm_step m (WmSubscribe cok sok now e t y cb ps) = snd (wm_subscribe cok sok now e t y cb ps m)"
| "wm_step m (WmUnsubscribe ok e sid) = snd (wm_unsubscribe ok e sid m)"
| "wm_step m CloseAll = wm_close_all m"
| "wm_step m (WmConn e i x) =
     (case dget (wm_pools m) e of
        None \<Rightarrow> m
      | Some pool \<Rightarrow> m\<lparr>wm_pools := dset e (if i < length pool then pool[i := ws_step (pool ! i) x] else pool) (wm_pools m)\<rparr>)"

definition wm_ok :: "WebSocketManager \<Rightarrow> bool" where
  "wm_ok m \<longleftrightarrow>
     (\<forall>e pool. dget (wm_pools m) e = Some pool \<longrightarrow>
       (\<exists>f. dget (wm_configs m) e = Some f \<and> 0 < wf_max_connections f \<and>
            int (length pool) \<le> wf_max_connections f))"

lemma find_place_Some: "find_place P xs = Some i \<Longrightarrow> i < length xs \<and> P (xs ! i)"
  by (induction xs arbitrary: i) (auto split: if_splits)

lemma wm_get_connection_ok:
  assumes "wm_ok m" "wm_get_connection ok e m = (r, m')"
  shows "wm_ok m' \<and> (\<forall>i. r = Inr i \<longrightarrow>
    (\<exists>pool f. dget (wm_pools m') e = Some pool \<and> dget (wm_configs m') e = Some f \<and> i < length pool \<and>
       (is_available (pool ! i) \<or> int (length pool) = wf_max_connections f)))"
proof (cases "dget (wm_pools m) e")
  case None
  then show ?thesis using assms by (auto simp: wm_get_connection_def)
next
  case (Some pool)
  with assms(1) obtain f where f: "dget (wm_configs m) e = Some f" "0 < wf_max_connections f"
    "int (length pool) \<le> wf_max_connections f" by (auto simp: wm_ok_def)
  show ?thesis
  proof (cases "find_place is_available pool")
    case (Some i)
    then show ?thesis
      using assms f \<open>dget (wm_pools m) e = Some pool\<close> find_place_Some [OF Some]
      by (auto simp: wm_get_connection_def)
  next
    case None
    show ?thesis
    proof (cases "int (length pool) < wf_max_connections f")
      case True
      then show ?thesis
        using assms f Some None
        by (auto simp: wm_get_connection_def wm_ok_def ws_connect_def is_available_def ws_new_def split: if_splits)
    next
      case False
      then have "0 < length pool" "int (length pool) = wf_max_connections f" using f by linarith+
      then show ?thesis
        using assms f Some None False
        by (auto simp: wm_get_connection_def wm_ok_def Let_def)
    qed
  qed
qed

lemma wm_ok_set_pool:
  "wm_ok m \<Longrightarrow> dget (wm_pools m) e = Some pool \<Longrightarrow> length pool' = length pool \<Longrightarrow>
   wm_ok (m\<lparr>wm_pools := dset e pool' (wm_pools m)\<rparr>)"
  by (simp add: wm_ok_def)

lemma wm_ok_published [simp]: "wm_ok (m\<lparr>wm_published := ps\<rparr>) = wm_ok m"
  by (simp add: wm_ok_def)

lemma wm_subscribe_ok:
  assumes "wm_ok m" shows "wm_ok (snd (wm_subscribe cok sok now e t y cb ps m))"
proof -
  obtain r m1 where g: "wm_get_connection cok e m = (r, m1)" by fastforce
  note ok = wm_get_connection_ok [OF assms g]
  show ?thesis
  proof (cases r)
    case (Inr i)
    with ok obtain pool where p: "dget (wm_pools m1) e = Some pool" "i < length pool" by blast
    then show ?thesis using Inr g ok wm_ok_set_pool [OF _ p(1)]
      by (auto simp: wm_subscribe_def Let_def split: prod.split)
  qed (use g ok in \<open>simp add: wm_subscribe_def\<close>)
qed

lemma wm_unsubscribe_ok:
  assumes "wm_ok m" shows "wm_ok (snd (wm_unsubscribe ok e sid m))"
proof (cases "dget (wm_pools m) e")
  case (Some pool)
  then show ?thesis using assms wm_ok_set_pool [OF assms Some]
    by (auto simp: wm_unsubscribe_def Let_def split: prod.split option.split)
qed (use assms in \<open>simp add: wm_unsubscribe_def\<close>)

lemma dget_map_snd: "dget (map (\<lambda>(k, v). (k, f v)) d) k = map_option f (dget d k)"
  by (induction d) auto

interpretation wm: op_system wm_new wm_step wm_ok
proof
  show "wm_ok wm_new" by (simp add: wm_ok_def wm_new_def)
  fix m x assume ok: "wm_ok m"
  show "wm_ok (wm_step m x)"
  proof (cases x)
    case (AddExchange f)
    then show ?thesis using ok by (auto simp: wm_ok_def add_exchange_def validate_config_def)
  next
    case (GetConnection b e)
    then show ?thesis using wm_get_connection_ok [OF ok, of b e] by (metis prod.collapse wm_step.simps(2))
  next
    case CloseAll
    then show ?thesis using ok by (fastforce simp: wm_ok_def wm_close_all_def dget_map_snd)
  next
    case (WmConn e i y)
    then show ?thesis using ok wm_ok_set_pool [OF ok] by (auto split: option.split)
  qed (use ok in \<open>simp_all add: wm_subscribe_ok wm_unsubscribe_ok\<close>)
qed

text \<open>
  After any calls of the manager and any events on its connections, no pool has more
  connections than its exchange allows, and a connection the manager hands out is one of the
  pool, connected and with fewer than 50 subscriptions unless the pool is full. In a full
  pool it may be disconnected.
\<close>

theorem pool_bounds:
  assumes "m = foldl wm_step wm_new ops" "wm_get_connection ok e m = (Inr i, m')"
  shows "\<exists>pool f. dget (wm_pools m') e = Some pool \<and> dget (wm_configs m') e = Some f \<and> i < length pool \<and>
    int (length pool) \<le> wf_max_connections f \<and>
    (wc_connected (pool ! i) \<and> length (wc_subs (pool ! i)) < 50 \<or> int (length pool) = wf_max_connections f)"
proof -
  have "wm_ok m" unfolding assms(1) by (rule wm.reach_inv)
  from wm_get_connection_ok [OF this assms(2)] obtain pool f where
    *: "wm_ok m'" "dget (wm_pools m') e = Some pool" "dget (wm_configs m') e = Some f" "i < length pool"
      "is_available (pool ! i) \<or> int (length pool) = wf_max_connections f" by blast
  then have "int (length pool) \<le> wf_max_connections f" unfolding wm_ok_def by (metis option.inject)
  with * show ?thesis by (auto simp: is_available_def)
qed

theorem pool_bounds_witness:
  "\<exists>f m'. wm_get_connection True ''OKX'' (foldl wm_step wm_new [AddExchange f]) = (Inr 0, m') \<and>
     (\<exists>pool. dget (wm_pools m') ''OKX'' = Some pool \<and> int (length pool) \<le> 5)"
proof -
  let ?f = "\<lparr>wf_scheme = ''wss'', wf_netloc = ''x'', wf_exchange_name = ''OKX'', wf_max_connections = 5,
    wf_heartbeat_interval = 30, wf_reconnect_interval = 5, wf_max_reconnect_attempts = 1,
    wf_message_queue_size = 100, wf_subscription_limits = []\<rparr>"
  let ?m = "foldl wm_step wm_new [AddExchange ?f]"
  have v: "validate_config ?f = None"
    by (simp add: validate_config_def py_strip_def py_space_def)
  have r: "fst (wm_get_connection True ''OKX'' ?m) = Inr 0"
    by (simp add: v add_exchange_def wm_new_def wm_get_connection_def ws_connect_def ws_new_def)
  then obtain m' where m': "wm_get_connection True ''OKX'' ?m = (Inr 0, m')" by (metis prod.collapse)
  from pool_bounds [OF refl this] m' obtain pool f where p: "dget (wm_pools m') ''OKX'' = Some pool"
    "dget (wm_configs m') ''OKX'' = Some f" "int (length pool) \<le> wf_max_connections f" by auto
  have "wm_configs m' = wm_configs ?m"
    using m' by (auto simp: wm_get_connection_def Let_def split: option.splits prod.splits if_splits bool.splits)
  then have "f = ?f" using p(2) by (simp add: v add_exchange_def wm_new_def)
  with p m' show ?thesis by (intro exI [of _ ?f] exI [of _ m']) auto
qed

end
