(* ===== verification/EventBus.thy ===== *)
theory EventBus
  imports Exceptions "HOL-Library.Sublist"
begin

text \<open>
  Model of \<open>src/bt_api_base/event_bus.py\<close>. A handler is a number, and what a call of it does
  is a parameter: it may change the bus in any way (subscribe, unsubscribe, emit) and may
  raise. Non-empty event names and callable handlers are as the code demands; the text of a
  log record is not modelled, its level is.
\<close>

datatype ErrorHandlerMode = LOG | RAISE | COLLECT

datatype ErrorSeverity = USER_ERROR | BUSINESS_ERROR | SYSTEM_ERROR

datatype bus_exc = ApiExc exc_class | PyExc pyerr

definition classify_error :: "bus_exc \<Rightarrow> ErrorSeverity" where
  "classify_error e =
     (case e of
        ApiExc c \<Rightarrow> if isinstance c [BtApiError] then BUSINESS_ERROR else SYSTEM_ERROR
      | PyExc p \<Rightarrow>
          if p \<in> {TypeError, ValueError, AttributeError, KeyError} then USER_ERROR
          else SYSTEM_ERROR)"

record EventBus =
  eb_handlers :: "(string, nat list) dict"
  eb_mode :: ErrorHandlerMode
  eb_last_errors :: "(string \<times> nat \<times> bus_exc) list"
  eb_log :: "ErrorSeverity list"

definition eb_new :: "ErrorHandlerMode \<Rightarrow> EventBus" where
  "eb_new mode = \<lparr>eb_handlers = [], eb_mode = mode, eb_last_errors = [], eb_log = []\<rparr>"

definition handlers_of :: "EventBus \<Rightarrow> string \<Rightarrow> nat list" where
  "handlers_of b ev = dget_default (eb_handlers b) ev []"

definition eb_on :: "string \<Rightarrow> nat \<Rightarrow> EventBus \<Rightarrow> EventBus py" where
  "eb_on ev h b =
     (if ev = [] then Inl ValueError
      else let hs = handlers_of b ev
           in Inr (b\<lparr>eb_handlers := dset ev (if h \<in> set hs then hs else hs @ [h]) (eb_handlers b)\<rparr>))"

definition eb_off :: "string \<Rightarrow> nat option \<Rightarrow> EventBus \<Rightarrow> EventBus" where
  "eb_off ev h b =
     (case h of
        None \<Rightarrow> b\<lparr>eb_handlers := dpop ev (eb_handlers b)\<rparr>
      | Some h \<Rightarrow>
          (case dget (eb_handlers b) ev of
             None \<Rightarrow> b
           | Some hs \<Rightarrow> b\<lparr>eb_handlers := dset ev (remove1 h hs) (eb_handlers b)\<rparr>))"

text \<open>
  The loop over the snapshot of handlers: the handlers called, the errors collected, the
  error that leaves \<open>emit\<close> (in \<open>RAISE\<close> mode), and the bus.
\<close>

fun run_handlers ::
    "(nat \<Rightarrow> EventBus \<Rightarrow> bus_exc option \<times> EventBus) \<Rightarrow> string \<Rightarrow> nat list \<Rightarrow> EventBus
     \<Rightarrow> nat list \<times> bus_exc list \<times> bus_exc option \<times> EventBus" where
  "run_handlers call ev [] b = ([], [], None, b)"
| "run_handlers call ev (h # hs) b =
     (case call h b of
        (None, b1) \<Rightarrow>
          (case run_handlers call ev hs b1 of (calls, errs, raised, b2) \<Rightarrow> (h # calls, errs, raised, b2))
      | (Some e, b1) \<Rightarrow>
          (let b2 = b1\<lparr>eb_last_errors := eb_last_errors b1 @ [(ev, h, e)]\<rparr>
           in if eb_mode b2 = RAISE then ([h], [e], Some e, b2)
              else case run_handlers call ev hs (b2\<lparr>eb_log := eb_log b2 @ [classify_error e]\<rparr>) of
                (calls, errs, raised, b3) \<Rightarrow> (h # calls, e # errs, raised, b3)))"

definition eb_emit ::
    "(nat \<Rightarrow> EventBus \<Rightarrow> bus_exc option \<times> EventBus) \<Rightarrow> string \<Rightarrow> EventBus
     \<Rightarrow> nat list \<times> bus_exc list \<times> bus_exc option \<times> EventBus" where
  "eb_emit call ev b = run_handlers call ev (handlers_of b ev) (b\<lparr>eb_last_errors := []\<rparr>)"

definition get_last_errors :: "EventBus \<Rightarrow> (string \<times> nat \<times> bus_exc) list" where
  "get_last_errors b = eb_last_errors b"

definition clear_errors :: "EventBus \<Rightarrow> EventBus" where
  "clear_errors b = b\<lparr>eb_last_errors := []\<rparr>"

definition has_handlers :: "EventBus \<Rightarrow> string \<Rightarrow> bool" where
  "has_handlers b ev \<longleftrightarrow> 0 < length (handlers_of b ev)"

definition eb_clear :: "EventBus \<Rightarrow> EventBus" where
  "eb_clear b = b\<lparr>eb_handlers := [], eb_last_errors := []\<rparr>"

section \<open>Handlers are registered once\<close>

datatype eb_op = EbOn string nat | EbOff string "nat option" | EbClearErrors | EbClear

fun eb_step :: "EventBus \<Rightarrow> eb_op \<Rightarrow> EventBus" where
  "eb_step b (EbOn ev h) = (case eb_on ev h b of Inl e \<Rightarrow> b | Inr b' \<Rightarrow> b')"
| "eb_step b (EbOff ev h) = eb_off ev h b"
| "eb_step b EbClearErrors = clear_errors b"
| "eb_step b EbClear = eb_clear b"

definition eb_ok :: "EventBus \<Rightarrow> bool" where
  "eb_ok b \<longleftrightarrow> (\<forall>ev. distinct (handlers_of b ev)) \<and> handlers_of b [] = []"

interpretation eb: op_system "eb_new mode" eb_step eb_ok for mode
proof
  show "eb_ok (eb_new mode)" by (simp add: eb_ok_def eb_new_def handlers_of_def dget_default_def)
  fix b x assume ok: "eb_ok b"
  show "eb_ok (eb_step b x)"
  proof (cases x)
    case (EbOn ev h)
    then show ?thesis using ok
      by (auto simp: eb_ok_def eb_on_def handlers_of_def dget_default_def Let_def split: option.splits)
  next
    case (EbOff ev h)
    then show ?thesis using ok
      by (auto simp: eb_ok_def eb_off_def handlers_of_def dget_default_def split: option.splits)
  qed (use ok in \<open>auto simp: eb_ok_def clear_errors_def eb_clear_def handlers_of_def dget_default_def\<close>)
qed

section \<open>Emitting\<close>

text \<open>The handlers a registration history leaves, in the order the last \<open>on\<close> of each came.\<close>

fun registered :: "string \<Rightarrow> nat list \<Rightarrow> eb_op list \<Rightarrow> nat list" where
  "registered ev hs [] = hs"
| "registered ev hs (EbOn e h # xs) =
     registered ev (if e = ev \<and> ev \<noteq> [] \<and> h \<notin> set hs then hs @ [h] else hs) xs"
| "registered ev hs (EbOff e (Some h) # xs) = registered ev (if e = ev then filter (\<lambda>x. x \<noteq> h) hs else hs) xs"
| "registered ev hs (EbOff e None # xs) = registered ev (if e = ev then [] else hs) xs"
| "registered ev hs (EbClearErrors # xs) = registered ev hs xs"
| "registered ev hs (EbClear # xs) = registered ev [] xs"

lemma handlers_of_run: "eb_ok b \<Longrightarrow> handlers_of (foldl eb_step b xs) ev = registered ev (handlers_of b ev) xs"
proof (induction xs arbitrary: b)
  case (Cons x xs)
  have "eb_ok (eb_step b x)" by (rule eb.step_inv [OF Cons.prems])
  note IH = Cons.IH [OF this]
  have d: "distinct (handlers_of b ev)" for ev using Cons.prems by (simp add: eb_ok_def)
  show ?case
  proof (cases x)
    case (EbOn e h)
    then have "handlers_of (eb_step b x) ev =
        (if e = ev \<and> ev \<noteq> [] \<and> h \<notin> set (handlers_of b ev) then handlers_of b ev @ [h] else handlers_of b ev)"
      by (auto simp: eb_on_def handlers_of_def dget_default_def Let_def split: option.splits)
    with IH EbOn show ?thesis by simp
  next
    case (EbOff e h)
    show ?thesis
    proof (cases h)
      case None
      have "handlers_of (eb_step b x) ev = (if e = ev then [] else handlers_of b ev)"
        by (simp add: EbOff None eb_off_def handlers_of_def dget_default_def)
      with IH show ?thesis by (simp add: EbOff None)
    next
      case (Some g)
      have "handlers_of (eb_step b x) ev =
          (if e = ev then filter (\<lambda>x. x \<noteq> g) (handlers_of b ev) else handlers_of b ev)"
        using distinct_remove1_removeAll [OF d [of ev], of g]
        by (auto simp: EbOff Some eb_off_def handlers_of_def dget_default_def removeAll_filter_not_eq
            split: option.splits intro!: filter_cong)
      with IH show ?thesis by (simp add: EbOff Some)
    qed
  qed (use IH in \<open>simp_all add: clear_errors_def eb_clear_def handlers_of_def dget_default_def\<close>)
qed simp

text \<open>What one handler raises depends on the bus it finds.\<close>

lemma run_handlers_calls:
  "run_handlers call ev hs b = (calls, errs, raised, b') \<Longrightarrow>
   prefix calls hs \<and> (raised = None \<longrightarrow> calls = hs) \<and>
   (raised \<noteq> None \<longrightarrow> errs \<noteq> [] \<and> raised = Some (last errs)) \<and> length errs \<le> length calls"
proof (induction hs arbitrary: b calls errs raised b')
  case (Cons h hs)
  obtain r b1 where c: "call h b = (r, b1)" by fastforce
  show ?case
  proof (cases r)
    case None
    obtain cs es ra b2 where rest: "run_handlers call ev hs b1 = (cs, es, ra, b2)" by (metis prod_cases4)
    from Cons.IH [OF rest] Cons.prems c None rest show ?thesis by auto
  next
    case (Some e)
    let ?b2 = "b1\<lparr>eb_last_errors := eb_last_errors b1 @ [(ev, h, e)], eb_log := eb_log b1 @ [classify_error e]\<rparr>"
    obtain cs es ra b2 where rest: "run_handlers call ev hs ?b2 = (cs, es, ra, b2)" by (metis prod_cases4)
    from Cons.IH [OF rest] Cons.prems c Some rest show ?thesis
      by (cases "eb_mode b1 = RAISE") (auto simp: Let_def)
  qed
qed auto

lemma run_handlers_mode:
  assumes "\<forall>h b. eb_mode (snd (call h b)) = eb_mode b"
  shows "run_handlers call ev hs b = (calls, errs, raised, b') \<Longrightarrow>
    (eb_mode b \<noteq> RAISE \<longrightarrow> raised = None) \<and> (eb_mode b = RAISE \<longrightarrow> raised = None \<longrightarrow> errs = []) \<and>
    (eb_mode b = RAISE \<longrightarrow> length errs \<le> 1)"
proof (induction hs arbitrary: b calls errs raised b')
  case (Cons h hs)
  obtain r b1 where c: "call h b = (r, b1)" by fastforce
  have m: "eb_mode b1 = eb_mode b" using assms [rule_format, of h b] c by simp
  show ?case
  proof (cases r)
    case None
    obtain cs es ra b2 where rest: "run_handlers call ev hs b1 = (cs, es, ra, b2)" by (metis prod_cases4)
    from Cons.IH [OF rest] Cons.prems c None rest m show ?thesis by auto
  next
    case (Some e)
    let ?b2 = "b1\<lparr>eb_last_errors := eb_last_errors b1 @ [(ev, h, e)], eb_log := eb_log b1 @ [classify_error e]\<rparr>"
    obtain cs es ra b2 where rest: "run_handlers call ev hs ?b2 = (cs, es, ra, b2)" by (metis prod_cases4)
    from Cons.IH [OF rest] Cons.prems c Some rest m show ?thesis
      by (cases "eb_mode b = RAISE") (auto simp: Let_def)
  qed
qed simp

text \<open>
  An emit on a bus with any registration history calls handlers of the event that are
  registered at its start, in the order they were registered and none twice, whatever the
  handlers do to the bus meanwhile. If they leave the mode alone, every one of them is called
  unless the mode is \<open>RAISE\<close>, and in that mode \<open>emit\<close> stops at the first failure and raises it.
\<close>

theorem emit_calls_snapshot:
  assumes "b = foldl eb_step (eb_new mode) ops" "eb_emit call ev b = (calls, errs, raised, b')"
    and "\<forall>h b. eb_mode (snd (call h b)) = eb_mode b"
  shows "distinct calls \<and> prefix calls (registered ev [] ops) \<and>
    (raised = None \<longrightarrow> calls = registered ev [] ops) \<and>
    (eb_mode b \<noteq> RAISE \<longrightarrow> raised = None) \<and>
    (eb_mode b = RAISE \<longrightarrow> (case raised of None \<Rightarrow> errs = [] | Some e \<Rightarrow> errs = [e]))"
proof -
  have ok: "eb_ok b" unfolding assms(1) by (rule eb.reach_inv)
  have hs: "handlers_of b ev = registered ev [] ops"
    unfolding assms(1) using handlers_of_run [of "eb_new mode" ops ev] eb.start_inv [of mode]
    by (simp add: eb_new_def handlers_of_def dget_default_def)
  have d: "distinct (registered ev [] ops)" using ok unfolding eb_ok_def hs [symmetric] by blast
  have r: "run_handlers call ev (registered ev [] ops) (b\<lparr>eb_last_errors := []\<rparr>) = (calls, errs, raised, b')"
    using assms(2) by (simp add: eb_emit_def hs)
  note c = run_handlers_calls [OF r] and m = run_handlers_mode [OF assms(3) r]
  have "distinct calls" using c d by (metis distinct_append prefix_def)
  moreover have "errs = [e]" if "raised = Some e" "eb_mode b = RAISE" for e
  proof -
    have "length errs \<le> 1" "errs \<noteq> []" "last errs = e" using c m that by simp_all
    then show ?thesis by (cases errs) auto
  qed
  ultimately show ?thesis using c m by (auto split: option.split)
qed

theorem emit_calls_snapshot_witness:
  "registered ''tick'' [] [EbOn ''tick'' 1, EbOn ''tick'' 2, EbOn ''tick'' 1] = [1, 2] \<and>
   fst (eb_emit (\<lambda>h b. (None, b)) ''tick''
     (foldl eb_step (eb_new LOG) [EbOn ''tick'' 1, EbOn ''tick'' 2, EbOn ''tick'' 1])) = [1, 2]"
proof -
  let ?ops = "[EbOn ''tick'' 1, EbOn ''tick'' 2, EbOn ''tick'' 1]"
  let ?b = "foldl eb_step (eb_new LOG) ?ops"
  have mode: "eb_mode ?b = LOG" by (simp add: eb_new_def eb_on_def Let_def)
  obtain calls errs raised b' where e: "eb_emit (\<lambda>h b. (None, b)) ''tick'' ?b = (calls, errs, raised, b')"
    by (metis prod_cases4)
  from emit_calls_snapshot [OF refl e] mode have "calls = registered ''tick'' [] ?ops" by simp
  then show ?thesis using e by (simp only: fst_conv) simp
qed

text \<open>
  \<open>get_last_errors\<close> is one list for the bus: a handler that emits another event empties it, so
  the error of an earlier handler of the outer event is lost there.
\<close>

definition nested_call :: "nat \<Rightarrow> EventBus \<Rightarrow> bus_exc option \<times> EventBus" where
  "nested_call h b =
     (if h = 1 then (Some (PyExc ValueError), b)
      else (None, snd (snd (snd (eb_emit (\<lambda>h b. (None, b)) ''inner'' b)))))"

lemma nested_emit_loses_errors:
  "let b = foldl eb_step (eb_new COLLECT) [EbOn ''outer'' 1, EbOn ''outer'' 2];
       (calls, errs, raised, b') = eb_emit nested_call ''outer'' b
   in errs = [PyExc ValueError] \<and> get_last_errors b' = []"
  by (simp add: eb_new_def eb_on_def eb_emit_def handlers_of_def dget_default_def nested_call_def
      get_last_errors_def Let_def)

end
