(* ===== verification/Instruments.thy ===== *)
theory Instruments
  imports Transport
begin

text \<open>
  Model of \<open>src/bt_api_base/instrument_manager.py\<close> and \<open>src/bt_api_base/containers/instrument.py\<close>:
  instruments, the factory that makes their internal symbols, and the manager with its three
  indexes. Fields that the code only carries along (currencies, sizes, option data) are one
  payload. \<open>now\<close> is \<open>datetime.now()\<close>.
\<close>

section \<open>Instruments\<close>

datatype AssetType = SPOT | SWAP | FUTURE | OPTION | STK | FUND | BOND | FX | INDEX

record Instrument =
  in_internal :: string
  in_venue :: string
  in_venue_symbol :: string
  in_asset_type :: AssetType
  in_underlying :: "string option"
  in_expiry :: "time option"
  in_status :: string
  in_delist_time :: "time option"
  in_payload :: pyval

definition is_expired :: "time \<Rightarrow> Instrument \<Rightarrow> bool" where
  "is_expired now i = (case in_expiry i of None \<Rightarrow> False | Some t \<Rightarrow> t < now)"

definition is_listed :: "time \<Rightarrow> Instrument \<Rightarrow> bool" where
  "is_listed now i =
     (if in_status i \<noteq> ''active'' then False
      else \<not> (case in_delist_time i of None \<Rightarrow> False | Some t \<Rightarrow> t < now))"

definition known_quotes :: "string list" where
  "known_quotes =
     [''USDT'', ''USDC'', ''BUSD'', ''TUSD'', ''FDUSD'', ''USD'', ''BTC'', ''ETH'', ''BNB'', ''EUR'',
      ''GBP'', ''AUD'', ''TRY'', ''BRL'']"

definition make_internal :: "string \<Rightarrow> string \<Rightarrow> AssetType \<Rightarrow> string" where
  "make_internal venue venue_symbol asset_type =
     (case List.find (\<lambda>sep. sep \<in> set venue_symbol) [CHR ''-'', CHR ''/'', CHR ''_'', CHR ''.''] of
        Some sep \<Rightarrow> join_on CHR ''-'' (split_on sep venue_symbol)
      | None \<Rightarrow>
          (let upper = py_upper venue_symbol
           in case List.find (\<lambda>quote. suffix quote upper \<and> length quote < length upper) known_quotes of
                Some quote \<Rightarrow> take (length upper - length quote) upper @ ''-'' @ quote
              | None \<Rightarrow> venue_symbol))"

definition from_venue :: "string \<Rightarrow> string \<Rightarrow> AssetType \<Rightarrow> Instrument" where
  "from_venue venue venue_symbol asset_type =
     \<lparr>in_internal = make_internal venue venue_symbol asset_type, in_venue = venue,
      in_venue_symbol = venue_symbol, in_asset_type = asset_type, in_underlying = None,
      in_expiry = None, in_status = ''active'', in_delist_time = None, in_payload = PDict []\<rparr>"

section \<open>\<open>InstrumentManager\<close>\<close>

record InstrumentManager =
  im_instruments :: "(string, Instrument) dict"
  im_by_venue :: "(string, (string, Instrument) dict) dict"
  im_by_underlying :: "(string, Instrument list) dict"

definition im_new :: InstrumentManager where
  "im_new = \<lparr>im_instruments = [], im_by_venue = [], im_by_underlying = []\<rparr>"

definition forget_venue :: "Instrument \<Rightarrow> InstrumentManager \<Rightarrow> InstrumentManager" where
  "forget_venue previous m =
     (case dget (im_by_venue m) (in_venue previous) of
        None \<Rightarrow> m
      | Some d \<Rightarrow>
          (let d' = dpop (in_venue_symbol previous) d
           in m\<lparr>im_by_venue := (if d' = [] then dpop (in_venue previous) (im_by_venue m)
                               else dset (in_venue previous) d' (im_by_venue m))\<rparr>))"

definition forget_underlying :: "Instrument \<Rightarrow> InstrumentManager \<Rightarrow> InstrumentManager" where
  "forget_underlying previous m =
     (case in_underlying previous of
        None \<Rightarrow> m
      | Some u \<Rightarrow>
          if u = [] then m
          else (case dget (im_by_underlying m) u of
                  None \<Rightarrow> m
                | Some l \<Rightarrow>
                    (let filtered = filter (\<lambda>i. in_internal i \<noteq> in_internal previous) l
                     in m\<lparr>im_by_underlying :=
                          (if filtered = [] then dpop u (im_by_underlying m)
                           else dset u filtered (im_by_underlying m))\<rparr>)))"

definition index_new :: "Instrument \<Rightarrow> InstrumentManager \<Rightarrow> InstrumentManager" where
  "index_new i m =
     (let m1 = m\<lparr>im_instruments := dset (in_internal i) i (im_instruments m),
                 im_by_venue := dset (in_venue i)
                   (dset (in_venue_symbol i) i (dget_default (im_by_venue m) (in_venue i) []))
                   (im_by_venue m)\<rparr>
      in case in_underlying i of
           None \<Rightarrow> m1
         | Some u \<Rightarrow>
             if u = [] then m1
             else m1\<lparr>im_by_underlying :=
                    dset u (dget_default (im_by_underlying m1) u [] @ [i]) (im_by_underlying m1)\<rparr>)"

definition im_register :: "Instrument \<Rightarrow> InstrumentManager \<Rightarrow> InstrumentManager" where
  "im_register i m =
     index_new i
       (case dget (im_instruments m) (in_internal i) of
          None \<Rightarrow> m
        | Some previous \<Rightarrow> forget_underlying previous (forget_venue previous m))"

definition register_many :: "Instrument list \<Rightarrow> InstrumentManager \<Rightarrow> InstrumentManager" where
  "register_many is m = foldl (\<lambda>m i. im_register i m) m is"

definition im_get :: "InstrumentManager \<Rightarrow> string \<Rightarrow> Instrument option" where
  "im_get m internal = dget (im_instruments m) internal"

definition get_by_venue :: "InstrumentManager \<Rightarrow> string \<Rightarrow> string \<Rightarrow> Instrument option" where
  "get_by_venue m venue venue_symbol = dget (dget_default (im_by_venue m) venue []) venue_symbol"

definition im_find ::
    "time \<Rightarrow> string option \<Rightarrow> string option \<Rightarrow> AssetType option \<Rightarrow> bool \<Rightarrow> InstrumentManager \<Rightarrow> Instrument list" where
  "im_find now venue underlying asset_type active_only m =
     (let r0 = dvalues (im_instruments m);
          r1 = (if truthy_str venue then filter (\<lambda>i. Some (in_venue i) = venue) r0 else r0);
          r2 = (if truthy_str underlying then filter (\<lambda>i. in_underlying i = underlying) r1 else r1);
          r3 = (case asset_type of None \<Rightarrow> r2 | Some a \<Rightarrow> filter (\<lambda>i. in_asset_type i = a) r2)
      in if active_only then filter (is_listed now) r3 else r3)"

definition to_internal :: "InstrumentManager \<Rightarrow> string \<Rightarrow> string \<Rightarrow> string option" where
  "to_internal m venue venue_symbol = map_option in_internal (get_by_venue m venue venue_symbol)"

definition to_venue_symbol :: "InstrumentManager \<Rightarrow> string \<Rightarrow> string option" where
  "to_venue_symbol m internal = map_option in_venue_symbol (im_get m internal)"

definition all_internals :: "InstrumentManager \<Rightarrow> string list" where
  "all_internals m = dkeys (im_instruments m)"

definition all_venues :: "InstrumentManager \<Rightarrow> string list" where
  "all_venues m = dkeys (im_by_venue m)"

definition im_count :: "InstrumentManager \<Rightarrow> nat" where
  "im_count m = length (im_instruments m)"

definition im_clear :: "InstrumentManager \<Rightarrow> InstrumentManager" where
  "im_clear m = m\<lparr>im_instruments := [], im_by_venue := [], im_by_underlying := []\<rparr>"

section \<open>Registering\<close>

lemma forget_simps [simp]:
  "im_instruments (forget_venue p m) = im_instruments m"
  "im_instruments (forget_underlying p m) = im_instruments m"
  "im_by_venue (forget_underlying p m) = im_by_venue m"
  by (simp_all add: forget_venue_def forget_underlying_def Let_def split: option.split)

lemma index_new_instruments [simp]:
  "im_instruments (index_new i m) = dset (in_internal i) i (im_instruments m)"
  by (simp add: index_new_def Let_def split: option.split)

lemma im_get_register: "im_get (im_register i m) k = (if k = in_internal i then Some i else im_get m k)"
  unfolding im_get_def im_register_def index_new_instruments by (simp split: option.split)

lemma get_by_venue_forget:
  "get_by_venue (forget_venue p m) v s =
     (if v = in_venue p \<and> s = in_venue_symbol p then None else get_by_venue m v s)"
proof (cases "dget (im_by_venue m) (in_venue p)")
  case None
  then show ?thesis by (simp add: get_by_venue_def forget_venue_def dget_default_def)
next
  case (Some d)
  let ?d = "dpop (in_venue_symbol p) d"
  show ?thesis
  proof (cases "?d = []")
    case True
    have "dget d s = None" if "s \<noteq> in_venue_symbol p"
      using dget_dpop [of "in_venue_symbol p" d s] that by (simp add: True)
    with Some True show ?thesis by (simp add: get_by_venue_def forget_venue_def dget_default_def)
  next
    case False
    with Some show ?thesis by (simp add: get_by_venue_def forget_venue_def dget_default_def)
  qed
qed

lemma index_new_venue [simp]:
  "im_by_venue (index_new i m) =
     dset (in_venue i) (dset (in_venue_symbol i) i (dget_default (im_by_venue m) (in_venue i) [])) (im_by_venue m)"
  by (simp add: index_new_def Let_def split: option.split)

lemma get_by_venue_index:
  "get_by_venue (index_new i m) v s =
     (if v = in_venue i \<and> s = in_venue_symbol i then Some i else get_by_venue m v s)"
  unfolding get_by_venue_def index_new_venue by (simp add: dget_default_def)

lemma get_by_venue_underlying [simp]: "get_by_venue (forget_underlying p m) = get_by_venue m"
  by (simp add: get_by_venue_def fun_eq_iff)

lemma get_by_venue_register:
  "get_by_venue (im_register i m) v s =
     (if v = in_venue i \<and> s = in_venue_symbol i then Some i
      else case im_get m (in_internal i) of
        None \<Rightarrow> get_by_venue m v s
      | Some p \<Rightarrow> if v = in_venue p \<and> s = in_venue_symbol p then None else get_by_venue m v s)"
  by (simp add: im_register_def get_by_venue_index get_by_venue_forget im_get_def split: option.split)

text \<open>Both directions of the symbol map agree on the registered instruments.\<close>

definition places_unique :: "Instrument set \<Rightarrow> bool" where
  "places_unique I \<longleftrightarrow> (\<forall>i \<in> I. \<forall>j \<in> I. in_venue i = in_venue j \<and> in_venue_symbol i = in_venue_symbol j \<longrightarrow>
     in_internal i = in_internal j)"

definition im_ok :: "Instrument set \<Rightarrow> InstrumentManager \<Rightarrow> bool" where
  "im_ok I m \<longleftrightarrow> places_unique I \<and>
     (\<forall>k i. im_get m k = Some i \<longrightarrow> in_internal i = k \<and> i \<in> I) \<and>
     (\<forall>v s i. get_by_venue m v s = Some i \<longleftrightarrow>
        im_get m (in_internal i) = Some i \<and> in_venue i = v \<and> in_venue_symbol i = s)"

lemma im_register_ok:
  assumes ok: "im_ok I m" and i: "i \<in> I"
  shows "im_ok I (im_register i m)"
  unfolding im_ok_def
proof (intro conjI allI impI)
  show u: "places_unique I" using ok by (simp add: im_ok_def)
  have keys: "im_get m k = Some j \<Longrightarrow> in_internal j = k \<and> j \<in> I" for k j using ok by (auto simp: im_ok_def)
  have idx: "get_by_venue m v s = Some j \<longleftrightarrow>
      im_get m (in_internal j) = Some j \<and> in_venue j = v \<and> in_venue_symbol j = s" for v s j
    using ok by (simp add: im_ok_def)
  fix k j assume "im_get (im_register i m) k = Some j"
  then show "in_internal j = k" "j \<in> I" using keys i by (auto simp: im_get_register split: if_splits)
next
  have u: "places_unique I" using ok by (simp add: im_ok_def)
  have keys: "im_get m k = Some j \<Longrightarrow> in_internal j = k \<and> j \<in> I" for k j using ok by (auto simp: im_ok_def)
  have idx: "get_by_venue m v s = Some j \<longleftrightarrow>
      im_get m (in_internal j) = Some j \<and> in_venue j = v \<and> in_venue_symbol j = s" for v s j
    using ok by (simp add: im_ok_def)
  fix v s j
  show "get_by_venue (im_register i m) v s = Some j \<longleftrightarrow>
      im_get (im_register i m) (in_internal j) = Some j \<and> in_venue j = v \<and> in_venue_symbol j = s"
  proof (cases "v = in_venue i \<and> s = in_venue_symbol i")
    case True
    have "in_internal j = in_internal i" if "im_get m (in_internal j) = Some j" "in_venue j = v" "in_venue_symbol j = s"
      using u i keys [OF that(1)] that True unfolding places_unique_def by metis
    with True show ?thesis by (auto simp: get_by_venue_register im_get_register)
  next
    case False
    show ?thesis
    proof (cases "im_get m (in_internal i)")
      case None
      with False idx [of v s j] show ?thesis by (auto simp: get_by_venue_register im_get_register)
    next
      case (Some p)
      have pk: "in_internal p = in_internal i" "p \<in> I" using keys [OF Some] by auto
      have "in_internal j = in_internal p"
        if "im_get m (in_internal j) = Some j" "in_venue j = in_venue p" "in_venue_symbol j = in_venue_symbol p"
        using u pk(2) keys [OF that(1)] that unfolding places_unique_def by metis
      note same = this
      show ?thesis
      proof (cases "v = in_venue p \<and> s = in_venue_symbol p")
        case True
        have "get_by_venue (im_register i m) v s = None"
          unfolding get_by_venue_register if_not_P [OF False] Some option.case if_P [OF True] ..
        moreover have "\<not> (im_get (im_register i m) (in_internal j) = Some j \<and> in_venue j = v \<and> in_venue_symbol j = s)"
          using same pk(1) False True unfolding im_get_register by (metis option.inject)
        ultimately show ?thesis by simp
      next
        case other: False
        then have "get_by_venue (im_register i m) v s = get_by_venue m v s"
          by (simp only: get_by_venue_register False Some if_False option.case)
        then show ?thesis
          using idx [of v s j] Some False other unfolding im_get_register by (metis option.inject)
      qed
    qed
  qed
qed

lemma im_new_ok: "places_unique I \<Longrightarrow> im_ok I im_new"
  by (simp add: im_ok_def im_new_def im_get_def get_by_venue_def dget_default_def)

lemma register_many_ok: "im_ok I m \<Longrightarrow> set is \<subseteq> I \<Longrightarrow> im_ok I (register_many is m)"
  unfolding register_many_def by (induction "is" arbitrary: m) (auto simp: im_register_ok)

text \<open>
  As long as no two internal symbols share a venue and venue symbol, the two directions
  of the symbol map agree after any registrations, replacements included: a venue lookup
  finds an instrument exactly if it is the one registered under its internal symbol and has
  that venue and venue symbol; the last registration of an internal symbol is found both ways.
\<close>

theorem venue_index_consistent:
  assumes "places_unique (set is)"
  shows "(get_by_venue (register_many is im_new) v s = Some i \<longleftrightarrow>
      im_get (register_many is im_new) (in_internal i) = Some i \<and> in_venue i = v \<and> in_venue_symbol i = s) \<and>
    (is \<noteq> [] \<longrightarrow> im_get (register_many is im_new) (in_internal (last is)) = Some (last is) \<and>
       to_internal (register_many is im_new) (in_venue (last is)) (in_venue_symbol (last is)) =
         Some (in_internal (last is)))"
proof -
  let ?m = "register_many is im_new"
  have ok: "im_ok (set is) ?m" by (rule register_many_ok [OF im_new_ok [OF assms]]) simp
  then have idx: "get_by_venue ?m v s = Some i \<longleftrightarrow>
      im_get ?m (in_internal i) = Some i \<and> in_venue i = v \<and> in_venue_symbol i = s" for v s i
    by (simp add: im_ok_def)
  have last: "im_get ?m (in_internal (last is)) = Some (last is)" if "is \<noteq> []"
    using that by (cases "is" rule: rev_cases) (auto simp: register_many_def im_get_register)
  with idx have "get_by_venue ?m (in_venue (last is)) (in_venue_symbol (last is)) = Some (last is)" if "is \<noteq> []"
    using that by blast
  with idx last show ?thesis by (auto simp: to_internal_def)
qed

theorem venue_index_consistent_witness:
  "places_unique {from_venue ''OKX'' ''BTC-USDT'' SPOT} \<and>
   to_internal (register_many [from_venue ''OKX'' ''BTC-USDT'' SPOT] im_new) ''OKX'' ''BTC-USDT'' =
     Some (make_internal ''OKX'' ''BTC-USDT'' SPOT)"
proof -
  have u: "places_unique (set [from_venue ''OKX'' ''BTC-USDT'' SPOT])" by (simp add: places_unique_def)
  from venue_index_consistent [OF this, of "[]" "[]" "from_venue ''OKX'' ''BTC-USDT'' SPOT"] u
  show ?thesis by (simp add: from_venue_def)
qed

text \<open>
  The factory does not put the venue into the internal symbol: the same symbol from two
  venues gets one internal symbol, and registering the second removes the first, which its
  own venue then no longer finds.
\<close>

theorem venues_replace_each_other:
  fixes v1 v2 symbol :: string and a1 a2 :: AssetType
  assumes "v1 \<noteq> v2"
  defines "m \<equiv> register_many [from_venue v1 symbol a1, from_venue v2 symbol a2] im_new"
  shows "get_by_venue m v1 symbol = None \<and> im_count m = 1 \<and>
    im_get m (make_internal v1 symbol a1) = Some (from_venue v2 symbol a2)"
proof -
  have same: "make_internal v2 symbol a2 = make_internal v1 symbol a1" by (simp add: make_internal_def)
  let ?m1 = "im_register (from_venue v1 symbol a1) im_new"
  have "im_get ?m1 (make_internal v1 symbol a1) = Some (from_venue v1 symbol a1)"
    by (simp add: im_get_register from_venue_def)
  then have "get_by_venue m v1 symbol = None" "im_get m (make_internal v1 symbol a1) = Some (from_venue v2 symbol a2)"
    using assms(1) unfolding m_def register_many_def
    by (simp_all add: get_by_venue_register im_get_register from_venue_def same)
  moreover have "im_count m = 1"
    unfolding m_def register_many_def im_count_def
    by (simp add: im_register_def index_new_def im_new_def from_venue_def same Let_def split: option.split)
  ultimately show ?thesis by blast
qed

theorem venues_replace_each_other_witness:
  "get_by_venue (register_many [from_venue ''BINANCE___SPOT'' ''BTCUSDT'' SPOT,
     from_venue ''BINANCE___SWAP'' ''BTCUSDT'' SWAP] im_new) ''BINANCE___SPOT'' ''BTCUSDT'' = None"
  by (rule venues_replace_each_other [THEN conjunct1]) simp

section \<open>Internal symbols\<close>

lemma join_has_sep: "2 \<le> length ws \<Longrightarrow> sep \<in> set (join_on sep ws)"
  by (cases "(sep, ws)" rule: join_on.cases) auto

lemma make_internal_dash: "CHR ''-'' \<in> set s \<Longrightarrow> make_internal v s a = s"
  by (simp add: make_internal_def join_split)

text \<open>
  The internal symbol is a normal form: making one of it again, for any venue and asset
  type, changes nothing; and a symbol with a dash is its own internal symbol.
\<close>

theorem make_internal_idempotent:
  "make_internal v' (make_internal v s a) a' = make_internal v s a \<and>
   (CHR ''-'' \<in> set s \<longrightarrow> make_internal v s a = s)"
proof -
  let ?find = "List.find (\<lambda>sep. sep \<in> set s) [CHR ''-'', CHR ''/'', CHR ''_'', CHR ''.'']"
  let ?quote = "List.find (\<lambda>quote. suffix quote (py_upper s) \<and> length quote < length (py_upper s)) known_quotes"
  have "CHR ''-'' \<in> set (make_internal v s a) \<or> make_internal v s a = s \<and> ?find = None \<and> ?quote = None"
  proof (cases ?find)
    case (Some sep)
    then have "sep \<in> set s" unfolding find_Some_iff by blast
    then have "CHR ''-'' \<in> set (join_on CHR ''-'' (split_on sep s))"
      by (intro join_has_sep split_on_many)
    moreover have "make_internal v s a = join_on CHR ''-'' (split_on sep s)"
      unfolding make_internal_def Some by (rule option.case)
    ultimately show ?thesis by simp
  next
    case None
    show ?thesis
    proof (cases ?quote)
      case (Some q)
      have "make_internal v s a = take (length (py_upper s) - length q) (py_upper s) @ ''-'' @ q"
        unfolding make_internal_def None option.case Let_def Some ..
      then show ?thesis by simp
    next
      case qNone: None
      have "make_internal v s a = s" unfolding make_internal_def None option.case Let_def qNone ..
      with None qNone show ?thesis by blast
    qed
  qed
  then show ?thesis
  proof
    assume "make_internal v s a = s \<and> ?find = None \<and> ?quote = None"
    then have "make_internal v' s a' = s" unfolding make_internal_def Let_def by (simp only: option.case)
    with \<open>make_internal v s a = s \<and> ?find = None \<and> ?quote = None\<close> show ?thesis by simp
  qed (simp add: make_internal_dash)
qed

end
