(* ===== verification/GatewayConfig.thy ===== *)
theory GatewayConfig
  imports PyVal
begin

text \<open>
  Model of \<open>src/bt_api_base/gateway/config.py\<close>: building a gateway configuration from keyword
  arguments, its normalisation, the endpoints and the TCP ports it reserves, and the keyword
  payload it turns into for adapters. Outside: the temporary directory, joining paths, the
  rendering of values that are not strings by \<open>str\<close>, \<open>float\<close> on strings, and the three ports
  the operating system gives. The platform is not Windows; directories exist.
\<close>

record outside =
  ou_render :: "pyval \<Rightarrow> string"
  ou_parse_float :: "string \<Rightarrow> pyval option"
  ou_tempdir :: string
  ou_join :: "string \<Rightarrow> string \<Rightarrow> string"

definition py_str :: "outside \<Rightarrow> pyval \<Rightarrow> string" where
  "py_str ou v = (case v of PStr s \<Rightarrow> s | _ \<Rightarrow> ou_render ou v)"

definition kw :: "(string \<times> pyval) list \<Rightarrow> string \<Rightarrow> pyval" where
  "kw kwargs k = dget_default kwargs k PNone"

section \<open>Ports\<close>

record tcp_ports =
  tp_assigned :: "(string, int) dict"
  tp_reserved :: "int list"

definition tp_new :: tcp_ports where
  "tp_new = \<lparr>tp_assigned = [], tp_reserved = []\<rparr>"

definition reserve_tcp_ports :: "string \<Rightarrow> int \<times> int \<times> int \<Rightarrow> tcp_ports \<Rightarrow> (int \<times> int \<times> int) \<times> tcp_ports" where
  "reserve_tcp_ports runtime_name os_ports t =
     (case dget (tp_assigned t) runtime_name of
        Some cached \<Rightarrow>
          if cached \<notin> set (tp_reserved t)
          then ((cached, cached + 1, cached + 2), t\<lparr>tp_reserved := sadd cached (tp_reserved t)\<rparr>)
          else (os_ports, t\<lparr>tp_assigned := dset runtime_name (fst os_ports) (tp_assigned t),
                           tp_reserved := sadd (fst os_ports) (tp_reserved t)\<rparr>)
      | None \<Rightarrow> (os_ports, t\<lparr>tp_assigned := dset runtime_name (fst os_ports) (tp_assigned t),
                             tp_reserved := sadd (fst os_ports) (tp_reserved t)\<rparr>))"

section \<open>Names and endpoints\<close>

definition dashed :: "string \<Rightarrow> string" where
  "dashed s = map (\<lambda>c. if c = CHR ''_'' then CHR ''-'' else c) (py_lower s)"

definition runtime_name_for :: "outside \<Rightarrow> pyval \<Rightarrow> string \<Rightarrow> string \<Rightarrow> string \<Rightarrow> string" where
  "runtime_name_for ou v exchange_type asset_type account_id =
     (let raw = py_strip (py_str ou (py_or v (PStr [])))
      in if raw \<noteq> [] then raw
         else dashed exchange_type @ ''-'' @ dashed asset_type @ ''-'' @
           (if account_id \<noteq> [] then account_id else ''default''))"

definition alnum :: "char \<Rightarrow> bool" where
  "alnum c \<longleftrightarrow> (let n = of_char c :: nat in (48 \<le> n \<and> n \<le> 57) \<or> (65 \<le> n \<and> n \<le> 90) \<or> (97 \<le> n \<and> n \<le> 122))"

definition safe_name :: "string \<Rightarrow> string" where
  "safe_name s = map (\<lambda>c. if alnum c \<or> c = CHR ''-'' \<or> c = CHR ''_'' then c else CHR ''-'') s"

definition resolve_endpoints ::
    "outside \<Rightarrow> string \<Rightarrow> string \<Rightarrow> (string \<times> pyval) list \<Rightarrow> int \<times> int \<times> int \<Rightarrow> tcp_ports
     \<Rightarrow> (string \<times> string \<times> string) \<times> tcp_ports" where
  "resolve_endpoints ou runtime_name transport kwargs os_ports t =
     (let command = py_or (kw kwargs ''command_endpoint'') (py_or (kw kwargs ''gateway_command_endpoint'') (PStr []));
          event = py_or (kw kwargs ''event_endpoint'') (py_or (kw kwargs ''gateway_event_endpoint'') (PStr []));
          market = py_or (kw kwargs ''market_endpoint'') (py_or (kw kwargs ''gateway_market_endpoint'') (PStr []))
      in if truthy command \<and> truthy event \<and> truthy market
         then ((py_str ou command, py_str ou event, py_str ou market), t)
         else if transport = ''ipc''
         then (let base = (if truthy (kw kwargs ''base_dir'') then py_str ou (kw kwargs ''base_dir'') else ou_tempdir ou);
                   stem = safe_name runtime_name;
                   path = (\<lambda>name. PStr (''ipc://'' @ ou_join ou base (stem @ name)))
               in ((py_str ou (py_or command (path ''-command.ipc'')),
                    py_str ou (py_or event (path ''-event.ipc'')),
                    py_str ou (py_or market (path ''-market.ipc''))), t))
         else (case reserve_tcp_ports runtime_name os_ports t of
                 ((p0, p1, p2), t') \<Rightarrow>
                   (let url = (\<lambda>p. PStr (''tcp://127.0.0.1:'' @ show_int p))
                    in ((py_str ou (py_or command (url p0)), py_str ou (py_or event (url p1)),
                         py_str ou (py_or market (url p2))), t'))))"

section \<open>Coercions\<close>

definition blank :: "pyval \<Rightarrow> bool" where
  "blank v \<longleftrightarrow> v = PNone \<or> v = PStr []"

definition py_float :: "outside \<Rightarrow> pyval \<Rightarrow> pyval py" where
  "py_float ou v =
     (case v of
        PBool b \<Rightarrow> Inr (PFloat (if b then 1 else 0))
      | PInt i \<Rightarrow> Inr (PFloat (of_int i))
      | PFloat r \<Rightarrow> Inr (PFloat r)
      | PInf s \<Rightarrow> Inr (PInf s)
      | PNan \<Rightarrow> Inr PNan
      | PStr s \<Rightarrow> (case ou_parse_float ou s of Some f \<Rightarrow> Inr f | None \<Rightarrow> Inl ValueError)
      | _ \<Rightarrow> Inl TypeError)"

definition coerce_float :: "outside \<Rightarrow> pyval \<Rightarrow> pyval \<Rightarrow> pyval" where
  "coerce_float ou v dflt =
     (if blank v then dflt else case py_float ou v of Inr f \<Rightarrow> f | Inl _ \<Rightarrow> dflt)"

text \<open>\<open>int\<close> of an infinity raises \<open>OverflowError\<close>, which is not caught.\<close>

definition coerce_int :: "pyval \<Rightarrow> int \<Rightarrow> int py" where
  "coerce_int v dflt =
     (if blank v then Inr dflt
      else case py_int v of
        Inr i \<Rightarrow> Inr i
      | Inl e \<Rightarrow> if e = TypeError \<or> e = ValueError then Inr dflt else Inl e)"

section \<open>\<open>GatewayConfig\<close>\<close>

record GatewayConfig =
  gc_runtime_name :: string
  gc_exchange_type :: string
  gc_asset_type :: string
  gc_account_id :: string
  gc_command_endpoint :: string
  gc_event_endpoint :: string
  gc_market_endpoint :: string
  gc_transport :: string
  gc_startup_timeout :: pyval
  gc_command_timeout :: pyval
  gc_broker_id :: string
  gc_td_address :: string
  gc_md_address :: string
  gc_selected_ctp_env :: string
  gc_selection_reason :: string
  gc_base_dir :: string
  gc_poll_timeout_ms :: int
  gc_extra :: "(string \<times> pyval) list"

definition str_or :: "string \<Rightarrow> string \<Rightarrow> string" where
  "str_or s dflt = (if s \<noteq> [] then s else dflt)"

text \<open>\<open>__post_init__\<close>\<close>

definition gc_post_init :: "outside \<Rightarrow> int \<times> int \<times> int \<Rightarrow> GatewayConfig \<Rightarrow> tcp_ports \<Rightarrow> GatewayConfig \<times> tcp_ports" where
  "gc_post_init ou os_ports c t =
     (let exchange = py_upper (py_strip (str_or (gc_exchange_type c) ''CTP''));
          asset = py_upper (py_strip (str_or (gc_asset_type c) ''FUTURE''));
          account = py_strip (str_or (gc_account_id c) ''default'');
          transport = str_or (py_lower (py_strip (str_or (gc_transport c) ''tcp''))) ''tcp'';
          base = (if gc_base_dir c \<noteq> [] then gc_base_dir c else ou_join ou (ou_tempdir ou) ''btgw'');
          name = (if gc_runtime_name c \<noteq> [] then gc_runtime_name c
                  else runtime_name_for ou (PStr []) exchange asset account)
      in case resolve_endpoints ou name transport
                [(''command_endpoint'', PStr (gc_command_endpoint c)),
                 (''event_endpoint'', PStr (gc_event_endpoint c)),
                 (''market_endpoint'', PStr (gc_market_endpoint c)), (''base_dir'', PStr base)] os_ports t of
           ((cmd, ev, md), t') \<Rightarrow>
             (c\<lparr>gc_exchange_type := exchange, gc_asset_type := asset, gc_account_id := account,
                gc_transport := transport, gc_base_dir := base, gc_runtime_name := name,
                gc_command_endpoint := cmd, gc_event_endpoint := ev, gc_market_endpoint := md\<rparr>, t'))"

definition known_kwargs :: "string list" where
  "known_kwargs =
     [''runtime_name'', ''gateway_runtime_name'', ''exchange_type'', ''asset_type'', ''account_id'',
      ''investor_id'', ''user_id'', ''command_endpoint'', ''event_endpoint'', ''market_endpoint'',
      ''gateway_command_endpoint'', ''gateway_event_endpoint'', ''gateway_market_endpoint'',
      ''transport'', ''gateway_startup_timeout_sec'', ''startup_timeout_sec'',
      ''gateway_command_timeout_sec'', ''command_timeout_sec'', ''broker_id'', ''td_address'',
      ''td_front'', ''md_address'', ''md_front'', ''selected_ctp_env'', ''selection_reason'',
      ''gateway_base_dir'', ''base_dir'', ''gateway_poll_timeout_ms'', ''poll_timeout_ms'']"

definition from_kwargs ::
    "outside \<Rightarrow> int \<times> int \<times> int \<Rightarrow> int \<times> int \<times> int \<Rightarrow> (string \<times> pyval) list \<Rightarrow> tcp_ports
     \<Rightarrow> GatewayConfig py \<times> tcp_ports" where
  "from_kwargs ou os_ports os_ports2 kwargs t =
     (let str = py_str ou;
          exchange = py_upper (py_strip (str (py_or (kw kwargs ''exchange_type'') (PStr ''CTP''))));
          asset = py_upper (py_strip (str (py_or (kw kwargs ''asset_type'') (PStr ''FUTURE''))));
          account = py_strip (str (py_or (kw kwargs ''account_id'') (py_or (kw kwargs ''investor_id'')
                      (py_or (kw kwargs ''user_id'') (PStr ''default'')))));
          name = runtime_name_for ou (py_or (kw kwargs ''gateway_runtime_name'') (kw kwargs ''runtime_name''))
                   exchange asset account;
          transport = str_or (py_lower (py_strip (str (py_or (kw kwargs ''transport'') (PStr ''tcp''))))) ''tcp'';
          base = str (py_or (kw kwargs ''gateway_base_dir'') (py_or (kw kwargs ''base_dir'') (PStr [])));
          timeout = (\<lambda>k1 k2 d. coerce_float ou (if \<not> blank (kw kwargs k1) then kw kwargs k1 else kw kwargs k2) d)
      in case resolve_endpoints ou name transport kwargs os_ports t of
           ((cmd, ev, md), t1) \<Rightarrow>
             (case coerce_int (py_or (kw kwargs ''gateway_poll_timeout_ms'') (kw kwargs ''poll_timeout_ms'')) 100 of
                Inl e \<Rightarrow> (Inl e, t1)
              | Inr poll \<Rightarrow>
                  (case gc_post_init ou os_ports2
                     \<lparr>gc_runtime_name = name, gc_exchange_type = exchange, gc_asset_type = asset,
                      gc_account_id = account, gc_command_endpoint = cmd, gc_event_endpoint = ev,
                      gc_market_endpoint = md, gc_transport = transport,
                      gc_startup_timeout = timeout ''gateway_startup_timeout_sec'' ''startup_timeout_sec'' (PFloat 30),
                      gc_command_timeout = timeout ''gateway_command_timeout_sec'' ''command_timeout_sec'' (PFloat 10),
                      gc_broker_id = str (py_or (kw kwargs ''broker_id'') (PStr [])),
                      gc_td_address = str (py_or (kw kwargs ''td_address'') (py_or (kw kwargs ''td_front'') (PStr []))),
                      gc_md_address = str (py_or (kw kwargs ''md_address'') (py_or (kw kwargs ''md_front'') (PStr []))),
                      gc_selected_ctp_env = str (py_or (kw kwargs ''selected_ctp_env'') (PStr [])),
                      gc_selection_reason = str (py_or (kw kwargs ''selection_reason'') (PStr [])),
                      gc_base_dir = base, gc_poll_timeout_ms = poll,
                      gc_extra = filter (\<lambda>(k, v). k \<notin> set known_kwargs) kwargs\<rparr> t1 of
                     (c, t2) \<Rightarrow> (Inr c, t2))))"

definition dict_update :: "(string \<times> 'v) list \<Rightarrow> (string \<times> 'v) list \<Rightarrow> (string \<times> 'v) list" where
  "dict_update d e = foldl (\<lambda>d (k, v). dset k v d) d e"

definition own_kwargs :: "GatewayConfig \<Rightarrow> (string \<times> pyval) list" where
  "own_kwargs c =
     [(''runtime_name'', PStr (gc_runtime_name c)), (''exchange_type'', PStr (gc_exchange_type c)),
      (''asset_type'', PStr (gc_asset_type c)), (''account_id'', PStr (gc_account_id c)),
      (''command_endpoint'', PStr (gc_command_endpoint c)), (''event_endpoint'', PStr (gc_event_endpoint c)),
      (''market_endpoint'', PStr (gc_market_endpoint c)), (''transport'', PStr (gc_transport c)),
      (''gateway_startup_timeout_sec'', gc_startup_timeout c),
      (''gateway_command_timeout_sec'', gc_command_timeout c), (''broker_id'', PStr (gc_broker_id c)),
      (''td_address'', PStr (gc_td_address c)), (''td_front'', PStr (gc_td_address c)),
      (''md_address'', PStr (gc_md_address c)), (''md_front'', PStr (gc_md_address c)),
      (''selected_ctp_env'', PStr (gc_selected_ctp_env c)),
      (''selection_reason'', PStr (gc_selection_reason c)), (''base_dir'', PStr (gc_base_dir c))]"

definition to_kwargs :: "GatewayConfig \<Rightarrow> (string \<times> pyval) list" where
  "to_kwargs c = dict_update (gc_extra c) (own_kwargs c)"

definition gc_to_dict :: "GatewayConfig \<Rightarrow> (string \<times> pyval) list" where
  "gc_to_dict c =
     [(''exchange_type'', PStr (gc_exchange_type c)), (''asset_type'', PStr (gc_asset_type c)),
      (''account_id'', PStr (gc_account_id c)), (''transport'', PStr (gc_transport c)),
      (''base_dir'', PStr (gc_base_dir c)), (''runtime_name'', PStr (gc_runtime_name c)),
      (''command_endpoint'', PStr (gc_command_endpoint c)), (''event_endpoint'', PStr (gc_event_endpoint c)),
      (''market_endpoint'', PStr (gc_market_endpoint c)), (''command_timeout_sec'', gc_command_timeout c),
      (''startup_timeout_sec'', gc_startup_timeout c), (''poll_timeout_ms'', PInt (gc_poll_timeout_ms c))]"

section \<open>Keyword payloads\<close>

lemma dget_dict_update:
  "dict_ok e \<Longrightarrow> dget (dict_update d e) k = (case dget e k of Some v \<Rightarrow> Some v | None \<Rightarrow> dget d k)"
proof (induction e arbitrary: d)
  case (Cons p e)
  obtain k' v where p: "p = (k', v)" by (cases p)
  have "dget e k' = None" using Cons.prems by (simp add: p dget_None_iff)
  with Cons show ?case by (auto simp: p dict_update_def split: option.split)
qed (simp add: dict_update_def)

lemma filter_dset_known:
  "k \<in> K \<Longrightarrow> filter (\<lambda>(k, v). k \<notin> K) (dset k v d) = filter (\<lambda>(k, v). k \<notin> K) d"
proof (induction d)
  case (Cons p d)
  then show ?case by (cases p; cases "fst p = k") auto
qed simp

lemma filter_dict_update_known:
  "fst ` set e \<subseteq> K \<Longrightarrow> filter (\<lambda>(k, v). k \<notin> K) (dict_update d e) = filter (\<lambda>(k, v). k \<notin> K) d"
proof (induction e arbitrary: d)
  case (Cons p e)
  then show ?case by (cases p) (simp add: dict_update_def filter_dset_known)
qed (simp add: dict_update_def)

text \<open>A configuration as \<open>__post_init__\<close> leaves it, with non-empty names and float timeouts.\<close>

definition is_float :: "pyval \<Rightarrow> bool" where
  "is_float v = (case v of PFloat _ \<Rightarrow> True | PInf _ \<Rightarrow> True | PNan \<Rightarrow> True | _ \<Rightarrow> False)"

definition gc_normal :: "GatewayConfig \<Rightarrow> bool" where
  "gc_normal c \<longleftrightarrow>
     gc_exchange_type c \<noteq> [] \<and> py_upper (py_strip (gc_exchange_type c)) = gc_exchange_type c \<and>
     gc_asset_type c \<noteq> [] \<and> py_upper (py_strip (gc_asset_type c)) = gc_asset_type c \<and>
     gc_account_id c \<noteq> [] \<and> py_strip (gc_account_id c) = gc_account_id c \<and>
     gc_runtime_name c \<noteq> [] \<and> py_strip (gc_runtime_name c) = gc_runtime_name c \<and>
     gc_transport c \<noteq> [] \<and> py_lower (py_strip (gc_transport c)) = gc_transport c \<and>
     gc_command_endpoint c \<noteq> [] \<and> gc_event_endpoint c \<noteq> [] \<and> gc_market_endpoint c \<noteq> [] \<and>
     gc_base_dir c \<noteq> [] \<and> is_float (gc_startup_timeout c) \<and> is_float (gc_command_timeout c) \<and>
     (\<forall>k \<in> set (dkeys (gc_extra c)). k \<notin> set known_kwargs)"

lemma kw_to_kwargs:
  assumes "gc_normal c" "k \<in> set known_kwargs"
  shows "kw (to_kwargs c) k = kw (own_kwargs c) k"
proof -
  have "dget (gc_extra c) k = None" using assms by (auto simp: gc_normal_def dget_None_iff)
  moreover have "dict_ok (own_kwargs c)" by (simp add: own_kwargs_def)
  ultimately show ?thesis
    by (simp add: kw_def to_kwargs_def dget_default_def dget_dict_update split: option.split)
qed

lemma extra_to_kwargs:
  assumes "gc_normal c"
  shows "filter (\<lambda>(k, v). k \<notin> set known_kwargs) (to_kwargs c) = gc_extra c"
proof -
  have "fst ` set (own_kwargs c) \<subseteq> set known_kwargs" by (simp add: own_kwargs_def known_kwargs_def)
  then have "filter (\<lambda>(k, v). k \<notin> set known_kwargs) (to_kwargs c) =
      filter (\<lambda>(k, v). k \<notin> set known_kwargs) (gc_extra c)"
    unfolding to_kwargs_def by (rule filter_dict_update_known)
  also have "\<dots> = gc_extra c"
    using assms by (intro filter_True) (auto simp: gc_normal_def dkeys_def)
  finally show ?thesis .
qed

lemma coerce_float_id: "is_float v \<Longrightarrow> coerce_float ou v d = v \<and> \<not> blank v"
  by (auto simp: is_float_def coerce_float_def blank_def py_float_def split: pyval.splits)

lemma coerce_float_pick: "is_float v \<Longrightarrow> coerce_float ou (if \<not> blank v then v else w) d = v"
  using coerce_float_id [of v ou d] by simp

lemma coerce_int_none: "coerce_int PNone d = Inr d"
  by (simp add: coerce_int_def blank_def)

lemma py_or_simps [simp]:
  "py_or PNone v = v" "s \<noteq> [] \<Longrightarrow> py_or (PStr s) v = PStr s" "py_or (PStr []) v = v"
  by (simp_all add: py_or_def)

lemma py_or_self: "py_str ou (py_or (PStr s) (PStr [])) = s"
  by (simp add: py_or_def py_str_def)

lemma py_or_twice: "py_str ou (py_or (PStr s) (py_or (PStr s) (PStr []))) = s"
  by (simp add: py_or_def py_str_def)

lemma resolve_given:
  assumes "kw kwargs ''command_endpoint'' = PStr cmd" "kw kwargs ''event_endpoint'' = PStr ev"
    "kw kwargs ''market_endpoint'' = PStr md" "cmd \<noteq> []" "ev \<noteq> []" "md \<noteq> []"
  shows "resolve_endpoints ou name transport kwargs ps t = ((cmd, ev, md), t)"
  using assms by (simp add: resolve_endpoints_def Let_def py_str_def)

lemma own_kw:
  "kw (own_kwargs c) ''runtime_name'' = PStr (gc_runtime_name c)"
  "kw (own_kwargs c) ''gateway_runtime_name'' = PNone"
  "kw (own_kwargs c) ''exchange_type'' = PStr (gc_exchange_type c)"
  "kw (own_kwargs c) ''asset_type'' = PStr (gc_asset_type c)"
  "kw (own_kwargs c) ''account_id'' = PStr (gc_account_id c)"
  "kw (own_kwargs c) ''command_endpoint'' = PStr (gc_command_endpoint c)"
  "kw (own_kwargs c) ''event_endpoint'' = PStr (gc_event_endpoint c)"
  "kw (own_kwargs c) ''market_endpoint'' = PStr (gc_market_endpoint c)"
  "kw (own_kwargs c) ''transport'' = PStr (gc_transport c)"
  "kw (own_kwargs c) ''gateway_startup_timeout_sec'' = gc_startup_timeout c"
  "kw (own_kwargs c) ''gateway_command_timeout_sec'' = gc_command_timeout c"
  "kw (own_kwargs c) ''broker_id'' = PStr (gc_broker_id c)"
  "kw (own_kwargs c) ''td_address'' = PStr (gc_td_address c)"
  "kw (own_kwargs c) ''td_front'' = PStr (gc_td_address c)"
  "kw (own_kwargs c) ''md_address'' = PStr (gc_md_address c)"
  "kw (own_kwargs c) ''md_front'' = PStr (gc_md_address c)"
  "kw (own_kwargs c) ''selected_ctp_env'' = PStr (gc_selected_ctp_env c)"
  "kw (own_kwargs c) ''selection_reason'' = PStr (gc_selection_reason c)"
  "kw (own_kwargs c) ''gateway_base_dir'' = PNone"
  "kw (own_kwargs c) ''base_dir'' = PStr (gc_base_dir c)"
  "kw (own_kwargs c) ''gateway_poll_timeout_ms'' = PNone"
  "kw (own_kwargs c) ''poll_timeout_ms'' = PNone"
  by (simp_all add: kw_def own_kwargs_def dget_default_def)

lemma post_init_normal:
  assumes "gc_normal c" shows "gc_post_init ou ps c t = (c, t)"
proof -
  have n: "gc_exchange_type c \<noteq> []" "py_upper (py_strip (gc_exchange_type c)) = gc_exchange_type c"
    "gc_asset_type c \<noteq> []" "py_upper (py_strip (gc_asset_type c)) = gc_asset_type c"
    "gc_account_id c \<noteq> []" "py_strip (gc_account_id c) = gc_account_id c"
    "gc_runtime_name c \<noteq> []" "gc_transport c \<noteq> []" "py_lower (py_strip (gc_transport c)) = gc_transport c"
    "gc_base_dir c \<noteq> []" "gc_command_endpoint c \<noteq> []" "gc_event_endpoint c \<noteq> []" "gc_market_endpoint c \<noteq> []"
    using assms by (simp_all add: gc_normal_def)
  let ?kw = "[(''command_endpoint'', PStr (gc_command_endpoint c)), (''event_endpoint'', PStr (gc_event_endpoint c)),
     (''market_endpoint'', PStr (gc_market_endpoint c)), (''base_dir'', PStr (gc_base_dir c))]"
  have r: "resolve_endpoints ou name transport ?kw ps t =
      ((gc_command_endpoint c, gc_event_endpoint c, gc_market_endpoint c), t)" for name transport
    by (rule resolve_given) (simp_all add: kw_def dget_default_def n)
  show ?thesis by (simp add: gc_post_init_def Let_def str_or_def n r)
qed

text \<open>
  A normalised configuration survives the trip through the keyword payload an adapter
  gets: \<open>from_kwargs\<close> of \<open>to_kwargs\<close> gives it back, whatever ports the system offers and
  without reserving any, except for the poll timeout, which the payload leaves out and which
  falls back to 100.
\<close>

theorem config_kwargs_roundtrip:
  assumes "gc_normal c"
  shows "from_kwargs ou ps ps2 (to_kwargs c) t = (Inr (c\<lparr>gc_poll_timeout_ms := 100\<rparr>), t)"
proof -
  have n: "gc_exchange_type c \<noteq> []" "py_upper (py_strip (gc_exchange_type c)) = gc_exchange_type c"
    "gc_asset_type c \<noteq> []" "py_upper (py_strip (gc_asset_type c)) = gc_asset_type c"
    "gc_account_id c \<noteq> []" "py_strip (gc_account_id c) = gc_account_id c"
    "gc_runtime_name c \<noteq> []" "py_strip (gc_runtime_name c) = gc_runtime_name c"
    "gc_transport c \<noteq> []" "py_lower (py_strip (gc_transport c)) = gc_transport c"
    "gc_base_dir c \<noteq> []" "gc_command_endpoint c \<noteq> []" "gc_event_endpoint c \<noteq> []" "gc_market_endpoint c \<noteq> []"
    "is_float (gc_startup_timeout c)" "is_float (gc_command_timeout c)"
    using assms by (simp_all add: gc_normal_def)
  have k: "kw (to_kwargs c) key = kw (own_kwargs c) key" if "key \<in> set known_kwargs" for key
    by (rule kw_to_kwargs [OF assms that])
  have keys:
    "kw (to_kwargs c) ''runtime_name'' = kw (own_kwargs c) ''runtime_name''"
    "kw (to_kwargs c) ''gateway_runtime_name'' = kw (own_kwargs c) ''gateway_runtime_name''"
    "kw (to_kwargs c) ''exchange_type'' = kw (own_kwargs c) ''exchange_type''"
    "kw (to_kwargs c) ''asset_type'' = kw (own_kwargs c) ''asset_type''"
    "kw (to_kwargs c) ''account_id'' = kw (own_kwargs c) ''account_id''"
    "kw (to_kwargs c) ''command_endpoint'' = kw (own_kwargs c) ''command_endpoint''"
    "kw (to_kwargs c) ''event_endpoint'' = kw (own_kwargs c) ''event_endpoint''"
    "kw (to_kwargs c) ''market_endpoint'' = kw (own_kwargs c) ''market_endpoint''"
    "kw (to_kwargs c) ''transport'' = kw (own_kwargs c) ''transport''"
    "kw (to_kwargs c) ''gateway_startup_timeout_sec'' = kw (own_kwargs c) ''gateway_startup_timeout_sec''"
    "kw (to_kwargs c) ''gateway_command_timeout_sec'' = kw (own_kwargs c) ''gateway_command_timeout_sec''"
    "kw (to_kwargs c) ''broker_id'' = kw (own_kwargs c) ''broker_id''"
    "kw (to_kwargs c) ''td_address'' = kw (own_kwargs c) ''td_address''"
    "kw (to_kwargs c) ''td_front'' = kw (own_kwargs c) ''td_front''"
    "kw (to_kwargs c) ''md_address'' = kw (own_kwargs c) ''md_address''"
    "kw (to_kwargs c) ''md_front'' = kw (own_kwargs c) ''md_front''"
    "kw (to_kwargs c) ''selected_ctp_env'' = kw (own_kwargs c) ''selected_ctp_env''"
    "kw (to_kwargs c) ''selection_reason'' = kw (own_kwargs c) ''selection_reason''"
    "kw (to_kwargs c) ''gateway_base_dir'' = kw (own_kwargs c) ''gateway_base_dir''"
    "kw (to_kwargs c) ''base_dir'' = kw (own_kwargs c) ''base_dir''"
    "kw (to_kwargs c) ''gateway_poll_timeout_ms'' = kw (own_kwargs c) ''gateway_poll_timeout_ms''"
    "kw (to_kwargs c) ''poll_timeout_ms'' = kw (own_kwargs c) ''poll_timeout_ms''"
    by (rule k, simp add: known_kwargs_def)+
  note kws = keys [unfolded own_kw]
  let ?c = "c\<lparr>gc_poll_timeout_ms := 100\<rparr>"
  have r: "resolve_endpoints ou name transport (to_kwargs c) ps t =
      ((gc_command_endpoint c, gc_event_endpoint c, gc_market_endpoint c), t)" for name transport
    by (rule resolve_given) (simp_all add: kws n)
  have name: "runtime_name_for ou (PStr (gc_runtime_name c)) e a i = gc_runtime_name c" for e a i
    by (simp add: runtime_name_for_def Let_def py_str_def n)
  have post: "gc_post_init ou ps2 ?c t = (?c, t)"
    by (rule post_init_normal) (use assms in \<open>simp add: gc_normal_def\<close>)
  have str: "py_str ou (PStr s) = s" for s by (simp add: py_str_def)
  have fields: "\<lparr>gc_runtime_name = gc_runtime_name c, gc_exchange_type = gc_exchange_type c,
      gc_asset_type = gc_asset_type c, gc_account_id = gc_account_id c,
      gc_command_endpoint = gc_command_endpoint c, gc_event_endpoint = gc_event_endpoint c,
      gc_market_endpoint = gc_market_endpoint c, gc_transport = gc_transport c,
      gc_startup_timeout = gc_startup_timeout c, gc_command_timeout = gc_command_timeout c,
      gc_broker_id = gc_broker_id c, gc_td_address = gc_td_address c, gc_md_address = gc_md_address c,
      gc_selected_ctp_env = gc_selected_ctp_env c, gc_selection_reason = gc_selection_reason c,
      gc_base_dir = gc_base_dir c, gc_poll_timeout_ms = 100, gc_extra = gc_extra c\<rparr> = ?c"
    by simp
  show ?thesis
    unfolding from_kwargs_def Let_def kws
    by (simp add: r name str py_or_self py_or_twice coerce_float_pick coerce_int_none str_or_def
        extra_to_kwargs [OF assms] fields post n)
qed

theorem config_kwargs_roundtrip_witness:
  "\<exists>c. \<forall>ou. gc_poll_timeout_ms c = 5 \<and>
     fst (from_kwargs ou (1, 2, 3) (4, 5, 6) (to_kwargs c) tp_new) = Inr (c\<lparr>gc_poll_timeout_ms := 100\<rparr>)"
proof -
  let ?c = "\<lparr>gc_runtime_name = ''g'', gc_exchange_type = ''CTP'', gc_asset_type = ''FUTURE'',
    gc_account_id = ''7'', gc_command_endpoint = ''c'', gc_event_endpoint = ''e'', gc_market_endpoint = ''m'',
    gc_transport = ''tcp'', gc_startup_timeout = PFloat 30, gc_command_timeout = PFloat 10, gc_broker_id = [],
    gc_td_address = [], gc_md_address = [], gc_selected_ctp_env = [], gc_selection_reason = [],
    gc_base_dir = ''/tmp'', gc_poll_timeout_ms = 5, gc_extra = [(''password'', PStr ''x'')]\<rparr>"
  have "py_upper (py_strip ''CTP'') = ''CTP''" "py_upper (py_strip ''FUTURE'') = ''FUTURE''"
    "py_strip ''7'' = ''7''" "py_strip ''g'' = ''g''" "py_lower (py_strip ''tcp'') = ''tcp''"
    by code_simp+
  then have "gc_normal ?c" by (simp add: gc_normal_def is_float_def known_kwargs_def)
  from config_kwargs_roundtrip [OF this, of _ "(1, 2, 3)" "(4, 5, 6)" tp_new] show ?thesis
    by (intro exI [of _ ?c] allI) simp
qed

section \<open>Ports are never remembered\<close>

interpretation tp: op_system tp_new "\<lambda>t (name, ps). snd (reserve_tcp_ports name ps t)"
  "\<lambda>t. \<forall>name p. dget (tp_assigned t) name = Some p \<longrightarrow> p \<in> set (tp_reserved t)"
  by unfold_locales
    (auto simp: tp_new_def reserve_tcp_ports_def split: option.splits if_splits)

text \<open>
  The assignment of ports to runtime names is never used: whatever names were given
  ports before, a configuration gets the three ports the system offers now, also for a name
  that has ports already, so two configurations of one runtime disagree about its endpoints.
\<close>

theorem ports_never_reused:
  "fst (reserve_tcp_ports name ps
     (foldl (\<lambda>t (name, ps). snd (reserve_tcp_ports name ps t)) tp_new requests)) = ps"
  using tp.reach_inv [of requests]
  by (auto simp: reserve_tcp_ports_def split: option.split)

end
