(* ===== verification/GatewayRuntime.thy ===== *)
theory GatewayRuntime
  imports GatewayConfig
begin

text \<open>
  Model of \<open>src/bt_api_base/gateway/runtime.py\<close>: the life of a gateway runtime with the
  resources it holds, the handling of commands, the pump that publishes what the adapter
  emits, and the health snapshot. Outside, and so parameters: the ZeroMQ bridge, whose
  constructors and closers succeed or raise, and the adapter, whose calls give a value or an
  exception (its class name and its text). A command is the dict of its attributes.
\<close>

section \<open>Life cycle\<close>

datatype runtime_state = Stopped | Starting | Running | Stopping | ErrorState

type_synonym exn = "string \<times> string"

record GatewayRuntime =
  gr_config :: GatewayConfig
  gr_state :: runtime_state
  gr_adapter :: bool
  gr_connected :: bool
  gr_stop_event :: bool
  gr_pump :: bool
  gr_live_pumps :: nat
  gr_server :: bool
  gr_event_pub :: bool
  gr_market_pub :: bool
  gr_started_at :: time
  gr_last_heartbeat :: time
  gr_tick_count :: nat
  gr_order_count :: nat
  gr_subscriptions :: "string pyset"
  gr_errors :: "(string \<times> string) list"

text \<open>\<open>gr_live_pumps\<close> counts the pump threads that have not ended.\<close>

definition gr_new :: "GatewayConfig \<Rightarrow> GatewayRuntime" where
  "gr_new c =
     \<lparr>gr_config = c, gr_state = Stopped, gr_adapter = False, gr_connected = False,
      gr_stop_event = False, gr_pump = False, gr_live_pumps = 0, gr_server = False,
      gr_event_pub = False, gr_market_pub = False, gr_started_at = 0, gr_last_heartbeat = 0,
      gr_tick_count = 0, gr_order_count = 0, gr_subscriptions = [], gr_errors = []\<rparr>"

definition record_error :: "string \<Rightarrow> exn \<Rightarrow> GatewayRuntime \<Rightarrow> GatewayRuntime" where
  "record_error source e r =
     (let es = gr_errors r @ [(source, fst e)]
      in r\<lparr>gr_errors := drop (length es - 20) es\<rparr>)"

text \<open>How the parts of \<open>_cleanup\<close> go: the join may time out, the closers may raise.\<close>

record cleanup_env =
  ce_join_ok :: bool
  ce_server_ok :: bool
  ce_event_ok :: bool
  ce_market_ok :: bool
  ce_disconnect :: "exn option"

text \<open>The statements of \<open>_cleanup\<close>, in its order: the pump, the three closers, the adapter.\<close>

definition stop_pump :: "cleanup_env \<Rightarrow> GatewayRuntime \<Rightarrow> GatewayRuntime" where
  "stop_pump ce r =
     (if gr_pump r
      then r\<lparr>gr_stop_event := True, gr_pump := False,
             gr_live_pumps := (if ce_join_ok ce then gr_live_pumps r - 1 else gr_live_pumps r)\<rparr>
      else r\<lparr>gr_stop_event := True\<rparr>)"

definition close_channels :: "cleanup_env \<Rightarrow> GatewayRuntime \<Rightarrow> bool \<times> GatewayRuntime" where
  "close_channels ce r =
     (if gr_server r \<and> \<not> ce_server_ok ce then (True, r)
      else if gr_event_pub r \<and> \<not> ce_event_ok ce then (True, r\<lparr>gr_server := False\<rparr>)
      else if gr_market_pub r \<and> \<not> ce_market_ok ce
      then (True, r\<lparr>gr_server := False, gr_event_pub := False\<rparr>)
      else (False, r\<lparr>gr_server := False, gr_event_pub := False, gr_market_pub := False\<rparr>))"

definition drop_adapter :: "cleanup_env \<Rightarrow> GatewayRuntime \<Rightarrow> GatewayRuntime" where
  "drop_adapter ce r =
     (if gr_adapter r \<and> gr_connected r
      then (case ce_disconnect ce of
              None \<Rightarrow> r\<lparr>gr_connected := False\<rparr>
            | Some e \<Rightarrow> (record_error ''disconnect'' e r)\<lparr>gr_connected := False\<rparr>)
      else r\<lparr>gr_connected := False\<rparr>)"

definition cleanup :: "cleanup_env \<Rightarrow> GatewayRuntime \<Rightarrow> bool \<times> GatewayRuntime" where
  "cleanup ce r =
     (case close_channels ce (stop_pump ce r) of
        (True, r1) \<Rightarrow> (True, r1)
      | (False, r1) \<Rightarrow> (False, drop_adapter ce r1))"

datatype start_fault =
    NoFault | NoBridge | NoAdapterClass | EventPubFails | MarketPubFails | ServerMakeFails
  | ServerStartFails | AdapterMakeFails | ConnectFails

definition start_in_thread ::
    "start_fault \<Rightarrow> exn \<Rightarrow> cleanup_env \<Rightarrow> time \<Rightarrow> GatewayRuntime \<Rightarrow> bool \<times> GatewayRuntime" where
  "start_in_thread fault e ce now r =
     (if gr_state r = Running then (False, r)
      else if fault = NoBridge \<or> fault = NoAdapterClass then (True, r)
      else
        (let r1 = r\<lparr>gr_stop_event := False, gr_state := Starting, gr_started_at := now,
                    gr_last_heartbeat := now\<rparr>;
             r2 = (if fault = EventPubFails then r1 else r1\<lparr>gr_event_pub := True\<rparr>);
             r3 = (if fault \<in> {EventPubFails, MarketPubFails} then r2 else r2\<lparr>gr_market_pub := True\<rparr>);
             r4 = (if fault \<in> {EventPubFails, MarketPubFails, ServerMakeFails} then r3
                   else r3\<lparr>gr_server := True\<rparr>);
             r5 = (if fault \<in> {NoFault, ConnectFails} then r4\<lparr>gr_adapter := True\<rparr> else r4)
         in if fault = NoFault
            then (False, r5\<lparr>gr_connected := True, gr_state := Running, gr_pump := True,
                            gr_live_pumps := gr_live_pumps r5 + 1\<rparr>)
            else (True, snd (cleanup ce ((record_error ''startup'' e r5)\<lparr>gr_state := ErrorState\<rparr>)))))"

definition gr_stop :: "cleanup_env \<Rightarrow> GatewayRuntime \<Rightarrow> bool \<times> GatewayRuntime" where
  "gr_stop ce r =
     (if gr_state r = Stopped \<and> \<not> gr_connected r then (False, r)
      else case cleanup ce (r\<lparr>gr_state := Stopping\<rparr>) of
        (True, r1) \<Rightarrow> (True, r1)
      | (False, r1) \<Rightarrow> (False, r1\<lparr>gr_state := Stopped\<rparr>))"

text \<open>A pump thread that was not joined in time ends when it sees the stop event.\<close>

definition pump_ends :: "GatewayRuntime \<Rightarrow> GatewayRuntime" where
  "pump_ends r = (if gr_stop_event r then r\<lparr>gr_live_pumps := gr_live_pumps r - 1\<rparr> else r)"

section \<open>Commands\<close>

type_synonym command = "(string \<times> pyval) list"

definition attr :: "command \<Rightarrow> string \<Rightarrow> pyval \<Rightarrow> pyval" where
  "attr c name dflt = dget_default c name dflt"

record command_ack =
  ak_command_id :: string
  ak_idempotency_key :: string
  ak_accepted :: bool
  ak_status :: string
  ak_account_id :: string
  ak_strategy_id :: string
  ak_order_id :: "string option"
  ak_reason :: string
  ak_payload :: "(string \<times> pyval) list"

definition make_ack ::
    "outside \<Rightarrow> GatewayConfig \<Rightarrow> command \<Rightarrow> bool \<Rightarrow> string \<Rightarrow> string \<Rightarrow> (string \<times> pyval) list \<Rightarrow> string \<Rightarrow> command_ack" where
  "make_ack ou g c accepted status order_id payload reason =
     \<lparr>ak_command_id = py_str ou (py_or (attr c ''command_id'' (PStr [])) (PStr ''unknown'')),
      ak_idempotency_key = py_str ou (py_or (attr c ''idempotency_key'' (PStr [])) (PStr ''unknown'')),
      ak_accepted = accepted, ak_status = status,
      ak_account_id = py_str ou (py_or (attr c ''account_id'' (PStr (gc_account_id g))) (PStr [])),
      ak_strategy_id = py_str ou (py_or (attr c ''strategy_id'' (PStr [])) (PStr [])),
      ak_order_id = (if order_id \<noteq> [] then Some order_id else None),
      ak_reason = reason, ak_payload = payload\<rparr>"

text \<open>
  \<open>list(x)\<close> and \<open>dict(x)\<close>: of a mapping, of a sequence of pairs, or an error. The keys of the
  dicts the model has are strings.
\<close>

definition py_iter :: "pyval \<Rightarrow> exn + pyval list" where
  "py_iter v =
     (case v of
        PList xs \<Rightarrow> Inr xs
      | PStr s \<Rightarrow> Inr (map (\<lambda>ch. PStr [ch]) s)
      | PDict e \<Rightarrow> Inr (map PStr (dkeys e))
      | _ \<Rightarrow> Inl (''TypeError'', ''object is not iterable''))"

definition map_right :: "('a \<Rightarrow> 'b) \<Rightarrow> 'e + 'a \<Rightarrow> 'e + 'b" where
  "map_right f x = (case x of Inl e \<Rightarrow> Inl e | Inr v \<Rightarrow> Inr (f v))"

definition bind_right :: "'e + 'a \<Rightarrow> ('a \<Rightarrow> 'e + 'b) \<Rightarrow> 'e + 'b" where
  "bind_right x f = (case x of Inl e \<Rightarrow> Inl e | Inr v \<Rightarrow> f v)"

definition pair_of :: "pyval \<Rightarrow> exn + string \<times> pyval" where
  "pair_of v =
     bind_right (py_iter v) (\<lambda>xs.
       case xs of
         [PStr k, w] \<Rightarrow> Inr (k, w)
       | [_, _] \<Rightarrow> Inl (''TypeError'', ''the key is not a string'')
       | _ \<Rightarrow> Inl (''ValueError'', ''dictionary update sequence element''))"

fun pairs_of :: "pyval list \<Rightarrow> (string \<times> pyval) list \<Rightarrow> exn + (string \<times> pyval) list" where
  "pairs_of [] d = Inr d"
| "pairs_of (v # vs) d = bind_right (pair_of v) (\<lambda>(k, w). pairs_of vs (dset k w d))"

definition as_dict :: "pyval \<Rightarrow> exn + (string \<times> pyval) list" where
  "as_dict v = (case v of PDict d \<Rightarrow> Inr d | _ \<Rightarrow> bind_right (py_iter v) (\<lambda>xs. pairs_of xs []))"

definition write_result :: "outside \<Rightarrow> (string \<times> pyval) list \<Rightarrow> string \<Rightarrow> (string \<times> pyval) list" where
  "write_result ou result default_status =
     (let status = py_lower (py_str ou (py_or (kw result ''status'') (PStr default_status)))
      in if truthy (kw result ''execution_unknown'') \<or> status = ''unknown''
         then dict_update result
           [(''status'', PStr ''unknown''), (''accepted'', PBool False), (''execution_unknown'', PBool True),
            (''definite_reject'', PBool False), (''terminal_confirmed'', PBool False)]
         else if status \<in> {''rejected'', ''error''} \<or> kw result ''accepted'' = PBool False \<or>
                truthy (kw result ''error'')
         then dict_update result
           [(''status'', PStr ''rejected''), (''accepted'', PBool False), (''execution_unknown'', PBool False),
            (''definite_reject'', PBool True), (''terminal_confirmed'', PBool True)]
         else dict_update result [(''status'', PStr status), (''accepted'', PBool True)])"

definition payload_from_order_command ::
    "GatewayConfig \<Rightarrow> command \<Rightarrow> exn + (string \<times> pyval) list" where
  "payload_from_order_command g c =
     (case as_dict (py_or (attr c ''extra'' (PDict [])) (PDict [])) of
        Inl e \<Rightarrow> Inl e
      | Inr payload \<Rightarrow> Inr (dict_update payload
          [(''strategy_id'', attr c ''strategy_id'' (PStr [])),
           (''account_id'', attr c ''account_id'' (PStr (gc_account_id g))),
           (''symbol'', attr c ''symbol'' (PStr [])),
           (''data_name'', py_or (kw payload ''data_name'') (attr c ''symbol'' (PStr []))),
           (''side'', attr c ''side'' (PStr [])), (''size'', attr c ''size'' (PFloat 0)),
           (''order_type'', attr c ''order_type'' (PStr [])), (''price'', attr c ''price'' PNone),
           (''time_in_force'', attr c ''time_in_force'' (PStr [])),
           (''client_order_id'', attr c ''client_order_id'' (PStr [])),
           (''idempotency_key'', attr c ''idempotency_key'' (PStr [])),
           (''order_id'', attr c ''order_id'' PNone),
           (''exchange'', attr c ''exchange'' (PStr (gc_exchange_type g))),
           (''market_type'', attr c ''market_type'' (PStr (gc_asset_type g)))]))"

definition failed_write :: "outside \<Rightarrow> GatewayConfig \<Rightarrow> command \<Rightarrow> exn \<Rightarrow> command_ack" where
  "failed_write ou g c e =
     make_ack ou g c False ''unknown'' []
       [(''execution_unknown'', PBool True), (''definite_reject'', PBool False),
        (''terminal_confirmed'', PBool False), (''error_code'', PStr (fst e))] (fst e)"

definition failed_read :: "outside \<Rightarrow> GatewayConfig \<Rightarrow> command \<Rightarrow> exn \<Rightarrow> command_ack" where
  "failed_read ou g c e = make_ack ou g c False ''rejected'' [] [] (snd e)"

text \<open>The adapter as the commands see it; \<open>ad_open_orders\<close> is \<open>None\<close> without that method.\<close>

record adapter_env =
  ad_balance :: "exn + pyval"
  ad_positions :: "exn + pyval"
  ad_open_orders :: "(exn + pyval) option"
  ad_place :: "(string \<times> pyval) list \<Rightarrow> exn + pyval"
  ad_cancel :: "(string \<times> pyval) list \<Rightarrow> exn + pyval"
  ad_subscribe :: "pyval list \<Rightarrow> exn + pyval"

definition no_attribute :: exn where
  "no_attribute = (''AttributeError'', ''NoneType object has no attribute'')"

text \<open>An order command after its payload is built: anything that goes wrong is unknown.\<close>

definition dispatch_write ::
    "outside \<Rightarrow> bool \<Rightarrow> string \<Rightarrow> (exn + pyval) \<Rightarrow> command \<Rightarrow> GatewayRuntime \<Rightarrow> command_ack \<times> GatewayRuntime" where
  "dispatch_write ou counts default_status answer c r =
     (case (if gr_adapter r then answer else Inl no_attribute) of
        Inl e \<Rightarrow> (failed_write ou (gr_config r) c e, record_error ''command'' e r)
      | Inr v \<Rightarrow>
          (case as_dict v of
             Inl e \<Rightarrow> (failed_write ou (gr_config r) c e, record_error ''command'' e r)
           | Inr d \<Rightarrow>
               (let result = write_result ou d default_status;
                    r1 = (if counts then r\<lparr>gr_order_count := gr_order_count r + 1\<rparr> else r)
                in (make_ack ou (gr_config r) c (kw result ''accepted'' = PBool True)
                      (py_str ou (kw result ''status''))
                      (py_str ou (py_or (kw result ''id'') (py_or (kw result ''order_id'') (PStr []))))
                      result [], r1))))"

definition read_ack ::
    "outside \<Rightarrow> command \<Rightarrow> (exn + (string \<times> pyval) list) \<Rightarrow> GatewayRuntime \<Rightarrow> command_ack \<times> GatewayRuntime" where
  "read_ack ou c payload r =
     (case payload of
        Inl e \<Rightarrow> (failed_read ou (gr_config r) c e, record_error ''command'' e r)
      | Inr p \<Rightarrow> (make_ack ou (gr_config r) c True ''ok'' [] p [], r))"

text \<open>\<open>list(extra.get("symbols") or [])\<close> and the command's own symbol.\<close>

definition command_symbols :: "outside \<Rightarrow> command \<Rightarrow> exn + pyval list" where
  "command_symbols ou c =
     bind_right
       (case attr c ''extra'' (PDict []) of
          PDict d \<Rightarrow>
            py_iter (py_or (kw d ''symbols'') (PList []))
        | _ \<Rightarrow> Inl no_attribute)
       (\<lambda>xs. Inr (if truthy (attr c ''symbol'' (PStr []))
                  then xs @ [PStr (py_str ou (attr c ''symbol'' (PStr [])))] else xs))"

definition handle_command ::
    "outside \<Rightarrow> adapter_env \<Rightarrow> command \<Rightarrow> GatewayRuntime \<Rightarrow> command_ack \<times> GatewayRuntime" where
  "handle_command ou ad c r =
     (let kind = py_lower (py_str ou (py_or (attr c ''command_type'' (PStr [])) (PStr [])))
      in if kind = ''get_account''
         then read_ack ou c
           (bind_right (if gr_adapter r then ad_balance ad else Inr (PDict [])) (\<lambda>v. as_dict (py_or v (PDict [])))) r
         else if kind = ''list_positions''
         then read_ack ou c
           (map_right (\<lambda>v. [(''positions'', v)]) (if gr_adapter r then ad_positions ad else Inr (PList []))) r
         else if kind = ''list_orders''
         then read_ack ou c
           (map_right (\<lambda>v. [(''orders'', v)])
             (case (if gr_adapter r then ad_open_orders ad else None) of None \<Rightarrow> Inr (PList []) | Some x \<Rightarrow> x)) r
         else if kind = ''place_order''
         then (case payload_from_order_command (gr_config r) c of
                 Inl e \<Rightarrow> (failed_read ou (gr_config r) c e, record_error ''command'' e r)
               | Inr p \<Rightarrow> dispatch_write ou True ''accepted'' (ad_place ad p) c r)
         else if kind = ''cancel_order''
         then (case payload_from_order_command (gr_config r) c of
                 Inl e \<Rightarrow> (failed_read ou (gr_config r) c e, record_error ''command'' e r)
               | Inr p \<Rightarrow> dispatch_write ou False ''canceled'' (ad_cancel ad p) c r)
         else if kind = ''subscribe''
         then (case bind_right (command_symbols ou c) (\<lambda>xs.
                      bind_right (if gr_adapter r then ad_subscribe ad xs else Inl no_attribute) (\<lambda>v. Inr (xs, v))) of
                 Inl e \<Rightarrow> (failed_read ou (gr_config r) c e, record_error ''command'' e r)
               | Inr (xs, v) \<Rightarrow>
                   read_ack ou c (as_dict (py_or v (PDict [])))
                     (r\<lparr>gr_subscriptions := foldl (\<lambda>s x. sadd (py_str ou x) s) (gr_subscriptions r) xs\<rparr>))
         else (make_ack ou (gr_config r) c False ''rejected'' [] [] (''unsupported command: '' @ kind), r))"

section \<open>The pump\<close>

record market_event =
  me_event_type :: string
  me_exchange :: string
  me_market_type :: string
  me_symbol :: string
  me_payload :: "(string \<times> pyval) list"

record private_event =
  pe_event_type :: string
  pe_account_id :: string
  pe_strategy_id :: string
  pe_client_order_id :: string
  pe_order_ref :: string
  pe_external_order_id :: string
  pe_order_sys_id :: string
  pe_trade_id :: string
  pe_id_source :: string
  pe_raw_fields :: "(string \<times> pyval) list"
  pe_payload :: "(string \<times> pyval) list"

text \<open>\<open>str(data.get(k1) or data.get(k2) or ... or default)\<close>\<close>

fun first_of :: "(string \<times> pyval) list \<Rightarrow> string list \<Rightarrow> pyval \<Rightarrow> pyval" where
  "first_of d [] dflt = dflt"
| "first_of d (k # ks) dflt = py_or (kw d k) (first_of d ks dflt)"

definition to_market_event :: "outside \<Rightarrow> GatewayConfig \<Rightarrow> (string \<times> pyval) list \<Rightarrow> market_event" where
  "to_market_event ou g data =
     \<lparr>me_event_type = py_str ou (first_of data [''event_type'', ''kind''] (PStr ''tick'')),
      me_exchange = py_str ou (first_of data [''exchange'', ''exchange_id''] (PStr (gc_exchange_type g))),
      me_market_type = py_str ou (first_of data [''market_type'', ''asset_type''] (PStr (gc_asset_type g))),
      me_symbol = py_str ou (first_of data [''symbol'', ''instrument'', ''instrument_id'', ''data_name''] (PStr [])),
      me_payload = data\<rparr>"

definition to_private_event :: "outside \<Rightarrow> GatewayConfig \<Rightarrow> (string \<times> pyval) list \<Rightarrow> exn + private_event" where
  "to_private_event ou g data =
     bind_right (as_dict (py_or (kw data ''raw_fields'') (PDict []))) (\<lambda>raw.
       let text = (\<lambda>ks dflt. py_str ou (first_of data ks (PStr dflt)))
       in Inr \<lparr>pe_event_type = text [''event_type'', ''kind''] ''event'',
               pe_account_id = text [''account_id''] (gc_account_id g),
               pe_strategy_id = text [''strategy_id''] [], pe_client_order_id = text [''client_order_id''] [],
               pe_order_ref = text [''order_ref''] [],
               pe_external_order_id = text [''external_order_id'', ''order_id''] [],
               pe_order_sys_id = text [''order_sys_id''] [], pe_trade_id = text [''trade_id''] [],
               pe_id_source = text [''id_source''] [], pe_raw_fields = raw, pe_payload = data\<rparr>)"

datatype polled = Nothing | PollRaises exn | Item string "(string \<times> pyval) list"

datatype published = ToMarket market_event | ToEvents private_event

text \<open>
  One turn of \<open>_pump_adapter_output\<close> with what the adapter gives and whether publishing
  raises: what goes out, and the runtime after it.
\<close>

definition pump_turn ::
    "outside \<Rightarrow> polled \<Rightarrow> exn option \<Rightarrow> GatewayRuntime \<Rightarrow> published list \<times> GatewayRuntime" where
  "pump_turn ou p publish_fails r =
     (case p of
        Nothing \<Rightarrow> ([], r)
      | PollRaises e \<Rightarrow> ([], record_error ''adapter_output'' e r)
      | Item channel data \<Rightarrow>
          if py_lower channel = ''market''
          then (case (if gr_market_pub r then publish_fails else None) of
                  Some e \<Rightarrow> ([], record_error ''publish'' e r)
                | None \<Rightarrow>
                    (if gr_market_pub r then [ToMarket (to_market_event ou (gr_config r) data)] else [],
                     r\<lparr>gr_tick_count := gr_tick_count r + 1\<rparr>))
          else (case to_private_event ou (gr_config r) data of
                  Inl e \<Rightarrow> ([], record_error ''publish'' e r)
                | Inr ev \<Rightarrow>
                    (case (if gr_event_pub r then publish_fails else None) of
                       Some e \<Rightarrow> ([], record_error ''publish'' e r)
                     | None \<Rightarrow>
                         (if gr_event_pub r then [ToEvents ev] else [],
                          r\<lparr>gr_order_count := gr_order_count r + 1\<rparr>))))"

section \<open>Health\<close>

text \<open>\<open>session\<close>: no such method, an exception, or the session's dict.\<close>

definition session_state :: "(exn + pyval) option \<Rightarrow> GatewayRuntime \<Rightarrow> (string \<times> pyval) list \<times> GatewayRuntime" where
  "session_state session r =
     (case (if gr_adapter r then session else None) of
        None \<Rightarrow> ([], r)
      | Some (Inl e) \<Rightarrow> ([], record_error ''session_state'' e r)
      | Some (Inr (PDict d)) \<Rightarrow> (d, r)
      | Some (Inr _) \<Rightarrow> ([], r))"

definition py_trunc :: "time \<Rightarrow> int" where
  "py_trunc t = (if t < 0 then - \<lfloor>- t\<rfloor> else \<lfloor>t\<rfloor>)"

record health =
  he_state :: runtime_state
  he_is_healthy :: bool
  he_market_connected :: bool
  he_uptime :: int
  he_heartbeat_age :: int
  he_symbol_count :: nat
  he_tick_count :: nat
  he_order_count :: nat
  he_auth_state :: string
  he_login_state :: string
  he_errors :: "(string \<times> string) list"

definition health_snapshot ::
    "outside \<Rightarrow> (exn + pyval) option \<Rightarrow> time \<Rightarrow> GatewayRuntime \<Rightarrow> health \<times> GatewayRuntime" where
  "health_snapshot ou session now r0 =
     (case session_state session r0 of
        (s, r) \<Rightarrow>
          (let connected = (gr_connected r \<and> gr_state r = Running);
               auth_state = py_str ou (py_or (kw s ''auth_state'') (PStr ''unknown''));
               login_state = py_str ou (py_or (kw s ''login_state'') (PStr ''unknown''));
               failed = (auth_state = ''failed'' \<or> login_state \<in> {''failed'', ''blocked''});
               beat = (if gr_last_heartbeat r \<noteq> 0 then gr_last_heartbeat r else now)
           in (\<lparr>he_state = gr_state r, he_is_healthy = (connected \<and> \<not> failed),
                he_market_connected = connected,
                he_uptime = (if gr_started_at r \<noteq> 0 then py_trunc (now - gr_started_at r) else 0),
                he_heartbeat_age = py_trunc (max (now - beat) 0),
                he_symbol_count = length (gr_subscriptions r), he_tick_count = gr_tick_count r,
                he_order_count = gr_order_count r, he_auth_state = auth_state, he_login_state = login_state,
                he_errors = gr_errors r\<rparr>, r)))"

end
