(* ===== verification/GatewayRuntimeCorrect.thy ===== *)
theory GatewayRuntimeCorrect
  imports GatewayRuntime
begin

text \<open>
  What the model of the gateway runtime guarantees: the resources it holds in each state, what
  an acknowledgement of an order command means, the bound on remembered errors, and when the
  health snapshot says healthy.
\<close>

section \<open>Resources\<close>

datatype life_op = OpStart start_fault exn cleanup_env time | OpStop cleanup_env | OpPumpEnds

fun life_step :: "GatewayRuntime \<Rightarrow> life_op \<Rightarrow> GatewayRuntime" where
  "life_step r (OpStart fault e ce now) = snd (start_in_thread fault e ce now r)"
| "life_step r (OpStop ce) = snd (gr_stop ce r)"
| "life_step r OpPumpEnds = (if gr_pump r then r else pump_ends r)"

definition closes :: "cleanup_env \<Rightarrow> bool" where
  "closes ce \<longleftrightarrow> ce_server_ok ce \<and> ce_event_ok ce \<and> ce_market_ok ce"

fun op_closes :: "life_op \<Rightarrow> bool" where
  "op_closes (OpStart fault e ce now) = closes ce"
| "op_closes (OpStop ce) = closes ce"
| "op_closes OpPumpEnds = True"

definition holds_nothing :: "GatewayRuntime \<Rightarrow> bool" where
  "holds_nothing r \<longleftrightarrow> \<not> gr_connected r \<and> \<not> gr_pump r \<and> \<not> gr_server r \<and> \<not> gr_event_pub r \<and> \<not> gr_market_pub r"

definition holds_all :: "GatewayRuntime \<Rightarrow> bool" where
  "holds_all r \<longleftrightarrow> gr_connected r \<and> gr_adapter r \<and> gr_pump r \<and> gr_server r \<and> gr_event_pub r \<and>
     gr_market_pub r \<and> \<not> gr_stop_event r"

lemma record_error_simps [simp]:
  "gr_state (record_error s e r) = gr_state r" "gr_connected (record_error s e r) = gr_connected r"
  "gr_pump (record_error s e r) = gr_pump r" "gr_server (record_error s e r) = gr_server r"
  "gr_event_pub (record_error s e r) = gr_event_pub r" "gr_market_pub (record_error s e r) = gr_market_pub r"
  "gr_adapter (record_error s e r) = gr_adapter r" "gr_config (record_error s e r) = gr_config r"
  "gr_live_pumps (record_error s e r) = gr_live_pumps r" "gr_stop_event (record_error s e r) = gr_stop_event r"
  by (simp_all add: record_error_def Let_def)

lemma stop_pump_simps [simp]:
  "gr_state (stop_pump ce r) = gr_state r" "gr_connected (stop_pump ce r) = gr_connected r"
  "\<not> gr_pump (stop_pump ce r)" "gr_server (stop_pump ce r) = gr_server r"
  "gr_event_pub (stop_pump ce r) = gr_event_pub r" "gr_market_pub (stop_pump ce r) = gr_market_pub r"
  "gr_adapter (stop_pump ce r) = gr_adapter r"
  by (simp_all add: stop_pump_def)

lemma close_channels_simps [simp]:
  "gr_state (snd (close_channels ce r)) = gr_state r" "gr_pump (snd (close_channels ce r)) = gr_pump r"
  by (simp_all add: close_channels_def)

lemma close_channels_ok:
  "fst (close_channels ce r) = False \<Longrightarrow> \<not> gr_server (snd (close_channels ce r)) \<and>
     \<not> gr_event_pub (snd (close_channels ce r)) \<and> \<not> gr_market_pub (snd (close_channels ce r))"
  by (cases "gr_server r \<and> \<not> ce_server_ok ce"; cases "gr_event_pub r \<and> \<not> ce_event_ok ce";
      cases "gr_market_pub r \<and> \<not> ce_market_ok ce") (simp_all add: close_channels_def)

lemma drop_adapter_simps [simp]:
  "gr_state (drop_adapter ce r) = gr_state r" "\<not> gr_connected (drop_adapter ce r)"
  "gr_pump (drop_adapter ce r) = gr_pump r" "gr_server (drop_adapter ce r) = gr_server r"
  "gr_event_pub (drop_adapter ce r) = gr_event_pub r" "gr_market_pub (drop_adapter ce r) = gr_market_pub r"
  by (simp_all add: drop_adapter_def split: option.split)

lemma cleanup_state [simp]: "gr_state (snd (cleanup ce r)) = gr_state r"
proof -
  obtain b q where c: "close_channels ce (stop_pump ce r) = (b, q)" by fastforce
  with close_channels_simps(1) [of ce "stop_pump ce r"] show ?thesis
    by (cases b) (simp_all add: cleanup_def)
qed

lemma cleanup_all:
  assumes "fst (cleanup ce r) = False"
  shows "holds_nothing (snd (cleanup ce r))"
proof -
  obtain b q where c: "close_channels ce (stop_pump ce r) = (b, q)" by fastforce
  with assms have "b = False" by (cases b) (simp_all add: cleanup_def)
  with c close_channels_ok [of ce "stop_pump ce r"] close_channels_simps(2) [of ce "stop_pump ce r"]
  show ?thesis by (simp add: cleanup_def holds_nothing_def)
qed

lemma cleanup_closes: "closes ce \<Longrightarrow> fst (cleanup ce r) = False"
  by (simp add: cleanup_def closes_def close_channels_def)

definition life_inv :: "GatewayRuntime \<Rightarrow> bool" where
  "life_inv r \<longleftrightarrow> (gr_state r = Running \<longrightarrow> holds_all r) \<and> (gr_state r = Stopped \<longrightarrow> holds_nothing r)"

lemma start_fails:
  assumes "gr_state r \<noteq> Running" "fault \<notin> {NoFault, NoBridge, NoAdapterClass}"
  shows "\<exists>q. gr_state q = ErrorState \<and> start_in_thread fault e ce now r = (True, snd (cleanup ce q))"
proof -
  have p: "gr_state r \<noteq> Running" "\<not> (fault = NoBridge \<or> fault = NoAdapterClass)" "fault \<noteq> NoFault"
    using assms by auto
  show ?thesis
    unfolding start_in_thread_def Let_def if_not_P [OF p(1)] if_not_P [OF p(2)] if_not_P [OF p(3)]
    by (rule exI, rule conjI [rotated], rule refl, simp)
qed

lemma start_cases:
  "start_in_thread fault e ce now r =
     (if gr_state r = Running then (False, r)
      else if fault = NoBridge \<or> fault = NoAdapterClass then (True, r)
      else (fault \<noteq> NoFault, snd (start_in_thread fault e ce now r))) \<and>
   (gr_state r \<noteq> Running \<longrightarrow> fault = NoFault \<longrightarrow>
     gr_state (snd (start_in_thread fault e ce now r)) = Running \<and>
     holds_all (snd (start_in_thread fault e ce now r))) \<and>
   (gr_state r \<noteq> Running \<longrightarrow> fault \<notin> {NoFault, NoBridge, NoAdapterClass} \<longrightarrow>
     (\<exists>q. gr_state q = ErrorState \<and> snd (start_in_thread fault e ce now r) = snd (cleanup ce q)))"
proof (cases "gr_state r = Running \<or> fault \<in> {NoFault, NoBridge, NoAdapterClass}")
  case True
  then show ?thesis by (auto simp: start_in_thread_def Let_def holds_all_def)
next
  case False
  then obtain q where "gr_state q = ErrorState" "start_in_thread fault e ce now r = (True, snd (cleanup ce q))"
    using start_fails [of r fault e ce now] by blast
  with False show ?thesis by auto
qed

lemma life_step_inv: "life_inv r \<Longrightarrow> life_inv (life_step r x)"
proof (cases x)
  case (OpStart fault e ce now)
  assume inv: "life_inv r"
  show ?thesis
  proof (cases "gr_state r = Running \<or> fault = NoBridge \<or> fault = NoAdapterClass")
    case True
    then show ?thesis using inv OpStart by (auto simp: start_in_thread_def)
  next
    case False
    then show ?thesis using start_cases [of fault e ce now r] OpStart
      by (cases "fault = NoFault") (auto simp: life_inv_def)
  qed
next
  case (OpStop ce)
  assume inv: "life_inv r"
  obtain b q where c: "cleanup ce (r\<lparr>gr_state := Stopping\<rparr>) = (b, q)" by fastforce
  have st: "gr_state q = Stopping" using cleanup_state [of ce "r\<lparr>gr_state := Stopping\<rparr>"] by (simp add: c)
  show ?thesis
  proof (cases b)
    case True
    then show ?thesis using inv OpStop c st by (auto simp: gr_stop_def life_inv_def)
  next
    case False
    then have "holds_nothing q" using cleanup_all [of ce "r\<lparr>gr_state := Stopping\<rparr>"] c by simp
    then show ?thesis using inv OpStop c False
      by (auto simp: gr_stop_def life_inv_def holds_nothing_def)
  qed
next
  case OpPumpEnds
  assume "life_inv r"
  then show ?thesis using OpPumpEnds
    by (auto simp: pump_ends_def life_inv_def holds_all_def holds_nothing_def)
qed

interpretation life: op_system "gr_new c" life_step life_inv for c
  by unfold_locales (simp_all add: life_step_inv, simp add: life_inv_def gr_new_def holds_nothing_def)

lemma life_clean:
  assumes "gr_state r = Running \<and> holds_all r \<or> gr_state r \<noteq> Running \<and> holds_nothing r" "op_closes x"
  defines "r' \<equiv> life_step r x"
  shows "gr_state r' = Running \<and> holds_all r' \<or> gr_state r' \<noteq> Running \<and> holds_nothing r'"
proof (cases x)
  case (OpStart fault e ce now)
  show ?thesis
  proof (cases "gr_state r = Running \<or> fault = NoBridge \<or> fault = NoAdapterClass")
    case True
    then show ?thesis using assms(1) OpStart by (auto simp: start_in_thread_def r'_def)
  next
    case False
    show ?thesis
    proof (cases "fault = NoFault")
      case True
      then show ?thesis using False start_cases [of fault e ce now r] OpStart by (auto simp: r'_def)
    next
      case noFault: False
      then obtain q where q: "gr_state q = ErrorState" "r' = snd (cleanup ce q)"
        using False start_cases [of fault e ce now r] OpStart by (auto simp: r'_def)
      have "holds_nothing r'"
        unfolding q(2) by (rule cleanup_all) (use assms(2) OpStart in \<open>simp add: cleanup_closes\<close>)
      then show ?thesis using q by simp
    qed
  qed
next
  case (OpStop ce)
  obtain b q where c: "cleanup ce (r\<lparr>gr_state := Stopping\<rparr>) = (b, q)" by fastforce
  have "\<not> b" using cleanup_closes [of ce "r\<lparr>gr_state := Stopping\<rparr>"] assms(2) OpStop c by simp
  then have "holds_nothing q" using cleanup_all [of ce "r\<lparr>gr_state := Stopping\<rparr>"] c by simp
  then show ?thesis using assms(1) OpStop c \<open>\<not> b\<close>
    by (auto simp: r'_def gr_stop_def holds_nothing_def)
next
  case OpPumpEnds
  then show ?thesis using assms(1)
    by (auto simp: r'_def pump_ends_def holds_all_def holds_nothing_def)
qed

text \<open>
  C16. After any sequence of starts and stops, whatever step of a start fails: a runtime that
  says it runs holds its adapter connection, both publishers, the command server and the
  pump, and a stopped one holds none of them. As long as closing does not raise, a runtime in
  any state other than running, the error state included, holds none of them.
\<close>

theorem runtime_resources:
  "(gr_state (foldl life_step (gr_new c) ops) = Running \<longrightarrow> holds_all (foldl life_step (gr_new c) ops)) \<and>
   (gr_state (foldl life_step (gr_new c) ops) = Stopped \<longrightarrow> holds_nothing (foldl life_step (gr_new c) ops)) \<and>
   (list_all op_closes ops \<longrightarrow> gr_state (foldl life_step (gr_new c) ops) \<noteq> Running \<longrightarrow>
      holds_nothing (foldl life_step (gr_new c) ops))"
proof -
  have "gr_state r = Running \<and> holds_all r \<or> gr_state r \<noteq> Running \<and> holds_nothing r \<Longrightarrow>
      list_all op_closes ops \<Longrightarrow>
      gr_state (foldl life_step r ops) = Running \<and> holds_all (foldl life_step r ops) \<or>
      gr_state (foldl life_step r ops) \<noteq> Running \<and> holds_nothing (foldl life_step r ops)" for r
  proof (induction ops arbitrary: r)
    case (Cons x ops)
    then have "op_closes x" "list_all op_closes ops" by simp_all
    from Cons.IH [OF life_clean [OF Cons.prems(1) this(1)] this(2)] show ?case by simp
  qed simp
  from this [of "gr_new c"] life.reach_inv [of c ops] show ?thesis
    by (auto simp: life_inv_def gr_new_def holds_nothing_def)
qed

theorem runtime_resources_witness:
  "\<forall>c. holds_nothing (foldl life_step (gr_new c)
     [OpStart ConnectFails (''OSError'', ''refused'') \<lparr>ce_join_ok = True, ce_server_ok = True, ce_event_ok = True,
        ce_market_ok = True, ce_disconnect = None\<rparr> 5])"
proof
  fix c
  let ?ops = "[OpStart ConnectFails (''OSError'', ''refused'') \<lparr>ce_join_ok = True, ce_server_ok = True,
     ce_event_ok = True, ce_market_ok = True, ce_disconnect = None\<rparr> 5]"
  have "gr_state (foldl life_step (gr_new c) ?ops) \<noteq> Running"
    by (simp add: start_in_thread_def gr_new_def Let_def)
  then show "holds_nothing (foldl life_step (gr_new c) ?ops)"
    using runtime_resources [of c ?ops] by (simp add: closes_def)
qed

lemma start_runs:
  "gr_state r \<noteq> Running \<Longrightarrow> gr_state (snd (start_in_thread NoFault e ce now r)) = Running \<and>
     gr_pump (snd (start_in_thread NoFault e ce now r)) \<and>
     gr_live_pumps (snd (start_in_thread NoFault e ce now r)) = gr_live_pumps r + 1"
  by (simp add: start_in_thread_def Let_def)

lemma cleanup_unjoined:
  assumes "gr_pump r" "\<not> ce_join_ok ce" "closes ce"
  shows "fst (cleanup ce r) = False \<and> gr_live_pumps (snd (cleanup ce r)) = gr_live_pumps r"
  using assms by (simp add: cleanup_def closes_def close_channels_def stop_pump_def drop_adapter_def
      split: option.split)

lemma stop_unjoined:
  assumes "gr_state r = Running" "gr_pump r" "\<not> ce_join_ok ce" "closes ce"
  shows "gr_state (snd (gr_stop ce r)) = Stopped \<and> gr_live_pumps (snd (gr_stop ce r)) = gr_live_pumps r"
proof -
  obtain b q where c: "cleanup ce (r\<lparr>gr_state := Stopping\<rparr>) = (b, q)" by fastforce
  from cleanup_unjoined [of "r\<lparr>gr_state := Stopping\<rparr>" ce] assms c
  show ?thesis by (simp add: gr_stop_def)
qed

text \<open>
  A stop whose join times out leaves its pump thread alive; the next start clears the
  stop event before that thread has seen it and starts another, so two pumps poll the
  adapter and publish at once.
\<close>

theorem restart_doubles_pump:
  assumes "\<not> ce_join_ok ce" "closes ce"
  shows "gr_live_pumps (foldl life_step (gr_new c)
     [OpStart NoFault e ce1 ta, OpStop ce, OpStart NoFault e ce1 tb]) = 2"
proof -
  let ?r1 = "snd (start_in_thread NoFault e ce1 ta (gr_new c))"
  have 1: "gr_state ?r1 = Running" "gr_pump ?r1" "gr_live_pumps ?r1 = 1"
    using start_runs [of "gr_new c" e ce1 ta] by (simp_all add: gr_new_def)
  let ?r2 = "snd (gr_stop ce ?r1)"
  have 2: "gr_state ?r2 = Stopped" "gr_live_pumps ?r2 = 1"
    using stop_unjoined [OF 1(1,2) assms] 1(3) by simp_all
  show ?thesis
    using start_runs [of ?r2 e ce1 tb] 2 by simp
qed

theorem restart_doubles_pump_witness:
  "\<exists>ce. \<forall>c e t. gr_live_pumps (foldl life_step (gr_new c)
     [OpStart NoFault e ce t, OpStop ce, OpStart NoFault e ce t]) = 2"
proof -
  let ?ce = "\<lparr>ce_join_ok = False, ce_server_ok = True, ce_event_ok = True, ce_market_ok = True, ce_disconnect = None\<rparr>"
  have "gr_live_pumps (foldl life_step (gr_new c)
     [OpStart NoFault e ?ce t, OpStop ?ce, OpStart NoFault e ?ce t]) = 2" for c e t
    by (rule restart_doubles_pump) (simp_all add: closes_def)
  then show ?thesis by blast
qed

section \<open>Errors\<close>

lemma record_error_bound: "length (gr_errors (record_error s e r)) \<le> 20"
  by (simp add: record_error_def Let_def)

section \<open>Order acknowledgements\<close>

text \<open>The three readings of an adapter's answer to an order command.\<close>

definition says_unknown :: "outside \<Rightarrow> (string \<times> pyval) list \<Rightarrow> string \<Rightarrow> bool" where
  "says_unknown ou d default_status \<longleftrightarrow> truthy (kw d ''execution_unknown'') \<or>
     py_lower (py_str ou (py_or (kw d ''status'') (PStr default_status))) = ''unknown''"

definition says_rejected :: "outside \<Rightarrow> (string \<times> pyval) list \<Rightarrow> string \<Rightarrow> bool" where
  "says_rejected ou d default_status \<longleftrightarrow>
     py_lower (py_str ou (py_or (kw d ''status'') (PStr default_status))) \<in> {''rejected'', ''error''} \<or>
     kw d ''accepted'' = PBool False \<or> truthy (kw d ''error'')"

lemma kw_update: "dict_ok e \<Longrightarrow> kw (dict_update d e) k = (case dget e k of Some v \<Rightarrow> v | None \<Rightarrow> kw d k)"
  by (simp add: kw_def dget_default_def dget_dict_update split: option.split)

lemma write_result_fields:
  "kw (write_result ou d s) ''accepted'' = PBool (\<not> says_unknown ou d s \<and> \<not> says_rejected ou d s)"
  "kw (write_result ou d s) ''status'' = PStr
     (if says_unknown ou d s then ''unknown'' else if says_rejected ou d s then ''rejected''
      else py_lower (py_str ou (py_or (kw d ''status'') (PStr s))))"
  "kw (write_result ou d s) ''error'' = kw d ''error''"
  "kw (write_result ou d s) ''execution_unknown'' =
     (if says_unknown ou d s then PBool True else if says_rejected ou d s then PBool False
      else kw d ''execution_unknown'')"
  by (auto simp: write_result_def Let_def says_unknown_def says_rejected_def kw_update)

text \<open>What the adapter answers to an order command, and the status it has by default.\<close>

definition order_answer :: "adapter_env \<Rightarrow> string \<Rightarrow> (string \<times> pyval) list \<Rightarrow> exn + pyval" where
  "order_answer ad kind p = (if kind = ''place_order'' then ad_place ad p else ad_cancel ad p)"

definition order_default :: "string \<Rightarrow> string" where
  "order_default kind = (if kind = ''place_order'' then ''accepted'' else ''canceled'')"

definition command_kind :: "outside \<Rightarrow> command \<Rightarrow> string" where
  "command_kind ou c = py_lower (py_str ou (py_or (attr c ''command_type'' (PStr [])) (PStr [])))"

lemma handle_order_command:
  assumes "command_kind ou c = kind" "kind \<in> {''place_order'', ''cancel_order''}"
  shows "handle_command ou ad c r =
    (case payload_from_order_command (gr_config r) c of
       Inl e \<Rightarrow> (failed_read ou (gr_config r) c e, record_error ''command'' e r)
     | Inr p \<Rightarrow> dispatch_write ou (kind = ''place_order'') (order_default kind) (order_answer ad kind p) c r)"
proof -
  from assms(2) consider "kind = ''place_order''" | "kind = ''cancel_order''" by blast
  then show ?thesis
    by cases (use assms(1) in \<open>simp_all add: handle_command_def command_kind_def order_default_def
        order_answer_def split: sum.split\<close>)
qed

lemma ack_simps [simp]:
  "ak_accepted (make_ack ou g c acc st oid pl why) = acc"
  "ak_status (make_ack ou g c acc st oid pl why) = st"
  "ak_payload (make_ack ou g c acc st oid pl why) = pl"
  by (simp_all add: make_ack_def)

lemma dispatch_write_cases:
  obtains (failed) e where "dispatch_write ou b s answer c r =
      (failed_write ou (gr_config r) c e, record_error ''command'' e r)"
  | (answered) v d oid r' where "answer = Inr v" "as_dict v = Inr d"
      "dispatch_write ou b s answer c r =
        (make_ack ou (gr_config r) c (kw (write_result ou d s) ''accepted'' = PBool True)
           (py_str ou (kw (write_result ou d s) ''status'')) oid (write_result ou d s) [], r')"
proof (cases "if gr_adapter r then answer else Inl no_attribute")
  case (Inl e)
  then show ?thesis by (intro failed) (simp add: dispatch_write_def)
next
  case (Inr v)
  then have v: "answer = Inr v" by (simp split: if_splits)
  show ?thesis
  proof (cases "as_dict v")
    case (Inl e)
    then show ?thesis by (intro failed) (simp add: dispatch_write_def Inr)
  next
    case d: (Inr d)
    show ?thesis
      by (rule answered [OF v d]) (simp add: dispatch_write_def Inr d Let_def)
  qed
qed

text \<open>
  C8. What an order acknowledgement lets the caller conclude. Accepted: the adapter answered,
  and its answer neither says unknown nor rejected. Rejected: either nothing was sent, since the
  payload could not be built, or the adapter's answer says rejected. An adapter call that
  raises is acknowledged as unknown with \<open>execution_unknown\<close> set, never as a rejection.
\<close>

theorem order_ack_sound:
  assumes "command_kind ou c = kind" "kind \<in> {''place_order'', ''cancel_order''}"
    and "handle_command ou ad c r = (a, r')"
  shows "(ak_accepted a \<longrightarrow> (\<exists>p v d. payload_from_order_command (gr_config r) c = Inr p \<and>
            order_answer ad kind p = Inr v \<and> as_dict v = Inr d \<and>
            \<not> says_unknown ou d (order_default kind) \<and> \<not> says_rejected ou d (order_default kind))) \<and>
    (ak_status a = ''rejected'' \<longrightarrow> (\<exists>e. payload_from_order_command (gr_config r) c = Inl e) \<or>
       (\<exists>p v d. order_answer ad kind p = Inr v \<and> as_dict v = Inr d \<and>
          says_rejected ou d (order_default kind))) \<and>
    (\<forall>p e. payload_from_order_command (gr_config r) c = Inr p \<longrightarrow> order_answer ad kind p = Inl e \<longrightarrow>
       \<not> ak_accepted a \<and> ak_status a = ''unknown'' \<and> kw (ak_payload a) ''execution_unknown'' = PBool True)"
proof (cases "payload_from_order_command (gr_config r) c")
  case (Inl e)
  with assms(3) show ?thesis unfolding handle_order_command [OF assms(1,2)]
    by (auto simp: failed_read_def)
next
  case (Inr p)
  let ?s = "order_default kind"
  have eq: "dispatch_write ou (kind = ''place_order'') ?s (order_answer ad kind p) c r = (a, r')"
    using assms(3) unfolding handle_order_command [OF assms(1,2)] by (simp add: Inr)
  show ?thesis
  proof (cases rule: dispatch_write_cases [of ou "kind = ''place_order''" ?s "order_answer ad kind p" c r])
    case (failed e)
    then have "a = failed_write ou (gr_config r) c e" using eq by simp
    then show ?thesis by (simp add: failed_write_def kw_def dget_default_def)
  next
    case (answered v d oid r1)
    then have acc: "ak_accepted a = (\<not> says_unknown ou d ?s \<and> \<not> says_rejected ou d ?s)"
      and st: "ak_status a = ''rejected'' \<Longrightarrow> says_rejected ou d ?s"
      using eq by (auto simp: write_result_fields py_str_def says_rejected_def split: if_splits)
    show ?thesis using Inr answered acc st by auto
  qed
qed

theorem order_ack_sound_witness:
  "\<forall>ou r. ak_status (fst (handle_command ou
     \<lparr>ad_balance = Inr PNone, ad_positions = Inr PNone, ad_open_orders = None,
      ad_place = \<lambda>_. Inl (''TimeoutError'', []), ad_cancel = \<lambda>_. Inr PNone, ad_subscribe = \<lambda>_. Inr PNone\<rparr>
     [(''command_type'', PStr ''place_order'')] r)) = ''unknown''"
proof (intro allI)
  fix ou r
  let ?ad = "\<lparr>ad_balance = Inr PNone, ad_positions = Inr PNone, ad_open_orders = None,
      ad_place = \<lambda>_. Inl (''TimeoutError'', []), ad_cancel = \<lambda>_. Inr PNone, ad_subscribe = \<lambda>_. Inr PNone\<rparr>"
  let ?c = "[(''command_type'', PStr ''place_order'')]"
  obtain a r' where h: "handle_command ou ?ad ?c r = (a, r')" by fastforce
  have kind: "command_kind ou ?c = ''place_order''"
    by (simp add: command_kind_def attr_def dget_default_def py_str_def py_or_def py_lower_def) code_simp
  have "\<exists>p. payload_from_order_command (gr_config r) ?c = Inr p"
    by (simp add: payload_from_order_command_def attr_def dget_default_def as_dict_def py_or_def)
  then show "ak_status (fst (handle_command ou ?ad ?c r)) = ''unknown''"
    using order_ack_sound [OF kind _ h] by (auto simp: h order_answer_def)
qed

section \<open>Health\<close>

lemma record_error_heartbeat [simp]:
  "gr_last_heartbeat (record_error s e r) = gr_last_heartbeat r" "gr_started_at (record_error s e r) = gr_started_at r"
  by (simp_all add: record_error_def Let_def)

lemma pump_turn_heartbeat:
  "gr_last_heartbeat (snd (pump_turn ou p f r)) = gr_last_heartbeat r \<and>
   gr_started_at (snd (pump_turn ou p f r)) = gr_started_at r"
proof (cases p)
  case (Item channel data)
  then show ?thesis
    by (cases "py_lower channel = ''market''"; cases "to_private_event ou (gr_config r) data";
        cases "gr_market_pub r"; cases "gr_event_pub r"; cases f) (simp_all add: pump_turn_def)
qed (simp_all add: pump_turn_def)

text \<open>
  The heartbeat is set when the runtime starts and by nothing else, so the age the health
  snapshot reports is the uptime however busy the pump is.
\<close>

lemma heartbeat_age_is_uptime:
  fixes turns :: "(polled \<times> exn option) list" and ou :: outside
  assumes "gr_last_heartbeat r = gr_started_at r" "0 < gr_started_at r" "gr_started_at r \<le> now"
  defines "q \<equiv> foldl (\<lambda>q (p, f). snd (pump_turn ou p f q)) r turns"
  shows "he_heartbeat_age (fst (health_snapshot ou None now q)) = he_uptime (fst (health_snapshot ou None now q))"
proof -
  have "gr_last_heartbeat (foldl (\<lambda>q (p, f). snd (pump_turn ou p f q)) r turns) = gr_last_heartbeat r \<and>
      gr_started_at (foldl (\<lambda>q (p, f). snd (pump_turn ou p f q)) r turns) = gr_started_at r"
    using pump_turn_heartbeat by (induction turns arbitrary: r) (simp_all add: case_prod_beta)
  then show ?thesis
    using assms(1-3) by (simp add: q_def health_snapshot_def session_state_def Let_def max_def)
qed

end
