(* ===== verification/Health.thy ===== *)
theory Health
  imports GatewayConfig
begin

text \<open>
  Model of \<open>src/bt_api_base/gateway/health.py\<close>: the health record of a gateway with its
  bounded list of errors, and its snapshot. The readings of the clock are parameters; \<open>round\<close>
  to two places goes to the nearest, the even one of two.
\<close>

datatype GatewayState = STARTING | RUNNING | STOPPING | STOPPED | ERROR

datatype ConnectionState = DISCONNECTED | CONNECTING | CONNECTED | RECONNECTING | ERROR

fun state_value :: "GatewayState \<Rightarrow> string" where
  "state_value STARTING = ''starting''"
| "state_value RUNNING = ''running''"
| "state_value STOPPING = ''stopping''"
| "state_value STOPPED = ''stopped''"
| "state_value GatewayState.ERROR = ''error''"

fun connection_value :: "ConnectionState \<Rightarrow> string" where
  "connection_value DISCONNECTED = ''disconnected''"
| "connection_value CONNECTING = ''connecting''"
| "connection_value CONNECTED = ''connected''"
| "connection_value RECONNECTING = ''reconnecting''"
| "connection_value ConnectionState.ERROR = ''error''"

record ErrorRecord =
  er_timestamp :: time
  er_source :: string
  er_message :: string

record GatewayHealth =
  gh_state :: GatewayState
  gh_market_conn :: ConnectionState
  gh_trade_conn :: ConnectionState
  gh_last_heartbeat :: time
  gh_last_tick_time :: time
  gh_last_order_time :: time
  gh_start_time :: time
  gh_strategy_count :: nat
  gh_symbol_count :: nat
  gh_tick_count :: nat
  gh_order_count :: nat
  gh_errors :: "ErrorRecord list"
  gh_max_errors :: nat
  gh_extra :: "(string \<times> pyval) list"

definition gh_new :: "nat \<Rightarrow> GatewayHealth" where
  "gh_new max_errors =
     \<lparr>gh_state = STOPPED, gh_market_conn = DISCONNECTED, gh_trade_conn = DISCONNECTED,
      gh_last_heartbeat = 0, gh_last_tick_time = 0, gh_last_order_time = 0, gh_start_time = 0,
      gh_strategy_count = 0, gh_symbol_count = 0, gh_tick_count = 0, gh_order_count = 0,
      gh_errors = [], gh_max_errors = max_errors, gh_extra = []\<rparr>"

definition set_state :: "GatewayState \<Rightarrow> time \<Rightarrow> GatewayHealth \<Rightarrow> GatewayHealth" where
  "set_state s now h =
     (if s = RUNNING then h\<lparr>gh_state := s, gh_start_time := now\<rparr> else h\<lparr>gh_state := s\<rparr>)"

definition update_market_connection :: "ConnectionState \<Rightarrow> GatewayHealth \<Rightarrow> GatewayHealth" where
  "update_market_connection s h = h\<lparr>gh_market_conn := s\<rparr>"

definition update_trade_connection :: "ConnectionState \<Rightarrow> GatewayHealth \<Rightarrow> GatewayHealth" where
  "update_trade_connection s h = h\<lparr>gh_trade_conn := s\<rparr>"

definition record_heartbeat :: "time \<Rightarrow> GatewayHealth \<Rightarrow> GatewayHealth" where
  "record_heartbeat now h = h\<lparr>gh_last_heartbeat := now\<rparr>"

definition record_tick :: "time \<Rightarrow> GatewayHealth \<Rightarrow> GatewayHealth" where
  "record_tick now h = h\<lparr>gh_tick_count := gh_tick_count h + 1, gh_last_tick_time := now\<rparr>"

definition record_order :: "time \<Rightarrow> GatewayHealth \<Rightarrow> GatewayHealth" where
  "record_order now h = h\<lparr>gh_order_count := gh_order_count h + 1, gh_last_order_time := now\<rparr>"

definition update_counts :: "nat \<Rightarrow> nat \<Rightarrow> GatewayHealth \<Rightarrow> GatewayHealth" where
  "update_counts strategies symbols h = h\<lparr>gh_strategy_count := strategies, gh_symbol_count := symbols\<rparr>"

text \<open>A \<open>deque\<close> with a maximal length drops from its left end.\<close>

definition push_bounded :: "nat \<Rightarrow> 'a \<Rightarrow> 'a list \<Rightarrow> 'a list" where
  "push_bounded n x xs = drop (length (xs @ [x]) - n) (xs @ [x])"

definition health_error :: "string \<Rightarrow> string \<Rightarrow> time \<Rightarrow> GatewayHealth \<Rightarrow> GatewayHealth" where
  "health_error source message now h =
     h\<lparr>gh_errors := push_bounded (gh_max_errors h)
        \<lparr>er_timestamp = now, er_source = source, er_message = message\<rparr> (gh_errors h)\<rparr>"

definition set_extra :: "string \<Rightarrow> pyval \<Rightarrow> GatewayHealth \<Rightarrow> GatewayHealth" where
  "set_extra k v h = h\<lparr>gh_extra := dset k v (gh_extra h)\<rparr>"

definition is_healthy :: "GatewayHealth \<Rightarrow> bool" where
  "is_healthy h \<longleftrightarrow> gh_state h = RUNNING \<and> gh_market_conn h = CONNECTED"

definition round_even :: "rat \<Rightarrow> int" where
  "round_even r =
     (let f = \<lfloor>r\<rfloor>; d = r - of_int f
      in if d < 1 / 2 then f else if 1 / 2 < d then f + 1 else if even f then f else f + 1)"

definition round2 :: "rat \<Rightarrow> rat" where
  "round2 r = of_int (round_even (100 * r)) / 100"

definition or_none :: "time \<Rightarrow> pyval" where
  "or_none t = (if t = 0 then PNone else PFloat t)"

definition gh_snapshot :: "time \<Rightarrow> GatewayHealth \<Rightarrow> (string \<times> pyval) list" where
  "gh_snapshot now h =
     dict_update
       [(''state'', PStr (state_value (gh_state h))), (''is_healthy'', PBool (is_healthy h)),
        (''market_connection'', PStr (connection_value (gh_market_conn h))),
        (''trade_connection'', PStr (connection_value (gh_trade_conn h))),
        (''uptime_sec'', PFloat (round2 (if 0 < gh_start_time h then now - gh_start_time h else 0))),
        (''last_heartbeat'', or_none (gh_last_heartbeat h)),
        (''heartbeat_age_sec'',
           if 0 < gh_last_heartbeat h then PFloat (round2 (now - gh_last_heartbeat h)) else PNone),
        (''last_tick_time'', or_none (gh_last_tick_time h)),
        (''last_order_time'', or_none (gh_last_order_time h)),
        (''strategy_count'', PInt (int (gh_strategy_count h))),
        (''symbol_count'', PInt (int (gh_symbol_count h))),
        (''tick_count'', PInt (int (gh_tick_count h))), (''order_count'', PInt (int (gh_order_count h))),
        (''recent_errors'', PList (map (\<lambda>e. PDict
           [(''timestamp'', PFloat (er_timestamp e)), (''source'', PStr (er_source e)),
            (''message'', PStr (er_message e))]) (gh_errors h)))]
       (gh_extra h)"

section \<open>Facts\<close>

lemma length_push_bounded: "length (push_bounded n x xs) = min n (Suc (length xs))"
  by (simp add: push_bounded_def)

lemma push_bounded_last: "0 < n \<Longrightarrow> last (push_bounded n x xs) = x \<and> push_bounded n x xs \<noteq> []"
  by (simp add: push_bounded_def)

lemma push_bounded_suffix: "set (push_bounded n x xs) \<subseteq> insert x (set xs)"
  unfolding push_bounded_def using set_drop_subset [of "length (xs @ [x]) - n" "xs @ [x]"] by auto

text \<open>What the updates leave alone: each changes its own fields only.\<close>

lemmas health_updates =
  set_state_def update_market_connection_def update_trade_connection_def record_heartbeat_def
  record_tick_def record_order_def update_counts_def health_error_def set_extra_def

lemma trade_conn_simps [simp]:
  "gh_trade_conn (set_state s now h) = gh_trade_conn h"
  "gh_trade_conn (update_market_connection c h) = gh_trade_conn h"
  "gh_trade_conn (update_trade_connection c h) = c"
  "gh_trade_conn (record_heartbeat now h) = gh_trade_conn h"
  "gh_trade_conn (record_tick now h) = gh_trade_conn h"
  "gh_trade_conn (record_order now h) = gh_trade_conn h"
  "gh_trade_conn (update_counts m n h) = gh_trade_conn h"
  "gh_trade_conn (health_error a b now h) = gh_trade_conn h"
  "gh_trade_conn (set_extra k v h) = gh_trade_conn h"
  by (simp_all add: health_updates)

lemma health_state_simps [simp]:
  "gh_state (set_state s now h) = s"
  "gh_state (update_market_connection c h) = gh_state h"
  "gh_state (update_trade_connection c h) = gh_state h"
  "gh_state (record_heartbeat now h) = gh_state h"
  "gh_state (record_tick now h) = gh_state h"
  "gh_state (record_order now h) = gh_state h"
  "gh_state (update_counts m n h) = gh_state h"
  "gh_state (health_error a b now h) = gh_state h"
  "gh_state (set_extra k v h) = gh_state h"
  by (simp_all add: health_updates)

end
