(* ===== verification/RemoteRuntime.thy ===== *)
theory RemoteRuntime
  imports Health GatewayRuntime Subscriptions OrderIds OrderRefs "HOL-Library.List_Lexorder" "HOL-Library.Char_ord"
begin

text \<open>
  Model of \<open>src/bt_api_base/gateway/runtime_remote.py\<close>: the gateway process that serves requests
  over a socket. It composes the subscription manager, the order identity map, the order
  reference allocator and the health record of the other theories. Outside, and so
  parameters: the ZeroMQ sockets (whether the binds succeed, what is received) and the adapter.
  Sends succeed; symbols are strings. The optional tick writer is not part of this state:
  theory \<open>RemoteTicks\<close> composes this runtime with the writer of theory \<open>TickWriter\<close>.
  What a request or a flush sends is a list of messages in their order.
\<close>

section \<open>State\<close>

record RemoteRuntime =
  rr_config :: GatewayConfig
  rr_running :: bool
  rr_adapter_connected :: bool
  rr_sockets :: bool
  rr_subs :: SubscriptionManager
  rr_orders :: OrderIdentityMap
  rr_health :: GatewayHealth
  rr_refs :: "OrderRefAllocator option"
  rr_trades :: "(string \<times> pyval) list list"
  rr_trades_limit :: nat
  rr_heartbeat :: time
  rr_asked :: "string list list"

text \<open>
  \<open>rr_asked\<close> has the calls of the adapter's \<open>subscribe_symbols\<close> so far. An exception of
  another theory as one of this: the class name and a text.
\<close>

definition raised :: "pyerr \<Rightarrow> exn" where
  "raised e =
     (case e of
        TypeError \<Rightarrow> (''TypeError'', ''type'') | ValueError \<Rightarrow> (''ValueError'', ''value'')
      | OverflowError \<Rightarrow> (''OverflowError'', ''cannot convert float infinity to integer'')
      | KeyError \<Rightarrow> (''KeyError'', ''key'') | AttributeError \<Rightarrow> (''AttributeError'', ''attribute'')
      | RuntimeError \<Rightarrow> (''RuntimeError'', ''runtime'') | TimeoutError \<Rightarrow> (''TimeoutError'', ''timeout'')
      | OSError \<Rightarrow> (''OSError'', ''os'') | LookupError \<Rightarrow> (''LookupError'', ''lookup'')
      | ConnectionErr \<Rightarrow> (''ConnectionError'', ''connection''))"

definition int_or :: "pyval \<Rightarrow> int \<Rightarrow> exn + int" where
  "int_or v dflt = (case py_int (py_or v (PInt dflt)) of Inl e \<Rightarrow> Inl (raised e) | Inr i \<Rightarrow> Inr i)"

record remote_adapter = adapter_env +
  ra_bars :: "string \<Rightarrow> string \<Rightarrow> int \<Rightarrow> exn + pyval"
  ra_symbol_info :: "string \<Rightarrow> exn + pyval"
  ra_trades :: "(string option \<Rightarrow> int \<Rightarrow> exn + pyval) option"

abbreviation with_health :: "(GatewayHealth \<Rightarrow> GatewayHealth) \<Rightarrow> RemoteRuntime \<Rightarrow> RemoteRuntime" where
  "with_health f r \<equiv> r\<lparr>rr_health := f (rr_health r)\<rparr>"

text \<open>The text of an exception in a health record.\<close>

definition exn_text :: "exn \<Rightarrow> string" where
  "exn_text e = fst e @ '': '' @ snd e"

definition rr_new :: "GatewayConfig \<Rightarrow> OrderRefAllocator \<Rightarrow> int \<Rightarrow> RemoteRuntime" where
  "rr_new g refs recent_trades_limit =
     \<lparr>rr_config = g, rr_running = False, rr_adapter_connected = False, rr_sockets = False,
      rr_subs = sub_init, rr_orders = om_init,
      rr_health = set_extra ''account_id'' (PStr (gc_account_id g))
        (set_extra ''asset_type'' (PStr (gc_asset_type g))
          (set_extra ''exchange'' (PStr (gc_exchange_type g)) (gh_new 50))),
      rr_refs = (if gc_exchange_type g = ''CTP'' then Some refs else None),
      rr_trades = [], rr_trades_limit = nat (max recent_trades_limit 1), rr_heartbeat = 0,
      rr_asked = []\<rparr>"

section \<open>Order identities\<close>

definition order_text :: "outside \<Rightarrow> (string \<times> pyval) list \<Rightarrow> string list \<Rightarrow> string option" where
  "order_text ou row keys =
     map_option (\<lambda>k. py_strip (py_str ou (kw row k))) (List.find (\<lambda>k. \<not> blank (kw row k)) keys)"

definition nested_order_text :: "outside \<Rightarrow> (string \<times> pyval) list \<Rightarrow> string list \<Rightarrow> string option" where
  "nested_order_text ou row keys =
     (let direct = order_text ou row keys
      in if truthy_str direct then direct
         else case kw row ''details'' of PDict d \<Rightarrow> order_text ou d keys | _ \<Rightarrow> None)"

definition result_client_keys :: "string list" where
  "result_client_keys =
     [''client_order_id'', ''order_ref'', ''bt_order_ref'', ''clOrdId'', ''clientOrderId'', ''OrderRef'']"

definition event_client_keys :: "string list" where
  "event_client_keys =
     [''client_order_id'', ''order_ref'', ''bt_order_ref'', ''ctp_order_ref'', ''clOrdId'',
      ''clientOrderId'', ''OrderRef'']"

definition venue_keys :: "string list" where
  "venue_keys =
     [''venue_order_id'', ''external_order_id'', ''order_id'', ''ordId'', ''OrderSysID'',
      ''orderSysId'', ''ticket'', ''id'']"

definition dict_rows :: "pyval \<Rightarrow> (string \<times> pyval) list list" where
  "dict_rows v =
     (case v of
        PDict d \<Rightarrow> [d]
      | PList xs \<Rightarrow> List.map_filter (\<lambda>x. case x of PDict d \<Rightarrow> Some d | _ \<Rightarrow> None) xs
      | _ \<Rightarrow> [])"

definition first_id :: "outside \<Rightarrow> (string \<times> pyval) list list \<Rightarrow> string list \<Rightarrow> string option" where
  "first_id ou rows keys =
     (case List.find truthy_str (map (\<lambda>row. nested_order_text ou row keys) rows) of
        Some oid \<Rightarrow> oid
      | None \<Rightarrow> None)"

definition record_order_result_ids ::
    "outside \<Rightarrow> string \<Rightarrow> (string \<times> pyval) list \<Rightarrow> pyval \<Rightarrow> OrderIdentityMap \<Rightarrow> OrderIdentityMap" where
  "record_order_result_ids ou request_id payload result m =
     (let rows = dict_rows result @ [payload];
          m1 = (case first_id ou rows result_client_keys of
                  Some oid \<Rightarrow> snd (set_client_order_id m request_id oid) | None \<Rightarrow> m)
      in case first_id ou rows venue_keys of
           Some oid \<Rightarrow> snd (set_venue_order_id m1 request_id oid)
         | None \<Rightarrow> m1)"

section \<open>Subscriptions\<close>

definition sync_health_counts :: "RemoteRuntime \<Rightarrow> RemoteRuntime" where
  "sync_health_counts r =
     with_health (update_counts (strategy_count (rr_subs r)) (symbol_count (rr_subs r))) r"

definition texts :: "outside \<Rightarrow> pyval list \<Rightarrow> string list" where
  "texts ou vs = filter (\<lambda>s. s \<noteq> []) (map (py_str ou) vs)"

text \<open>What the adapter accepted and skipped; an answer that is no dict accepts everything.\<close>

definition adapter_answer :: "outside \<Rightarrow> string list \<Rightarrow> pyval \<Rightarrow> exn + string list \<times> string list" where
  "adapter_answer ou newly_requested v =
     (case v of
        PDict d \<Rightarrow>
          bind_right (py_iter (first_of d [''accepted'', ''symbols'', ''subscribed''] (PList []))) (\<lambda>acc.
          bind_right (py_iter (first_of d [''skipped'', ''skipped_symbols''] (PList []))) (\<lambda>skip.
            Inr (texts ou acc, texts ou skip)))
      | _ \<Rightarrow> Inr (newly_requested, []))"

record subscribed =
  sr_subscribed :: "string list"
  sr_accepted :: "string list"
  sr_skipped :: "string list"

definition subscribe_for_strategy ::
    "outside \<Rightarrow> (pyval list \<Rightarrow> exn + pyval) \<Rightarrow> string \<Rightarrow> pyval list \<Rightarrow> RemoteRuntime
     \<Rightarrow> (exn + subscribed) \<times> RemoteRuntime" where
  "subscribe_for_strategy ou adapter_subscribe strategy_id symbols r =
     (let requested = texts ou symbols
      in if requested = []
         then (Inr \<lparr>sr_subscribed = [], sr_accepted = [], sr_skipped = []\<rparr>, sync_health_counts r)
         else
           (let existing = get_active_symbols (rr_subs r);
                already_active = filter (\<lambda>s. s \<in> set existing) requested;
                newly_requested = filter (\<lambda>s. s \<notin> set existing) requested;
                r1 = (if newly_requested \<noteq> [] then r\<lparr>rr_asked := rr_asked r @ [newly_requested]\<rparr> else r)
            in case (if newly_requested = [] then Inr ([], [])
                     else bind_right (adapter_subscribe (map PStr newly_requested))
                            (adapter_answer ou newly_requested)) of
                 Inl e \<Rightarrow> (Inl e, r1)
               | Inr (accepted_new, skipped) \<Rightarrow>
                   (let (_, m1) = sub_add (rr_subs r1) strategy_id already_active;
                        (newly, m2) = sub_add m1 strategy_id accepted_new;
                        accepted_total = sort (remdups (already_active @ accepted_new))
                    in (Inr \<lparr>sr_subscribed = sort newly, sr_accepted = accepted_total,
                             sr_skipped = sort (remdups (filter (\<lambda>s. s \<notin> set accepted_total) skipped))\<rparr>,
                        sync_health_counts (r1\<lparr>rr_subs := m2\<rparr>)))))"

section \<open>Trades\<close>

definition compact_symbol :: "string \<Rightarrow> string" where
  "compact_symbol s = filter alnum (py_upper s)"

definition symbol_keys :: "string list" where
  "symbol_keys =
     [''symbol'', ''data_name'', ''instrument'', ''instrument_id'', ''InstrumentID'', ''instId'',
      ''position_symbol_name'', ''symbol_name'']"

definition trade_symbol_matches :: "outside \<Rightarrow> (string \<times> pyval) list \<Rightarrow> string \<Rightarrow> bool" where
  "trade_symbol_matches ou row symbol =
     (let expected = compact_symbol symbol
      in expected = [] \<or>
         list_ex (\<lambda>k. compact_symbol (py_str ou (py_or (kw row k) (PStr []))) = expected) symbol_keys)"

definition filter_trade_rows ::
    "outside \<Rightarrow> pyval \<Rightarrow> string option \<Rightarrow> nat \<Rightarrow> (string \<times> pyval) list list" where
  "filter_trade_rows ou rows symbol limit =
     (case rows of
        PList xs \<Rightarrow>
          (let out = filter (\<lambda>row. truthy_str symbol \<longrightarrow> trade_symbol_matches ou row (the symbol)) (dict_rows rows)
           in drop (length out - limit) out)
      | _ \<Rightarrow> [])"

definition get_trades ::
    "outside \<Rightarrow> remote_adapter \<Rightarrow> time \<Rightarrow> string option \<Rightarrow> int \<Rightarrow> RemoteRuntime
     \<Rightarrow> (string \<times> pyval) list list \<times> RemoteRuntime" where
  "get_trades ou ad now symbol limit r =
     (let n = max (if limit = 0 then 100 else limit) 1;
          (rows, r1) =
            (case ra_trades ad of
               None \<Rightarrow> (PNone, r)
             | Some getter \<Rightarrow>
                 (case getter symbol n of
                    Inr rows \<Rightarrow> (rows, r)
                  | Inl e \<Rightarrow> (PList [], with_health (health_error ''get_trades'' (exn_text e) now) r)))
      in (filter_trade_rows ou (if truthy rows then rows else PList (map PDict (rr_trades r1))) symbol (nat n), r1))"

definition record_trade_event :: "outside \<Rightarrow> pyval \<Rightarrow> RemoteRuntime \<Rightarrow> RemoteRuntime" where
  "record_trade_event ou payload r =
     (case payload of
        PDict d \<Rightarrow>
          if py_lower (py_strip (py_str ou (py_or (kw d ''kind'') (PStr [])))) = ''trade''
          then r\<lparr>rr_trades := push_bounded (rr_trades_limit r) d (rr_trades r)\<rparr> else r
      | _ \<Rightarrow> r)"

section \<open>Requests\<close>

definition str_list :: "string list \<Rightarrow> pyval" where
  "str_list ss = PList (map PStr ss)"

definition text_of :: "outside \<Rightarrow> (string \<times> pyval) list \<Rightarrow> string \<Rightarrow> string \<Rightarrow> string" where
  "text_of ou d k dflt = py_str ou (py_or (kw d k) (PStr dflt))"

definition symbols_of :: "(string \<times> pyval) list \<Rightarrow> exn + pyval list" where
  "symbols_of d = py_iter (py_or (kw d ''symbols'') (PList []))"

text \<open>\<open>register_strategy\<close>: before the adapter is connected the symbols are only counted.\<close>

definition register_strategy ::
    "outside \<Rightarrow> (pyval list \<Rightarrow> exn + pyval) \<Rightarrow> string \<Rightarrow> pyval list \<Rightarrow> RemoteRuntime \<Rightarrow> (exn + pyval) \<times> RemoteRuntime" where
  "register_strategy ou adapter_subscribe sid symbols r =
     (let answer = (\<lambda>newly accepted skipped. PDict
            [(''strategy_id'', PStr sid), (''newly_subscribed'', str_list newly),
             (''accepted'', str_list accepted), (''skipped'', str_list skipped)])
      in if rr_adapter_connected r
         then (case subscribe_for_strategy ou adapter_subscribe sid symbols r of
                 (Inl e, r1) \<Rightarrow> (Inl e, r1)
               | (Inr a, r1) \<Rightarrow> (Inr (answer (sr_subscribed a) (sr_accepted a) (sr_skipped a)), r1))
         else (case sub_add (rr_subs r) sid (map (py_str ou) symbols) of
                 (newly, m) \<Rightarrow>
                   (Inr (answer (sort newly) (sort (map (py_str ou) symbols)) []),
                    sync_health_counts (r\<lparr>rr_subs := m\<rparr>))))"

text \<open>
  \<open>place_order\<close>: the order is registered, gets a reference where references are allocated, and
  is counted; then the adapter is called with the payload that has the reference.
\<close>

definition identify_order ::
    "outside \<Rightarrow> bool \<Rightarrow> (string \<times> pyval) list \<Rightarrow> OrderRefAllocator option \<Rightarrow> OrderIdentityMap
     \<Rightarrow> (string \<times> pyval) list \<times> OrderRefAllocator option \<times> OrderIdentityMap" where
  "identify_order ou writable payload refs m =
     (let request_id = text_of ou payload ''request_id'' [];
          strategy_id = text_of ou payload ''strategy_id'' ''default'';
          cid = order_text ou payload [''client_order_id'', ''order_ref'', ''bt_order_ref''];
          payload1 = (if truthy_str cid \<and> \<not> truthy (kw payload ''client_order_id'')
                      then dset ''client_order_id'' (PStr (the cid)) payload else payload);
          m1 = snd (om_register m request_id strategy_id cid None
                 (case kw payload ''symbol'' of PNone \<Rightarrow> None | v \<Rightarrow> Some (py_str ou v)) [])
      in case refs of
           None \<Rightarrow> (payload1, None, m1)
         | Some a \<Rightarrow>
             (case oa_next writable a of
                (oid, a') \<Rightarrow>
                  (dset ''client_order_id'' (PStr oid) payload1, Some a',
                   snd (set_client_order_id m1 request_id oid))))"

definition place_order_command ::
    "outside \<Rightarrow> ((string \<times> pyval) list \<Rightarrow> exn + pyval) \<Rightarrow> bool \<Rightarrow> time \<Rightarrow> (string \<times> pyval) list \<Rightarrow> RemoteRuntime
     \<Rightarrow> (exn + pyval) \<times> RemoteRuntime" where
  "place_order_command ou adapter_place writable now payload r =
     (case identify_order ou writable payload (rr_refs r) (rr_orders r) of
        (payload1, refs, m) \<Rightarrow>
          (let r1 = with_health (record_order now) (r\<lparr>rr_orders := m, rr_refs := refs\<rparr>)
           in case adapter_place payload1 of
                Inl e \<Rightarrow> (Inl e, r1)
              | Inr result \<Rightarrow>
                  (Inr result,
                   r1\<lparr>rr_orders := record_order_result_ids ou (text_of ou payload ''request_id'' [])
                                    payload1 result m\<rparr>)))"

text \<open>The commands that need a connected adapter.\<close>

definition adapter_command ::
    "outside \<Rightarrow> remote_adapter \<Rightarrow> bool \<Rightarrow> time \<Rightarrow> string \<Rightarrow> (string \<times> pyval) list \<Rightarrow> RemoteRuntime
     \<Rightarrow> (exn + pyval) \<times> RemoteRuntime" where
  "adapter_command ou ad writable now command payload r =
     (if command = ''get_balance'' then (ad_balance ad, r)
      else if command = ''get_positions'' then (ad_positions ad, r)
      else if command = ''get_trades''
      then (let symbol = py_strip (text_of ou payload ''symbol'' [])
            in case int_or (kw payload ''limit'') 100 of
                 Inl e \<Rightarrow> (Inl e, r)
               | Inr limit \<Rightarrow>
                   (case get_trades ou ad now (if symbol = [] then None else Some symbol) limit r of
                      (rows, r1) \<Rightarrow> (Inr (PList (map PDict rows)), r1)))
      else if command = ''place_order'' then place_order_command ou (ad_place ad) writable now payload r
      else if command = ''cancel_order'' then (ad_cancel ad payload, r)
      else if command = ''get_bars''
      then (bind_right (int_or (kw payload ''count'') 100)
              (ra_bars ad (text_of ou payload ''symbol'' []) (text_of ou payload ''timeframe'' ''M1'')), r)
      else if command = ''get_symbol_info'' then (ra_symbol_info ad (text_of ou payload ''symbol'' []), r)
      else if command = ''get_open_orders''
      then (case ad_open_orders ad of None \<Rightarrow> Inl no_attribute | Some x \<Rightarrow> x, r)
      else (Inl (''ValueError'', ''unsupported command: '' @ command), r))"

definition dispatch ::
    "outside \<Rightarrow> remote_adapter \<Rightarrow> bool \<Rightarrow> time \<Rightarrow> string \<Rightarrow> (string \<times> pyval) list \<Rightarrow> RemoteRuntime
     \<Rightarrow> (exn + pyval) \<times> RemoteRuntime" where
  "dispatch ou ad writable now command payload r =
     (if command = ''ping''
      then (Inr (PDict [(''ready'', PBool (rr_adapter_connected r))]), with_health (record_heartbeat now) r)
      else if command = ''register_strategy''
      then (case symbols_of payload of
              Inl e \<Rightarrow> (Inl e, r)
            | Inr symbols \<Rightarrow>
                register_strategy ou (ad_subscribe ad) (text_of ou payload ''strategy_id'' []) symbols r)
      else if command = ''unregister_strategy''
      then (let sid = text_of ou payload ''strategy_id'' []
            in case remove_strategy (rr_subs r) sid of
                 (removed, m) \<Rightarrow>
                   (Inr (PDict [(''strategy_id'', PStr sid), (''unsubscribed'', str_list (sort removed))]),
                    sync_health_counts (r\<lparr>rr_subs := m\<rparr>)))
      else if command = ''health'' then (Inr (PDict (gh_snapshot now (rr_health r))), r)
      else if \<not> rr_adapter_connected r
      then (Inl (''RuntimeError'', ''adapter not yet connected, cannot execute: '' @ command), r)
      else if command = ''subscribe''
      then (case symbols_of payload of
              Inl e \<Rightarrow> (Inl e, r)
            | Inr symbols \<Rightarrow>
                (case subscribe_for_strategy ou (ad_subscribe ad)
                        (text_of ou payload ''strategy_id'' ''default'') symbols r of
                   (Inl e, r1) \<Rightarrow> (Inl e, r1)
                 | (Inr a, r1) \<Rightarrow>
                     (Inr (PDict [(''subscribed'', str_list (sr_subscribed a)),
                                  (''accepted'', str_list (sr_accepted a)),
                                  (''skipped'', str_list (sr_skipped a))]), r1)))
      else adapter_command ou ad writable now command payload r)"

datatype outgoing = Reply pyval | OnChannel string pyval

text \<open>
  One poll of the command socket: no request, bytes that are not JSON, or a decoded message.
  The result has the exception that leaves \<open>_handle_commands\<close>, if any, and what was sent.
\<close>

datatype frame = NoRequest | NotDecodable | Request pyval

definition setdefault :: "string \<Rightarrow> 'v \<Rightarrow> (string \<times> 'v) list \<Rightarrow> (string \<times> 'v) list" where
  "setdefault k v d = (if k \<in> set (dkeys d) then d else dset k v d)"

definition answer_request ::
    "outside \<Rightarrow> remote_adapter \<Rightarrow> bool \<Rightarrow> time \<Rightarrow> string \<Rightarrow> string \<Rightarrow> (string \<times> pyval) list \<Rightarrow> RemoteRuntime
     \<Rightarrow> outgoing list \<times> RemoteRuntime" where
  "answer_request ou ad writable now request_id command data r =
     (case dispatch ou ad writable now command data r of
        (result, r1) \<Rightarrow>
          (let response =
             (case result of
                Inr v \<Rightarrow> [(''request_id'', PStr request_id), (''status'', PStr ''ok''), (''data'', v)]
              | Inl e \<Rightarrow> [(''request_id'', PStr request_id), (''status'', PStr ''error''), (''error'', PStr (snd e))])
           in ([Reply (PDict response),
                OnChannel ''event'' (PDict (dict_update [(''kind'', PStr ''command_result'')]
                  (response @ [(''command'', PStr command)])))],
               case result of
                 Inr v \<Rightarrow> r1
               | Inl e \<Rightarrow> with_health (health_error ''command''
                   ((if command = [] then ''<empty>'' else command) @ '': '' @ exn_text e) now) r1)))"

definition handle_commands ::
    "outside \<Rightarrow> remote_adapter \<Rightarrow> bool \<Rightarrow> time \<Rightarrow> frame \<Rightarrow> RemoteRuntime
     \<Rightarrow> exn option \<times> outgoing list \<times> RemoteRuntime" where
  "handle_commands ou ad writable now fr r =
     (if \<not> rr_sockets r then (None, [], r)
      else case fr of
        NoRequest \<Rightarrow> (None, [], r)
      | NotDecodable \<Rightarrow> (Some (''JSONDecodeError'', ''Expecting value''), [], r)
      | Request (PDict payload) \<Rightarrow>
          (let request_id = text_of ou payload ''request_id'' [];
               command = py_lower (text_of ou payload ''command'' [])
           in case as_dict (py_or (kw payload ''payload'') (PDict [])) of
                Inl e \<Rightarrow> (Some e, [], r)
              | Inr data \<Rightarrow>
                  (let data1 = (if request_id = [] then data
                                else setdefault ''command_request_id'' (PStr request_id)
                                       (setdefault ''request_id'' (PStr request_id) data))
                   in case answer_request ou ad writable now request_id command data1 r of
                        (out, r1) \<Rightarrow> (None, out, r1)))
      | Request _ \<Rightarrow> (Some (''AttributeError'', ''object has no attribute get''), [], r))"

section \<open>Events of the adapter\<close>

definition order_entry_for_event ::
    "outside \<Rightarrow> (string \<times> pyval) list \<Rightarrow> OrderIdentityMap \<Rightarrow> nat option" where
  "order_entry_for_event ou event m =
     (let look = (\<lambda>index key.
            (case nested_order_text ou event [key] of
               Some oid \<Rightarrow> if oid = [] then None else dget index oid
             | None \<Rightarrow> None));
          candidates =
            map (look (om_by_request m)) [''request_id'', ''command_request_id''] @
            map (look (om_by_client m)) event_client_keys @ map (look (om_by_venue m)) venue_keys
      in case List.find (\<lambda>c. c \<noteq> None) candidates of Some c \<Rightarrow> c | None \<Rightarrow> None)"

definition record_event_order_ids ::
    "outside \<Rightarrow> nat \<Rightarrow> (string \<times> pyval) list \<Rightarrow> OrderIdentityMap \<Rightarrow> OrderIdentityMap" where
  "record_event_order_ids ou a event m =
     (let cid = nested_order_text ou event event_client_keys;
          m1 = (if truthy_str cid \<and> cid \<noteq> oe_client_order_id (om_store m ! a)
                then snd (set_client_order_id m (oe_request_id (om_store m ! a)) (the cid)) else m);
          vid = nested_order_text ou event venue_keys
      in if truthy_str vid \<and> vid \<noteq> oe_venue_order_id (om_store m1 ! a)
         then snd (set_venue_order_id m1 (oe_request_id (om_store m1 ! a)) (the vid)) else m1)"

definition set_if :: "string \<Rightarrow> string option \<Rightarrow> (string \<times> pyval) list \<Rightarrow> (string \<times> pyval) list" where
  "set_if k v d = (if truthy_str v then setdefault k (PStr (the v)) d else d)"

definition enrich_fields :: "OrderEntry \<Rightarrow> (string \<times> pyval) list \<Rightarrow> (string \<times> pyval) list" where
  "enrich_fields e event =
     set_if ''data_name'' (oe_symbol e) (set_if ''symbol'' (oe_symbol e)
       (set_if ''venue_order_id'' (oe_venue_order_id e) (set_if ''client_order_id'' (oe_client_order_id e)
         (setdefault ''request_id'' (PStr (oe_request_id e))
           (setdefault ''strategy_id'' (PStr (oe_strategy_id e)) event)))))"

definition enrich_event_payload ::
    "outside \<Rightarrow> pyval \<Rightarrow> OrderIdentityMap \<Rightarrow> pyval \<times> OrderIdentityMap" where
  "enrich_event_payload ou payload m =
     (case payload of
        PDict event \<Rightarrow>
          (case order_entry_for_event ou event m of
             None \<Rightarrow> (payload, m)
           | Some a \<Rightarrow>
               (let event1 = enrich_fields (om_store m ! a) event;
                    m1 = record_event_order_ids ou a event1 m;
                    status = py_strip (text_of ou event1 ''status'' [])
                in (PDict event1,
                    if status = [] then m1
                    else snd (om_update_status m1 (oe_request_id (om_store m1 ! a)) status))))
      | _ \<Rightarrow> (payload, m))"

definition publish :: "string \<Rightarrow> pyval \<Rightarrow> RemoteRuntime \<Rightarrow> outgoing list" where
  "publish channel payload r =
     (if channel \<in> {''market'', ''event''} \<and> rr_sockets r then [OnChannel channel payload] else [])"

text \<open>\<open>_flush_adapter_output\<close>: the items the adapter gives before it gives none or raises.\<close>

definition flush_item ::
    "outside \<Rightarrow> time \<Rightarrow> string \<times> pyval \<Rightarrow> RemoteRuntime \<Rightarrow> outgoing list \<times> RemoteRuntime" where
  "flush_item ou now item r =
     (let (channel, payload) = item
      in if channel = ''market''
         then (let r1 = with_health (record_tick now) r in (publish channel payload r1, r1))
         else if channel = ''event''
         then (case enrich_event_payload ou payload (rr_orders r) of
                 (payload1, m) \<Rightarrow>
                   (let r1 = record_trade_event ou payload1 (r\<lparr>rr_orders := m\<rparr>)
                    in (publish channel payload1 r1, r1)))
         else (publish channel payload r, r))"

fun flush_adapter_output ::
    "outside \<Rightarrow> time \<Rightarrow> (exn + string \<times> pyval) list \<Rightarrow> RemoteRuntime
     \<Rightarrow> exn option \<times> outgoing list \<times> RemoteRuntime" where
  "flush_adapter_output ou now [] r = (None, [], r)"
| "flush_adapter_output ou now (Inl e # _) r = (Some e, [], r)"
| "flush_adapter_output ou now (Inr item # polls) r =
     (case flush_item ou now item r of
        (out, r1) \<Rightarrow>
          (case flush_adapter_output ou now polls r1 of (failed, out', r2) \<Rightarrow> (failed, out @ out', r2)))"

section \<open>Start, loop and stop\<close>

definition refresh_runtime_heartbeat :: "bool \<Rightarrow> time \<Rightarrow> time \<Rightarrow> RemoteRuntime \<Rightarrow> RemoteRuntime" where
  "refresh_runtime_heartbeat force now ticks r =
     (if \<not> rr_running r \<and> \<not> force then r
      else if \<not> force \<and> ticks - rr_heartbeat r < 1 then r
      else with_health (record_heartbeat now) r\<lparr>rr_heartbeat := ticks\<rparr>)"

definition cleanup_sockets :: "RemoteRuntime \<Rightarrow> RemoteRuntime" where
  "cleanup_sockets r = r\<lparr>rr_sockets := False\<rparr>"

text \<open>\<open>start\<close> up to its loop; the loop runs afterwards exactly if the runtime is running.\<close>

definition rr_start :: "exn option \<Rightarrow> time \<Rightarrow> time \<Rightarrow> RemoteRuntime \<Rightarrow> RemoteRuntime" where
  "rr_start bind_fails now ticks r =
     (if rr_running r then r
      else let r1 = with_health (set_state STARTING now) (r\<lparr>rr_adapter_connected := False\<rparr>)
      in case bind_fails of
           Some e \<Rightarrow>
             (cleanup_sockets (with_health (health_error ''runtime_start'' (exn_text e) now)
                (with_health (set_state GatewayState.ERROR now) r1)))\<lparr>rr_running := False\<rparr>
         | None \<Rightarrow>
             refresh_runtime_heartbeat True now ticks
               (with_health (set_state RUNNING now) (r1\<lparr>rr_sockets := True, rr_running := True\<rparr>)))"

definition handle_runtime_failure ::
    "string \<Rightarrow> exn \<Rightarrow> exn option \<Rightarrow> time \<Rightarrow> RemoteRuntime \<Rightarrow> RemoteRuntime" where
  "handle_runtime_failure source e disconnect_fails now r =
     (let h1 = health_error source (exn_text e) now
            (update_trade_connection ConnectionState.ERROR
              (update_market_connection ConnectionState.ERROR (set_state GatewayState.ERROR now (rr_health r))));
          h2 = (case disconnect_fails of
                  None \<Rightarrow> h1 | Some e' \<Rightarrow> health_error (source @ ''_disconnect'') (exn_text e') now h1)
      in r\<lparr>rr_running := False, rr_adapter_connected := False, rr_health := h2\<rparr>)"

text \<open>One turn of the loop; the first component says whether the loop goes on.\<close>

definition loop_turn ::
    "outside \<Rightarrow> remote_adapter \<Rightarrow> bool \<Rightarrow> time \<Rightarrow> time \<Rightarrow> frame \<Rightarrow> (exn + string \<times> pyval) list \<Rightarrow> exn option
     \<Rightarrow> RemoteRuntime \<Rightarrow> bool \<times> outgoing list \<times> RemoteRuntime" where
  "loop_turn ou ad writable now ticks fr polls disconnect_fails r =
     (if \<not> rr_running r then (False, [], cleanup_sockets r)
      else
        let fails = (\<lambda>e out q.
              (False, out, cleanup_sockets
                 (if rr_running q then handle_runtime_failure ''runtime_loop'' e disconnect_fails now q else q)))
        in case handle_commands ou ad writable now fr r of
             (Some e, out, r1) \<Rightarrow> fails e out r1
           | (None, out, r1) \<Rightarrow>
               if rr_adapter_connected r1
               then (case flush_adapter_output ou now polls r1 of
                       (Some e, out', r2) \<Rightarrow> fails e (out @ out') r2
                     | (None, out', r2) \<Rightarrow> (True, out @ out', refresh_runtime_heartbeat False now ticks r2))
               else (True, out, refresh_runtime_heartbeat False now ticks r1))"

definition rr_stop :: "exn option \<Rightarrow> time \<Rightarrow> RemoteRuntime \<Rightarrow> RemoteRuntime" where
  "rr_stop disconnect_fails now r =
     (let h1 = set_state STOPPING now (rr_health r);
          h2 = (case disconnect_fails of
                  None \<Rightarrow> h1 | Some e \<Rightarrow> health_error ''runtime_stop'' (exn_text e) now h1);
          h3 = update_trade_connection DISCONNECTED (update_market_connection DISCONNECTED h2)
      in cleanup_sockets (r\<lparr>rr_running := False, rr_adapter_connected := False,
                            rr_health := set_state STOPPED now h3\<rparr>))"

section \<open>Connecting the adapter\<close>

text \<open>
  The background thread, cut at its call of \<open>adapter.connect\<close>, during which other threads
  run: what it does before an attempt, and what it does once the call has returned or raised.
\<close>

definition connect_begins :: "RemoteRuntime \<Rightarrow> RemoteRuntime" where
  "connect_begins r = with_health (update_market_connection CONNECTING) r"

definition connect_returns :: "nat \<Rightarrow> exn option \<Rightarrow> time \<Rightarrow> RemoteRuntime \<Rightarrow> RemoteRuntime" where
  "connect_returns attempt failed now r =
     (case failed of
        None \<Rightarrow> with_health (update_market_connection CONNECTED) (r\<lparr>rr_adapter_connected := True\<rparr>)
      | Some e \<Rightarrow>
          with_health (health_error ''adapter_connect''
              (''attempt '' @ show_nat (attempt + 1) @ ''/3 '' @ exn_text e) now)
            (with_health (update_market_connection
               (if attempt < 2 \<and> rr_running r then RECONNECTING else ConnectionState.ERROR)) r))"

definition connect_gives_up :: "RemoteRuntime \<Rightarrow> RemoteRuntime" where
  "connect_gives_up r =
     with_health (update_market_connection ConnectionState.ERROR) (r\<lparr>rr_adapter_connected := False\<rparr>)"

text \<open>The thread with the outcomes of its three attempts, undisturbed.\<close>

fun connect_attempts :: "(nat \<Rightarrow> exn option) \<Rightarrow> time \<Rightarrow> nat \<Rightarrow> RemoteRuntime \<Rightarrow> RemoteRuntime" where
  "connect_attempts outcome now 0 r = connect_gives_up r"
| "connect_attempts outcome now (Suc left) r =
     (let attempt = 2 - left
      in if \<not> rr_running r then r
         else let r1 = connect_returns attempt (outcome attempt) now r
              in if outcome attempt = None then r1 else connect_attempts outcome now left r1)"

definition connect_adapter_background :: "(nat \<Rightarrow> exn option) \<Rightarrow> time \<Rightarrow> RemoteRuntime \<Rightarrow> RemoteRuntime" where
  "connect_adapter_background outcome now r = connect_attempts outcome now 3 (connect_begins r)"

end
