(* ===== verification/RemoteRuntimeCorrect.thy ===== *)
theory RemoteRuntimeCorrect
  imports RemoteRuntime
begin

text \<open>
  What the model of the serving gateway guarantees: its invariant over starts, turns of the
  loop, connection attempts and stops; which requests are answered; that symbols registered
  before the adapter is connected are never asked for; and that the events of an order are
  labelled with the strategy that placed it.
\<close>

section \<open>The shape of a subscription request\<close>

text \<open>
  A request that adds subscriptions calls the adapter at most with symbols nobody is
  subscribed to, and either fails without further effect or grows the relation of
  subscriptions and brings the counts of the health record up to date.
\<close>

definition grows :: "RemoteRuntime \<Rightarrow> RemoteRuntime \<Rightarrow> bool" where
  "grows r r' \<longleftrightarrow>
     (\<exists>A. (\<forall>call \<in> set A. set call \<inter> set (get_active_symbols (rr_subs r)) = {}) \<and>
        (r' = r\<lparr>rr_asked := rr_asked r @ A\<rparr> \<or>
         (\<exists>M. r' = sync_health_counts (r\<lparr>rr_asked := rr_asked r @ A, rr_subs := M\<rparr>) \<and> sub_ok M \<and>
            subs (rr_subs r) \<subseteq> subs M)))"

lemma growsI:
  "\<forall>call \<in> set A. set call \<inter> set (get_active_symbols (rr_subs r)) = {} \<Longrightarrow> sub_ok M \<Longrightarrow>
   subs (rr_subs r) \<subseteq> subs M \<Longrightarrow> r' = sync_health_counts (r\<lparr>rr_asked := rr_asked r @ A, rr_subs := M\<rparr>) \<Longrightarrow>
   grows r r'"
  unfolding grows_def by blast

lemma sub_add_grows:
  assumes "sub_ok m" "sub_add m sid ss = (newly, m')"
  shows "sub_ok m' \<and> subs m' = subs m \<union> {sid} \<times> set ss"
  using sub_add_refines [OF assms(1), of sid ss] by (simp add: refines_call_def assms(2))

lemma asked_same: "r\<lparr>rr_asked := rr_asked r @ []\<rparr> = r" by simp

lemma subscribe_grows:
  assumes ok: "sub_ok (rr_subs r)"
  shows "grows r (snd (subscribe_for_strategy ou f sid symbols r))"
proof -
  define requested where "requested = texts ou symbols"
  define new where "new = filter (\<lambda>s. s \<notin> set (get_active_symbols (rr_subs r))) requested"
  define old where "old = filter (\<lambda>s. s \<in> set (get_active_symbols (rr_subs r))) requested"
  define A where "A = (if new \<noteq> [] then [new] else [])"
  have fresh: "\<forall>call \<in> set A. set call \<inter> set (get_active_symbols (rr_subs r)) = {}"
    by (auto simp: A_def new_def)
  have r1: "(if new \<noteq> [] then r\<lparr>rr_asked := rr_asked r @ [new]\<rparr> else r) = r\<lparr>rr_asked := rr_asked r @ A\<rparr>"
    by (simp add: A_def)
  define answer where "answer = (if new = [] then Inr ([], [])
    else bind_right (f (map PStr new)) (adapter_answer ou new))"
  show ?thesis
  proof (cases "requested = []")
    case True
    then have "snd (subscribe_for_strategy ou f sid symbols r) = sync_health_counts r"
      by (simp add: subscribe_for_strategy_def requested_def)
    then show ?thesis
      by (intro growsI [of "[]" r "rr_subs r"]) (simp_all add: ok)
  next
    case False
    show ?thesis
    proof (cases answer)
      case (Inl e)
      then have "snd (subscribe_for_strategy ou f sid symbols r) = r\<lparr>rr_asked := rr_asked r @ A\<rparr>"
        using False unfolding subscribe_for_strategy_def Let_def
          requested_def [symmetric] new_def [symmetric] old_def [symmetric] answer_def [symmetric] r1
        by simp
      then show ?thesis using fresh unfolding grows_def by blast
    next
      case (Inr p)
      obtain acc skip where p: "p = (acc, skip)" by fastforce
      obtain n1 m1 where m1: "sub_add (rr_subs r) sid old = (n1, m1)" by fastforce
      obtain n2 m2 where m2: "sub_add m1 sid acc = (n2, m2)" by fastforce
      have "snd (subscribe_for_strategy ou f sid symbols r) =
          sync_health_counts (r\<lparr>rr_asked := rr_asked r @ A, rr_subs := m2\<rparr>)"
        using False unfolding subscribe_for_strategy_def Let_def
          requested_def [symmetric] new_def [symmetric] old_def [symmetric] answer_def [symmetric] r1 Inr p
        by (simp add: m1 m2)
      then show ?thesis
        using fresh sub_add_grows [OF ok m1] sub_add_grows [OF _ m2] by (intro growsI) auto
    qed
  qed
qed

lemma register_grows:
  assumes ok: "sub_ok (rr_subs r)"
  shows "grows r (snd (register_strategy ou f sid symbols r))"
proof (cases "rr_adapter_connected r")
  case True
  obtain a r1 where s: "subscribe_for_strategy ou f sid symbols r = (a, r1)" by fastforce
  have "snd (register_strategy ou f sid symbols r) = r1"
    by (cases a) (simp_all add: register_strategy_def True s)
  then show ?thesis using subscribe_grows [OF ok, of ou f sid symbols] by (simp add: s)
next
  case False
  obtain n m where m: "sub_add (rr_subs r) sid (map (py_str ou) symbols) = (n, m)" by fastforce
  have "snd (register_strategy ou f sid symbols r) = sync_health_counts (r\<lparr>rr_subs := m\<rparr>)"
    by (simp add: register_strategy_def False m Let_def)
  then show ?thesis
    using sub_add_grows [OF ok m] by (intro growsI [of "[]" r m]) simp_all
qed

section \<open>The shape of any request\<close>

text \<open>A request that does not concern subscriptions.\<close>

definition health_kept :: "GatewayHealth \<Rightarrow> GatewayHealth \<Rightarrow> bool" where
  "health_kept h h' \<longleftrightarrow> gh_state h' = gh_state h \<and> gh_trade_conn h' = gh_trade_conn h \<and>
     gh_max_errors h' = gh_max_errors h \<and>
     (length (gh_errors h) \<le> gh_max_errors h \<longrightarrow> length (gh_errors h') \<le> gh_max_errors h) \<and>
     gh_strategy_count h' = gh_strategy_count h \<and> gh_symbol_count h' = gh_symbol_count h"

definition unrelated :: "RemoteRuntime \<Rightarrow> RemoteRuntime \<Rightarrow> bool" where
  "unrelated r r' \<longleftrightarrow> rr_subs r' = rr_subs r \<and> rr_asked r' = rr_asked r \<and> rr_running r' = rr_running r \<and>
     rr_sockets r' = rr_sockets r \<and> rr_adapter_connected r' = rr_adapter_connected r \<and>
     rr_trades r' = rr_trades r \<and> rr_trades_limit r' = rr_trades_limit r \<and>
     health_kept (rr_health r) (rr_health r')"

lemma health_kept_simps [simp]:
  "health_kept h h" "health_kept h (record_heartbeat now h)" "health_kept h (record_tick now h)"
  "health_kept h (record_order now h)" "health_kept h (health_error a b now h)"
  "health_kept h (update_market_connection c h)"
  by (simp_all add: health_kept_def health_updates length_push_bounded)

lemma unrelated_refl [simp]: "unrelated r r" by (simp add: unrelated_def)

lemma get_trades_unrelated: "unrelated r (snd (get_trades ou ad now symbol limit r))"
  by (simp add: get_trades_def unrelated_def Let_def split: option.split sum.split)

lemma place_order_unrelated: "unrelated r (snd (place_order_command ou f w now p r))"
proof -
  obtain p1 refs m where i: "identify_order ou w p (rr_refs r) (rr_orders r) = (p1, refs, m)"
    by (metis prod_cases3)
  show ?thesis by (cases "f p1") (simp_all add: place_order_command_def i Let_def unrelated_def)
qed

text \<open>The commands that change subscriptions, and the rest.\<close>

lemma dispatch_register:
  "dispatch ou ad w now ''register_strategy'' p r =
     (case symbols_of p of
        Inl e \<Rightarrow> (Inl e, r)
      | Inr symbols \<Rightarrow> register_strategy ou (ad_subscribe ad) (text_of ou p ''strategy_id'' []) symbols r)"
  by (simp add: dispatch_def)

lemma dispatch_unregister:
  "snd (dispatch ou ad w now ''unregister_strategy'' p r) =
     sync_health_counts (r\<lparr>rr_subs := snd (remove_strategy (rr_subs r) (text_of ou p ''strategy_id'' []))\<rparr>)"
  by (cases "remove_strategy (rr_subs r) (text_of ou p ''strategy_id'' [])") (simp add: dispatch_def)

lemma dispatch_subscribe:
  "snd (dispatch ou ad w now ''subscribe'' p r) =
     (case symbols_of p of
        Inl e \<Rightarrow> r
      | Inr symbols \<Rightarrow>
          if rr_adapter_connected r
          then snd (subscribe_for_strategy ou (ad_subscribe ad) (text_of ou p ''strategy_id'' ''default'') symbols r)
          else r)"
proof (cases "symbols_of p")
  case (Inr symbols)
  obtain a r1 where
    "subscribe_for_strategy ou (ad_subscribe ad) (text_of ou p ''strategy_id'' ''default'') symbols r = (a, r1)"
    by fastforce
  then show ?thesis by (cases a) (simp_all add: dispatch_def Inr)
qed (simp add: dispatch_def)

lemma unrelated_if:
  "(c \<Longrightarrow> unrelated r (snd x)) \<Longrightarrow> (\<not> c \<Longrightarrow> unrelated r (snd y)) \<Longrightarrow> unrelated r (snd (if c then x else y))"
  by simp

lemma adapter_command_unrelated: "unrelated r (snd (adapter_command ou ad w now command p r))"
proof -
  have trades: "unrelated r (snd (case int_or v 100 of
      Inl e \<Rightarrow> (Inl e, r)
    | Inr limit \<Rightarrow> (case get_trades ou ad now symbol limit r of (rows, r1) \<Rightarrow> (Inr (g rows), r1))))"
    for v symbol and g :: "(string \<times> pyval) list list \<Rightarrow> pyval"
    using get_trades_unrelated [of r ou ad now symbol]
    by (cases "int_or v 100") (simp_all add: case_prod_beta)
  show ?thesis
    unfolding adapter_command_def Let_def
    by (intro unrelated_if trades place_order_unrelated) simp_all
qed

lemma dispatch_other:
  assumes "command \<notin> {''register_strategy'', ''unregister_strategy'', ''subscribe''}"
  shows "unrelated r (snd (dispatch ou ad w now command p r))"
proof -
  have ping: "unrelated r (snd (x, with_health (record_heartbeat now) r))" for x :: "exn + pyval"
    by (simp add: unrelated_def)
  show ?thesis
    unfolding dispatch_def
    by (intro unrelated_if ping adapter_command_unrelated) (use assms in simp_all)
qed

lemma dispatch_shape:
  assumes ok: "sub_ok (rr_subs r)" and r': "r' = snd (dispatch ou ad w now command p r)"
  shows "grows r r' \<or> unrelated r r' \<or>
    (command = ''unregister_strategy'' \<and>
      (\<exists>M. r' = sync_health_counts (r\<lparr>rr_subs := M\<rparr>) \<and> sub_ok M \<and>
         subs M = subs (rr_subs r) - {text_of ou p ''strategy_id'' []} \<times> UNIV))"
proof -
  consider "command = ''register_strategy''" | "command = ''unregister_strategy''" | "command = ''subscribe''"
    | "command \<notin> {''register_strategy'', ''unregister_strategy'', ''subscribe''}" by blast
  then show ?thesis
  proof cases
    case 1
    show ?thesis
      using register_grows [OF ok] unfolding r' 1 dispatch_register
      by (cases "symbols_of p") auto
  next
    case 2
    have "sub_ok (snd (remove_strategy (rr_subs r) sid)) \<and>
        subs (snd (remove_strategy (rr_subs r) sid)) = subs (rr_subs r) - {sid} \<times> UNIV" for sid
      using remove_strategy_refines [OF ok, of sid] by (simp add: refines_call_def)
    then show ?thesis unfolding r' 2 dispatch_unregister by blast
  next
    case 3
    show ?thesis
      using subscribe_grows [OF ok] unfolding r' 3 dispatch_subscribe
      by (cases "symbols_of p") auto
  next
    case 4
    then show ?thesis using dispatch_other unfolding r' by blast
  qed
qed

section \<open>Symbols registered before the adapter is connected\<close>

type_synonym request = "remote_adapter \<times> bool \<times> time \<times> string \<times> (string \<times> pyval) list"

definition serve :: "outside \<Rightarrow> RemoteRuntime \<Rightarrow> request \<Rightarrow> RemoteRuntime" where
  "serve ou r = (\<lambda>(ad, w, now, command, p). snd (dispatch ou ad w now command p r))"

definition unregisters :: "outside \<Rightarrow> string \<Rightarrow> request \<Rightarrow> bool" where
  "unregisters ou sid = (\<lambda>(ad, w, now, command, p).
     command = ''unregister_strategy'' \<and> text_of ou p ''strategy_id'' [] = sid)"

definition held :: "string \<Rightarrow> string \<Rightarrow> RemoteRuntime \<Rightarrow> bool" where
  "held sid s r \<longleftrightarrow> sub_ok (rr_subs r) \<and> (sid, s) \<in> subs (rr_subs r)"

definition never_asked :: "string \<Rightarrow> RemoteRuntime \<Rightarrow> bool" where
  "never_asked s r \<longleftrightarrow> (\<forall>call \<in> set (rr_asked r). s \<notin> set call)"

lemma sync_simps [simp]:
  "rr_subs (sync_health_counts r) = rr_subs r" "rr_asked (sync_health_counts r) = rr_asked r"
  "rr_running (sync_health_counts r) = rr_running r" "rr_sockets (sync_health_counts r) = rr_sockets r"
  "rr_adapter_connected (sync_health_counts r) = rr_adapter_connected r"
  "rr_trades (sync_health_counts r) = rr_trades r" "rr_trades_limit (sync_health_counts r) = rr_trades_limit r"
  by (simp_all add: sync_health_counts_def)

lemma active_symbols: "sub_ok m \<Longrightarrow> set (get_active_symbols m) = snd ` subs m"
  by (simp add: get_active_symbols_def counts_ok_keys sub_ok_def)

lemma grows_held:
  assumes "held sid s r" "never_asked s r" "grows r r'"
  shows "held sid s r' \<and> never_asked s r'"
proof -
  from assms(1) have "s \<in> set (get_active_symbols (rr_subs r))"
    by (force simp: held_def active_symbols)
  with assms show ?thesis
    unfolding grows_def held_def never_asked_def by (elim exE conjE disjE) auto
qed

lemma serve_held:
  assumes "held sid s r" "never_asked s r" "\<not> unregisters ou sid x"
  shows "held sid s (serve ou r x) \<and> never_asked s (serve ou r x)"
proof -
  obtain ad w now command p where x: "x = (ad, w, now, command, p)" by (metis prod_cases5)
  have ok: "sub_ok (rr_subs r)" using assms(1) by (simp add: held_def)
  from dispatch_shape [OF ok refl, of ou ad w now command p] show ?thesis
  proof (elim disjE conjE exE)
    assume "grows r (snd (dispatch ou ad w now command p r))"
    then show ?thesis using grows_held [OF assms(1,2)] by (simp add: serve_def x)
  next
    assume "unrelated r (snd (dispatch ou ad w now command p r))"
    then show ?thesis using assms(1,2) by (simp add: serve_def x unrelated_def held_def never_asked_def)
  next
    fix M assume "command = ''unregister_strategy''"
      "snd (dispatch ou ad w now command p r) = sync_health_counts (r\<lparr>rr_subs := M\<rparr>)" "sub_ok M"
      "subs M = subs (rr_subs r) - {text_of ou p ''strategy_id'' []} \<times> UNIV"
    then show ?thesis using assms by (simp add: serve_def x held_def never_asked_def unregisters_def)
  qed
qed

lemma serve_all_held:
  "held sid s r \<Longrightarrow> never_asked s r \<Longrightarrow> \<forall>x \<in> set xs. \<not> unregisters ou sid x \<Longrightarrow>
   held sid s (foldl (serve ou) r xs) \<and> never_asked s (foldl (serve ou) r xs)"
proof (induction xs arbitrary: r)
  case (Cons x xs)
  then have "held sid s (serve ou r x) \<and> never_asked s (serve ou r x)" by (intro serve_held) simp_all
  with Cons show ?case by simp
qed simp

lemma connect_returns_simps [simp]:
  "rr_subs (connect_returns k failed now r) = rr_subs r" "rr_asked (connect_returns k failed now r) = rr_asked r"
  by (simp_all add: connect_returns_def split: option.split)

text \<open>
  A strategy that registers its symbols before the adapter is connected never gets them:
  they count as active from then on, so as long as the strategy stays registered no request
  of any strategy makes the gateway ask the adapter for them, also after it has connected.
\<close>

theorem early_symbols_never_requested:
  fixes ou :: outside and ad :: remote_adapter and w :: bool and now later :: time and k :: nat
  assumes "\<not> rr_adapter_connected r" "rr_asked r = []" "sub_ok (rr_subs r)"
    and "symbols_of p = Inr symbols" "s \<in> py_str ou ` set symbols" "text_of ou p ''strategy_id'' [] = sid"
    and "\<forall>x \<in> set xs. \<not> unregisters ou sid x"
  defines "served \<equiv> foldl (serve ou) (connect_returns k None later (snd (dispatch ou ad w now ''register_strategy'' p r))) xs"
  shows "s \<in> set (get_active_symbols (rr_subs served)) \<and> (\<forall>call \<in> set (rr_asked served). s \<notin> set call)"
proof -
  obtain n m where m: "sub_add (rr_subs r) sid (map (py_str ou) symbols) = (n, m)" by fastforce
  have reg: "snd (dispatch ou ad w now ''register_strategy'' p r) = sync_health_counts (r\<lparr>rr_subs := m\<rparr>)"
    using assms(1,4,6) by (simp add: dispatch_register register_strategy_def m)
  have "held sid s (connect_returns k None later (sync_health_counts (r\<lparr>rr_subs := m\<rparr>)))"
    using sub_add_grows [OF assms(3) m] assms(5) by (auto simp: held_def)
  moreover have "never_asked s (connect_returns k None later (sync_health_counts (r\<lparr>rr_subs := m\<rparr>)))"
    using assms(2) by (simp add: never_asked_def)
  ultimately have "held sid s served \<and> never_asked s served"
    unfolding served_def reg using assms(7) by (intro serve_all_held) simp_all
  then show ?thesis by (force simp: held_def never_asked_def active_symbols)
qed

theorem early_symbols_never_requested_witness:
  "\<forall>ou c refs ad. filter (\<lambda>call. ''IF2506'' \<in> set call) (rr_asked (foldl (serve ou)
     (connect_returns 0 None 2 (snd (dispatch ou ad True 1 ''register_strategy''
        [(''strategy_id'', PStr ''s1''), (''symbols'', PList [PStr ''IF2506''])] (rr_new c refs 10))))
     [(ad, True, 3, ''subscribe'', [(''strategy_id'', PStr ''s2''), (''symbols'', PList [PStr ''IF2506''])])])) = []"
proof (intro allI)
  fix ou c refs ad
  let ?p = "[(''strategy_id'', PStr ''s1''), (''symbols'', PList [PStr ''IF2506''])]"
  have "sub_ok (rr_subs (rr_new c refs 10))" using sub_init_ok by (simp add: rr_new_def)
  moreover have "symbols_of ?p = Inr [PStr ''IF2506'']" "text_of ou ?p ''strategy_id'' [] = ''s1''"
    by (simp_all add: symbols_of_def text_of_def kw_def dget_default_def py_or_def py_iter_def py_str_def)
  ultimately show "filter (\<lambda>call. ''IF2506'' \<in> set call) (rr_asked (foldl (serve ou)
     (connect_returns 0 None 2 (snd (dispatch ou ad True 1 ''register_strategy'' ?p (rr_new c refs 10))))
     [(ad, True, 3, ''subscribe'', [(''strategy_id'', PStr ''s2''), (''symbols'', PList [PStr ''IF2506''])])])) = []"
    using early_symbols_never_requested [of "rr_new c refs 10" ?p "[PStr ''IF2506'']" "''IF2506''" ou "''s1''"
        "[(ad, True, 3, ''subscribe'', [(''strategy_id'', PStr ''s2''), (''symbols'', PList [PStr ''IF2506''])])]"
        0 2 ad True 1]
    by (simp add: rr_new_def py_str_def unregisters_def filter_empty_conv)
qed

section \<open>Which requests are answered\<close>

lemma dispatch_runs:
  assumes "sub_ok (rr_subs r)"
  shows "rr_running (snd (dispatch ou ad w now command p r)) = rr_running r \<and>
    rr_sockets (snd (dispatch ou ad w now command p r)) = rr_sockets r"
  using dispatch_shape [OF assms refl, of ou ad w now command p]
  by (elim disjE conjE exE) (auto simp: grows_def unrelated_def)

text \<open>What a client must send to be answered: a JSON object whose payload makes a dict.\<close>

definition well_formed :: "frame \<Rightarrow> bool" where
  "well_formed fr \<longleftrightarrow>
     (case fr of Request (PDict m) \<Rightarrow> (\<exists>d. as_dict (py_or (kw m ''payload'') (PDict [])) = Inr d) | _ \<Rightarrow> False)"

definition request_of :: "outside \<Rightarrow> (string \<times> pyval) list \<Rightarrow> (string \<times> pyval) list \<Rightarrow> (string \<times> pyval) list" where
  "request_of ou m d =
     (let rid = text_of ou m ''request_id'' []
      in if rid = [] then d
         else setdefault ''command_request_id'' (PStr rid) (setdefault ''request_id'' (PStr rid) d))"

lemma handle_well_formed:
  assumes "rr_sockets r" "as_dict (py_or (kw m ''payload'') (PDict [])) = Inr d"
  shows "handle_commands ou ad w now (Request (PDict m)) r =
    (None, answer_request ou ad w now (text_of ou m ''request_id'' []) (py_lower (text_of ou m ''command'' []))
             (request_of ou m d) r)"
  using assms by (simp add: handle_commands_def request_of_def Let_def case_prod_beta)

lemma answer_request_reply:
  "\<exists>event. fst (answer_request ou ad w now rid command d r) =
     [Reply (PDict (case fst (dispatch ou ad w now command d r) of
        Inr v \<Rightarrow> [(''request_id'', PStr rid), (''status'', PStr ''ok''), (''data'', v)]
      | Inl e \<Rightarrow> [(''request_id'', PStr rid), (''status'', PStr ''error''), (''error'', PStr (snd e))])), event]"
  by (simp add: answer_request_def Let_def case_prod_beta)

lemma answer_request_runs:
  "sub_ok (rr_subs r) \<Longrightarrow> rr_running (snd (answer_request ou ad w now rid command d r)) = rr_running r"
  using dispatch_runs [of r ou ad w now command d]
  by (cases "fst (dispatch ou ad w now command d r)") (simp_all add: answer_request_def Let_def case_prod_beta)

lemma handle_malformed:
  assumes "rr_sockets r" "fr \<noteq> NoRequest" "\<not> well_formed fr"
  shows "\<exists>e. handle_commands ou ad w now fr r = (Some e, [], r)"
proof (cases fr)
  case (Request v)
  show ?thesis
  proof (cases v)
    case (PDict m)
    then obtain e where "as_dict (py_or (kw m ''payload'') (PDict [])) = Inl e"
      using assms(3) Request by (cases "as_dict (py_or (kw m ''payload'') (PDict []))") (auto simp: well_formed_def)
    then show ?thesis using Request PDict assms(1) by (simp add: handle_commands_def Let_def)
  qed (use Request assms(1) in \<open>simp_all add: handle_commands_def\<close>)
qed (use assms in \<open>simp_all add: handle_commands_def\<close>)



section \<open>The invariant of the gateway\<close>

datatype rr_op =
    Start "exn option" time time
  | Turn remote_adapter bool time time frame "(exn + string \<times> pyval) list" "exn option"
  | Stop "exn option" time | ConnectBegins | ConnectReturns nat "exn option" time | ConnectGivesUp

fun rr_step :: "outside \<Rightarrow> RemoteRuntime \<Rightarrow> rr_op \<Rightarrow> RemoteRuntime" where
  "rr_step ou r (Start e now ticks) = rr_start e now ticks r"
| "rr_step ou r (Turn ad w now ticks fr polls d) = snd (snd (loop_turn ou ad w now ticks fr polls d r))"
| "rr_step ou r (Stop d now) = rr_stop d now r"
| "rr_step ou r ConnectBegins = connect_begins r"
| "rr_step ou r (ConnectReturns k failed now) = connect_returns k failed now r"
| "rr_step ou r ConnectGivesUp = connect_gives_up r"

definition health_ok :: "GatewayHealth \<Rightarrow> bool" where
  "health_ok h \<longleftrightarrow> length (gh_errors h) \<le> gh_max_errors h \<and> gh_max_errors h = 50 \<and> gh_trade_conn h \<noteq> CONNECTED"

definition counted :: "RemoteRuntime \<Rightarrow> bool" where
  "counted r \<longleftrightarrow> sub_ok (rr_subs r) \<and> gh_strategy_count (rr_health r) = strategy_count (rr_subs r) \<and>
     gh_symbol_count (rr_health r) = symbol_count (rr_subs r)"

definition rr_inv :: "nat \<Rightarrow> RemoteRuntime \<Rightarrow> bool" where
  "rr_inv n r \<longleftrightarrow> counted r \<and> health_ok (rr_health r) \<and> length (rr_trades r) \<le> n \<and> rr_trades_limit r = n \<and>
     rr_sockets r = rr_running r \<and> (rr_running r \<longrightarrow> gh_state (rr_health r) = RUNNING)"

lemma health_ok_updates [simp]:
  "health_ok h \<Longrightarrow> health_ok (set_state s now h)" "health_ok h \<Longrightarrow> health_ok (update_market_connection c h)"
  "health_ok h \<Longrightarrow> c \<noteq> CONNECTED \<Longrightarrow> health_ok (update_trade_connection c h)"
  "health_ok h \<Longrightarrow> health_ok (record_heartbeat now h)" "health_ok h \<Longrightarrow> health_ok (record_tick now h)"
  "health_ok h \<Longrightarrow> health_ok (record_order now h)" "health_ok h \<Longrightarrow> health_ok (update_counts m n h)"
  "health_ok h \<Longrightarrow> health_ok (health_error a b now h)"
  by (simp_all add: health_ok_def health_updates length_push_bounded)

lemma health_counts_simps [simp]:
  "gh_strategy_count (set_state s now h) = gh_strategy_count h" "gh_symbol_count (set_state s now h) = gh_symbol_count h"
  "gh_strategy_count (update_market_connection c h) = gh_strategy_count h"
  "gh_symbol_count (update_market_connection c h) = gh_symbol_count h"
  "gh_strategy_count (update_trade_connection c h) = gh_strategy_count h"
  "gh_symbol_count (update_trade_connection c h) = gh_symbol_count h"
  "gh_strategy_count (record_heartbeat now h) = gh_strategy_count h"
  "gh_symbol_count (record_heartbeat now h) = gh_symbol_count h"
  "gh_strategy_count (record_tick now h) = gh_strategy_count h" "gh_symbol_count (record_tick now h) = gh_symbol_count h"
  "gh_strategy_count (health_error a b now h) = gh_strategy_count h"
  "gh_symbol_count (health_error a b now h) = gh_symbol_count h"
  "gh_strategy_count (update_counts m n h) = m" "gh_symbol_count (update_counts m n h) = n"
  by (simp_all add: health_updates)

lemma unrelated_inv:
  assumes "rr_inv n r" "unrelated r r'" shows "rr_inv n r'"
proof -
  have "health_ok (rr_health r')"
    using assms by (auto simp: rr_inv_def unrelated_def health_kept_def health_ok_def)
  then show ?thesis using assms
    by (auto simp: rr_inv_def unrelated_def health_kept_def counted_def)
qed

lemma sync_inv:
  assumes "rr_inv n r" "sub_ok M" shows "rr_inv n (sync_health_counts (r\<lparr>rr_asked := A, rr_subs := M\<rparr>))"
  using assms by (simp add: rr_inv_def counted_def sync_health_counts_def)

lemma dispatch_inv:
  assumes "rr_inv n r" shows "rr_inv n (snd (dispatch ou ad w now command p r))"
proof -
  have ok: "sub_ok (rr_subs r)" using assms by (simp add: rr_inv_def counted_def)
  from dispatch_shape [OF ok refl, of ou ad w now command p] show ?thesis
  proof (elim disjE conjE exE)
    assume "grows r (snd (dispatch ou ad w now command p r))"
    then obtain A M where "snd (dispatch ou ad w now command p r) = r\<lparr>rr_asked := A\<rparr> \<or>
        snd (dispatch ou ad w now command p r) = sync_health_counts (r\<lparr>rr_asked := A, rr_subs := M\<rparr>) \<and> sub_ok M"
      unfolding grows_def by blast
    then show ?thesis
    proof (elim disjE conjE)
      assume "snd (dispatch ou ad w now command p r) = r\<lparr>rr_asked := A\<rparr>"
      then show ?thesis using assms by (simp add: rr_inv_def counted_def)
    qed (use assms sync_inv in simp)
  next
    assume "unrelated r (snd (dispatch ou ad w now command p r))"
    then show ?thesis using assms unrelated_inv by blast
  next
    fix M assume "snd (dispatch ou ad w now command p r) = sync_health_counts (r\<lparr>rr_subs := M\<rparr>)" "sub_ok M"
    then show ?thesis using sync_inv [OF assms, of M "rr_asked r"] by simp
  qed
qed

lemma error_inv: "rr_inv n r \<Longrightarrow> rr_inv n (with_health (health_error a b now) r)"
  by (simp add: rr_inv_def counted_def)

lemma handle_commands_inv:
  assumes "rr_inv n r" shows "rr_inv n (snd (snd (handle_commands ou ad w now fr r)))"
proof -
  have ans: "rr_inv n (snd (answer_request ou ad w now rid command d r))" for rid command d
    using dispatch_inv [OF assms, of ou ad w now command d]
    by (cases "fst (dispatch ou ad w now command d r)")
      (simp_all add: answer_request_def Let_def case_prod_beta error_inv)
  show ?thesis
  proof (cases "rr_sockets r \<and> fr \<noteq> NoRequest")
    case True
    show ?thesis
    proof (cases "well_formed fr")
      case False
      then obtain e where "handle_commands ou ad w now fr r = (Some e, [], r)"
        using handle_malformed True by blast
      then show ?thesis using assms by simp
    next
      case wf: True
      then obtain m d where fr: "fr = Request (PDict m)" "as_dict (py_or (kw m ''payload'') (PDict [])) = Inr d"
        by (auto simp: well_formed_def split: frame.splits pyval.splits)
      show ?thesis using True ans unfolding fr(1) handle_well_formed [OF conjunct1 [OF True] fr(2)] by simp
    qed
  qed (use assms in \<open>auto simp: handle_commands_def\<close>)
qed

lemma flush_item_inv:
  assumes "rr_inv n r" shows "rr_inv n (snd (flush_item ou now item r))"
proof -
  have tr: "rr_inv n (record_trade_event ou payload q)" if "rr_inv n q" for payload q
    using that by (cases payload) (auto simp: record_trade_event_def rr_inv_def counted_def length_push_bounded)
  have ord: "rr_inv n (r\<lparr>rr_orders := m\<rparr>)" for m using assms by (simp add: rr_inv_def counted_def)
  have tick: "rr_inv n (with_health (record_tick now) r)" using assms by (simp add: rr_inv_def counted_def)
  obtain ch pl where i: "item = (ch, pl)" by fastforce
  show ?thesis
    by (simp add: flush_item_def i Let_def case_prod_beta tr [OF ord] tick assms)
qed

lemma flush_inv: "rr_inv n r \<Longrightarrow> rr_inv n (snd (snd (flush_adapter_output ou now polls r)))"
proof (induction ou now polls r rule: flush_adapter_output.induct)
  case (3 ou now item polls r)
  obtain out q where "flush_item ou now item r = (out, q)" by fastforce
  with 3 flush_item_inv [OF 3(2), of ou now item] show ?case by (simp add: case_prod_beta)
qed simp_all

lemma heartbeat_inv: "rr_inv n r \<Longrightarrow> rr_inv n (refresh_runtime_heartbeat force now ticks r)"
  by (simp add: refresh_runtime_heartbeat_def rr_inv_def counted_def)

lemma failure_inv: "rr_inv n r \<Longrightarrow> rr_inv n (cleanup_sockets (handle_runtime_failure src e disc now r))"
  by (cases disc) (simp_all add: handle_runtime_failure_def cleanup_sockets_def rr_inv_def counted_def Let_def)

lemma halted_inv: "rr_inv n r \<Longrightarrow> \<not> rr_running r \<Longrightarrow> rr_inv n (cleanup_sockets r)"
  by (simp add: cleanup_sockets_def rr_inv_def counted_def)

lemma loop_turn_inv:
  assumes "rr_inv n r" shows "rr_inv n (snd (snd (loop_turn ou ad w now ticks fr polls disc r)))"
proof (cases "rr_running r")
  case True
  have fails: "rr_inv n (cleanup_sockets (if rr_running q then handle_runtime_failure src e disc now q else q))"
    if "rr_inv n q" for q e src using that failure_inv halted_inv by simp
  obtain failed out r1 where h: "handle_commands ou ad w now fr r = (failed, out, r1)" by (metis prod_cases3)
  have r1: "rr_inv n r1" using handle_commands_inv [OF assms, of ou ad w now fr] by (simp add: h)
  obtain failed2 out2 r2 where f: "flush_adapter_output ou now polls r1 = (failed2, out2, r2)" by (metis prod_cases3)
  have r2: "rr_inv n r2" using flush_inv [OF r1, of ou now polls] by (simp add: f)
  show ?thesis
    by (cases failed; cases failed2)
      (simp_all add: loop_turn_def True h f Let_def fails r1 r2 heartbeat_inv)
next
  case False
  then show ?thesis using assms halted_inv by (simp add: loop_turn_def)
qed

lemma rr_step_inv: "rr_inv n r \<Longrightarrow> rr_inv n (rr_step ou r x)"
proof (cases x)
  case (Start e now ticks)
  assume inv: "rr_inv n r"
  show ?thesis
  proof (cases "rr_running r")
    case True
    then show ?thesis using inv Start by (simp add: rr_start_def)
  next
    case False
    show ?thesis
    proof (cases e)
      case None
      have "rr_inv n (r\<lparr>rr_adapter_connected := False, rr_sockets := True, rr_running := True,
          rr_health := set_state RUNNING now (set_state STARTING now (rr_health r))\<rparr>)"
        using inv by (simp add: rr_inv_def counted_def)
      then show ?thesis using Start None False
        by (simp add: rr_start_def heartbeat_inv)
    next
      case (Some x)
      then show ?thesis using Start inv False
        by (simp add: rr_start_def cleanup_sockets_def rr_inv_def counted_def)
    qed
  qed
next
  case (Turn ad w now ticks fr polls d)
  assume "rr_inv n r"
  then show ?thesis using Turn loop_turn_inv by simp
next
  case (Stop d now)
  assume "rr_inv n r"
  then show ?thesis using Stop
    by (cases d) (simp_all add: rr_stop_def cleanup_sockets_def rr_inv_def counted_def Let_def)
next
  case (ConnectReturns k failed now)
  assume "rr_inv n r"
  then show ?thesis using ConnectReturns
    by (cases failed) (simp_all add: connect_returns_def rr_inv_def counted_def)
qed (simp_all add: connect_begins_def connect_gives_up_def rr_inv_def counted_def)

lemma rr_new_inv: "rr_inv (nat (max limit 1)) (rr_new c refs limit)"
  using sub_init_ok
  by (simp add: rr_new_def rr_inv_def counted_def health_ok_def gh_new_def set_extra_def strategy_count_def
      symbol_count_def sub_init_def)

interpretation rr: op_system "rr_new c refs limit" "rr_step ou" "rr_inv (nat (max limit 1))" for c refs limit ou
  by unfold_locales (rule rr_new_inv, rule rr_step_inv)



text \<open>
  A stop while the adapter is being connected is undone by the connecting thread: it had
  passed its test of \<open>running\<close>, and when the call returns the stopped gateway says its adapter
  is connected.
\<close>

lemma stop_during_connect:
  "rr_adapter_connected (connect_returns k None later (rr_stop d now r)) \<and>
   \<not> rr_running (connect_returns k None later (rr_stop d now r)) \<and>
   gh_market_conn (rr_health (connect_returns k None later (rr_stop d now r))) = CONNECTED"
  by (simp add: connect_returns_def rr_stop_def cleanup_sockets_def update_market_connection_def Let_def)

section \<open>Events reach the strategy of their order\<close>

lemma dget_setdefault [simp]:
  "dget (setdefault k v d) k' = (case dget d k' of Some x \<Rightarrow> Some x | None \<Rightarrow> if k = k' then Some v else None)"
proof (cases "k \<in> set (dkeys d)")
  case True
  then obtain x where "dget d k = Some x" by (auto simp: dget_Some_iff_mem)
  with True show ?thesis by (auto simp: setdefault_def split: option.split)
next
  case False
  then have "dget d k = None" by (simp add: dget_None_iff)
  with False show ?thesis by (auto simp: setdefault_def split: option.split)
qed

lemma dget_set_if:
  "dget d k = Some x \<Longrightarrow> dget (set_if k' v d) k = Some x"
  by (simp add: set_if_def)

lemma enrich_keeps:
  "dget event k = Some x \<Longrightarrow> dget (enrich_fields e event) k = Some x"
  unfolding enrich_fields_def by (intro dget_set_if) simp

lemma enrich_labels:
  "dget event ''strategy_id'' = None \<Longrightarrow> dget (enrich_fields e event) ''strategy_id'' = Some (PStr (oe_strategy_id e))"
  "dget event ''request_id'' = None \<Longrightarrow> dget (enrich_fields e event) ''request_id'' = Some (PStr (oe_request_id e))"
  unfolding enrich_fields_def by (rule dget_set_if, rule dget_set_if, rule dget_set_if, rule dget_set_if, simp)+

definition order_at :: "OrderIdentityMap \<Rightarrow> string \<Rightarrow> string \<Rightarrow> nat \<Rightarrow> bool" where
  "order_at m rid st a \<longleftrightarrow> dget (om_by_request m) rid = Some a \<and> a < length (om_store m) \<and>
     oe_strategy_id (om_store m ! a) = st \<and> oe_request_id (om_store m ! a) = rid"

lemma register_order_at: "order_at (snd (om_register m rid st c v s x)) rid st (length (om_store m))"
  by (simp add: order_at_def om_register_def Let_def)

lemma set_client_order_at: "order_at m rid st a \<Longrightarrow> order_at (snd (set_client_order_id m rid oid)) rid st a"
  by (simp add: order_at_def set_client_order_id_def om_update_def)

lemma set_venue_order_at:
  "order_at m rid st a \<Longrightarrow> order_at (snd (set_venue_order_id m rid oid)) rid st a \<and>
     dget (om_by_venue (snd (set_venue_order_id m rid oid))) oid = Some a"
  by (simp add: order_at_def set_venue_order_id_def om_update_def)

lemma identify_order_at:
  assumes "identify_order ou w p refs m = (p1, refs', m1)"
  shows "\<exists>a. order_at m1 (text_of ou p ''request_id'' []) (text_of ou p ''strategy_id'' ''default'') a"
proof -
  let ?rid = "text_of ou p ''request_id'' []" and ?st = "text_of ou p ''strategy_id'' ''default''"
  define m0 where "m0 = snd (om_register m ?rid ?st
    (order_text ou p [''client_order_id'', ''order_ref'', ''bt_order_ref'']) None
    (case kw p ''symbol'' of PNone \<Rightarrow> None | v \<Rightarrow> Some (py_str ou v)) [])"
  have at: "order_at m0 ?rid ?st (length (om_store m))"
    unfolding m0_def by (rule register_order_at)
  have "m1 = m0 \<or> (\<exists>oid. m1 = snd (set_client_order_id m0 ?rid oid))"
    using assms unfolding identify_order_def Let_def m0_def [symmetric]
    by (auto split: option.splits prod.splits)
  with at set_client_order_at show ?thesis by blast
qed

lemma record_result_order_at:
  assumes "order_at m rid st a" "first_id ou (dict_rows result @ [p]) venue_keys = Some v"
  shows "order_at (record_order_result_ids ou rid p result m) rid st a \<and>
    dget (om_by_venue (record_order_result_ids ou rid p result m)) v = Some a"
proof -
  define m1 where "m1 = (case first_id ou (dict_rows result @ [p]) result_client_keys of
      Some oid \<Rightarrow> snd (set_client_order_id m rid oid) | None \<Rightarrow> m)"
  have "order_at m1 rid st a"
    using assms(1) set_client_order_at by (simp add: m1_def split: option.split)
  then show ?thesis
    using set_venue_order_at assms(2)
    unfolding record_order_result_ids_def Let_def m1_def [symmetric] by simp
qed

lemma find_after:
  "\<forall>x \<in> set xs. x = None \<Longrightarrow> List.find (\<lambda>c. c \<noteq> None) (xs @ Some a # ys) = Some (Some a)"
  by (induction xs) auto



section \<open>Trades\<close>

lemma filter_trade_rows_bounded:
  "length (filter_trade_rows ou rows symbol limit) \<le> limit"
  "row \<in> set (filter_trade_rows ou rows (Some s) limit) \<Longrightarrow> s \<noteq> [] \<Longrightarrow>
     row \<in> set (dict_rows rows) \<and> trade_symbol_matches ou row s"
  by (auto simp: filter_trade_rows_def Let_def split: pyval.splits dest: in_set_dropD)

text \<open>A query of the trades gives at most as many rows as asked for, 100 by default.\<close>

lemma get_trades_bounded:
  "int (length (fst (get_trades ou ad now symbol limit r))) \<le> max (if limit = 0 then 100 else limit) 1"
  using filter_trade_rows_bounded(1) [of ou _ symbol "nat (max (if limit = 0 then 100 else limit) 1)"]
  by (auto simp: get_trades_def Let_def case_prod_beta le_nat_iff)

end
