(* ===== verification/ExchangeAdapters.thy ===== *)
theory ExchangeAdapters
  imports WebSocket GatewayConfig
begin

text \<open>
  Model of \<open>src/bt_api_base/websocket/exchange_adapters.py\<close>: the message formats of the OKX and
  the generic adapter, their normalisation of incoming messages, the subscription counts, and
  the factory. Parameters: the HMAC signature, the adapter class a plugin module gives, and
  the parser of \<open>float\<close>. A message is what \<open>json.loads\<close> gave, so every access may raise.
\<close>

section \<open>Types\<close>

datatype ExchangeType = SPOT | FUTURES | SWAP | OPTIONS

datatype AuthenticationType = NONE | API_KEY | API_KEY_SECRET | JWT | CUSTOM

record ExchangeCredentials =
  cr_auth_type :: AuthenticationType
  cr_api_key :: pyval
  cr_api_secret :: "string option"
  cr_passphrase :: pyval

record RateLimitConfig =
  rlc_max_connections_per_ip :: int
  rlc_max_subscriptions_per_connection :: int
  rlc_messages_per_second_limit :: int
  rlc_reconnect_delay_seconds :: rat
  rlc_requests_per_second :: int
  rlc_requests_per_minute :: int

definition rate_limit_config :: RateLimitConfig where
  "rate_limit_config =
     \<lparr>rlc_max_connections_per_ip = 5, rlc_max_subscriptions_per_connection = 50,
      rlc_messages_per_second_limit = 10, rlc_reconnect_delay_seconds = 1,
      rlc_requests_per_second = 10, rlc_requests_per_minute = 600\<rparr>"

definition okx_rate_limit_config :: RateLimitConfig where
  "okx_rate_limit_config =
     rate_limit_config\<lparr>rlc_max_connections_per_ip := 4, rlc_max_subscriptions_per_connection := 240,
       rlc_messages_per_second_limit := 20, rlc_requests_per_second := 20, rlc_requests_per_minute := 600\<rparr>"

section \<open>Subscription counts\<close>

type_synonym adapter_counts = "(string, int) dict"

definition get_subscription_limits :: "(string, int) dict" where
  "get_subscription_limits =
     [(''ticker'', 100), (''depth'', 50), (''trades'', 100), (''kline'', 200), (''orders'', 50)]"

text \<open>The message of the error reads the limit with \<open>limits[topic]\<close>, which may raise itself.\<close>

datatype limit_check = WithinLimit | LimitExceeded int int | CheckRaises pyerr

definition check_rate_limits :: "adapter_counts \<Rightarrow> string \<Rightarrow> limit_check" where
  "check_rate_limits counts topic =
     (let current = dget_default counts topic 0
      in if dget_default get_subscription_limits topic 100 \<le> current
         then (case dget get_subscription_limits topic of
                 Some l \<Rightarrow> LimitExceeded current l | None \<Rightarrow> CheckRaises KeyError)
         else WithinLimit)"

definition increment_subscription_count :: "string \<Rightarrow> adapter_counts \<Rightarrow> adapter_counts" where
  "increment_subscription_count topic counts = dset topic (dget_default counts topic 0 + 1) counts"

definition decrement_subscription_count :: "string \<Rightarrow> adapter_counts \<Rightarrow> adapter_counts" where
  "decrement_subscription_count topic counts = dset topic (max 0 (dget_default counts topic 0 - 1)) counts"

section \<open>OKX: requests\<close>

definition okx_endpoints :: "string list" where
  "okx_endpoints =
     [''wss://ws.okx.com:8443/ws/v5/public'', ''wss://ws.okx.com:8443/ws/v5/private'',
      ''wss://wsa.okx.com:8443/ws/v5/public'', ''wss://wsa.okx.com:8443/ws/v5/private'']"

text \<open>The signature; \<open>None\<close> is the authentication error of missing credentials.\<close>

definition generate_signature ::
    "(string \<Rightarrow> string \<Rightarrow> string) \<Rightarrow> ExchangeCredentials option \<Rightarrow> string \<Rightarrow> string \<Rightarrow> string \<Rightarrow> string option" where
  "generate_signature hmac_base64 credentials timestamp verb path =
     (case credentials of
        None \<Rightarrow> None
      | Some c \<Rightarrow>
          if truthy_str (cr_api_secret c)
          then Some (hmac_base64 (the (cr_api_secret c)) (timestamp @ verb @ path)) else None)"

text \<open>\<open>authenticate\<close>: the message sent, if any, or the authentication error.\<close>

datatype login = NoLogin | LoginFails | Login pyval

definition okx_authenticate ::
    "(string \<Rightarrow> string \<Rightarrow> string) \<Rightarrow> ExchangeCredentials option \<Rightarrow> time \<Rightarrow> login" where
  "okx_authenticate hmac_base64 credentials now =
     (case credentials of
        Some c \<Rightarrow>
          if cr_auth_type c = API_KEY_SECRET
          then (let timestamp = show_int \<lfloor>now\<rfloor>
                in case generate_signature hmac_base64 credentials timestamp ''GET'' ''/users/self/verify'' of
                     None \<Rightarrow> LoginFails
                   | Some sign \<Rightarrow>
                       Login (PDict [(''op'', PStr ''login''),
                         (''args'', PList [PDict [(''apiKey'', cr_api_key c), (''passphrase'', cr_passphrase c),
                            (''timestamp'', PStr timestamp), (''sign'', PStr sign)]])]))
          else NoLogin
      | None \<Rightarrow> NoLogin)"

text \<open>The table has the candle channel built whatever the topic is.\<close>

definition okx_channel :: "string \<Rightarrow> (string \<times> pyval) list \<Rightarrow> string py" where
  "okx_channel topic params =
     (case dget_default params ''interval'' (PStr ''1m'') of
        PStr interval \<Rightarrow>
          Inr (dget_default
            [(''ticker'', ''tickers''), (''depth'', ''books''), (''trades'', ''trades''),
             (''kline'', ''candle'' @ interval), (''orders'', ''orders''), (''positions'', ''positions''),
             (''account'', ''account'')] topic topic)
      | _ \<Rightarrow> Inl TypeError)"

definition okx_subscription :: "string \<Rightarrow> string \<Rightarrow> (string \<times> pyval) list \<Rightarrow> pyval py" where
  "okx_subscription topic symbol params =
     py_bind (okx_channel topic params) (\<lambda>channel.
       Inr (PDict [(''op'', PStr ''subscribe''),
                   (''args'', PList [PDict [(''channel'', PStr channel), (''instId'', PStr symbol)]])]))"

definition okx_unsubscription :: "string \<Rightarrow> string \<Rightarrow> pyval" where
  "okx_unsubscription topic symbol =
     PDict [(''op'', PStr ''unsubscribe''),
            (''args'', PList [PDict [(''channel'', PStr topic), (''instId'', PStr symbol)]])]"

section \<open>OKX: messages\<close>

definition okx_generic_topic :: "string \<Rightarrow> string" where
  "okx_generic_topic channel =
     (if channel = ''tickers'' then ''ticker''
      else if channel = ''books'' then ''depth''
      else if channel = ''trades'' then ''trades''
      else if prefix ''candle'' channel then ''kline''
      else channel)"

text \<open>\<open>channel.startswith\<close> raises for a channel that is no string.\<close>

definition okx_convert :: "pyval \<Rightarrow> string py" where
  "okx_convert v = (case v of PStr channel \<Rightarrow> Inr (okx_generic_topic channel) | _ \<Rightarrow> Inl AttributeError)"

definition okx_extract :: "pyval \<Rightarrow> (pyval \<times> pyval) py" where
  "okx_extract message =
     py_bind (py_in ''arg'' message) (\<lambda>has_arg.
       if \<not> has_arg then Inr (PNone, PNone)
       else py_bind (py_item ''arg'' message) (\<lambda>arg.
         py_bind (py_get ''channel'' PNone arg) (\<lambda>channel.
           py_bind (py_get ''instId'' PNone arg) (\<lambda>symbol.
             py_bind (okx_convert channel) (\<lambda>topic. Inr (PStr topic, symbol))))))"

definition float_field :: "outside \<Rightarrow> (string \<times> pyval) list \<Rightarrow> string \<Rightarrow> pyval py" where
  "float_field ou data k = py_float ou (dget_default data k (PInt 0))"

definition int_field :: "(string \<times> pyval) list \<Rightarrow> string \<Rightarrow> pyval py" where
  "int_field data k = py_bind (py_int (dget_default data k (PInt 0))) (\<lambda>i. Inr (PInt i))"

fun fields :: "(string \<times> pyval py) list \<Rightarrow> (string \<times> pyval) list py" where
  "fields [] = Inr []"
| "fields ((k, v) # fs) = py_bind v (\<lambda>x. py_bind (fields fs) (\<lambda>rest. Inr ((k, x) # rest)))"

text \<open>\<open>[[float(p), float(s)] for p, s in levels]\<close>: every level must have exactly two parts.\<close>

fun book_levels :: "outside \<Rightarrow> pyval list \<Rightarrow> pyval list py" where
  "book_levels ou [] = Inr []"
| "book_levels ou (level # levels) =
     py_bind (case level of
                PList [p, s] \<Rightarrow> Inr (p, s)
              | PStr [p, s] \<Rightarrow> Inr (PStr [p], PStr [s])
              | PDict [(p, _), (s, _)] \<Rightarrow> Inr (PStr p, PStr s)
              | PList _ \<Rightarrow> Inl ValueError | PStr _ \<Rightarrow> Inl ValueError | PDict _ \<Rightarrow> Inl ValueError
              | _ \<Rightarrow> Inl TypeError) (\<lambda>(p, s).
       py_bind (py_float ou p) (\<lambda>p'. py_bind (py_float ou s) (\<lambda>s'.
         py_bind (book_levels ou levels) (\<lambda>rest. Inr (PList [p', s'] # rest)))))"

definition book_side :: "outside \<Rightarrow> (string \<times> pyval) list \<Rightarrow> string \<Rightarrow> pyval py" where
  "book_side ou data k =
     py_bind (case dget_default data k (PList []) of
                PList xs \<Rightarrow> Inr xs
              | PStr s \<Rightarrow> Inr (map (\<lambda>c. PStr [c]) s)
              | PDict d \<Rightarrow> Inr (map PStr (dkeys d))
              | _ \<Rightarrow> Inl TypeError) (\<lambda>levels.
       py_bind (book_levels ou levels) (\<lambda>ls. Inr (PList ls)))"

definition topic_fields :: "outside \<Rightarrow> pyval \<Rightarrow> (string \<times> pyval) list \<Rightarrow> (string \<times> pyval) list py" where
  "topic_fields ou topic data =
     (let f = float_field ou data
      in if topic = PStr ''ticker''
         then fields [(''last_price'', f ''last''), (''volume'', f ''vol24h''), (''high_24h'', f ''high24h''),
                      (''low_24h'', f ''low24h''), (''change_24h'', f ''chg'')]
         else if topic = PStr ''depth''
         then fields [(''bids'', book_side ou data ''bids''), (''asks'', book_side ou data ''asks''),
                      (''checksum'', Inr (dget_default data ''checksum'' PNone))]
         else if topic = PStr ''trades''
         then fields [(''price'', f ''px''), (''quantity'', f ''sz''), (''trade_time'', int_field data ''ts''),
                      (''side'', Inr (dget_default data ''side'' PNone))]
         else if topic = PStr ''kline''
         then fields [(''open_time'', int_field data ''ts''), (''open'', f ''o''), (''high'', f ''h''),
                      (''low'', f ''l''), (''close'', f ''c''), (''volume'', f ''vol'')]
         else Inr [])"

definition okx_timestamp :: "outside \<Rightarrow> time \<Rightarrow> pyval \<Rightarrow> pyval py" where
  "okx_timestamp ou now data =
     (case data of
        PDict d \<Rightarrow>
          py_bind (py_float ou (dget_default d ''ts'' (PFloat (now * 1000)))) (\<lambda>f.
            py_bind (py_int f) (\<lambda>i. Inr (PInt i)))
      | _ \<Rightarrow> Inr (PInt \<lfloor>now * 1000\<rfloor>))"

definition okx_normalize :: "outside \<Rightarrow> time \<Rightarrow> pyval \<Rightarrow> pyval py" where
  "okx_normalize ou now message =
     py_bind (py_in ''data'' message) (\<lambda>has_data.
     py_bind (if has_data then py_in ''arg'' message else Inr False) (\<lambda>both.
       if \<not> both then Inr message
       else py_bind (py_item ''arg'' message) (\<lambda>_. py_bind (py_item ''data'' message) (\<lambda>raw.
         let data = (case raw of PList (x # _) \<Rightarrow> x | _ \<Rightarrow> raw)
         in py_bind (okx_extract message) (\<lambda>(topic, symbol).
            py_bind (okx_timestamp ou now data) (\<lambda>timestamp.
            py_bind (case data of PDict d \<Rightarrow> topic_fields ou topic d | _ \<Rightarrow> Inr []) (\<lambda>extra.
              Inr (PDict (dict_update
                [(''exchange'', PStr ''OKX''), (''symbol'', symbol), (''topic'', topic), (''data'', data),
                 (''timestamp'', timestamp)] extra)))))))))"

section \<open>The generic adapter\<close>

definition generic_subscription :: "string \<Rightarrow> string \<Rightarrow> string \<Rightarrow> pyval \<Rightarrow> pyval" where
  "generic_subscription sid topic symbol params =
     PDict [(''action'', PStr ''subscribe''), (''topic'', PStr topic), (''symbol'', PStr symbol),
            (''params'', params), (''id'', PStr sid)]"

definition generic_unsubscription :: "string \<Rightarrow> string \<Rightarrow> string \<Rightarrow> pyval" where
  "generic_unsubscription sid topic symbol =
     PDict [(''action'', PStr ''unsubscribe''), (''topic'', PStr topic), (''symbol'', PStr symbol),
            (''id'', PStr sid)]"

definition generic_extract :: "(string \<times> pyval) list \<Rightarrow> pyval \<times> pyval" where
  "generic_extract message = (dget_default message ''topic'' PNone, dget_default message ''symbol'' PNone)"

definition generic_normalize :: "string \<Rightarrow> time \<Rightarrow> (string \<times> pyval) list \<Rightarrow> pyval" where
  "generic_normalize exchange_name now message =
     PDict [(''exchange'', PStr exchange_name), (''symbol'', dget_default message ''symbol'' PNone),
            (''topic'', dget_default message ''topic'' PNone), (''data'', dget_default message ''data'' PNone),
            (''timestamp'', dget_default message ''timestamp'' (PFloat (now * 1000)))]"

section \<open>The factory\<close>

definition normalize_exchange_key :: "string \<Rightarrow> string" where
  "normalize_exchange_key name = py_upper (py_strip name)"

text \<open>\<open>s.split("___", 1)\<close>\<close>

fun cut_at_marker :: "string \<Rightarrow> string \<times> string option" where
  "cut_at_marker [] = ([], None)"
| "cut_at_marker (c # cs) =
     (if take 3 (c # cs) = ''___'' then ([], Some (drop 3 (c # cs)))
      else case cut_at_marker cs of (before, after) \<Rightarrow> (c # before, after))"

definition base_exchange_key :: "string \<Rightarrow> string" where
  "base_exchange_key name = fst (cut_at_marker (normalize_exchange_key name))"

definition infer_exchange_type :: "string \<Rightarrow> ExchangeType" where
  "infer_exchange_type name =
     (case snd (cut_at_marker (normalize_exchange_key name)) of
        None \<Rightarrow> SPOT
      | Some asset_type \<Rightarrow>
          if asset_type \<in> {''FUTURE'', ''FUTURES''} then FUTURES
          else if asset_type = ''SWAP'' then SWAP
          else if asset_type \<in> {''OPTION'', ''OPTIONS''} then OPTIONS
          else SPOT)"

text \<open>\<open>import_class\<close> gives the adapter class of a plugin module, if it can be imported and is one.\<close>

definition load_plugin_adapter :: "(string \<Rightarrow> string \<Rightarrow> 'c option) \<Rightarrow> string \<Rightarrow> 'c option" where
  "load_plugin_adapter import_class key =
     (if key = ''BINANCE''
      then import_class ''bt_api_binance.websocket.exchange_adapters'' ''BinanceWebSocketAdapter''
      else None)"

datatype 'c made_adapter = GenericAdapter string | NamedAdapter 'c string | TypedAdapter 'c ExchangeType

definition create_adapter ::
    "(string \<Rightarrow> string \<Rightarrow> 'c option) \<Rightarrow> ('c \<Rightarrow> bool) \<Rightarrow> string \<Rightarrow> ExchangeType \<Rightarrow> (string, 'c) dict
     \<Rightarrow> 'c made_adapter \<times> (string, 'c) dict" where
  "create_adapter import_class base_init name exchange_type adapters =
     (let base = base_exchange_key name;
          registered = (case dget adapters (normalize_exchange_key name) of
                          Some c \<Rightarrow> Some c | None \<Rightarrow> dget adapters base);
          (cls, adapters1) =
            (case registered of
               Some c \<Rightarrow> (Some c, adapters)
             | None \<Rightarrow>
                 (case load_plugin_adapter import_class base of
                    Some c \<Rightarrow> (Some c, if base \<in> set (dkeys adapters) then adapters else dset base c adapters)
                  | None \<Rightarrow> (None, adapters)));
          resolved = (if exchange_type = SPOT \<and> infer_exchange_type name \<noteq> SPOT
                      then infer_exchange_type name else exchange_type)
      in (case cls of
            None \<Rightarrow> GenericAdapter name
          | Some c \<Rightarrow> if base_init c then NamedAdapter c name else TypedAdapter c resolved, adapters1))"

definition register_ws_adapter :: "string \<Rightarrow> 'c \<Rightarrow> (string, 'c) dict \<Rightarrow> (string, 'c) dict" where
  "register_ws_adapter name c adapters = dset (py_upper name) c adapters"

section \<open>OKX channels\<close>

lemma okx_channel_eq:
  assumes "okx_channel topic params = Inr channel"
  obtains interval where "channel =
    (if topic = ''ticker'' then ''tickers'' else if topic = ''depth'' then ''books''
     else if topic = ''kline'' then ''candle'' @ interval else topic)"
proof (cases "dget_default params ''interval'' (PStr ''1m'')")
  case (PStr interval)
  have "dget_default
      [(''ticker'', ''tickers''), (''depth'', ''books''), (''trades'', ''trades''),
       (''kline'', ''candle'' @ interval), (''orders'', ''orders''), (''positions'', ''positions''),
       (''account'', ''account'')] topic topic =
    (if topic = ''ticker'' then ''tickers'' else if topic = ''depth'' then ''books''
     else if topic = ''kline'' then ''candle'' @ interval else topic)"
    by (simp add: dget_default_def)
  with assms PStr have "channel =
    (if topic = ''ticker'' then ''tickers'' else if topic = ''depth'' then ''books''
     else if topic = ''kline'' then ''candle'' @ interval else topic)"
    by (simp only: okx_channel_def pyval.case sum.inject)
  then show ?thesis by (rule that)
qed (use assms in \<open>simp_all add: okx_channel_def\<close>)

lemma okx_generic_topic_values:
  "okx_generic_topic ''tickers'' = ''ticker''" "okx_generic_topic ''books'' = ''depth''"
  "okx_generic_topic (''candle'' @ interval) = ''kline''"
  by (simp_all add: okx_generic_topic_def)

lemma okx_generic_topic_other:
  "topic \<notin> {''tickers'', ''books''} \<Longrightarrow> \<not> prefix ''candle'' topic \<Longrightarrow> okx_generic_topic topic = topic"
  by (simp add: okx_generic_topic_def)

lemma okx_generic_channel:
  assumes "okx_channel topic params = Inr channel"
    and "topic \<notin> {''tickers'', ''books''}" "\<not> prefix ''candle'' topic"
  shows "okx_generic_topic channel = topic"
proof -
  obtain interval where c: "channel =
    (if topic = ''ticker'' then ''tickers'' else if topic = ''depth'' then ''books''
     else if topic = ''kline'' then ''candle'' @ interval else topic)"
    using okx_channel_eq [OF assms(1)] .
  consider "topic = ''ticker''" | "topic = ''depth''" | "topic = ''kline''"
    | "topic \<notin> {''ticker'', ''depth'', ''kline''}" by blast
  then show ?thesis
    by cases (use c assms(2,3) okx_generic_topic_other in \<open>simp_all add: okx_generic_topic_values [simplified]\<close>)
qed

lemma okx_channel_same:
  assumes "okx_channel topic params = Inr channel"
  shows "channel = topic \<longleftrightarrow> topic \<notin> {''ticker'', ''depth'', ''kline''}"
proof -
  obtain interval where c: "channel =
    (if topic = ''ticker'' then ''tickers'' else if topic = ''depth'' then ''books''
     else if topic = ''kline'' then ''candle'' @ interval else topic)"
    using okx_channel_eq [OF assms(1)] .
  consider "topic = ''ticker''" | "topic = ''depth''" | "topic = ''kline''"
    | "topic \<notin> {''ticker'', ''depth'', ''kline''}" by blast
  then show ?thesis by cases (use c in simp_all)
qed

text \<open>
  A data message of the channel an OKX subscription names comes back under its topic and
  symbol, for every topic that is not itself an OKX channel of another one. But the message
  that unsubscribes names the topic and not the channel: for tickers, depth and candles it
  does not name the channel that was subscribed.
\<close>

theorem okx_channel_roundtrip:
  assumes "okx_subscription topic symbol params = Inr message"
    and "topic \<notin> {''tickers'', ''books''}" "\<not> prefix ''candle'' topic"
  shows "\<exists>arg. message = PDict [(''op'', PStr ''subscribe''), (''args'', PList [arg])] \<and>
    okx_extract (PDict [(''arg'', arg), (''data'', payload)]) = Inr (PStr topic, PStr symbol) \<and>
    (okx_unsubscription topic symbol = PDict [(''op'', PStr ''unsubscribe''), (''args'', PList [arg])] \<longleftrightarrow>
       topic \<notin> {''ticker'', ''depth'', ''kline''})"
proof -
  obtain channel where c: "okx_channel topic params = Inr channel"
    and m: "message = PDict [(''op'', PStr ''subscribe''),
      (''args'', PList [PDict [(''channel'', PStr channel), (''instId'', PStr symbol)]])]"
    using assms(1) by (auto simp: okx_subscription_def py_bind_def split: sum.splits)
  have "okx_extract (PDict [(''arg'', PDict [(''channel'', PStr channel), (''instId'', PStr symbol)]), (''data'', payload)]) =
      Inr (PStr topic, PStr symbol)"
    using okx_generic_channel [OF c assms(2,3)]
    by (simp add: okx_extract_def okx_convert_def py_bind_def dget_default_def)
  moreover have "channel = topic \<longleftrightarrow> topic \<notin> {''ticker'', ''depth'', ''kline''}"
    by (rule okx_channel_same [OF c])
  ultimately show ?thesis using m by (auto simp: okx_unsubscription_def)
qed

theorem okx_channel_roundtrip_witness:
  "\<forall>payload. okx_extract (PDict [(''arg'', PDict [(''channel'', PStr ''tickers''), (''instId'', PStr ''BTC-USDT'')]),
     (''data'', payload)]) = Inr (PStr ''ticker'', PStr ''BTC-USDT'')"
proof
  fix payload
  have sub: "okx_subscription ''ticker'' ''BTC-USDT'' [] = Inr (PDict [(''op'', PStr ''subscribe''),
      (''args'', PList [PDict [(''channel'', PStr ''tickers''), (''instId'', PStr ''BTC-USDT'')]])])"
    by (simp add: okx_subscription_def okx_channel_def py_bind_def dget_default_def)
  from okx_channel_roundtrip [OF sub, of payload] show
    "okx_extract (PDict [(''arg'', PDict [(''channel'', PStr ''tickers''), (''instId'', PStr ''BTC-USDT'')]),
     (''data'', payload)]) = Inr (PStr ''ticker'', PStr ''BTC-USDT'')"
    by simp
qed

section \<open>Errors\<close>

text \<open>At its limit a topic without an entry in the table raises \<open>KeyError\<close>, not the rate limit error.\<close>

lemma unlisted_topic_raises_key_error:
  "topic \<notin> set (dkeys get_subscription_limits) \<Longrightarrow> 100 \<le> dget_default counts topic 0 \<Longrightarrow>
   check_rate_limits counts topic = CheckRaises KeyError"
  by (simp add: check_rate_limits_def dget_default_def [of get_subscription_limits] dget_None_iff [symmetric] Let_def)

text \<open>
  The levels of an order book must be pairs. A level with more parts, as the \<open>books\<close> channel of
  OKX sends them (price, size, a constant and the number of orders), raises \<open>ValueError\<close>.
\<close>

lemma long_book_level_raises:
  assumes "dget data ''bids'' = Some (PList (PList level # levels))" "length level \<noteq> 2"
  shows "topic_fields ou (PStr ''depth'') data = Inl ValueError"
proof -
  have "book_levels ou (PList level # levels) = Inl ValueError"
    using assms(2) by (auto simp: py_bind_def split: list.split)
  then have "book_side ou data ''bids'' = Inl ValueError"
    using assms(1) by (simp add: book_side_def dget_default_def py_bind_def del: book_levels.simps)
  then show ?thesis by (simp add: topic_fields_def py_bind_def)
qed

end
