(* ===== verification/Injection.thy ===== *)
theory Injection
  imports PyPrelude
begin

text \<open>
  Model of \<open>src/bt_api_base/core/dependency_injection.py\<close>: the container with its four ways to
  register, resolution with constructor injection, and scopes. Interfaces, classes and objects
  are numbers; a new object gets the next number. What the constructor of a class needs is a
  parameter: for each of its parameters the annotated interface, if any, and whether it has a
  default. Resolution recurses through the constructors; the fuel bounds the depth, and
  without enough of it Python raises \<open>RecursionError\<close>.
\<close>

section \<open>The container\<close>

record param =
  pr_annotation :: "nat option"
  pr_has_default :: bool

record DIContainer =
  di_services :: "(nat, nat) dict"
  di_factories :: "(nat, nat) dict"
  di_singletons :: "(nat, nat) dict"
  di_scoped_services :: "(nat, nat) dict"
  di_current_scope :: "(nat, nat) dict option"
  di_next_object :: nat

definition di_new :: DIContainer where
  "di_new = \<lparr>di_services = [], di_factories = [], di_singletons = [], di_scoped_services = [],
     di_current_scope = None, di_next_object = 0\<rparr>"

definition clear_registration :: "nat \<Rightarrow> DIContainer \<Rightarrow> DIContainer" where
  "clear_registration i c =
     c\<lparr>di_services := dpop i (di_services c), di_factories := dpop i (di_factories c),
       di_singletons := dpop i (di_singletons c), di_scoped_services := dpop i (di_scoped_services c),
       di_current_scope := map_option (dpop i) (di_current_scope c)\<rparr>"

definition register_singleton :: "nat \<Rightarrow> nat \<Rightarrow> DIContainer \<Rightarrow> DIContainer" where
  "register_singleton i cls c =
     (let c1 = clear_registration i c in c1\<lparr>di_services := dset i cls (di_services c1)\<rparr>)"

definition register_transient :: "nat \<Rightarrow> nat \<Rightarrow> DIContainer \<Rightarrow> DIContainer" where
  "register_transient i cls c =
     (let c1 = clear_registration i c in c1\<lparr>di_factories := dset i cls (di_factories c1)\<rparr>)"

definition register_scoped :: "nat \<Rightarrow> nat \<Rightarrow> DIContainer \<Rightarrow> DIContainer" where
  "register_scoped i cls c =
     (let c1 = clear_registration i c in c1\<lparr>di_scoped_services := dset i cls (di_scoped_services c1)\<rparr>)"

definition register_instance :: "nat \<Rightarrow> nat \<Rightarrow> DIContainer \<Rightarrow> DIContainer" where
  "register_instance i obj c =
     (let c1 = clear_registration i c in c1\<lparr>di_singletons := dset i obj (di_singletons c1)\<rparr>)"

datatype di_lifetime = Singleton | Transient | Scoped | InvalidLifetime

text \<open>The legacy wrapper's \<open>register\<close>.\<close>

definition container_register :: "nat \<Rightarrow> nat \<Rightarrow> di_lifetime \<Rightarrow> DIContainer \<Rightarrow> bool \<times> DIContainer" where
  "container_register i cls l c =
     (case l of
        Singleton \<Rightarrow> (False, register_singleton i cls c)
      | Transient \<Rightarrow> (False, register_transient i cls c)
      | Scoped \<Rightarrow> (False, register_scoped i cls c)
      | InvalidLifetime \<Rightarrow> (True, c))"

section \<open>Resolution\<close>

datatype di_result = Object nat | NotResolved | RecursionError

definition construct :: "DIContainer \<Rightarrow> di_result \<times> DIContainer" where
  "construct c = (Object (di_next_object c), c\<lparr>di_next_object := di_next_object c + 1\<rparr>)"

text \<open>
  The parameters are resolved in their order, each with \<open>resolve\<close>; one that has no annotation
  is skipped, and one that is not resolved needs a default.
\<close>

fun inject_params ::
    "(nat \<Rightarrow> DIContainer \<Rightarrow> di_result \<times> DIContainer) \<Rightarrow> param list \<Rightarrow> DIContainer \<Rightarrow> di_result option \<times> DIContainer" where
  "inject_params res [] c = (None, c)"
| "inject_params res (p # ps) c =
     (case pr_annotation p of
        None \<Rightarrow> inject_params res ps c
      | Some i \<Rightarrow>
          (case res i c of
             (Object _, c1) \<Rightarrow> inject_params res ps c1
           | (NotResolved, c1) \<Rightarrow> if pr_has_default p then inject_params res ps c1 else (Some NotResolved, c1)
           | (RecursionError, c1) \<Rightarrow> (Some RecursionError, c1)))"

definition create_instance ::
    "(nat \<Rightarrow> DIContainer \<Rightarrow> di_result \<times> DIContainer) \<Rightarrow> (nat \<Rightarrow> param list) \<Rightarrow> nat \<Rightarrow> DIContainer
     \<Rightarrow> di_result \<times> DIContainer" where
  "create_instance res params cls c =
     (case inject_params res (params cls) c of
        (None, c1) \<Rightarrow> construct c1
      | (Some failure, c1) \<Rightarrow> (failure, c1))"

text \<open>What is done with a new object: kept in the scope, kept for ever, or only returned.\<close>

definition keep_in_scope :: "nat \<Rightarrow> di_result \<times> DIContainer \<Rightarrow> di_result \<times> DIContainer" where
  "keep_in_scope i x =
     (case x of
        (Object o', c) \<Rightarrow> (Object o', c\<lparr>di_current_scope := map_option (dset i o') (di_current_scope c)\<rparr>)
      | _ \<Rightarrow> x)"

definition keep_singleton :: "nat \<Rightarrow> di_result \<times> DIContainer \<Rightarrow> di_result \<times> DIContainer" where
  "keep_singleton i x =
     (case x of
        (Object o', c) \<Rightarrow> (Object o', c\<lparr>di_singletons := dset i o' (di_singletons c)\<rparr>)
      | _ \<Rightarrow> x)"

fun resolve :: "nat \<Rightarrow> (nat \<Rightarrow> param list) \<Rightarrow> nat \<Rightarrow> DIContainer \<Rightarrow> di_result \<times> DIContainer" where
  "resolve 0 params i c = (RecursionError, c)"
| "resolve (Suc fuel) params i c =
     (case dget (di_singletons c) i of
        Some obj \<Rightarrow> (Object obj, c)
      | None \<Rightarrow>
     (case dget (di_scoped_services c) i of
        Some cls \<Rightarrow>
          (case Option.bind (di_current_scope c) (\<lambda>s. dget s i) of
             Some obj \<Rightarrow> (Object obj, c)
           | None \<Rightarrow> keep_in_scope i (create_instance (resolve fuel params) params cls c))
      | None \<Rightarrow>
     (case dget (di_services c) i of
        Some cls \<Rightarrow> keep_singleton i (create_instance (resolve fuel params) params cls c)
      | None \<Rightarrow>
     (case dget (di_factories c) i of
        Some cls \<Rightarrow> create_instance (resolve fuel params) params cls c
      | None \<Rightarrow> (NotResolved, c)))))"

section \<open>Scopes\<close>

text \<open>\<open>create_scope\<close> as its entry, which remembers the old scope, and its exit, which puts it back.\<close>

definition enter_scope :: "DIContainer \<Rightarrow> (nat, nat) dict option \<times> DIContainer" where
  "enter_scope c = (di_current_scope c, c\<lparr>di_current_scope := Some []\<rparr>)"

definition exit_scope :: "(nat, nat) dict option \<Rightarrow> DIContainer \<Rightarrow> DIContainer" where
  "exit_scope old c = c\<lparr>di_current_scope := old\<rparr>"

definition di_clear :: "DIContainer \<Rightarrow> DIContainer" where
  "di_clear c = c\<lparr>di_services := [], di_factories := [], di_singletons := [], di_scoped_services := [],
     di_current_scope := None\<rparr>"

text \<open>\<open>inject_method\<close>: the arguments the wrapper adds, or the failure it raises.\<close>

fun method_arguments ::
    "(nat \<Rightarrow> DIContainer \<Rightarrow> di_result \<times> DIContainer) \<Rightarrow> string list \<Rightarrow> (string \<times> param) list \<Rightarrow> DIContainer
     \<Rightarrow> (di_result + (string \<times> nat option) list) \<times> DIContainer" where
  "method_arguments res given [] c = (Inr [], c)"
| "method_arguments res given ((name, p) # ps) c =
     (let go = (\<lambda>c. method_arguments res given ps c);
          add = (\<lambda>v c. case method_arguments res given ps c of
                   (Inr args, c') \<Rightarrow> (Inr ((name, v) # args), c') | (Inl e, c') \<Rightarrow> (Inl e, c'))
      in if name \<in> set given then go c
         else case pr_annotation p of
           None \<Rightarrow> go c
         | Some i \<Rightarrow>
             (case res i c of
                (Object obj, c1) \<Rightarrow> add (Some obj) c1
              | (NotResolved, c1) \<Rightarrow> if pr_has_default p then add None c1 else (Inl NotResolved, c1)
              | (RecursionError, c1) \<Rightarrow> (Inl RecursionError, c1)))"

end
