(* ===== verification/InjectionCorrect.thy ===== *)
theory InjectionCorrect
  imports Injection
begin

text \<open>
  The lifetimes the container promises, when resolution ends, and what interleaved scopes do.
\<close>

section \<open>What resolution keeps\<close>

text \<open>
  A property of the container that creating and keeping an object does not destroy. An object
  is kept as a singleton, or in the scope, only under an interface that had none: what the
  property says of such interfaces is \<open>ok_singleton\<close> and \<open>ok_scope\<close>.
\<close>

locale container_property =
  fixes P :: "DIContainer \<Rightarrow> bool" and ok_singleton ok_scope :: "nat \<Rightarrow> bool"
  assumes created: "P c \<Longrightarrow> P (c\<lparr>di_next_object := di_next_object c + 1\<rparr>)"
    and fresh_singleton:
      "P c \<Longrightarrow> dget (di_singletons c) i = None \<Longrightarrow> dget (di_services c) i \<noteq> None \<Longrightarrow> ok_singleton i"
    and fresh_scope: "P c \<Longrightarrow> Option.bind (di_current_scope c) (\<lambda>s. dget s i) = None \<Longrightarrow> ok_scope i"
    and kept_singleton: "P c \<Longrightarrow> ok_singleton i \<Longrightarrow> P (c\<lparr>di_singletons := dset i obj (di_singletons c)\<rparr>)"
    and kept_scope:
      "P c \<Longrightarrow> ok_scope i \<Longrightarrow> P (c\<lparr>di_current_scope := map_option (dset i obj) (di_current_scope c)\<rparr>)"
begin

lemma inject_keeps:
  "(\<And>i c. P c \<Longrightarrow> P (snd (res i c))) \<Longrightarrow> P c \<Longrightarrow> P (snd (inject_params res ps c))"
proof (induction ps arbitrary: c)
  case (Cons p ps)
  show ?case
  proof (cases "pr_annotation p")
    case (Some i)
    obtain x c1 where r: "res i c = (x, c1)" by fastforce
    then have "P c1" using Cons.prems(1) [OF Cons.prems(2), of i] by simp
    with Cons r Some show ?thesis by (cases x) simp_all
  qed (use Cons in simp)
qed simp

lemma create_keeps:
  assumes "\<And>i c. P c \<Longrightarrow> P (snd (res i c))" "P c"
  shows "P (snd (create_instance res params cls c))"
proof -
  obtain x c1 where r: "inject_params res (params cls) c = (x, c1)" by fastforce
  have "P (snd (inject_params res (params cls) c))" by (rule inject_keeps) (use assms in blast)+
  with r have "P c1" by simp
  with r show ?thesis by (cases x) (simp_all add: create_instance_def construct_def created [simplified])
qed

lemma resolve_keeps: "P c \<Longrightarrow> P (snd (resolve fuel params i c))"
proof (induction fuel arbitrary: i c)
  case (Suc fuel)
  note IH = create_keeps [of "resolve fuel params", OF Suc.IH]
  show ?case
  proof (cases "dget (di_singletons c) i")
    case None
    show ?thesis
    proof (cases "dget (di_scoped_services c) i")
      case (Some cls)
      show ?thesis
      proof (cases "Option.bind (di_current_scope c) (\<lambda>s. dget s i)")
        case scope: None
        obtain x c1 where r: "create_instance (resolve fuel params) params cls c = (x, c1)" by fastforce
        with IH [OF _ Suc.prems, where params = params and cls = cls] have "P c1" by simp
        then show ?thesis
          using None Some scope r kept_scope [OF _ fresh_scope [OF Suc.prems scope]]
          by (cases x) (simp_all add: keep_in_scope_def)
      qed (use None Some Suc.prems in simp)
    next
      case scoped: None
      show ?thesis
      proof (cases "dget (di_services c) i")
        case (Some cls)
        have sing: "ok_singleton i" using fresh_singleton [OF Suc.prems None] Some by simp
        obtain x c1 where r: "create_instance (resolve fuel params) params cls c = (x, c1)" by fastforce
        with IH [OF _ Suc.prems, where params = params and cls = cls] have "P c1" by simp
        then show ?thesis
          using None scoped Some r kept_singleton [OF _ sing]
          by (cases x) (simp_all add: keep_singleton_def)
      next
        case services: None
        show ?thesis
          using None scoped services IH [OF _ Suc.prems] Suc.prems
          by (cases "dget (di_factories c) i") simp_all
      qed
    qed
  qed (use Suc.prems in simp)
qed simp

end

definition registrations :: "DIContainer \<Rightarrow> (nat, nat) dict \<times> (nat, nat) dict \<times> (nat, nat) dict" where
  "registrations c = (di_services c, di_factories c, di_scoped_services c)"

interpretation regs: container_property "\<lambda>c. registrations c = R" "\<lambda>_. True" "\<lambda>_. True" for R
  by unfold_locales (simp_all add: registrations_def)

interpretation counter: container_property "\<lambda>c. n \<le> di_next_object c" "\<lambda>_. True" "\<lambda>_. True" for n
  by unfold_locales simp_all

interpretation single: container_property "\<lambda>c. dget (di_singletons c) i = Some obj" "\<lambda>j. j \<noteq> i" "\<lambda>_. True" for i obj
  by unfold_locales auto

interpretation in_scope: container_property
  "\<lambda>c. Option.bind (di_current_scope c) (\<lambda>s. dget s i) = Some obj" "\<lambda>_. True" "\<lambda>j. j \<noteq> i" for i obj
proof unfold_locales
  fix c j o' assume "Option.bind (di_current_scope c) (\<lambda>s. dget s i) = Some obj" "j \<noteq> i"
  then show "Option.bind (di_current_scope (c\<lparr>di_current_scope := map_option (dset j o') (di_current_scope c)\<rparr>))
      (\<lambda>s. dget s i) = Some obj"
    by (cases "di_current_scope c") simp_all
qed auto

interpretation no_single: container_property
  "\<lambda>c. dget (di_singletons c) i = None \<and> dget (di_services c) i = None" "\<lambda>j. j \<noteq> i" "\<lambda>_. True" for i
  by unfold_locales auto

text \<open>Whether there is a current scope does not change.\<close>

interpretation scoping: container_property "\<lambda>c. (di_current_scope c \<noteq> None) = b" "\<lambda>_. True" "\<lambda>_. True" for b
  by unfold_locales auto

section \<open>Lifetimes\<close>

lemma resolve_registrations [simp]: "registrations (snd (resolve fuel params i c)) = registrations c"
  using regs.resolve_keeps [of c "registrations c"] by simp

lemma resolve_counter: "di_next_object c \<le> di_next_object (snd (resolve fuel params i c))"
  using counter.resolve_keeps [of "di_next_object c" c] by simp

lemma inject_failure: "fst (inject_params res ps c) \<noteq> Some (Object obj)"
proof (induction ps arbitrary: c)
  case (Cons p ps)
  then show ?case by (auto split: option.split di_result.split prod.split)
qed simp

lemma create_object:
  assumes "create_instance (resolve fuel params) params cls c = (Object obj, c1)"
  shows "di_next_object c \<le> obj \<and> di_next_object c1 = Suc obj"
proof -
  obtain x c0 where r: "inject_params (resolve fuel params) (params cls) c = (x, c0)" by fastforce
  have "di_next_object c \<le> di_next_object c0"
    using counter.inject_keeps [of "di_next_object c" "resolve fuel params" c "params cls"] counter.resolve_keeps r
    by simp
  with r assms inject_failure [of "resolve fuel params" "params cls" c obj] show ?thesis
    by (cases x) (auto simp: create_instance_def construct_def)
qed

text \<open>What an interface is registered as: the first table of \<open>resolve\<close> that has it.\<close>

definition is_singleton :: "DIContainer \<Rightarrow> nat \<Rightarrow> bool" where
  "is_singleton c i \<longleftrightarrow> dget (di_scoped_services c) i = None \<and>
     (dget (di_singletons c) i \<noteq> None \<or> dget (di_services c) i \<noteq> None)"

definition is_scoped :: "DIContainer \<Rightarrow> nat \<Rightarrow> bool" where
  "is_scoped c i \<longleftrightarrow> dget (di_singletons c) i = None \<and> dget (di_scoped_services c) i \<noteq> None"

definition is_transient :: "DIContainer \<Rightarrow> nat \<Rightarrow> bool" where
  "is_transient c i \<longleftrightarrow> dget (di_singletons c) i = None \<and> dget (di_scoped_services c) i = None \<and>
     dget (di_services c) i = None \<and> dget (di_factories c) i \<noteq> None"

lemma resolve_singleton:
  assumes "is_singleton c i" "resolve (Suc fuel) params i c = (Object obj, c1)"
  shows "dget (di_singletons c1) i = Some obj"
proof (cases "dget (di_singletons c) i")
  case None
  then obtain cls where s: "dget (di_services c) i = Some cls" "dget (di_scoped_services c) i = None"
    using assms(1) by (auto simp: is_singleton_def)
  obtain x c0 where r: "create_instance (resolve fuel params) params cls c = (x, c0)" by fastforce
  show ?thesis using assms(2) None s r by (cases x) (auto simp: keep_singleton_def)
qed (use assms(2) in auto)

lemma resolve_scoped:
  assumes "is_scoped c i" "di_current_scope c \<noteq> None" "resolve (Suc fuel) params i c = (Object obj, c1)"
  shows "Option.bind (di_current_scope c1) (\<lambda>s. dget s i) = Some obj"
proof (cases "Option.bind (di_current_scope c) (\<lambda>s. dget s i)")
  case None
  then obtain cls where s: "dget (di_scoped_services c) i = Some cls" "dget (di_singletons c) i = None"
    using assms(1) by (auto simp: is_scoped_def)
  obtain x c0 where r: "create_instance (resolve fuel params) params cls c = (x, c0)" by fastforce
  have "(di_current_scope c0 \<noteq> None) = True"
    using scoping.create_keeps [of True "resolve fuel params" c params cls] scoping.resolve_keeps assms(2) r by simp
  then show ?thesis using assms(3) None s r by (cases x) (auto simp: keep_in_scope_def)
next
  case (Some a)
  then show ?thesis using assms by (auto simp: is_scoped_def)
qed

lemma resolve_transient:
  assumes "is_transient c i" "resolve (Suc fuel) params i c = (Object obj, c1)"
  shows "di_next_object c \<le> obj \<and> di_next_object c1 = Suc obj"
  using assms create_object by (auto simp: is_transient_def)

text \<open>Resolutions of any interfaces one after the other.\<close>

definition resolve_all :: "(nat \<Rightarrow> param list) \<Rightarrow> DIContainer \<Rightarrow> (nat \<times> nat) list \<Rightarrow> DIContainer" where
  "resolve_all params = foldl (\<lambda>c (fuel, i). snd (resolve fuel params i c))"

lemma resolve_all_singleton:
  "dget (di_singletons c) i = Some obj \<Longrightarrow> dget (di_singletons (resolve_all params c xs)) i = Some obj"
  by (induction xs arbitrary: c) (auto simp: resolve_all_def single.resolve_keeps)

lemma resolve_all_scoped:
  "Option.bind (di_current_scope c) (\<lambda>s. dget s i) = Some obj \<Longrightarrow>
   Option.bind (di_current_scope (resolve_all params c xs)) (\<lambda>s. dget s i) = Some obj"
  by (induction xs arbitrary: c) (auto simp: resolve_all_def in_scope.resolve_keeps)

lemma resolve_all_counter: "di_next_object c \<le> di_next_object (resolve_all params c xs)"
proof (induction xs arbitrary: c)
  case (Cons x xs)
  obtain fuel i where "x = (fuel, i)" by fastforce
  with Cons [of "snd (resolve fuel params i c)"] resolve_counter [of c fuel params i] show ?case
    by (simp add: resolve_all_def)
qed (simp add: resolve_all_def)

lemma resolve_all_registrations: "registrations (resolve_all params c xs) = registrations c"
  by (induction xs arbitrary: c) (auto simp: resolve_all_def)

lemma resolve_all_transient: "is_transient c i \<Longrightarrow> is_transient (resolve_all params c xs) i"
proof -
  assume t: "is_transient c i"
  have "dget (di_singletons (resolve_all params c xs)) i = None \<and> dget (di_services (resolve_all params c xs)) i = None"
    if "dget (di_singletons c) i = None \<and> dget (di_services c) i = None" for c
    using that by (induction xs arbitrary: c) (auto simp: resolve_all_def no_single.resolve_keeps)
  with t resolve_all_registrations [of params c xs] show ?thesis
    by (simp add: is_transient_def registrations_def)
qed



section \<open>When resolution ends\<close>

definition class_of :: "DIContainer \<Rightarrow> nat \<Rightarrow> nat option" where
  "class_of c i =
     (case dget (di_scoped_services c) i of
        Some cls \<Rightarrow> Some cls
      | None \<Rightarrow> (case dget (di_services c) i of Some cls \<Rightarrow> Some cls | None \<Rightarrow> dget (di_factories c) i))"

lemma class_of_registrations: "registrations c' = registrations c \<Longrightarrow> class_of c' = class_of c"
  by (rule ext) (auto simp: registrations_def class_of_def split: option.split)

definition ranked :: "(nat \<Rightarrow> param list) \<Rightarrow> (nat \<Rightarrow> nat) \<Rightarrow> DIContainer \<Rightarrow> bool" where
  "ranked params rank c \<longleftrightarrow> (\<forall>i cls p j. class_of c i = Some cls \<longrightarrow> p \<in> set (params cls) \<longrightarrow>
     pr_annotation p = Some j \<longrightarrow> rank j < rank i)"

lemma inject_ends:
  assumes "\<And>i c. (\<exists>p \<in> set ps. pr_annotation p = Some i) \<Longrightarrow> registrations c = R \<Longrightarrow>
      fst (res i c) \<noteq> RecursionError \<and> registrations (snd (res i c)) = R" "registrations c = R"
  shows "fst (inject_params res ps c) \<noteq> Some RecursionError"
  using assms
proof (induction ps arbitrary: c)
  case (Cons p ps)
  show ?case
  proof (cases "pr_annotation p")
    case (Some i)
    obtain x c1 where r: "res i c = (x, c1)" by fastforce
    have x: "x \<noteq> RecursionError" "registrations c1 = R"
      using Cons.prems(1) [of i c] Cons.prems(2) Some r by auto
    have "fst (inject_params res ps c1) \<noteq> Some RecursionError"
      by (rule Cons.IH) (use Cons.prems(1) x(2) in auto)
    then show ?thesis using Some r x(1) by (cases x) simp_all
  next
    case None
    have "fst (inject_params res ps c) \<noteq> Some RecursionError"
      by (rule Cons.IH) (use Cons.prems in auto)
    then show ?thesis using None by simp
  qed
qed simp

lemma create_ends:
  "fst (inject_params res (params cls) c) \<noteq> Some RecursionError \<Longrightarrow>
   fst (create_instance res params cls c) \<noteq> RecursionError"
  by (auto simp: create_instance_def construct_def split: option.split prod.split)

lemma keep_ends [simp]:
  "fst (keep_in_scope i x) = fst x" "fst (keep_singleton i x) = fst x"
  by (auto simp: keep_in_scope_def keep_singleton_def split: prod.split di_result.split)

text \<open>
  If the constructor dependencies have no cycle, so that each interface has a rank above
  those its class needs, resolution needs no more depth than the rank: it ends with an object
  or with the error of a missing service, and never raises \<open>RecursionError\<close>.
\<close>

theorem resolution_terminates:
  assumes "ranked params rank c" "rank i < fuel"
  shows "fst (resolve fuel params i c) \<noteq> RecursionError"
  using assms
proof (induction fuel arbitrary: i c)
  case (Suc fuel)
  have "fst (create_instance (resolve fuel params) params cls c) \<noteq> RecursionError"
    if "class_of c i = Some cls" for cls
  proof (rule create_ends, rule inject_ends [OF _ refl])
    fix j c' assume j: "\<exists>p \<in> set (params cls). pr_annotation p = Some j" "registrations c' = registrations c"
    then have "rank j < fuel" using Suc.prems that by (force simp: ranked_def)
    moreover have "ranked params rank c'"
      using Suc.prems(1) class_of_registrations [OF j(2)] by (simp add: ranked_def)
    ultimately show "fst (resolve fuel params j c') \<noteq> RecursionError \<and>
        registrations (snd (resolve fuel params j c')) = registrations c"
      using Suc.IH j(2) by simp
  qed
  then show ?case by (auto simp: class_of_def split: option.splits)
qed simp

theorem resolution_terminates_witness:
  "fst (resolve 2 (\<lambda>cls. if cls = 10 then [\<lparr>pr_annotation = Some 2, pr_has_default = False\<rparr>] else []) 1
     (register_transient 2 20 (register_singleton 1 10 di_new))) \<noteq> RecursionError"
  by (rule resolution_terminates [where rank = "\<lambda>i. if i = 1 then 1 else 0"])
    (auto simp: ranked_def class_of_def register_transient_def register_singleton_def clear_registration_def
      di_new_def Let_def split: if_splits)

text \<open>A class whose first annotated parameter is its own interface always raises it.\<close>

lemma self_dependency_never_resolves:
  assumes "class_of c i = Some cls" "params cls = p # ps" "pr_annotation p = Some i"
    and "dget (di_singletons c) i = None" "di_current_scope c = None"
  shows "resolve fuel params i c = (RecursionError, c)"
  using assms
proof (induction fuel)
  case (Suc fuel)
  then have "create_instance (resolve fuel params) params cls c = (RecursionError, c)"
    by (simp add: create_instance_def)
  with Suc.prems show ?case
    by (auto simp: class_of_def keep_in_scope_def keep_singleton_def split: option.splits)
qed simp

section \<open>Interleaved scopes\<close>

text \<open>
  The current scope belongs to the container and not to the task: when one task leaves the
  scope it entered first while another is still in its own, the second task has no scope any
  more, and each resolution of a scoped service gives it another object.
\<close>

lemma interleaved_scopes_lost:
  assumes "di_current_scope c = None"
  defines "a \<equiv> enter_scope c"
  defines "b \<equiv> enter_scope (snd a)"
  shows "di_current_scope (exit_scope (fst a) (snd b)) = None"
  by (simp add: a_def b_def enter_scope_def exit_scope_def assms(1))

text \<open>
  \<open>inject_method\<close> looks only at the keyword arguments: an annotated parameter that is passed by
  position and has no default makes the call fail when its annotation is not registered.
\<close>

lemma positional_argument_fails:
  "pr_annotation p = Some i \<Longrightarrow> \<not> pr_has_default p \<Longrightarrow> res i c = (NotResolved, c1) \<Longrightarrow>
   method_arguments res [] ((name, p) # ps) c = (Inl NotResolved, c1)"
  by (simp add: Let_def)

end
