(* ===== verification/Services.thy ===== *)
theory Services
  imports Resilience KvContract
begin

text \<open>
  Model of the stateful services of \<open>src/bt_api_base/core/services.py\<close>: the local cache of
  \<open>CacheService\<close> (no Redis is configured), \<open>RateLimitService\<close> over the asynchronous limiter of
  theory Resilience, \<open>ConnectionService\<close> with its semaphores, and \<open>EventService\<close> with its queue.
  The services built on top of these are in theory VenueServices.
\<close>

section \<open>\<open>CacheService\<close>\<close>

text \<open>The deadline \<open>None\<close> is the infinite one.\<close>

record 'v CacheService =
  cs_cache :: "(string, 'v) dict"
  cs_ttl :: "(string, time option) dict"

definition cs_new :: "'v CacheService" where
  "cs_new = \<lparr>cs_cache = [], cs_ttl = []\<rparr>"

definition before_deadline :: "time \<Rightarrow> time option \<Rightarrow> bool" where
  "before_deadline now deadline \<longleftrightarrow> (case deadline of None \<Rightarrow> True | Some t \<Rightarrow> now < t)"

definition cs_drop :: "string \<Rightarrow> 'v CacheService \<Rightarrow> 'v CacheService" where
  "cs_drop k c = c\<lparr>cs_cache := dpop k (cs_cache c), cs_ttl := dpop k (cs_ttl c)\<rparr>"

definition cs_get :: "'v CacheService \<Rightarrow> string \<Rightarrow> time \<Rightarrow> 'v option \<times> 'v CacheService" where
  "cs_get c k now =
     (case dget (cs_ttl c) k of
        Some deadline \<Rightarrow>
          if before_deadline now deadline then (dget (cs_cache c) k, c) else (None, cs_drop k c)
      | None \<Rightarrow> (None, cs_drop k c))"

definition cs_put :: "'v CacheService \<Rightarrow> string \<Rightarrow> 'v \<Rightarrow> time option \<Rightarrow> 'v CacheService" where
  "cs_put c k v deadline = c\<lparr>cs_cache := dset k v (cs_cache c), cs_ttl := dset k deadline (cs_ttl c)\<rparr>"

text \<open>\<open>if ttl\<close>: a time to live of zero is none at all.\<close>

definition cs_set :: "'v CacheService \<Rightarrow> string \<Rightarrow> 'v \<Rightarrow> int option \<Rightarrow> time \<Rightarrow> 'v CacheService" where
  "cs_set c k v ttl now =
     cs_put c k v (case ttl of None \<Rightarrow> None | Some t \<Rightarrow> if t = 0 then None else Some (now + of_int t))"

definition cs_delete :: "'v CacheService \<Rightarrow> string \<Rightarrow> 'v CacheService" where
  "cs_delete c k = cs_drop k c"

definition cs_clear :: "'v CacheService \<Rightarrow> 'v CacheService" where
  "cs_clear c = c\<lparr>cs_cache := [], cs_ttl := []\<rparr>"

section \<open>\<open>RateLimitService\<close>\<close>

record RateLimitService =
  rs_limiters :: "(string, AsyncRateLimiter) dict"
  rs_limits :: "(string, int \<times> time) dict"

definition configure_limit :: "string \<Rightarrow> int \<Rightarrow> time \<Rightarrow> RateLimitService \<Rightarrow> RateLimitService" where
  "configure_limit resource max_requests time_window s =
     s\<lparr>rs_limits := dset resource (max_requests, time_window) (rs_limits s),
       rs_limiters := dpop resource (rs_limiters s)\<rparr>"

text \<open>One \<open>acquire\<close> of the limiter per token; \<open>clock\<close> has its reading and the one after its sleep.\<close>

fun take_tokens :: "(time \<times> time) list \<Rightarrow> AsyncRateLimiter \<Rightarrow> time option list \<times> AsyncRateLimiter" where
  "take_tokens [] l = ([], l)"
| "take_tokens ((now, wake) # clock) l =
     (case ar_acquire l now wake of
        (sleep, _, l1) \<Rightarrow> (case take_tokens clock l1 of (sleeps, l2) \<Rightarrow> (sleep # sleeps, l2)))"

definition limiter_of :: "string \<Rightarrow> RateLimitService \<Rightarrow> AsyncRateLimiter py" where
  "limiter_of resource s =
     (case dget (rs_limiters s) resource of
        Some l \<Rightarrow> Inr l
      | None \<Rightarrow>
          (case dget (rs_limits s) resource of Some (m, w) \<Rightarrow> ar_init m w | None \<Rightarrow> ar_init 10 1))"

definition rs_acquire ::
    "string \<Rightarrow> int \<Rightarrow> (nat \<Rightarrow> time \<times> time) \<Rightarrow> RateLimitService \<Rightarrow> time option list py \<times> RateLimitService" where
  "rs_acquire resource tokens clock s =
     (if tokens \<le> 0 then (Inl ValueError, s)
      else case limiter_of resource s of
             Inl e \<Rightarrow> (Inl e, s)
           | Inr l \<Rightarrow>
               (case take_tokens (map clock [0..<nat tokens]) l of
                  (sleeps, l1) \<Rightarrow> (Inr sleeps, s\<lparr>rs_limiters := dset resource l1 (rs_limiters s)\<rparr>)))"

definition forget_old :: "time \<Rightarrow> AsyncRateLimiter \<Rightarrow> AsyncRateLimiter" where
  "forget_old now l = l\<lparr>ar_requests := ar_recent l now\<rparr>"

definition get_remaining_tokens :: "string \<Rightarrow> time \<Rightarrow> RateLimitService \<Rightarrow> int \<times> RateLimitService" where
  "get_remaining_tokens resource now s =
     (case dget (rs_limiters s) resource of
        None \<Rightarrow> (case dget (rs_limits s) resource of Some (m, w) \<Rightarrow> (m, s) | None \<Rightarrow> (0, s))
      | Some l \<Rightarrow>
          (let l1 = forget_old now l
           in (max 0 (ar_max_requests l1 - int (length (ar_requests l1))),
               s\<lparr>rs_limiters := dset resource l1 (rs_limiters s)\<rparr>)))"

definition get_reset_time :: "string \<Rightarrow> time \<Rightarrow> RateLimitService \<Rightarrow> time option \<times> RateLimitService" where
  "get_reset_time resource now s =
     (case dget (rs_limiters s) resource of
        None \<Rightarrow> (None, s)
      | Some l \<Rightarrow>
          (let l1 = forget_old now l
           in (case ar_requests l1 of [] \<Rightarrow> None | r # _ \<Rightarrow> Some (r + ar_time_window l1),
               s\<lparr>rs_limiters := dset resource l1 (rs_limiters s)\<rparr>)))"

section \<open>\<open>ConnectionService\<close>\<close>

text \<open>A pool is its session and its connection, if it has them; objects are numbers.\<close>

record exchange_pool =
  ep_session :: "nat option"
  ep_connection :: "nat option"

record ConnectionService =
  cn_pools :: "(string, exchange_pool) dict"
  cn_permits :: "(string, nat) dict"
  cn_active :: "(string, int) dict"

definition cn_new :: ConnectionService where
  "cn_new = \<lparr>cn_pools = [], cn_permits = [], cn_active = []\<rparr>"

definition create_pool :: "string \<Rightarrow> ConnectionService \<Rightarrow> ConnectionService" where
  "create_pool e s =
     s\<lparr>cn_pools := dset e \<lparr>ep_session = None, ep_connection = None\<rparr> (cn_pools s),
       cn_permits := dset e 10 (cn_permits s)\<rparr>"

datatype connection_result = Connection nat | NotConfigured | Waits

definition cn_get_connection :: "string \<Rightarrow> ConnectionService \<Rightarrow> connection_result \<times> ConnectionService" where
  "cn_get_connection e s0 =
     (let s = (if e \<in> set (dkeys (cn_pools s0)) then s0 else create_pool e s0);
          pool = the (dget (cn_pools s) e);
          permits = the (dget (cn_permits s) e);
          given = (\<lambda>obj. (Connection obj,
                     s\<lparr>cn_permits := dset e (permits - 1) (cn_permits s),
                       cn_active := dset e (dget_default (cn_active s) e 0 + 1) (cn_active s)\<rparr>))
      in if permits = 0 then (Waits, s)
         else case ep_session pool of
           Some obj \<Rightarrow> given obj
         | None \<Rightarrow> (case ep_connection pool of Some obj \<Rightarrow> given obj | None \<Rightarrow> (NotConfigured, s)))"

definition cn_release_connection :: "string \<Rightarrow> nat \<Rightarrow> ConnectionService \<Rightarrow> ConnectionService" where
  "cn_release_connection e obj s =
     (case dget (cn_permits s) e of
        None \<Rightarrow> s
      | Some permits \<Rightarrow>
          (let managed = (case dget (cn_pools s) e of
                            None \<Rightarrow> None
                          | Some p \<Rightarrow> (case ep_session p of Some x \<Rightarrow> Some x | None \<Rightarrow> ep_connection p))
           in if managed = Some obj
              then s\<lparr>cn_permits := dset e (permits + 1) (cn_permits s),
                     cn_active := dset e (max 0 (dget_default (cn_active s) e 0 - 1)) (cn_active s)\<rparr>
              else s))"

definition cn_close_all :: "ConnectionService \<Rightarrow> ConnectionService" where
  "cn_close_all s =
     s\<lparr>cn_active := foldl (\<lambda>a e. dset e 0 a) (cn_active s) (dkeys (cn_pools s)), cn_pools := [], cn_permits := []\<rparr>"

section \<open>\<open>EventService\<close>\<close>

text \<open>Handlers are numbers; \<open>is_async\<close> says which are coroutine functions. \<open>None\<close> in the queue stops.\<close>

record 'd EventService =
  es_handlers :: "(string, nat list) dict"
  es_async_handlers :: "(string, nat list) dict"
  es_queue :: "(string \<times> 'd) option list"
  es_running :: bool

definition es_new :: "'d EventService" where
  "es_new = \<lparr>es_handlers = [], es_async_handlers = [], es_queue = [], es_running = False\<rparr>"

definition handlers_in :: "(string, nat list) dict \<Rightarrow> string \<Rightarrow> nat list" where
  "handlers_in d ev = dget_default d ev []"

definition es_subscribe :: "(nat \<Rightarrow> bool) \<Rightarrow> string \<Rightarrow> nat \<Rightarrow> 'd EventService \<Rightarrow> 'd EventService" where
  "es_subscribe is_async ev h s =
     (if is_async h
      then s\<lparr>es_async_handlers := dset ev (handlers_in (es_async_handlers s) ev @ [h]) (es_async_handlers s)\<rparr>
      else s\<lparr>es_handlers := dset ev (handlers_in (es_handlers s) ev @ [h]) (es_handlers s)\<rparr>)"

definition es_unsubscribe :: "string \<Rightarrow> nat \<Rightarrow> 'd EventService \<Rightarrow> 'd EventService" where
  "es_unsubscribe ev h s =
     s\<lparr>es_handlers := dset ev (remove1 h (handlers_in (es_handlers s) ev)) (es_handlers s),
       es_async_handlers := dset ev (remove1 h (handlers_in (es_async_handlers s) ev)) (es_async_handlers s)\<rparr>"

text \<open>
  \<open>_emit_sync\<close> walks over the list of handlers itself, by position, while the handlers may
  change it: \<open>call\<close> is what a handler does to the service. \<open>None\<close>: still walking when the
  fuel is used up.
\<close>

fun emit_sync ::
    "nat \<Rightarrow> (nat \<Rightarrow> 'd EventService \<Rightarrow> 'd EventService) \<Rightarrow> string \<Rightarrow> nat \<Rightarrow> 'd EventService
     \<Rightarrow> (nat list \<times> 'd EventService) option" where
  "emit_sync 0 call ev i s = None"
| "emit_sync (Suc fuel) call ev i s =
     (let hs = handlers_in (es_handlers s) ev
      in if length hs \<le> i then Some ([], s)
         else map_option (\<lambda>(called, s'). (hs ! i # called, s'))
                (emit_sync fuel call ev (Suc i) (call (hs ! i) s)))"

definition es_start :: "'d EventService \<Rightarrow> 'd EventService" where
  "es_start s = (if es_running s then s else s\<lparr>es_queue := [], es_running := True\<rparr>)"

text \<open>\<open>publish_async\<close>: queued while the service runs, otherwise emitted at once.\<close>

datatype publication = Queued | Emitted

definition publish_async :: "string \<Rightarrow> 'd \<Rightarrow> 'd EventService \<Rightarrow> publication \<times> 'd EventService" where
  "publish_async ev d s =
     (if es_running s then (Queued, s\<lparr>es_queue := es_queue s @ [Some (ev, d)]\<rparr>) else (Emitted, s))"

text \<open>
  \<open>publish\<close>: while the service runs and an event loop runs in this thread, a task is made that
  will queue the event; in every other case the handlers are called at once.
\<close>

definition es_publish :: "bool \<Rightarrow> string \<Rightarrow> 'd \<Rightarrow> 'd EventService \<Rightarrow> publication \<times> (string \<times> 'd) option" where
  "es_publish in_loop ev d s =
     (if es_running s \<and> in_loop then (Queued, Some (ev, d)) else (Emitted, None))"

text \<open>
  \<open>_process_events\<close>: \<open>running\<close> has what each test of \<open>self._running\<close> reads; the result is
  what was emitted and what is left in the queue.
\<close>

fun process_events ::
    "bool list \<Rightarrow> (string \<times> 'd) option list \<Rightarrow> (string \<times> 'd) list \<times> (string \<times> 'd) option list" where
  "process_events (True # running) (Some e # queue) =
     (case process_events running queue of (emitted, left) \<Rightarrow> (e # emitted, left))"
| "process_events (True # running) (None # queue) = ([], queue)"
| "process_events _ queue = ([], queue)"

text \<open>
  \<open>stop\<close>, called while the processor waits for an event or emits one: the test of \<open>_running\<close>
  that let it take this event was passed, all later ones fail. The queue is dropped.
\<close>

definition es_stop :: "'d EventService \<Rightarrow> (string \<times> 'd) list \<times> 'd EventService" where
  "es_stop s =
     (fst (process_events [True, False] (es_queue s @ [None])), s\<lparr>es_running := False, es_queue := []\<rparr>)"

section \<open>The cache keeps what was stored\<close>

definition cs_entry :: "'v CacheService \<Rightarrow> string \<Rightarrow> ('v \<times> time option) option" where
  "cs_entry c k =
     (case (dget (cs_cache c) k, dget (cs_ttl c) k) of (Some v, Some e) \<Rightarrow> Some (v, e) | _ \<Rightarrow> None)"

text \<open>The two dicts have the same keys.\<close>

definition cs_ok :: "'v CacheService \<Rightarrow> bool" where
  "cs_ok c \<longleftrightarrow> (\<forall>k. dget (cs_cache c) k = None \<longleftrightarrow> dget (cs_ttl c) k = None)"

lemmas cs_ops = cs_get_def cs_put_def cs_delete_def cs_clear_def cs_drop_def

lemma cs_get_entry:
  "cs_ok c \<Longrightarrow> fst (cs_get c k now) =
     (case cs_entry c k of None \<Rightarrow> None | Some (v, e) \<Rightarrow> if before_deadline now e then Some v else None)"
  "cs_ok c \<Longrightarrow> cs_entry (snd (cs_get c k now)) k' =
     (case cs_entry c k' of None \<Rightarrow> None
      | Some (v, e) \<Rightarrow> if k' = k \<and> \<not> before_deadline now e then None else Some (v, e))"
  by (auto simp: cs_get_def cs_drop_def cs_entry_def cs_ok_def split: option.splits)

lemma cs_ok_steps:
  "cs_ok c \<Longrightarrow> cs_ok (snd (cs_get c k now))" "cs_ok c \<Longrightarrow> cs_ok (cs_put c k v e)"
  "cs_ok c \<Longrightarrow> cs_ok (cs_delete c k)" "cs_ok (cs_clear c)" "cs_ok cs_new"
  by (auto simp: cs_ops cs_ok_def cs_new_def split: option.splits)

interpretation cs: kv_store cs_get cs_put cs_delete cs_clear "\<lambda>c now. c" cs_entry before_deadline cs_ok
proof unfold_locales
  show "before_deadline t e \<Longrightarrow> s \<le> t \<Longrightarrow> before_deadline s e" for s t :: time and e
    by (cases e) (simp_all add: before_deadline_def)
qed (simp_all add: cs_get_entry cs_ok_steps, simp_all add: cs_entry_def cs_ops)

text \<open>
  The cache service returns exactly what was stored last under a key, was not deleted
  since and has not reached its deadline, after any sequence of calls: it loses nothing.
\<close>

theorem cache_service_lookup:
  assumes "\<forall>x \<in> set xs. op_upto t x"
  shows "fst (cs_get (foldl (kv_step cs_get cs_put cs_delete cs_clear (\<lambda>c now. c)) cs_new xs) k t) = Some v \<longleftrightarrow>
    (\<exists>deadline. foldl kv_spec Map.empty xs k = Some (v, deadline) \<and> before_deadline t deadline)"
  using assms by (intro cs.lookup_complete) (simp_all add: cs_ok_steps, simp add: cs_entry_def cs_new_def)

text \<open>A time to live of zero keeps the value for ever.\<close>

lemma zero_ttl_never_expires: "fst (cs_get (cs_set c k v (Some 0) now) k later) = Some v"
  by (simp add: cs_set_def cs_put_def cs_get_def before_deadline_def)

section \<open>Rate limits\<close>

text \<open>For a resource that was never configured no tokens remain, although ten are given at once.\<close>

lemma unconfigured_has_tokens:
  assumes "dget (rs_limiters s) r = None" "dget (rs_limits s) r = None"
  shows "fst (get_remaining_tokens r now s) = 0 \<and> (\<exists>s'. rs_acquire r 1 (\<lambda>_. (now, now)) s = (Inr [None], s'))"
  using assms
  by (simp add: get_remaining_tokens_def rs_acquire_def limiter_of_def ar_init_def validate_positive_int_def
      validate_positive_number_def ar_acquire_def ar_recent_def Let_def)

section \<open>Connections are never given\<close>

datatype cn_op = GetConnection string | ReleaseConnection string nat | CloseAll

fun cn_step :: "ConnectionService \<Rightarrow> cn_op \<Rightarrow> ConnectionService" where
  "cn_step s (GetConnection e) = snd (cn_get_connection e s)"
| "cn_step s (ReleaseConnection e obj) = cn_release_connection e obj s"
| "cn_step s CloseAll = cn_close_all s"

definition cn_empty :: "ConnectionService \<Rightarrow> bool" where
  "cn_empty s \<longleftrightarrow> (\<forall>e p. dget (cn_pools s) e = Some p \<longrightarrow>
     ep_session p = None \<and> ep_connection p = None \<and> dget (cn_permits s) e = Some 10)"

lemma cn_get_empty:
  assumes "cn_empty s"
  shows "fst (cn_get_connection e s) = NotConfigured \<and> cn_empty (snd (cn_get_connection e s))"
proof (cases "dget (cn_pools s) e")
  case None
  then have "e \<notin> set (dkeys (cn_pools s))" by (simp add: dget_None_iff)
  with None show ?thesis using assms
    by (auto simp: cn_get_connection_def create_pool_def cn_empty_def Let_def)
next
  case (Some p)
  then have "ep_session p = None" "ep_connection p = None" "dget (cn_permits s) e = Some 10" "e \<in> set (dkeys (cn_pools s))"
    using assms by (auto simp: cn_empty_def dget_Some_key)
  then show ?thesis using Some assms by (simp add: cn_get_connection_def Let_def)
qed

lemma cn_release_empty: "cn_empty s \<Longrightarrow> cn_release_connection e obj s = s"
  by (auto simp: cn_release_connection_def cn_empty_def Let_def split: option.split)

interpretation cn: op_system cn_new cn_step cn_empty
proof unfold_locales
  show "cn_empty cn_new" by (simp add: cn_empty_def cn_new_def)
  show "cn_empty s \<Longrightarrow> cn_empty (cn_step s x)" for s x
    by (cases x) (simp_all add: cn_get_empty cn_release_empty, simp add: cn_empty_def cn_close_all_def)
qed

text \<open>The pools are created empty and nothing fills them, so every request for a connection raises.\<close>

lemma connections_never_given: "fst (cn_get_connection e (foldl cn_step cn_new ops)) = NotConfigured"
  using cn.reach_inv [of ops] by (simp add: cn_get_empty)

section \<open>Events\<close>

text \<open>A handler that unsubscribes itself makes the walk skip the handler after it.\<close>

lemma self_unsubscribe_skips:
  assumes "handlers_in (es_handlers s) ev = [a, b]" "a \<noteq> b" "call a s = es_unsubscribe ev a s"
  shows "\<exists>s'. emit_sync 3 call ev 0 s = Some ([a], s')"
  using assms by (simp add: emit_sync.simps eval_nat_numeral es_unsubscribe_def handlers_in_def dget_default_def Let_def)

text \<open>Stopping emits at most one of the events that are queued; the others are lost.\<close>

lemma stop_loses_queue:
  "es_queue s = map Some (e # es) \<Longrightarrow> es_stop s = ([e], s\<lparr>es_running := False, es_queue := []\<rparr>)"
  by (cases es) (simp_all add: es_stop_def)

end
