(* ===== verification/StreamApp.thy ===== *)
theory StreamApp
  imports GatewayConfig
begin

text \<open>
  Model of \<open>src/bt_api_base/feeds/my_websocket_app.py\<close>: a stream with its callbacks, the counting
  of subscription acknowledgements, the two watchdogs, the reconnecting loop, and the start and
  stop of its threads. A socket is a number. What a venue's override of a callback does is the
  list of calls it makes to the stream, and how it ends. The parts of a watchdog under the lock
  are two functions, so that everything else can happen between them. Error texts are kept as
  they are raised here; theory Transport models how they are cleaned.
\<close>

section \<open>State\<close>

datatype rsp_exn = Subscription_Rejected "string option" | Other_Exn

datatype stream_event =
    Ws_Connected | Ws_Disconnected | Ws_Error
  | Ws_Subscription_Error rsp_exn | Ws_Message_Error | Ws_Subscription_Pending int
  | Ws_Reconnecting int time | Ws_Max_Reconnect int
  | Ws_Readiness_Timeout nat time | Ws_Message_Idle time time nat

datatype worker = Main_Worker | Restart_Worker | Idle_Watchdog | Readiness_Watchdog

record MyWebsocketApp =
  ma_has_params :: bool
  ma_ws :: "nat option"
  ma_generation :: nat
  ma_running :: bool
  ma_restart_flag :: bool
  ma_stop :: bool
  ma_idle_timeout :: time
  ma_readiness_timeout :: time
  ma_restart_gap :: time
  ma_last_message :: "time option"
  ma_awaiting :: bool
  ma_tracking :: bool
  ma_pending :: int
  ma_sent :: int
  ma_idle_close :: bool
  ma_deadline :: "time option"
  ma_ready_generation :: nat
  ma_ready_ws :: "nat option"
  ma_base_delay :: time
  ma_max_delay :: time
  ma_max_attempts :: int
  ma_attempt :: int
  ma_delay :: time
  ma_alive :: "worker \<Rightarrow> nat"
  ma_events :: "stream_event list"
  ma_closed :: "nat list"

text \<open>
  \<open>ma_alive\<close> counts the live threads of each kind; \<open>ma_closed\<close> lists the sockets \<open>close\<close> was called
  on. A timeout must be a finite number that is not negative, and no \<open>bool\<close>.
\<close>

definition finite_nonneg :: "outside \<Rightarrow> pyval \<Rightarrow> time py" where
  "finite_nonneg ou v =
     (case v of
        PBool _ \<Rightarrow> Inl ValueError
      | _ \<Rightarrow>
          (case py_float ou v of
             Inl e \<Rightarrow> Inl e
           | Inr (PFloat r) \<Rightarrow> if r < 0 then Inl ValueError else Inr r
           | Inr _ \<Rightarrow> Inl ValueError))"

text \<open>The TLS options: \<open>None\<close> is a key that is missing and gets the secure default.\<close>

definition tls_required :: "bool option \<Rightarrow> bool option \<Rightarrow> bool" where
  "tls_required cert_required check_hostname \<longleftrightarrow> cert_required \<noteq> Some False \<and> check_hostname \<noteq> Some False"

definition ma_new ::
    "outside \<Rightarrow> bool \<Rightarrow> bool option \<Rightarrow> bool option \<Rightarrow> pyval \<Rightarrow> pyval \<Rightarrow> time \<Rightarrow> time \<Rightarrow> time \<Rightarrow> int \<Rightarrow> MyWebsocketApp py" where
  "ma_new ou has_params cert_required check_hostname idle_timeout readiness_timeout restart_gap base max_delay attempts =
     (if \<not> tls_required cert_required check_hostname then Inl ValueError
      else case finite_nonneg ou idle_timeout of Inl e \<Rightarrow> Inl e
      | Inr idle \<Rightarrow>
     (case finite_nonneg ou readiness_timeout of Inl e \<Rightarrow> Inl e
      | Inr readiness \<Rightarrow>
          Inr \<lparr>ma_has_params = has_params, ma_ws = None, ma_generation = 0, ma_running = False,
            ma_restart_flag = True, ma_stop = False, ma_idle_timeout = idle, ma_readiness_timeout = readiness,
            ma_restart_gap = restart_gap, ma_last_message = None, ma_awaiting = False, ma_tracking = False,
            ma_pending = 0, ma_sent = 0, ma_idle_close = False, ma_deadline = None, ma_ready_generation = 0,
            ma_ready_ws = None, ma_base_delay = base, ma_max_delay = max_delay, ma_max_attempts = attempts,
            ma_attempt = 0, ma_delay = base, ma_alive = (\<lambda>_. 0), ma_events = [], ma_closed = []\<rparr>))"

definition emit_event :: "stream_event \<Rightarrow> MyWebsocketApp \<Rightarrow> MyWebsocketApp" where
  "emit_event e a = a\<lparr>ma_events := ma_events a @ [e]\<rparr>"

definition close_socket :: "nat \<Rightarrow> MyWebsocketApp \<Rightarrow> MyWebsocketApp" where
  "close_socket w a = a\<lparr>ma_closed := ma_closed a @ [w]\<rparr>"

section \<open>Subscriptions and readiness\<close>

datatype subscribe_result = Sent | No_Params | Not_Connected | Send_Raises

definition ma_subscribe :: "bool \<Rightarrow> MyWebsocketApp \<Rightarrow> subscribe_result \<times> MyWebsocketApp" where
  "ma_subscribe send_ok a =
     (if \<not> ma_has_params a then (No_Params, a)
      else if ma_ws a = None then (Not_Connected, a)
      else let tracked = ma_tracking a;
               a1 = (if tracked then a\<lparr>ma_pending := ma_pending a + 1, ma_sent := ma_sent a + 1\<rparr> else a)
      in if send_ok then (Sent, a1)
         else (Send_Raises,
               if tracked then a1\<lparr>ma_pending := max 0 (ma_pending a1 - 1), ma_sent := max 0 (ma_sent a1 - 1)\<rparr>
               else a1))"

definition begin_batch :: "MyWebsocketApp \<Rightarrow> MyWebsocketApp" where
  "begin_batch a = a\<lparr>ma_awaiting := True, ma_tracking := True, ma_pending := 0, ma_sent := 0\<rparr>"

definition end_batch :: "MyWebsocketApp \<Rightarrow> bool \<times> MyWebsocketApp" where
  "end_batch a = (ma_pending a = 0, a\<lparr>ma_tracking := False\<rparr>)"

definition reset_backoff :: "MyWebsocketApp \<Rightarrow> MyWebsocketApp" where
  "reset_backoff a = a\<lparr>ma_attempt := 0, ma_delay := ma_base_delay a\<rparr>"

definition mark_ready :: "time \<Rightarrow> MyWebsocketApp \<Rightarrow> MyWebsocketApp" where
  "mark_ready now a =
     (let already = ma_running a \<and> \<not> ma_awaiting a;
          a1 = reset_backoff (a\<lparr>ma_awaiting := False, ma_idle_close := False, ma_deadline := None,
                 ma_last_message := Some now, ma_running := True\<rparr>)
      in if already then a1 else emit_event Ws_Connected a1)"

definition subscription_acknowledged :: "time \<Rightarrow> MyWebsocketApp \<Rightarrow> MyWebsocketApp" where
  "subscription_acknowledged now a =
     (if ma_pending a \<le> 0 then a
      else let a1 = a\<lparr>ma_pending := ma_pending a - 1\<rparr>
           in if ma_pending a1 = 0 \<and> \<not> ma_tracking a1 then mark_ready now a1 else a1)"

text \<open>\<open>u\<close> is the fraction of the jitter that \<open>random.uniform\<close> drew.\<close>

definition backoff_delay :: "rat \<Rightarrow> MyWebsocketApp \<Rightarrow> time \<times> MyWebsocketApp" where
  "backoff_delay u a =
     (min (ma_delay a + u * (ma_delay a / 10)) (ma_max_delay a), a\<lparr>ma_delay := min (ma_delay a * 2) (ma_max_delay a)\<rparr>)"

section \<open>Callbacks\<close>

datatype api_call = Subscribe bool | Begin_Batch | End_Batch | Acknowledged time | Ready time

fun api_step :: "MyWebsocketApp \<Rightarrow> api_call \<Rightarrow> MyWebsocketApp" where
  "api_step a (Subscribe send_ok) = snd (ma_subscribe send_ok a)"
| "api_step a Begin_Batch = begin_batch a"
| "api_step a End_Batch = snd (end_batch a)"
| "api_step a (Acknowledged now) = subscription_acknowledged now a"
| "api_step a (Ready now) = mark_ready now a"

fun fatal :: "rsp_exn \<Rightarrow> bool" where
  "fatal (Subscription_Rejected code) = True"
| "fatal Other_Exn = False"

definition close_current :: "nat \<Rightarrow> MyWebsocketApp \<Rightarrow> MyWebsocketApp" where
  "close_current w a = close_socket (case ma_ws a of Some v \<Rightarrow> v | None \<Rightarrow> w) a"

text \<open>
  \<open>on_open\<close>: \<open>calls\<close> and \<open>res\<close> are what \<open>open_rsp\<close> does and how it ends: \<open>Inr False\<close> is a
  result that \<open>is False\<close>. The second reading of the clock is \<open>_mark_ready\<close>'s.
\<close>

definition opened :: "nat \<Rightarrow> time \<Rightarrow> MyWebsocketApp \<Rightarrow> MyWebsocketApp" where
  "opened w now a =
     a\<lparr>ma_generation := ma_generation a + 1, ma_last_message := Some now, ma_awaiting := True,
       ma_idle_close := False, ma_ready_generation := ma_generation a + 1, ma_ready_ws := Some w,
       ma_deadline := (if 0 < ma_readiness_timeout a then Some (now + ma_readiness_timeout a) else None)\<rparr>"

definition not_ready :: "MyWebsocketApp \<Rightarrow> MyWebsocketApp" where
  "not_ready a = a\<lparr>ma_running := False, ma_awaiting := False, ma_deadline := None\<rparr>"

definition stop_if :: "bool \<Rightarrow> MyWebsocketApp \<Rightarrow> MyWebsocketApp" where
  "stop_if b a = (if b then a\<lparr>ma_stop := True\<rparr> else a)"

definition on_open :: "nat \<Rightarrow> time \<Rightarrow> api_call list \<Rightarrow> rsp_exn + bool \<Rightarrow> time \<Rightarrow> MyWebsocketApp \<Rightarrow> MyWebsocketApp" where
  "on_open w now calls res later a =
     (let a1 = foldl api_step (opened w now a) calls
      in case res of
           Inl e \<Rightarrow> close_current w (emit_event (Ws_Subscription_Error e) (stop_if (fatal e) (not_ready a1)))
         | Inr ready \<Rightarrow>
             if \<not> ready then emit_event (Ws_Subscription_Pending (ma_pending a1)) a1 else mark_ready later a1)"

definition on_message :: "nat \<Rightarrow> time \<Rightarrow> api_call list \<Rightarrow> rsp_exn option \<Rightarrow> MyWebsocketApp \<Rightarrow> MyWebsocketApp" where
  "on_message w now calls failure a =
     (let a1 = foldl api_step (a\<lparr>ma_last_message := Some now\<rparr>) calls
      in case failure of
           None \<Rightarrow> a1
         | Some e \<Rightarrow>
             close_current w (not_ready
               (emit_event (if fatal e then Ws_Subscription_Error e else Ws_Message_Error) (stop_if (fatal e) a1))))"

definition on_error :: "MyWebsocketApp \<Rightarrow> MyWebsocketApp" where
  "on_error a = emit_event Ws_Error a"

text \<open>The base class's \<open>close_rsp\<close> is the part after the event.\<close>

definition on_close :: "MyWebsocketApp \<Rightarrow> MyWebsocketApp" where
  "on_close a =
     (emit_event Ws_Disconnected
        (a\<lparr>ma_running := False, ma_awaiting := False, ma_tracking := False, ma_pending := 0, ma_sent := 0,
           ma_idle_close := False, ma_deadline := None, ma_last_message := None\<rparr>))\<lparr>ma_restart_flag := False\<rparr>"

section \<open>Watchdogs\<close>

record readiness_view =
  rv_deadline :: "time option"
  rv_ws :: "nat option"
  rv_generation :: nat
  rv_awaiting :: bool

definition readiness_look :: "MyWebsocketApp \<Rightarrow> readiness_view" where
  "readiness_look a =
     \<lparr>rv_deadline = ma_deadline a, rv_ws = ma_ready_ws a, rv_generation = ma_ready_generation a, rv_awaiting = ma_awaiting a\<rparr>"

definition readiness_act :: "readiness_view \<Rightarrow> time \<Rightarrow> MyWebsocketApp \<Rightarrow> MyWebsocketApp" where
  "readiness_act v now a =
     (case (rv_deadline v, rv_ws v) of
        (Some d, Some w) \<Rightarrow>
          if \<not> rv_awaiting v \<or> now \<le> d then a
          else if \<not> ma_awaiting a \<or> ma_deadline a \<noteq> Some d \<or> ma_ready_generation a \<noteq> rv_generation v \<or>
                  ma_ready_ws a \<noteq> Some w \<or> ma_ws a \<noteq> Some w then a
          else close_socket w (emit_event (Ws_Readiness_Timeout (rv_generation v) (ma_readiness_timeout a)) (not_ready a))
      | _ \<Rightarrow> a)"

record idle_view =
  iv_last :: "time option"
  iv_ws :: "nat option"
  iv_generation :: nat
  iv_active :: bool

definition idle_look :: "MyWebsocketApp \<Rightarrow> idle_view" where
  "idle_look a =
     \<lparr>iv_last = ma_last_message a, iv_ws = ma_ws a, iv_generation = ma_generation a, iv_active = (ma_running a \<or> ma_awaiting a)\<rparr>"

definition idle_act :: "idle_view \<Rightarrow> time \<Rightarrow> MyWebsocketApp \<Rightarrow> MyWebsocketApp" where
  "idle_act v now a =
     (case (iv_last v, iv_ws v) of
        (Some t, Some w) \<Rightarrow>
          if \<not> iv_active v \<or> now - t \<le> ma_idle_timeout a then a
          else if ma_idle_close a \<or> ma_ws a \<noteq> Some w \<or> ma_generation a \<noteq> iv_generation v \<or>
                  ma_last_message a \<noteq> Some t then a
          else close_socket w (emit_event (Ws_Message_Idle (now - t) (ma_idle_timeout a) (iv_generation v))
                 (not_ready (a\<lparr>ma_idle_close := True\<rparr>)))
      | _ \<Rightarrow> a)"

definition restart_tick :: "MyWebsocketApp \<Rightarrow> MyWebsocketApp" where
  "restart_tick a = (case ma_ws a of None \<Rightarrow> a | Some w \<Rightarrow> close_socket w a)"

section \<open>The connecting thread\<close>

definition gives_up :: "MyWebsocketApp \<Rightarrow> bool" where
  "gives_up a \<longleftrightarrow> 0 < ma_max_attempts a \<and> ma_max_attempts a \<le> ma_attempt a"

definition next_attempt :: "rat \<Rightarrow> MyWebsocketApp \<Rightarrow> MyWebsocketApp" where
  "next_attempt u a =
     (let a1 = a\<lparr>ma_attempt := ma_attempt a + 1\<rparr>
      in case backoff_delay u a1 of (d, a2) \<Rightarrow> emit_event (Ws_Reconnecting (ma_attempt a2) d) a2)"

definition run_ends :: "MyWebsocketApp \<Rightarrow> MyWebsocketApp" where
  "run_ends a = a\<lparr>ma_running := False, ma_stop := True\<rparr>"

text \<open>
  \<open>run\<close>: \<open>conn k\<close> is what happens to the stream while the socket of turn \<open>k\<close> runs, and \<open>pause k\<close>
  what other threads do to it while this one waits. \<open>None\<close>: still running when the fuel is used
  up. The result has the number of connections made.
\<close>

fun run_loop ::
    "(nat \<Rightarrow> MyWebsocketApp \<Rightarrow> MyWebsocketApp) \<Rightarrow> (nat \<Rightarrow> MyWebsocketApp \<Rightarrow> MyWebsocketApp) \<Rightarrow> (nat \<Rightarrow> rat)
     \<Rightarrow> nat \<Rightarrow> nat \<Rightarrow> MyWebsocketApp \<Rightarrow> (nat \<times> MyWebsocketApp) option" where
  "run_loop conn pause u 0 k a = None"
| "run_loop conn pause u (Suc fuel) k a =
     (if ma_stop a then Some (k, run_ends a)
      else if gives_up a then Some (k, run_ends (emit_event (Ws_Max_Reconnect (ma_attempt a)) a))
      else let a1 = conn k (a\<lparr>ma_ws := Some k\<rparr>)
           in if ma_stop a1 then Some (Suc k, run_ends a1)
              else run_loop conn pause u fuel (Suc k) (pause k (next_attempt (u k) a1)))"

section \<open>Start and stop\<close>

text \<open>
  \<open>stop\<close> joins the workers one by one; \<open>dies\<close> says which end within what is left of the
  timeout. The attribute \<open>ws\<close> is reset inside the loop. The result says whether it raised.
\<close>

fun join_workers :: "(worker \<Rightarrow> bool) \<Rightarrow> worker option \<Rightarrow> worker list \<Rightarrow> MyWebsocketApp \<Rightarrow> bool \<times> MyWebsocketApp" where
  "join_workers dies current [] a = (False, a)"
| "join_workers dies current (x # xs) a =
     (if Some x = current \<or> ma_alive a x = 0 then join_workers dies current xs (a\<lparr>ma_ws := None\<rparr>)
      else if dies x then join_workers dies current xs (a\<lparr>ma_alive := (ma_alive a)(x := ma_alive a x - 1), ma_ws := None\<rparr>)
      else (True, a))"

definition ma_stop_stream :: "(worker \<Rightarrow> bool) \<Rightarrow> worker option \<Rightarrow> MyWebsocketApp \<Rightarrow> bool \<times> MyWebsocketApp" where
  "ma_stop_stream dies current a =
     join_workers dies current [Main_Worker, Restart_Worker, Idle_Watchdog, Readiness_Watchdog]
       (restart_tick (a\<lparr>ma_restart_flag := False, ma_running := False, ma_stop := True\<rparr>))"

definition spawn :: "worker \<Rightarrow> MyWebsocketApp \<Rightarrow> MyWebsocketApp" where
  "spawn x a = a\<lparr>ma_alive := (ma_alive a)(x := ma_alive a x + 1)\<rparr>"

fun join_helpers :: "(worker \<Rightarrow> bool) \<Rightarrow> worker list \<Rightarrow> MyWebsocketApp \<Rightarrow> bool \<times> MyWebsocketApp" where
  "join_helpers dies [] a = (False, a)"
| "join_helpers dies (x # xs) a =
     (if ma_alive a x = 0 then join_helpers dies xs a
      else if dies x then join_helpers dies xs (a\<lparr>ma_alive := (ma_alive a)(x := ma_alive a x - 1)\<rparr>)
      else (True, a))"

text \<open>\<open>start\<close> up to its waiting loop; \<open>Some\<close> is the exception it raises.\<close>

definition start_workers :: "(worker \<Rightarrow> bool) \<Rightarrow> MyWebsocketApp \<Rightarrow> pyerr option \<times> MyWebsocketApp" where
  "start_workers dies a =
     (if 0 < ma_alive a Main_Worker then (if ma_stop a then Some RuntimeError else None, a)
      else case join_helpers dies [Restart_Worker, Idle_Watchdog, Readiness_Watchdog] a of
        (True, a1) \<Rightarrow> (Some RuntimeError, a1)
      | (False, a1) \<Rightarrow>
          (None, (let a2 = spawn Main_Worker
                        (reset_backoff (a1\<lparr>ma_stop := False, ma_restart_flag := True, ma_running := False\<rparr>));
                      a3 = (if 0 < ma_idle_timeout a2 then spawn Idle_Watchdog a2 else a2)
                  in if 0 < ma_readiness_timeout a3 then spawn Readiness_Watchdog a3 else a3)))"

text \<open>
  The waiting loop: \<open>clock k\<close> is the reading of turn \<open>k\<close> and \<open>others k\<close> what the other threads
  do while it waits. Then the timer thread is started if there is a restart gap.
\<close>

definition start_timer :: "MyWebsocketApp \<Rightarrow> MyWebsocketApp" where
  "start_timer a =
     (if ma_restart_gap a \<noteq> 0 \<and> \<not> ma_stop a \<and> ma_alive a Restart_Worker = 0 then spawn Restart_Worker a else a)"

fun start_wait ::
    "(worker \<Rightarrow> bool) \<Rightarrow> (nat \<Rightarrow> time) \<Rightarrow> (nat \<Rightarrow> MyWebsocketApp \<Rightarrow> MyWebsocketApp) \<Rightarrow> time \<Rightarrow> nat \<Rightarrow> nat \<Rightarrow> MyWebsocketApp
     \<Rightarrow> (pyerr option \<times> MyWebsocketApp) option" where
  "start_wait dies clock others deadline 0 k a = None"
| "start_wait dies clock others deadline (Suc fuel) k a =
     (if ma_running a then Some (None, start_timer a)
      else if ma_stop a then Some (Some ConnectionErr, a)
      else if deadline \<le> clock k
        then (case ma_stop_stream dies None a of
                (True, a1) \<Rightarrow> Some (Some RuntimeError, a1) | (False, a1) \<Rightarrow> Some (Some TimeoutError, a1))
      else start_wait dies clock others deadline fuel (Suc k) (others k a))"

definition ma_start ::
    "outside \<Rightarrow> pyval \<Rightarrow> (worker \<Rightarrow> bool) \<Rightarrow> time \<Rightarrow> (nat \<Rightarrow> time) \<Rightarrow> (nat \<Rightarrow> MyWebsocketApp \<Rightarrow> MyWebsocketApp) \<Rightarrow> nat
     \<Rightarrow> MyWebsocketApp \<Rightarrow> (pyerr option \<times> MyWebsocketApp) option" where
  "ma_start ou timeout dies now clock others fuel a =
     (if \<not> ma_has_params a then Some (Some ValueError, a)
      else case finite_nonneg ou timeout of
        Inl e \<Rightarrow> Some (Some e, a)
      | Inr t \<Rightarrow>
          (case start_workers dies a of
             (Some e, a1) \<Rightarrow> Some (Some e, a1)
           | (None, a1) \<Rightarrow> start_wait dies clock others (now + t) fuel 0 a1))"

end
