(* ===== verification/StreamAppCorrect.thy ===== *)
theory StreamAppCorrect
  imports StreamApp
begin

text \<open>
  What the stream of \<open>my_websocket_app.py\<close> guarantees: when it becomes ready, that its readiness
  watchdog never closes a connection that was ready, how often the loop connects and how long
  it waits, that a start ends, and the invariant of its threads and flags.
\<close>

section \<open>Ready after the last acknowledgement\<close>

text \<open>The messages that follow: each acknowledges one subscription, or none.\<close>

datatype incoming = Ack time | Data time

fun receive :: "nat \<Rightarrow> MyWebsocketApp \<Rightarrow> incoming \<Rightarrow> MyWebsocketApp" where
  "receive w a (Ack now) = on_message w now [Acknowledged now] None a"
| "receive w a (Data now) = on_message w now [] None a"

fun acks :: "incoming list \<Rightarrow> nat" where
  "acks [] = 0"
| "acks (Ack now # ms) = Suc (acks ms)"
| "acks (Data now # ms) = acks ms"

definition waiting_for :: "nat \<Rightarrow> MyWebsocketApp \<Rightarrow> bool" where
  "waiting_for n a \<longleftrightarrow> ma_pending a = int n \<and> \<not> ma_tracking a \<and> ma_awaiting a = (0 < n) \<and> ma_running a = (n = 0)"

lemma receive_waiting:
  "waiting_for n a \<Longrightarrow> waiting_for (case m of Ack now \<Rightarrow> n - 1 | Data now \<Rightarrow> n) (receive w a m)"
  by (cases m; cases n)
    (auto simp: waiting_for_def on_message_def subscription_acknowledged_def mark_ready_def reset_backoff_def
      emit_event_def Let_def)

lemma receive_all_waiting: "waiting_for n a \<Longrightarrow> waiting_for (n - acks ms) (foldl (receive w) a ms)"
proof (induction ms arbitrary: n a)
  case (Cons m ms)
  have "waiting_for ((case m of Ack now \<Rightarrow> n - 1 | Data now \<Rightarrow> n) - acks ms) (foldl (receive w) (receive w a m) ms)"
    by (rule Cons.IH) (rule receive_waiting [OF Cons.prems])
  then show ?case by (cases m) simp_all
qed simp

lemma batch_sent:
  "ma_has_params a \<Longrightarrow> ma_ws a \<noteq> None \<Longrightarrow> ma_tracking a \<Longrightarrow>
   foldl api_step a (replicate n (Subscribe True)) =
     a\<lparr>ma_pending := ma_pending a + int n, ma_sent := ma_sent a + int n\<rparr>"
  by (induction n arbitrary: a) (simp_all add: ma_subscribe_def Let_def)

lemma open_batch_waiting:
  assumes "ma_has_params a" "ma_ws a \<noteq> None" "\<not> ma_running a" "0 < n"
  shows "waiting_for n
    (on_open w now (Begin_Batch # replicate n (Subscribe True) @ [End_Batch]) (Inr False) later a)"
proof -
  have "foldl api_step (begin_batch (opened w now a)) (replicate n (Subscribe True)) =
      (begin_batch (opened w now a))\<lparr>ma_pending := int n, ma_sent := int n\<rparr>"
    using batch_sent [of "begin_batch (opened w now a)" n] assms
    by (simp add: begin_batch_def opened_def)
  then show ?thesis using assms
    by (simp add: on_open_def end_batch_def emit_event_def waiting_for_def begin_batch_def opened_def)
qed

text \<open>
  C10. A stream whose \<open>open_rsp\<close> sends a batch of subscriptions counts as running from the moment
  the last of them is acknowledged, and not before, whatever other messages come in between.
\<close>

theorem ready_after_last_ack:
  assumes "ma_has_params a" "ma_ws a \<noteq> None" "\<not> ma_running a" "0 < n"
  shows "ma_running (foldl (receive w)
      (on_open w now (Begin_Batch # replicate n (Subscribe True) @ [End_Batch]) (Inr False) later a) ms) \<longleftrightarrow>
    n \<le> acks ms"
  using receive_all_waiting [OF open_batch_waiting [OF assms, of w now later], of ms w]
  by (simp add: waiting_for_def)

definition stream :: MyWebsocketApp where
  "stream = projr (ma_new \<lparr>ou_render = (\<lambda>_. []), ou_parse_float = (\<lambda>_. None), ou_tempdir = [], ou_join = (@)\<rparr>
     True None None (PInt 0) (PInt 30) 0 1 60 3)"

lemma stream_fields:
  "ma_has_params stream" "\<not> ma_running stream" "ma_stop stream = False" "ma_attempt stream = 0"
  "ma_max_attempts stream = 3" "ma_delay stream = 1" "ma_max_delay stream = 60" "ma_events stream = []"
  "ma_readiness_timeout stream = 30" "ma_deadline stream = None"
  by (simp_all add: stream_def ma_new_def tls_required_def finite_nonneg_def py_float_def)

theorem ready_after_last_ack_witness:
  "\<not> ma_running (foldl (receive 7)
      (on_open 7 1 [Begin_Batch, Subscribe True, Subscribe True, End_Batch] (Inr False) 2 (stream\<lparr>ma_ws := Some 7\<rparr>))
      [Ack 3, Data 4])"
  using ready_after_last_ack [of "stream\<lparr>ma_ws := Some 7\<rparr>" 2 7 1 2 "[Ack 3, Data 4]"]
  by (simp add: stream_fields numeral_2_eq_2)

section \<open>The readiness watchdog\<close>

text \<open>Everything that can happen to a stream, apart from the opening of a connection.\<close>

datatype stream_op =
    Messaged nat time "api_call list" "rsp_exn option" | Errored | Closed
  | Api api_call | Readiness_Acts readiness_view time | Idle_Acts idle_view time | Attempt rat
  | Timer_Ticks | Run_Ends | Worker_Ends worker | Started "worker \<Rightarrow> bool" | Timer_Started
  | Stopped "worker \<Rightarrow> bool" "worker option" | Opened nat time "api_call list" "rsp_exn + bool" time

definition worker_ends :: "worker \<Rightarrow> MyWebsocketApp \<Rightarrow> MyWebsocketApp" where
  "worker_ends x a = a\<lparr>ma_alive := (ma_alive a)(x := ma_alive a x - 1)\<rparr>"

fun stream_step :: "MyWebsocketApp \<Rightarrow> stream_op \<Rightarrow> MyWebsocketApp" where
  "stream_step a (Messaged w now calls failure) = on_message w now calls failure a"
| "stream_step a Errored = on_error a"
| "stream_step a Closed = on_close a"
| "stream_step a (Api x) = api_step a x"
| "stream_step a (Readiness_Acts v now) = readiness_act v now a"
| "stream_step a (Idle_Acts v now) = idle_act v now a"
| "stream_step a (Attempt u) = next_attempt u a"
| "stream_step a Timer_Ticks = restart_tick a"
| "stream_step a Run_Ends = worker_ends Main_Worker (run_ends a)"
| "stream_step a (Worker_Ends x) = worker_ends x a"
| "stream_step a (Started dies) = snd (start_workers dies a)"
| "stream_step a Timer_Started = start_timer a"
| "stream_step a (Stopped dies current) = snd (ma_stop_stream dies current a)"
| "stream_step a (Opened w now calls res later) = on_open w now calls res later a"

fun opens :: "stream_op \<Rightarrow> bool" where
  "opens (Opened w now calls res later) = True"
| "opens _ = False"

lemma alive_simps [simp]:
  "ma_alive (reset_backoff a) = ma_alive a" "ma_alive (spawn x a) = (ma_alive a)(x := ma_alive a x + 1)"
  by (simp_all add: reset_backoff_def spawn_def)

text \<open>
  What the operations keep is proved once: a property of a stream that its six elementary
  updates keep is kept by every operation but the opening of a connection.
\<close>

locale stream_property =
  fixes P :: "MyWebsocketApp \<Rightarrow> bool"
  assumes same:
      "P a \<Longrightarrow> P (a\<lparr>ma_events := e\<rparr>)" "P a \<Longrightarrow> P (a\<lparr>ma_closed := c\<rparr>)" "P a \<Longrightarrow> P (a\<lparr>ma_ws := ws\<rparr>)"
      "P a \<Longrightarrow> P (a\<lparr>ma_stop := b\<rparr>)" "P a \<Longrightarrow> P (a\<lparr>ma_restart_flag := b\<rparr>)" "P a \<Longrightarrow> P (a\<lparr>ma_idle_close := b\<rparr>)"
      "P a \<Longrightarrow> P (a\<lparr>ma_attempt := n\<rparr>)" "P a \<Longrightarrow> P (a\<lparr>ma_delay := d\<rparr>)" "P a \<Longrightarrow> P (a\<lparr>ma_tracking := b\<rparr>)"
      "P a \<Longrightarrow> P (a\<lparr>ma_running := False\<rparr>)" "P a \<Longrightarrow> P (a\<lparr>ma_last_message := Some t\<rparr>)"
    and counts: "P a \<Longrightarrow> 0 \<le> n \<Longrightarrow> P (a\<lparr>ma_pending := n\<rparr>)" "P a \<Longrightarrow> 0 \<le> n \<Longrightarrow> P (a\<lparr>ma_sent := n\<rparr>)"
    and awaits: "P a \<Longrightarrow> P (a\<lparr>ma_awaiting := True\<rparr>)"
    and unready: "P a \<Longrightarrow> P (not_ready a)"
    and marked: "P a \<Longrightarrow> P (mark_ready now a)"
    and closed: "P a \<Longrightarrow> P (on_close a)"
    and died: "P a \<Longrightarrow> P (worker_ends x a)"
    and spawned: "P a \<Longrightarrow> ma_alive a x = 0 \<Longrightarrow> P (spawn x a)"
    and counted: "P a \<Longrightarrow> 0 \<le> ma_pending a \<and> 0 \<le> ma_sent a"
    and single: "P a \<Longrightarrow> ma_alive a x \<le> 1"
begin

lemma emits: "P a \<Longrightarrow> P (emit_event e a)" "P a \<Longrightarrow> P (close_socket w a)" "P a \<Longrightarrow> P (close_current w a)"
  "P a \<Longrightarrow> P (stop_if b a)" "P a \<Longrightarrow> P (reset_backoff a)" "P a \<Longrightarrow> P (restart_tick a)"
  by (simp_all add: emit_event_def close_socket_def close_current_def stop_if_def reset_backoff_def restart_tick_def
      same split: option.split)

lemma subscribes: "P a \<Longrightarrow> P (snd (ma_subscribe send_ok a))"
proof -
  assume p: "P a"
  have "P (a\<lparr>ma_pending := ma_pending a + 1, ma_sent := ma_sent a + 1\<rparr>)"
    using counts(2) [OF counts(1) [OF p]] counted [OF p] by simp
  moreover have "P (a\<lparr>ma_pending := m, ma_sent := n\<rparr>)" if "0 \<le> m" "0 \<le> n" for m n
    using counts(2) [OF counts(1) [OF p that(1)] that(2)] .
  ultimately show ?thesis using p counted [OF p] by (simp add: ma_subscribe_def Let_def)
qed

lemma api_keeps: "P a \<Longrightarrow> P (api_step a x)"
proof (cases x)
  case Begin_Batch
  assume "P a"
  then have "P (a\<lparr>ma_awaiting := True, ma_tracking := True\<rparr>)" by (intro awaits same)
  then have "P (a\<lparr>ma_awaiting := True, ma_tracking := True, ma_pending := 0, ma_sent := 0\<rparr>)"
    by (intro counts) simp_all
  then show ?thesis using Begin_Batch by (simp add: begin_batch_def)
next
  case (Acknowledged now)
  assume "P a"
  then have "0 < ma_pending a \<Longrightarrow> P (a\<lparr>ma_pending := ma_pending a - 1\<rparr>)" by (intro counts) simp_all
  then show ?thesis using Acknowledged \<open>P a\<close> by (auto simp: subscription_acknowledged_def Let_def marked)
qed (simp_all add: subscribes end_batch_def same marked)

lemma calls_keep: "P a \<Longrightarrow> P (foldl api_step a calls)"
  by (induction calls arbitrary: a) (simp_all add: api_keeps)

lemma message_keeps: "P a \<Longrightarrow> P (on_message w now calls failure a)"
  by (simp add: on_message_def Let_def calls_keep same emits unready split: option.split)

lemma watchdogs_keep: "P a \<Longrightarrow> P (readiness_act v now a)" "P a \<Longrightarrow> P (idle_act v' now a)"
  by (simp_all add: readiness_act_def idle_act_def emits unready same split: option.split)

lemma joined: "P a \<Longrightarrow> P (a\<lparr>ma_alive := (ma_alive a)(x := ma_alive a x - 1)\<rparr>)"
  using died [of a x] by (simp add: worker_ends_def)

lemma join_workers_keeps: "P a \<Longrightarrow> P (snd (join_workers dies current xs a))"
proof (induction xs arbitrary: a)
  case (Cons x xs)
  show ?case using Cons.IH [OF same(3) [OF Cons.prems]] Cons.IH [OF same(3) [OF joined [OF Cons.prems]]] Cons.prems
    by simp
qed simp

lemma join_helpers_keeps:
  "join_helpers dies xs a = (failed, b) \<Longrightarrow> P a \<Longrightarrow>
     P b \<and> (\<forall>x. ma_alive b x \<le> ma_alive a x) \<and> (\<not> failed \<longrightarrow> (\<forall>x \<in> set xs. ma_alive b x = 0))"
proof (induction xs arbitrary: a)
  case (Cons x xs)
  let ?a = "a\<lparr>ma_alive := (ma_alive a)(x := ma_alive a x - 1)\<rparr>"
  consider "ma_alive a x = 0" | "0 < ma_alive a x" "dies x" | "0 < ma_alive a x" "\<not> dies x" by blast
  then show ?case
  proof cases
    case 1
    then have "P b \<and> (\<forall>x. ma_alive b x \<le> ma_alive a x) \<and> (\<not> failed \<longrightarrow> (\<forall>x \<in> set xs. ma_alive b x = 0))"
      by (intro Cons.IH) (use Cons.prems in simp_all)
    with 1 show ?thesis by (metis le_zero_eq set_ConsD)
  next
    case 2
    have "ma_alive ?a x = 0" using single [OF Cons.prems(2), of x] by simp
    moreover have "P b \<and> (\<forall>x. ma_alive b x \<le> ma_alive ?a x) \<and> (\<not> failed \<longrightarrow> (\<forall>x \<in> set xs. ma_alive b x = 0))"
      by (rule Cons.IH) (use Cons.prems 2 joined in simp_all)
    moreover have "\<forall>y. ma_alive ?a y \<le> ma_alive a y" by simp
    ultimately show ?thesis by (metis le_trans le_zero_eq set_ConsD)
  qed (use Cons.prems in simp)
qed simp

lemma start_keeps: "P a \<Longrightarrow> P (snd (start_workers dies a))"
proof (cases "0 < ma_alive a Main_Worker")
  case False
  assume p: "P a"
  obtain failed b where j: "join_helpers dies [Restart_Worker, Idle_Watchdog, Readiness_Watchdog] a = (failed, b)"
    by fastforce
  note b = join_helpers_keeps [OF j p]
  let ?c = "reset_backoff (b\<lparr>ma_stop := False, ma_restart_flag := True, ma_running := False\<rparr>)"
  show ?thesis
  proof (cases failed)
    case ok: False
    have c: "P ?c" using b by (intro emits same) simp
    have zero: "ma_alive b x = 0" for x
    proof (cases x)
      case Main_Worker
      then show ?thesis using b False by (metis gr0I le_zero_eq)
    qed (use b ok in simp_all)
    have d: "P (spawn Main_Worker ?c)" by (rule spawned [OF c]) (simp add: zero)
    then have "P (spawn Idle_Watchdog (spawn Main_Worker ?c))" by (rule spawned) (simp add: zero)
    moreover have "P (spawn Readiness_Watchdog (spawn Main_Worker ?c))"
      "P (spawn Readiness_Watchdog (spawn Idle_Watchdog (spawn Main_Worker ?c)))"
      using d calculation by (auto intro!: spawned simp: zero)
    ultimately show ?thesis using d False j ok by (simp add: start_workers_def Let_def)
  qed (use b False j in \<open>simp add: start_workers_def\<close>)
qed (simp add: start_workers_def)

lemma step_keeps: "\<not> opens x \<Longrightarrow> P a \<Longrightarrow> P (stream_step a x)"
proof (cases x)
  case (Attempt u)
  assume "P a"
  then show ?thesis using Attempt
    by (simp add: next_attempt_def backoff_delay_def Let_def emits(1) same)
next
  case (Stopped dies current)
  assume "P a"
  then have "P (restart_tick (a\<lparr>ma_restart_flag := False, ma_running := False, ma_stop := True\<rparr>))"
    by (intro emits same)
  then show ?thesis using Stopped by (simp add: ma_stop_stream_def join_workers_keeps del: join_workers.simps)
next
  case Run_Ends
  assume "P a"
  then have "P (run_ends a)" unfolding run_ends_def by (intro same)
  then show ?thesis using Run_Ends by (simp add: died)
qed (simp_all add: message_keeps on_error_def emits closed api_keeps watchdogs_keep died start_keeps
    start_timer_def spawned)

lemma steps_keep: "P a \<Longrightarrow> \<forall>x \<in> set xs. \<not> opens x \<Longrightarrow> P (foldl stream_step a xs)"
  by (induction xs arbitrary: a) (simp_all add: step_keeps)

end

text \<open>
  The invariant: one thread of each kind at most, counters that are not negative, a readiness
  deadline only while readiness is awaited, and a running stream knows its last message.
\<close>

definition stream_inv :: "MyWebsocketApp \<Rightarrow> bool" where
  "stream_inv a \<longleftrightarrow> (\<forall>x. ma_alive a x \<le> 1) \<and> 0 \<le> ma_pending a \<and> 0 \<le> ma_sent a \<and>
     (ma_deadline a \<noteq> None \<longrightarrow> ma_awaiting a) \<and> (ma_running a \<longrightarrow> ma_last_message a \<noteq> None)"

lemmas stream_updates = not_ready_def on_close_def emit_event_def worker_ends_def mark_ready_def
  reset_backoff_def spawn_def Let_def

interpretation stream: stream_property stream_inv
proof unfold_locales
  show "stream_inv a \<Longrightarrow> stream_inv (worker_ends x a)" for a x
    by (auto simp: stream_inv_def worker_ends_def)
qed (auto simp: stream_inv_def stream_updates)

interpretation no_deadline: stream_property "\<lambda>a. stream_inv a \<and> ma_deadline a = None"
proof unfold_locales
  show "stream_inv a \<and> ma_deadline a = None \<Longrightarrow>
      stream_inv (worker_ends x a) \<and> ma_deadline (worker_ends x a) = None" for a x
    using stream.died by (simp add: worker_ends_def)
qed (auto simp: stream_inv_def stream_updates)

lemma open_inv: "stream_inv a \<Longrightarrow> stream_inv (on_open w now calls res later a)"
proof -
  assume "stream_inv a"
  then have "stream_inv (opened w now a)" by (simp add: opened_def stream_inv_def)
  then have "stream_inv (foldl api_step (opened w now a) calls)" by (rule stream.calls_keep)
  then show ?thesis
    by (simp add: on_open_def Let_def stream.emits stream.unready stream.marked split: sum.split)
qed

lemma stream_step_inv: "stream_inv a \<Longrightarrow> stream_inv (stream_step a x)"
proof (cases "opens x")
  case True
  assume "stream_inv a"
  with True show ?thesis by (cases x) (simp_all add: open_inv)
qed (rule stream.step_keeps)

lemma stream_reach_inv: "ma_new ou p c h i r g b m n = Inr a \<Longrightarrow> stream_inv (foldl stream_step a xs)"
proof -
  assume "ma_new ou p c h i r g b m n = Inr a"
  then have "stream_inv a" by (auto simp: ma_new_def stream_inv_def split: if_splits sum.splits)
  then show ?thesis by (induction xs arbitrary: a) (simp_all add: stream_step_inv del: stream_step.simps)
qed

lemma stream_new:
  "ma_new \<lparr>ou_render = (\<lambda>_. []), ou_parse_float = (\<lambda>_. None), ou_tempdir = [], ou_join = (@)\<rparr>
     True None None (PInt 0) (PInt 30) 0 1 60 3 = Inr stream"
  by (simp add: stream_def ma_new_def tls_required_def finite_nonneg_def py_float_def)

text \<open>
  C9. Whatever the callbacks, the watchdogs, the connecting thread, starts and stops do, in any
  order: there is at most one thread of each kind; the number of acknowledgements waited for is
  never negative; a readiness deadline is set only while readiness is awaited; and a running
  stream has the time of its last message, so that the idle watchdog can judge it.
\<close>

theorem stream_invariant:
  fixes a :: MyWebsocketApp and xs :: "stream_op list"
  assumes "ma_new ou p c h i r g b m n = Inr a"
  shows "ma_alive (foldl stream_step a xs) x \<le> 1 \<and> 0 \<le> ma_pending (foldl stream_step a xs) \<and>
    (ma_deadline (foldl stream_step a xs) \<noteq> None \<longrightarrow> ma_awaiting (foldl stream_step a xs)) \<and>
    (ma_running (foldl stream_step a xs) \<longrightarrow> ma_last_message (foldl stream_step a xs) \<noteq> None)"
  using stream_reach_inv [OF assms, of xs] by (simp add: stream_inv_def)

theorem stream_invariant_witness:
  "ma_deadline (foldl stream_step stream [Opened 7 1 [Begin_Batch] (Inr False) 2]) = Some 31 \<and>
   ma_awaiting (foldl stream_step stream [Opened 7 1 [Begin_Batch] (Inr False) 2])"
proof -
  let ?a = "foldl stream_step stream [Opened 7 1 [Begin_Batch] (Inr False) 2]"
  have d: "ma_deadline ?a = Some 31"
    by (simp add: on_open_def opened_def begin_batch_def emit_event_def stream_fields)
  moreover have "ma_awaiting ?a" using stream_invariant [OF stream_new, of "[Opened 7 1 [Begin_Batch] (Inr False) 2]"] d
    by simp
  ultimately show ?thesis by simp
qed



text \<open>
  An acknowledgement that arrives while the watchdog closes the socket makes the stream running
  again, and it says so after it has said that the connection timed out.
\<close>

lemma late_acknowledgement_revives:
  assumes "ma_pending a = 1" "\<not> ma_tracking a" "ma_events a = evs @ [Ws_Readiness_Timeout g t]"
    "\<not> ma_running a"
  shows "ma_running (on_message w now [Acknowledged later] None a) \<and>
    ma_events (on_message w now [Acknowledged later] None a) = evs @ [Ws_Readiness_Timeout g t, Ws_Connected]"
  using assms by (simp add: on_message_def subscription_acknowledged_def stream_updates)

section \<open>The connecting loop\<close>

text \<open>What the loop itself reads and writes, apart from the socket.\<close>

definition loop_view :: "MyWebsocketApp \<Rightarrow> bool \<times> int \<times> int \<times> time \<times> time" where
  "loop_view a = (ma_stop a, ma_attempt a, ma_max_attempts a, ma_delay a, ma_max_delay a)"

fun waits :: "stream_event list \<Rightarrow> time list" where
  "waits [] = []"
| "waits (Ws_Reconnecting n d # es) = d # waits es"
| "waits (e # es) = waits es"

lemma waits_append [simp]: "waits (es @ fs) = waits es @ waits fs"
  by (induction es rule: waits.induct) simp_all

text \<open>The wait after failure \<open>k\<close> from the current delay \<open>d\<close>: doubled each time, never above the maximum.\<close>

definition nth_delay :: "time \<Rightarrow> time \<Rightarrow> nat \<Rightarrow> time" where
  "nth_delay d m k = (if k = 0 then d else min (d * 2 ^ k) m)"

definition nth_wait :: "time \<Rightarrow> time \<Rightarrow> rat \<Rightarrow> nat \<Rightarrow> time" where
  "nth_wait d m u k = min (nth_delay d m k + u * (nth_delay d m k / 10)) m"

lemma nth_delay_Suc:
  "0 \<le> d \<Longrightarrow> 0 \<le> m \<Longrightarrow> nth_delay (min (d * 2) m) m k = nth_delay d m (Suc k)"
proof -
  assume "0 \<le> d" "0 \<le> m"
  then have "m \<le> m * 2 ^ k" "d * 2 ^ Suc k = d * 2 * 2 ^ k"
    by (simp_all add: mult_le_cancel_left1)
  moreover have "min (d * 2) m * 2 ^ k = min (d * 2 * 2 ^ k) (m * 2 ^ k)"
    by (simp add: min_def)
  moreover have "min (min x y) m = min x m" if "m \<le> y" for x y :: time using that by (auto simp: min_def)
  ultimately show ?thesis by (simp add: nth_delay_def mult.assoc)
qed

lemma next_attempt_view:
  "loop_view a = (False, i, n, d, m) \<Longrightarrow> loop_view (next_attempt u a) = (False, i + 1, n, min (d * 2) m, m)"
  "loop_view a = (False, i, n, d, m) \<Longrightarrow>
     waits (ma_events (next_attempt u a)) = waits (ma_events a) @ [nth_wait d m u 0]"
  by (simp_all add: loop_view_def next_attempt_def backoff_delay_def emit_event_def nth_wait_def nth_delay_def Let_def)

lemma run_loop_gives_up:
  assumes idle: "\<And>k a. loop_view (conn k a) = loop_view a" "\<And>k a. waits (ma_events (conn k a)) = waits (ma_events a)"
      "\<And>k a. loop_view (pause k a) = loop_view a" "\<And>k a. waits (ma_events (pause k a)) = waits (ma_events a)"
    and "loop_view a = (False, i, n, d, m)" "0 < n" "i + int left = n" "0 \<le> d" "0 \<le> m" "left < fuel"
  shows "\<exists>b. run_loop conn pause u fuel k a = Some (k + left, b) \<and> ma_stop b \<and> \<not> ma_running b \<and>
    waits (ma_events b) = waits (ma_events a) @ map (\<lambda>j. nth_wait d m (u (k + j)) j) [0..<left]"
  using assms(5-)
proof (induction left arbitrary: fuel k a i d)
  case 0
  then show ?case by (cases fuel) (auto simp: loop_view_def gives_up_def run_ends_def emit_event_def)
next
  case (Suc left)
  obtain f where f: "fuel = Suc f" using Suc.prems(6) by (cases fuel) auto
  have view: "loop_view (conn k (a\<lparr>ma_ws := Some k\<rparr>)) = (False, i, n, d, m)"
    using Suc.prems(1) idle(1) [of k "a\<lparr>ma_ws := Some k\<rparr>"] by (simp add: loop_view_def)
  let ?a = "pause k (next_attempt (u k) (conn k (a\<lparr>ma_ws := Some k\<rparr>)))"
  have "loop_view ?a = (False, i + 1, n, min (d * 2) m, m)"
    by (simp add: idle next_attempt_view [OF view])
  then have "\<exists>b. run_loop conn pause u f (Suc k) ?a = Some (Suc k + left, b) \<and> ma_stop b \<and> \<not> ma_running b \<and>
    waits (ma_events b) = waits (ma_events ?a) @ map (\<lambda>j. nth_wait (min (d * 2) m) m (u (Suc k + j)) j) [0..<left]"
    by (rule Suc.IH) (use Suc.prems f in simp_all)
  moreover have "waits (ma_events ?a) = waits (ma_events a) @ [nth_wait d m (u k) 0]"
    by (simp add: idle next_attempt_view [OF view])
  moreover have "run_loop conn pause u fuel k a = run_loop conn pause u f (Suc k) ?a"
    using Suc.prems(1,3) view by (simp add: f loop_view_def gives_up_def)
  moreover have "nth_wait (min (d * 2) m) m v j = nth_wait d m v (Suc j)" for v j
    using nth_delay_Suc [OF Suc.prems(4,5)] by (simp add: nth_wait_def)
  ultimately show ?case by (auto simp: upt_conv_Cons map_Suc_upt [symmetric] comp_def simp del: upt_Suc)
qed

text \<open>
  C37. While no connection becomes ready and nobody stops the stream, the loop makes exactly
  \<open>max_reconnect_attempts\<close> connections and ends, stopped and not running; the waits between
  them start at the base delay and double up to the maximum, with the jitter drawn each time,
  and none is above the maximum.
\<close>

theorem run_gives_up:
  assumes "\<And>k a. loop_view (conn k a) = loop_view a" "\<And>k a. waits (ma_events (conn k a)) = waits (ma_events a)"
    and "\<And>k a. loop_view (pause k a) = loop_view a" "\<And>k a. waits (ma_events (pause k a)) = waits (ma_events a)"
    and "\<not> ma_stop a" "ma_attempt a = 0" "ma_max_attempts a = int n" "0 < n"
    and "0 \<le> ma_delay a" "0 \<le> ma_max_delay a" "n < fuel"
  shows "\<exists>b. run_loop conn pause u fuel 0 a = Some (n, b) \<and> ma_stop b \<and> \<not> ma_running b \<and>
    waits (ma_events b) = waits (ma_events a) @ map (\<lambda>j. nth_wait (ma_delay a) (ma_max_delay a) (u j) j) [0..<n]"
  using run_loop_gives_up [OF assms(1-4), where a = a and i = 0 and n = "int n" and left = n and fuel = fuel
      and u = u and k = 0 and d = "ma_delay a" and m = "ma_max_delay a"] assms(5-)
  by (simp add: loop_view_def)

theorem run_gives_up_witness:
  "\<exists>b. run_loop (\<lambda>k a. a) (\<lambda>k a. a) (\<lambda>_. 0) 4 0 stream = Some (3, b) \<and> waits (ma_events b) = [1, 2, 4]"
  using run_gives_up [of "\<lambda>k a. a" "\<lambda>k a. a" stream 3 4 "\<lambda>_. 0"]
  by (auto simp: stream_fields nth_wait_def nth_delay_def upt_rec)

section \<open>A start ends\<close>

lemma start_timer_running [simp]: "ma_running (start_timer a) = ma_running a"
  by (simp add: start_timer_def spawn_def)

lemma start_wait_ends:
  assumes "\<And>k. clock k + \<delta> \<le> clock (Suc k)" "deadline \<le> clock k + of_nat fuel * \<delta>"
  shows "\<exists>r b. start_wait dies clock others deadline (Suc fuel) k a = Some (r, b) \<and> (r = None \<longrightarrow> ma_running b)"
  using assms(2)
proof (induction fuel arbitrary: k a)
  case 0
  then show ?case by (auto split: prod.split bool.split)
next
  case (Suc fuel)
  have "deadline \<le> clock (Suc k) + of_nat fuel * \<delta>"
    using Suc.prems assms(1) [of k] by (simp add: algebra_simps)
  from Suc.IH [OF this, of "others k a"] show ?case
    by (subst start_wait.simps) (auto split: prod.split bool.split simp del: start_wait.simps)
qed

text \<open>
  A start returns, whatever the other threads do, as soon as the clock has passed the
  connect timeout: with enough turns for that, it ends; and when it raises nothing the stream
  is running.
\<close>

theorem start_returns:
  assumes "\<And>k. clock k + \<delta> \<le> clock (Suc k)" "finite_nonneg ou timeout = Inr t"
    and "now \<le> clock 0" "t \<le> of_nat fuel * \<delta>"
  shows "\<exists>r b. ma_start ou timeout dies now clock others (Suc fuel) a = Some (r, b) \<and> (r = None \<longrightarrow> ma_running b)"
proof -
  obtain e a1 where s: "start_workers dies a = (e, a1)" by fastforce
  have "now + t \<le> clock 0 + of_nat fuel * \<delta>" using assms(3,4) by simp
  from start_wait_ends [OF assms(1) this, of dies others a1] show ?thesis
    by (cases e) (auto simp: ma_start_def assms(2) s simp del: start_wait.simps)
qed

theorem start_returns_witness:
  "\<exists>r b. ma_start \<lparr>ou_render = (\<lambda>_. []), ou_parse_float = (\<lambda>_. None), ou_tempdir = [], ou_join = (@)\<rparr>
     (PInt 1) (\<lambda>_. True) 5 (\<lambda>k. 5 + of_nat k / 2) (\<lambda>k a. a) 3 stream = Some (r, b) \<and> (r \<noteq> None \<or> ma_running b)"
proof -
  have clock: "5 + of_nat k / 2 + 1 / 2 \<le> (5 + of_nat (Suc k) / 2 :: rat)" for k by (simp add: field_simps)
  show ?thesis
    using start_returns [of "\<lambda>k. 5 + of_nat k / 2" "1 / 2", OF clock, of
        "\<lparr>ou_render = (\<lambda>_. []), ou_parse_float = (\<lambda>_. None), ou_tempdir = [], ou_join = (@)\<rparr>" "PInt 1" 1 5 2
        "\<lambda>_. True" "\<lambda>k a. a" stream]
    by (auto simp: finite_nonneg_def py_float_def numeral_3_eq_3 simp del: start_wait.simps)
qed

end
