(* ===== verification/TickWriter.thy ===== *)
theory TickWriter
  imports PyVal
begin

text \<open>
  Model of \<open>src/bt_api_base/gateway/storage/tick_writer.py\<close>: the buffers per symbol, the flushes
  that move them to files, and the counters. A tick is its symbol and its other attributes. A
  file is the rows a Parquet reader gives back; the file system is a dict from the trading day
  and the symbol of a path to a file. Parameters: the calendar text of a timestamp (\<open>None\<close> when
  \<open>datetime\<close> raises) and whether an access to the file system raises.

  The lock covers only the buffers, so a flush is three atomic moves (take the rows, read the
  file, write it), and flushes of several threads interleave. \<open>flush_symbol\<close> is a flush that
  nothing interrupts; \<open>tw_move\<close> is the relation with every interleaving.
\<close>

section \<open>State and moves\<close>

type_synonym row = "(string \<times> pyval) list"

record tick =
  tk_symbol :: "string option"
  tk_attrs :: "(string, pyval) dict"

record TickWriter =
  tw_exchange :: string
  tw_asset_type :: string
  tw_flush_count :: int
  tw_flush_interval :: time
  tw_buffers :: "(string, row list) dict"
  tw_last_flush :: time
  tw_running :: bool
  tw_total_written :: int
  tw_total_flushed :: int
  tw_flush_errors :: int
  tw_files :: "(string \<times> string, row list) dict"

definition tw_new :: "string \<Rightarrow> string \<Rightarrow> int \<Rightarrow> time \<Rightarrow> time \<Rightarrow> TickWriter" where
  "tw_new exchange asset_type flush_count flush_interval now =
     \<lparr>tw_exchange = py_upper exchange, tw_asset_type = py_upper asset_type, tw_flush_count = flush_count,
      tw_flush_interval = flush_interval, tw_buffers = [], tw_last_flush = now, tw_running = False,
      tw_total_written = 0, tw_total_flushed = 0, tw_flush_errors = 0, tw_files = []\<rparr>"

definition tick_symbol :: "tick \<Rightarrow> string" where
  "tick_symbol t = (case tk_symbol t of None \<Rightarrow> [] | Some s \<Rightarrow> s)"

definition tick_row :: "string \<Rightarrow> string \<Rightarrow> tick \<Rightarrow> row" where
  "tick_row exchange asset_type t =
     (let attr = dget_default (tk_attrs t)
      in [(''timestamp'', attr ''timestamp'' (PFloat 0)), (''symbol'', PStr (tick_symbol t)),
          (''exchange'', attr ''exchange'' (PStr exchange)), (''asset_type'', attr ''asset_type'' (PStr asset_type)),
          (''price'', attr ''price'' (PFloat 0)), (''volume'', attr ''volume'' (PFloat 0)),
          (''bid_price'', attr ''bid_price'' (PFloat 0)), (''ask_price'', attr ''ask_price'' (PFloat 0)),
          (''bid_volume'', attr ''bid_volume'' (PFloat 0)), (''ask_volume'', attr ''ask_volume'' (PFloat 0))])"

definition buffered :: "string \<Rightarrow> TickWriter \<Rightarrow> row list" where
  "buffered s w = dget_default (tw_buffers w) s []"

definition on_disk :: "string \<Rightarrow> string \<Rightarrow> TickWriter \<Rightarrow> row list" where
  "on_disk day s w = dget_default (tw_files w) (day, s) []"

text \<open>The locked part of \<open>write\<close>; the first component is \<open>flush_needed\<close>.\<close>

definition tw_append :: "tick \<Rightarrow> TickWriter \<Rightarrow> bool \<times> TickWriter" where
  "tw_append t w =
     (let s = tick_symbol t; rows = buffered s w @ [tick_row (tw_exchange w) (tw_asset_type w) t]
      in (tw_flush_count w \<le> int (length rows),
          w\<lparr>tw_buffers := dset s rows (tw_buffers w), tw_total_written := tw_total_written w + 1\<rparr>))"

text \<open>The parts of \<open>_flush_symbol\<close>: the locked \<open>pop\<close>, the rewriting of the file, and the handler.\<close>

definition take_rows :: "string \<Rightarrow> TickWriter \<Rightarrow> row list \<times> TickWriter" where
  "take_rows s w = (buffered s w, w\<lparr>tw_buffers := dpop s (tw_buffers w)\<rparr>)"

definition store_rows :: "string \<Rightarrow> string \<Rightarrow> row list \<Rightarrow> row list \<Rightarrow> TickWriter \<Rightarrow> TickWriter" where
  "store_rows day s existing rows w =
     w\<lparr>tw_files := dset (day, s) (existing @ rows) (tw_files w),
       tw_total_flushed := tw_total_flushed w + int (length rows)\<rparr>"

definition restore_rows :: "string \<Rightarrow> row list \<Rightarrow> TickWriter \<Rightarrow> TickWriter" where
  "restore_rows s rows w =
     w\<lparr>tw_flush_errors := tw_flush_errors w + 1, tw_buffers := dset s (rows @ buffered s w) (tw_buffers w)\<rparr>"

definition batch_day :: "(pyval \<Rightarrow> string option) \<Rightarrow> row list \<Rightarrow> string option" where
  "batch_day trading_day rows = trading_day (dget_default (hd rows) ''timestamp'' PNone)"

section \<open>Flushes that nothing interrupts\<close>

definition flush_symbol :: "(pyval \<Rightarrow> string option) \<Rightarrow> bool \<Rightarrow> string \<Rightarrow> TickWriter \<Rightarrow> TickWriter" where
  "flush_symbol trading_day io_ok s w =
     (case take_rows s w of
        (rows, w1) \<Rightarrow>
          if rows = [] then w1
          else case batch_day trading_day rows of
                 None \<Rightarrow> restore_rows s rows w1
               | Some day \<Rightarrow>
                   if io_ok then store_rows day s (on_disk day s w1) rows w1 else restore_rows s rows w1)"

definition flush_all :: "(pyval \<Rightarrow> string option) \<Rightarrow> (string \<Rightarrow> bool) \<Rightarrow> TickWriter \<Rightarrow> TickWriter" where
  "flush_all trading_day io_ok w =
     foldl (\<lambda>w s. flush_symbol trading_day (io_ok s) s w) w (dkeys (tw_buffers w))"

definition tw_write :: "(pyval \<Rightarrow> string option) \<Rightarrow> bool \<Rightarrow> tick \<Rightarrow> TickWriter \<Rightarrow> TickWriter" where
  "tw_write trading_day io_ok t w =
     (case tw_append t w of
        (needed, w1) \<Rightarrow> if needed then flush_symbol trading_day io_ok (tick_symbol t) w1 else w1)"

text \<open>One turn of \<open>_flush_loop\<close> after its sleep, with the readings before and after the flush.\<close>

definition flush_turn ::
    "(pyval \<Rightarrow> string option) \<Rightarrow> (string \<Rightarrow> bool) \<Rightarrow> time \<Rightarrow> time \<Rightarrow> TickWriter \<Rightarrow> TickWriter" where
  "flush_turn trading_day io_ok now after w =
     (if tw_flush_interval w \<le> now - tw_last_flush w
      then (flush_all trading_day io_ok w)\<lparr>tw_last_flush := after\<rparr> else w)"

definition tw_start :: "time \<Rightarrow> TickWriter \<Rightarrow> TickWriter" where
  "tw_start now w = (if tw_running w then w else w\<lparr>tw_running := True, tw_last_flush := now\<rparr>)"

definition tw_stop :: "(pyval \<Rightarrow> string option) \<Rightarrow> (string \<Rightarrow> bool) \<Rightarrow> TickWriter \<Rightarrow> TickWriter" where
  "tw_stop trading_day io_ok w = flush_all trading_day io_ok (w\<lparr>tw_running := False\<rparr>)"

definition buffered_count :: "TickWriter \<Rightarrow> int" where
  "buffered_count w = sum_list (map (\<lambda>rows. int (length rows)) (dvalues (tw_buffers w)))"

definition tw_snapshot :: "TickWriter \<Rightarrow> (int \<times> int \<times> int) \<times> (string \<times> int) list" where
  "tw_snapshot w =
     ((tw_total_written w, tw_total_flushed w, tw_flush_errors w),
      map (\<lambda>(s, rows). (s, int (length rows))) (tw_buffers w))"

section \<open>Interleaved flushes\<close>

text \<open>A flush under way: its rows taken, or the file read as well.\<close>

datatype flight = Taken string "row list" | Loaded string string "row list" "row list"

inductive tw_move ::
    "(pyval \<Rightarrow> string option) \<Rightarrow> TickWriter \<times> flight list \<Rightarrow> TickWriter \<times> flight list \<Rightarrow> bool"
  for trading_day where
  Append: "tw_append t w = (needed, w') \<Longrightarrow> tw_move trading_day (w, fs) (w', fs)"
| Take: "take_rows s w = (rows, w') \<Longrightarrow> rows \<noteq> [] \<Longrightarrow> tw_move trading_day (w, fs) (w', Taken s rows # fs)"
| Load: "batch_day trading_day rows = Some day \<Longrightarrow>
    tw_move trading_day (w, fs @ Taken s rows # gs) (w, fs @ Loaded s day (on_disk day s w) rows # gs)"
| Store: "tw_move trading_day (w, fs @ Loaded s day existing rows # gs) (store_rows day s existing rows w, fs @ gs)"
| Fail_Taken: "tw_move trading_day (w, fs @ Taken s rows # gs) (restore_rows s rows w, fs @ gs)"
| Fail_Loaded: "tw_move trading_day (w, fs @ Loaded s day existing rows # gs) (restore_rows s rows w, fs @ gs)"

fun flight_rows :: "flight \<Rightarrow> row list" where
  "flight_rows (Taken s rows) = rows"
| "flight_rows (Loaded s day existing rows) = rows"

section \<open>Counting rows\<close>

lemma count_dset:
  "dict_ok d \<Longrightarrow> sum_list (map (\<lambda>rows. int (length rows)) (dvalues (dset s rows d))) =
     sum_list (map (\<lambda>rows. int (length rows)) (dvalues d)) - int (length (dget_default d s [])) + int (length rows)"
proof (induction d)
  case (Cons p d)
  obtain k v where p: "p = (k, v)" by fastforce
  show ?case
  proof (cases "k = s")
    case True
    then show ?thesis using p by (simp add: dvalues_def dget_default_def)
  next
    case False
    with Cons p show ?thesis by (simp add: dvalues_def dget_default_def dict_ok_def)
  qed
qed (simp add: dvalues_def dget_default_def)

lemma count_dpop:
  "dict_ok d \<Longrightarrow> sum_list (map (\<lambda>rows. int (length rows)) (dvalues (dpop s d))) =
     sum_list (map (\<lambda>rows. int (length rows)) (dvalues d)) - int (length (dget_default d s []))"
proof (induction d)
  case (Cons p d)
  obtain k v where p: "p = (k, v)" by fastforce
  show ?case
  proof (cases "k = s")
    case True
    then have "dpop s d = d" "dget d s = None"
      using Cons.prems p by (auto simp: dict_ok_def dpop_def dget_def map_of_eq_None_iff filter_id_conv)
    then show ?thesis using p True by (simp add: dvalues_def dget_default_def)
  next
    case False
    with Cons p show ?thesis by (simp add: dvalues_def dget_default_def dict_ok_def)
  qed
qed (simp add: dvalues_def dget_default_def)

text \<open>Rows written are flushed, buffered or under way.\<close>

definition balanced :: "TickWriter \<times> flight list \<Rightarrow> bool" where
  "balanced x \<longleftrightarrow> (case x of (w, fs) \<Rightarrow> dict_ok (tw_buffers w) \<and>
     tw_total_written w = tw_total_flushed w + buffered_count w + sum_list (map (\<lambda>f. int (length (flight_rows f))) fs))"

lemmas tw_defs = tw_append_def take_rows_def store_rows_def restore_rows_def buffered_count_def
  buffered_def on_disk_def Let_def

lemma balanced_move: "tw_move trading_day x y \<Longrightarrow> balanced x \<Longrightarrow> balanced y"
  by (induction rule: tw_move.induct)
    (auto simp: balanced_def tw_defs count_dset count_dpop)

lemma balanced_moves: "(tw_move trading_day)\<^sup>*\<^sup>* x y \<Longrightarrow> balanced x \<Longrightarrow> balanced y"
  by (induction rule: rtranclp_induct) (auto intro: balanced_move)

lemma balanced_new: "balanced (tw_new ex a n i now, [])"
  by (simp add: balanced_def tw_new_def buffered_count_def dict_ok_def dvalues_def)

end
