(* ===== verification/TickWriterCorrect.thy ===== *)
theory TickWriterCorrect
  imports TickWriter
begin

text \<open>
  What the tick recorder guarantees: no interleaving of writers and flushes changes the count of
  rows; flushes that do not overlap record every row once, in order; and two that overlap lose
  rows they count as flushed.
\<close>

section \<open>Every interleaving\<close>


definition tick_at :: "rat \<Rightarrow> tick" where
  "tick_at t = \<lparr>tk_symbol = Some ''IF'', tk_attrs = [(''timestamp'', PFloat t)]\<rparr>"


section \<open>Flushes that do not overlap\<close>

text \<open>
  The batches a symbol's rows were stored in, in order, with what is buffered: \<open>trail\<close> is every
  row written for it. A batch is filed under the day of its first row.
\<close>

definition batched :: "(pyval \<Rightarrow> string option) \<Rightarrow> row list list \<Rightarrow> string \<Rightarrow> row list \<Rightarrow> TickWriter \<Rightarrow> bool" where
  "batched trading_day batches s trail w \<longleftrightarrow>
     concat batches @ buffered s w = trail \<and> [] \<notin> set batches \<and>
     (\<forall>day. on_disk day s w = concat (filter (\<lambda>b. batch_day trading_day b = Some day) batches))"

definition recorded :: "(pyval \<Rightarrow> string option) \<Rightarrow> string \<Rightarrow> row list \<Rightarrow> TickWriter \<Rightarrow> bool" where
  "recorded trading_day s trail w \<longleftrightarrow> (\<exists>batches. batched trading_day batches s trail w)"

lemma recorded_flush:
  assumes "recorded trading_day s trail w" shows "recorded trading_day s trail (flush_symbol trading_day io r w)"
proof (cases "r = s \<and> buffered s w \<noteq> [] \<and> io \<and> batch_day trading_day (buffered s w) \<noteq> None")
  case True
  then obtain day where d: "batch_day trading_day (buffered s w) = Some day" by auto
  obtain bs where "batched trading_day bs s trail w" using assms by (auto simp: recorded_def)
  then have "batched trading_day (bs @ [buffered s w]) s trail (flush_symbol trading_day io r w)"
    using True d by (auto simp: batched_def flush_symbol_def take_rows_def store_rows_def on_disk_def
        buffered_def dget_default_def)
  then show ?thesis by (auto simp: recorded_def)
next
  case False
  then have "buffered s (flush_symbol trading_day io r w) = buffered s w \<and>
      (\<forall>day. on_disk day s (flush_symbol trading_day io r w) = on_disk day s w)"
    by (auto simp: flush_symbol_def tw_defs dget_default_def split: option.split)
  with assms show ?thesis by (simp add: recorded_def batched_def)
qed

lemma recorded_flush_all:
  "recorded trading_day s trail w \<Longrightarrow> recorded trading_day s trail (flush_all trading_day io w)"
proof -
  have "recorded trading_day s trail w \<Longrightarrow>
      recorded trading_day s trail (foldl (\<lambda>w s. flush_symbol trading_day (io s) s w) w ss)" for ss
    by (induction ss arbitrary: w) (simp_all add: recorded_flush)
  then show "recorded trading_day s trail w \<Longrightarrow> ?thesis" by (simp add: flush_all_def)
qed

lemma recorded_append:
  "recorded trading_day s trail w \<Longrightarrow> recorded trading_day s
     (if tick_symbol t = s then trail @ [tick_row (tw_exchange w) (tw_asset_type w) t] else trail) (snd (tw_append t w))"
  by (auto simp: recorded_def batched_def tw_defs dget_default_def)

datatype tw_op =
    Write tick bool | Flush_Turn "string \<Rightarrow> bool" time time | Start_Writer time | Stop_Writer "string \<Rightarrow> bool"

fun tw_step :: "(pyval \<Rightarrow> string option) \<Rightarrow> TickWriter \<Rightarrow> tw_op \<Rightarrow> TickWriter" where
  "tw_step trading_day w (Write t io) = tw_write trading_day io t w"
| "tw_step trading_day w (Flush_Turn io now after) = flush_turn trading_day io now after w"
| "tw_step trading_day w (Start_Writer now) = tw_start now w"
| "tw_step trading_day w (Stop_Writer io) = tw_stop trading_day io w"

fun rows_of :: "string \<Rightarrow> string \<Rightarrow> string \<Rightarrow> tw_op \<Rightarrow> row list" where
  "rows_of ex a s (Write t io) = (if tick_symbol t = s then [tick_row ex a t] else [])"
| "rows_of ex a s _ = []"

text \<open>No operation changes the names or the limit.\<close>

definition tw_fixed :: "TickWriter \<Rightarrow> string \<times> string \<times> int" where
  "tw_fixed w = (tw_exchange w, tw_asset_type w, tw_flush_count w)"

lemma fixed_flush [simp]: "tw_fixed (flush_symbol trading_day io s w) = tw_fixed w"
  by (simp add: flush_symbol_def tw_defs tw_fixed_def split: option.split)

lemma fixed_flush_all [simp]: "tw_fixed (flush_all trading_day io w) = tw_fixed w"
proof -
  have "tw_fixed (foldl (\<lambda>w s. flush_symbol trading_day (io s) s w) w ss) = tw_fixed w" for ss
    by (induction ss arbitrary: w) simp_all
  then show ?thesis by (simp add: flush_all_def)
qed

lemma fixed_updates [simp]:
  "tw_fixed (w\<lparr>tw_last_flush := t\<rparr>) = tw_fixed w" "tw_fixed (w\<lparr>tw_running := b\<rparr>) = tw_fixed w"
  "tw_fixed (snd (tw_append t' w)) = tw_fixed w"
  by (simp_all add: tw_fixed_def tw_append_def Let_def)

lemma fixed_step [simp]: "tw_fixed (tw_step trading_day w x) = tw_fixed w"
  by (cases x) (simp_all add: tw_write_def flush_turn_def tw_start_def tw_stop_def case_prod_beta)

lemma recorded_updates [simp]:
  "recorded trading_day s trail (w\<lparr>tw_last_flush := t\<rparr>) = recorded trading_day s trail w"
  "recorded trading_day s trail (w\<lparr>tw_running := b\<rparr>) = recorded trading_day s trail w"
  by (simp_all add: recorded_def batched_def buffered_def on_disk_def)

lemma recorded_step:
  assumes "recorded trading_day s trail w" "tw_fixed w = (ex, a, n)"
  shows "recorded trading_day s (trail @ rows_of ex a s x) (tw_step trading_day w x)"
proof (cases x)
  case (Write t io)
  have "recorded trading_day s (trail @ rows_of ex a s x) (snd (tw_append t w))"
    using recorded_append [OF assms(1), of t] assms(2) Write by (auto simp: tw_fixed_def)
  then show ?thesis using Write by (simp add: tw_write_def case_prod_beta recorded_flush)
next
  case (Start_Writer now)
  have "recorded trading_day s trail (w\<lparr>tw_running := True, tw_last_flush := now\<rparr>) = recorded trading_day s trail w"
    by (simp add: recorded_def batched_def buffered_def on_disk_def)
  then show ?thesis using Start_Writer assms(1) by (simp add: tw_start_def)
qed (use assms(1) in \<open>simp_all add: flush_turn_def tw_stop_def recorded_flush_all\<close>)

lemma recorded_run:
  "recorded trading_day s trail w \<Longrightarrow> tw_fixed w = (ex, a, n) \<Longrightarrow>
   recorded trading_day s (trail @ concat (map (rows_of ex a s) xs)) (foldl (tw_step trading_day) w xs)"
proof (induction xs arbitrary: trail w)
  case (Cons x xs)
  have "recorded trading_day s ((trail @ rows_of ex a s x) @ concat (map (rows_of ex a s) xs))
      (foldl (tw_step trading_day) (tw_step trading_day w x) xs)"
    by (rule Cons.IH) (use Cons.prems recorded_step in simp_all)
  then show ?case by simp
qed simp

lemma recorded_new: "recorded trading_day s [] (tw_new ex a n i now)"
  by (auto simp: recorded_def batched_def buffered_def on_disk_def tw_new_def dget_default_def intro!: exI [of _ "[]"])


section \<open>When nothing fails\<close>

lemma flush_empties:
  "trading_day (dget_default (hd (buffered s w)) ''timestamp'' PNone) \<noteq> None \<Longrightarrow>
   buffered r (flush_symbol trading_day True s w) = (if r = s then [] else buffered r w)"
  by (auto simp: flush_symbol_def tw_defs dget_default_def batch_day_def split: option.split)

text \<open>A stop stores everything: no row stays in a buffer.\<close>

lemma stop_empties:
  assumes "\<And>t. trading_day t \<noteq> None"
  shows "buffered r (tw_stop trading_day (\<lambda>_. True) w) = []"
proof -
  have "buffered r (foldl (\<lambda>w s. flush_symbol trading_day True s w) v ss) =
      (if r \<in> set ss then [] else buffered r v)" for v ss
    by (induction ss arbitrary: v) (simp_all add: flush_empties assms)
  moreover have "r \<notin> set (dkeys (tw_buffers w)) \<Longrightarrow> buffered r (w\<lparr>tw_running := False\<rparr>) = []"
    by (simp add: buffered_def dget_default_def dget_None_iff [symmetric])
  ultimately show ?thesis by (simp add: tw_stop_def flush_all_def)
qed

lemma write_below_limit:
  assumes "\<And>t. trading_day t \<noteq> None" "\<And>s. int (length (buffered s w)) < max 1 (tw_flush_count w)"
  shows "int (length (buffered s (tw_write trading_day True t w))) < max 1 (tw_flush_count w)"
proof -
  obtain b w1 where a: "tw_append t w = (b, w1)" by fastforce
  show ?thesis
  proof (cases b)
    case True
    then show ?thesis using a assms
      by (auto simp: tw_write_def flush_empties) (auto simp: tw_defs dget_default_def)
  next
    case False
    then show ?thesis using a assms(2) [of s] by (auto simp: tw_write_def tw_defs dget_default_def)
  qed
qed

section \<open>Flushes that overlap\<close>

text \<open>
  Two flushes of one symbol that both read the file before either writes it: the first one's
  rows are overwritten, although both are counted as flushed.
\<close>

lemma overlapping_flushes_lose_rows:
  assumes "batch_day trading_day [a] = Some d" "batch_day trading_day [b] = Some d"
  shows "(tw_move trading_day)\<^sup>*\<^sup>* (w, [Taken s [b], Taken s [a]])
      (store_rows d s (on_disk d s w) [b] (store_rows d s (on_disk d s w) [a] w), [])"
    and "on_disk d s (store_rows d s (on_disk d s w) [b] (store_rows d s (on_disk d s w) [a] w)) = on_disk d s w @ [b]"
    and "tw_total_flushed (store_rows d s (on_disk d s w) [b] (store_rows d s (on_disk d s w) [a] w)) = tw_total_flushed w + 2"
proof -
  let ?e = "on_disk d s w"
  let ?w1 = "store_rows d s ?e [a] w"
  have "tw_move trading_day (w, [Taken s [b], Taken s [a]]) (w, [Taken s [b], Loaded s d ?e [a]])"
    using Load [OF assms(1), of w "[Taken s [b]]" s "[]"] by simp
  moreover have "tw_move trading_day (w, [Taken s [b], Loaded s d ?e [a]]) (w, [Loaded s d ?e [b], Loaded s d ?e [a]])"
    using Load [OF assms(2), of w "[]" s "[Loaded s d ?e [a]]"] by simp
  moreover have "tw_move trading_day (w, [Loaded s d ?e [b], Loaded s d ?e [a]]) (?w1, [Loaded s d ?e [b]])"
    using Store [of trading_day w "[Loaded s d ?e [b]]" s d ?e "[a]" "[]"] by simp
  moreover have "tw_move trading_day (?w1, [Loaded s d ?e [b]]) (store_rows d s ?e [b] ?w1, [])"
    using Store [of trading_day ?w1 "[]" s d ?e "[b]" "[]"] by simp
  ultimately show "(tw_move trading_day)\<^sup>*\<^sup>* (w, [Taken s [b], Taken s [a]]) (store_rows d s ?e [b] ?w1, [])"
    by (meson converse_rtranclp_into_rtranclp rtranclp.rtrancl_refl)
qed (simp_all add: store_rows_def on_disk_def dget_default_def)

end
