(* ===== verification/GatewayModels.thy ===== *)
theory GatewayModels
  imports PyVal
begin

text \<open>
  Model of \<open>src/bt_api_base/gateway/models.py\<close> and \<open>src/bt_api_base/gateway/protocol.py\<close>: the tick that
  adapters publish, its dictionary form, what is sent on the wire, and reading it reads. The
  dataclass is the list of its fields with their defaults; a tick gives each field a value.
  What \<open>json\<close> and UTF-8 do to a message is the identity on the values of type \<open>pyval\<close>. The
  text of a \<open>datetime\<close> and the parser of such texts (\<open>isoformat\<close>, \<open>fromisoformat\<close>) are parameters.
\<close>

section \<open>The tick\<close>

datatype 'd field_value = Plain pyval | Moment 'd | Flags "string list"

type_synonym 'd tick_data = "(string \<times> 'd field_value) list"

definition optional_number :: "string \<Rightarrow> string \<times> 'd field_value option" where
  "optional_number name = (name, Some (Plain PNone))"

definition text_field :: "string \<Rightarrow> string \<Rightarrow> string \<times> 'd field_value option" where
  "text_field name v = (name, Some (Plain (PStr v)))"

definition float_default :: "string \<Rightarrow> string \<times> 'd field_value option" where
  "float_default name = (name, Some (Plain (PFloat 0)))"

definition int_default :: "string \<Rightarrow> string \<times> 'd field_value option" where
  "int_default name = (name, Some (Plain (PInt 0)))"

definition false_default :: "string \<Rightarrow> string \<times> 'd field_value option" where
  "false_default name = (name, Some (Plain (PBool False)))"

text \<open>The fields of the dataclass in order; one without a default is required.\<close>

definition tick_fields :: "(string \<times> 'd field_value option) list" where
  "tick_fields =
     [(''timestamp'', None), (''symbol'', None), text_field ''exchange'' [], text_field ''asset_type'' [],
      optional_number ''local_time'', float_default ''price'', float_default ''volume'',
      text_field ''direction'' ''buy'', text_field ''trade_id'' [], optional_number ''bid_price'',
      optional_number ''ask_price'', optional_number ''bid_volume'', optional_number ''ask_volume'',
      float_default ''openinterest'', float_default ''turnover'', optional_number ''datetime'',
      text_field ''instrument_id'' [], text_field ''exchange_id'' [], text_field ''trading_day'' [],
      text_field ''action_day'' [], text_field ''update_time'' [], int_default ''update_millisec'',
      optional_number ''high_price'', optional_number ''low_price'', optional_number ''open_price'',
      optional_number ''prev_close'', text_field ''schema_version'' [], text_field ''volume_semantics'' [],
      optional_number ''cum_volume'', optional_number ''cumulative_volume'', optional_number ''delta_volume'',
      false_default ''volume_complete'', text_field ''volume_quality'' ''unknown'',
      text_field ''continuity_status'' ''unverified'', (''quality_flags'', Some (Flags [])),
      optional_number ''last_price'', optional_number ''lower_limit_price'', optional_number ''upper_limit_price'',
      optional_number ''event_time_utc'', optional_number ''recv_time_utc'', int_default ''recv_monotonic_ns'',
      int_default ''connection_generation'', int_default ''ingest_seq'', int_default ''subscription_epoch'',
      text_field ''rules_hash'' [], text_field ''clock_domain_id'' [], text_field ''source'' ''unknown'',
      text_field ''event_time_source'' ''unresolved'', text_field ''source_clock_quality'' ''unknown'',
      text_field ''receive_clock_quality'' ''unknown'', optional_number ''source_clock_error_ms'',
      optional_number ''receive_clock_error_ms'', false_default ''freshness_verified'', false_default ''execution_eligible'']"

definition tick_names :: "string list" where
  "tick_names = map fst (tick_fields :: (string \<times> unit field_value option) list)"

definition moments :: "string list" where
  "moments = [''datetime'', ''event_time_utc'', ''recv_time_utc'']"

section \<open>Writing\<close>

text \<open>\<open>value.isoformat()\<close> of a value that is no \<open>datetime\<close> raises \<open>AttributeError\<close>.\<close>

definition iso_field :: "('d \<Rightarrow> string) \<Rightarrow> 'd tick_data \<Rightarrow> 'd tick_data py \<Rightarrow> string \<Rightarrow> 'd tick_data py" where
  "iso_field fmt t payload name =
     (case payload of
        Inl e \<Rightarrow> Inl e
      | Inr p \<Rightarrow>
          (case dget t name of
             Some (Moment d) \<Rightarrow> Inr (dset name (Plain (PStr (fmt d))) p)
           | Some (Plain PNone) \<Rightarrow> Inr p
           | _ \<Rightarrow> Inl AttributeError))"

definition tick_to_dict :: "('d \<Rightarrow> string) \<Rightarrow> 'd tick_data \<Rightarrow> 'd tick_data py" where
  "tick_to_dict fmt t = foldl (iso_field fmt t) (Inr t) moments"

fun normalize_value :: "('d \<Rightarrow> string) \<Rightarrow> 'd field_value \<Rightarrow> pyval" where
  "normalize_value fmt (Plain v) = v"
| "normalize_value fmt (Moment d) = PStr (fmt d)"
| "normalize_value fmt (Flags fs) = PList (map PStr fs)"

definition dumps_tick :: "('d \<Rightarrow> string) \<Rightarrow> 'd tick_data \<Rightarrow> (string \<times> pyval) list" where
  "dumps_tick fmt t = map (\<lambda>(k, v). (k, normalize_value fmt v)) t"

section \<open>Reading\<close>

definition read_datetime :: "(string \<Rightarrow> 'd py) \<Rightarrow> (string \<times> pyval) list \<Rightarrow> 'd field_value py" where
  "read_datetime parse d =
     (case dget d ''datetime'' of
        Some (PStr (c # cs)) \<Rightarrow> (case parse (c # cs) of Inl e \<Rightarrow> Inl e | Inr m \<Rightarrow> Inr (Moment m))
      | _ \<Rightarrow> Inr (Plain PNone))"

definition read_moment :: "(string \<Rightarrow> 'd py) \<Rightarrow> pyval \<Rightarrow> 'd field_value py" where
  "read_moment parse v =
     (case v of
        PStr (c # cs) \<Rightarrow> (case parse (c # cs) of Inl e \<Rightarrow> Inl e | Inr m \<Rightarrow> Inr (Moment m))
      | _ \<Rightarrow> Inr (Plain v))"

definition read_flags :: "(pyval \<Rightarrow> string) \<Rightarrow> pyval \<Rightarrow> 'd field_value" where
  "read_flags str_of v = (case v of PList fs \<Rightarrow> Flags (map str_of fs) | _ \<Rightarrow> Plain v)"

definition read_value :: "(pyval \<Rightarrow> string) \<Rightarrow> (string \<Rightarrow> 'd py) \<Rightarrow> string \<Rightarrow> pyval \<Rightarrow> 'd field_value py" where
  "read_value str_of parse name v =
     (if name \<in> {''event_time_utc'', ''recv_time_utc''} then read_moment parse v
      else if name = ''quality_flags'' then Inr (read_flags str_of v) else Inr (Plain v))"

text \<open>
  \<open>from_dict\<close>: the moments are read first, in the order of the code, so that the first that
  does not parse raises; then each known field takes its value or its default, and a required
  one that is missing makes \<open>cls(**data)\<close> raise \<open>TypeError\<close>. A moment that is missing is \<open>None\<close>.
\<close>

definition moment_check :: "(string \<Rightarrow> 'd py) \<Rightarrow> (string \<times> pyval) list \<Rightarrow> pyerr option" where
  "moment_check parse d =
     (case read_datetime parse d of
        Inl e \<Rightarrow> Some e
      | Inr _ \<Rightarrow>
          (case read_moment parse (dget_default d ''event_time_utc'' PNone) of
             Inl e \<Rightarrow> Some e
           | Inr _ \<Rightarrow>
               (case read_moment parse (dget_default d ''recv_time_utc'' PNone) of Inl e \<Rightarrow> Some e | Inr _ \<Rightarrow> None)))"

definition field_of ::
    "(pyval \<Rightarrow> string) \<Rightarrow> (string \<Rightarrow> 'd py) \<Rightarrow> (string \<times> pyval) list \<Rightarrow> string \<Rightarrow> 'd field_value option \<Rightarrow> 'd field_value py" where
  "field_of str_of parse d name dflt =
     (if name = ''datetime'' then read_datetime parse d
      else case dget d name of
        Some v \<Rightarrow> read_value str_of parse name v
      | None \<Rightarrow> (case dflt of Some v \<Rightarrow> Inr v | None \<Rightarrow> Inl TypeError))"

fun construct_fields ::
    "(pyval \<Rightarrow> string) \<Rightarrow> (string \<Rightarrow> 'd py) \<Rightarrow> (string \<times> pyval) list \<Rightarrow> (string \<times> 'd field_value option) list \<Rightarrow> 'd tick_data py" where
  "construct_fields str_of parse d [] = Inr []"
| "construct_fields str_of parse d ((name, dflt) # fs) =
     (case field_of str_of parse d name dflt of
        Inl e \<Rightarrow> Inl e
      | Inr v \<Rightarrow> (case construct_fields str_of parse d fs of Inl e \<Rightarrow> Inl e | Inr t \<Rightarrow> Inr ((name, v) # t)))"

definition tick_from_dict ::
    "(pyval \<Rightarrow> string) \<Rightarrow> (string \<Rightarrow> 'd py) \<Rightarrow> (string \<times> pyval) list \<Rightarrow> 'd tick_data py" where
  "tick_from_dict str_of parse d =
     (case moment_check parse d of Some e \<Rightarrow> Inl e | None \<Rightarrow> construct_fields str_of parse d tick_fields)"

section \<open>Round trips\<close>

text \<open>
  A tick as its annotations describe it: a value for every field, moments that are \<open>None\<close> or a
  \<open>datetime\<close>, flags that are a tuple of strings, and plain values elsewhere.
\<close>

definition typed_field :: "string \<Rightarrow> 'd field_value \<Rightarrow> bool" where
  "typed_field name v \<longleftrightarrow>
     (if name \<in> set moments then (case v of Moment d \<Rightarrow> True | Plain p \<Rightarrow> p = PNone | Flags fs \<Rightarrow> False)
      else if name = ''quality_flags'' then (case v of Flags fs \<Rightarrow> True | _ \<Rightarrow> False)
      else (case v of Plain p \<Rightarrow> True | _ \<Rightarrow> False))"

definition typed_tick :: "'d tick_data \<Rightarrow> bool" where
  "typed_tick t \<longleftrightarrow> map fst t = tick_names \<and> list_all (\<lambda>(k, v). typed_field k v) t"

lemma tick_names_fields: "map fst (tick_fields :: (string \<times> 'd field_value option) list) = tick_names"
  by (simp add: tick_names_def tick_fields_def optional_number_def text_field_def float_default_def
      int_default_def false_default_def)

lemma distinct_tick_names: "distinct tick_names"
  by code_simp

lemma moments_are_fields: "set moments \<subseteq> set tick_names"
  by code_simp

text \<open>The documented behaviour of the standard library: \<open>fromisoformat\<close> reads what \<open>isoformat\<close> writes.\<close>

definition iso_reads :: "('d \<Rightarrow> string) \<Rightarrow> (string \<Rightarrow> 'd py) \<Rightarrow> bool" where
  "iso_reads fmt parse \<longleftrightarrow> (\<forall>d. fmt d \<noteq> [] \<and> parse (fmt d) = Inr d)"

lemma dget_dumps: "dget (dumps_tick fmt t) k = map_option (normalize_value fmt) (dget t k)"
  by (induction t) (auto simp: dumps_tick_def)

lemma read_back:
  assumes "iso_reads fmt parse" "\<And>s. str_of (PStr s) = s" "typed_field k v" "dget d k = Some (normalize_value fmt v)"
  shows "field_of str_of parse d k dflt = Inr v"
proof -
  have m: "fmt m = c # cs \<Longrightarrow> parse (c # cs) = Inr m" "fmt m \<noteq> []" for m c cs
    using assms(1) by (auto simp: iso_reads_def) (metis)
  consider "k = ''datetime''" | "k \<in> {''event_time_utc'', ''recv_time_utc''}" | "k = ''quality_flags''"
    | "k \<notin> set moments" "k \<noteq> ''quality_flags''" by (auto simp: moments_def)
  then show ?thesis
  proof cases
    case 1
    then show ?thesis using assms(3,4) m
      by (cases v) (auto simp: field_of_def read_datetime_def typed_field_def moments_def split: list.split)
  next
    case 2
    then show ?thesis using assms(3,4) m
      by (cases v) (auto simp: field_of_def read_value_def read_moment_def typed_field_def moments_def split: list.split)
  next
    case 3
    then show ?thesis using assms(2-4)
      by (cases v) (auto simp: field_of_def read_value_def read_flags_def typed_field_def moments_def comp_def)
  next
    case 4
    then show ?thesis using assms(3,4)
      by (cases v) (auto simp: field_of_def read_value_def typed_field_def moments_def)
  qed
qed

lemma construct_back:
  assumes "\<And>k v dflt. (k, v) \<in> set t \<Longrightarrow> field_of str_of parse d k dflt = Inr v" "map fst fs = map fst t"
  shows "construct_fields str_of parse d fs = Inr t"
  using assms
proof (induction fs arbitrary: t)
  case (Cons f fs)
  obtain k dflt where f: "f = (k, dflt)" by fastforce
  obtain v t' where t: "t = (k, v) # t'" using Cons.prems(2) f by (cases t) auto
  have "construct_fields str_of parse d fs = Inr t'"
    by (rule Cons.IH) (use Cons.prems t in auto)
  then show ?case using Cons.prems(1) [of k v dflt] f t by simp
qed simp

lemma typed_lookup: "typed_tick t \<Longrightarrow> (k, v) \<in> set t \<Longrightarrow> typed_field k v \<and> dget t k = Some v"
  using distinct_tick_names by (auto simp: typed_tick_def list_all_iff dget_def)

lemma typed_has: "typed_tick t \<Longrightarrow> k \<in> set tick_names \<Longrightarrow> \<exists>v. (k, v) \<in> set t"
  by (metis (no_types, opaque_lifting) imageE list.set_map prod.collapse typed_tick_def)

lemma moments_parse:
  assumes "typed_tick t"
    and reads: "\<And>k v. (k, v) \<in> set t \<Longrightarrow> field_of str_of parse (dumps_tick fmt t) k None = Inr v"
  shows "moment_check parse (dumps_tick fmt t) = None"
proof -
  let ?d = "dumps_tick fmt t"
  have known: "\<exists>v. field_of str_of parse ?d k None = Inr v \<and> dget ?d k = Some (normalize_value fmt v)"
    if k: "k \<in> set moments" for k
  proof -
    obtain v where v: "(k, v) \<in> set t" using typed_has [OF assms(1)] moments_are_fields k by blast
    then show ?thesis using reads [OF v] typed_lookup [OF assms(1) v] by (auto simp: dget_dumps)
  qed
  obtain a where "read_datetime parse ?d = Inr a"
    using known [of "''datetime''"] by (auto simp: moments_def field_of_def)
  moreover obtain b where "read_moment parse (dget_default ?d ''event_time_utc'' PNone) = Inr b"
    using known [of "''event_time_utc''"] by (auto simp: moments_def field_of_def read_value_def dget_default_def)
  moreover obtain c where "read_moment parse (dget_default ?d ''recv_time_utc'' PNone) = Inr c"
    using known [of "''recv_time_utc''"] by (auto simp: moments_def field_of_def read_value_def dget_default_def)
  ultimately show ?thesis by (simp add: moment_check_def)
qed

lemma wire_reads:
  assumes "iso_reads fmt parse" "\<And>s. str_of (PStr s) = s" "typed_tick t"
  shows "tick_from_dict str_of parse (dumps_tick fmt t) = Inr t"
proof -
  have reads: "field_of str_of parse (dumps_tick fmt t) k dflt = Inr v" if "(k, v) \<in> set t" for k v dflt
    using read_back [OF assms(1,2)] typed_lookup [OF assms(3) that] by (simp add: dget_dumps)
  show ?thesis
    using construct_back [OF reads, of t tick_fields] tick_names_fields assms(3)
      moments_parse [OF assms(3) reads]
    by (simp add: tick_from_dict_def typed_tick_def)
qed

text \<open>
  C36. A tick that an adapter publishes arrives as it was sent: reading reads what is put on the
  wire gives the same tick, for every tick of the annotated types.
\<close>

theorem tick_roundtrip:
  assumes "iso_reads fmt parse" "\<And>s. str_of (PStr s) = s" "typed_tick t"
  shows "tick_from_dict str_of parse (dumps_tick fmt t) = Inr t"
  by (rule wire_reads [OF assms])

definition sample_tick :: "nat tick_data" where
  "sample_tick = map (\<lambda>(k, dflt). (k, if k = ''recv_time_utc'' then Moment 7
     else case dflt of Some v \<Rightarrow> v | None \<Rightarrow> Plain (PInt 1))) tick_fields"

theorem tick_roundtrip_witness:
  "tick_from_dict (\<lambda>v. case v of PStr s \<Rightarrow> s | _ \<Rightarrow> []) (\<lambda>s. case int_of_str s of Inr i \<Rightarrow> Inr (nat i) | Inl e \<Rightarrow> Inl e)
     (dumps_tick (\<lambda>n. show_int (int n)) sample_tick) = Inr sample_tick"
proof (rule tick_roundtrip)
  show "iso_reads (\<lambda>n. show_int (int n)) (\<lambda>s. case int_of_str s of Inr i \<Rightarrow> Inr (nat i) | Inl e \<Rightarrow> Inl e)"
    using int_of_str_show show_nat_nonempty by (simp add: iso_reads_def) (simp add: show_int_def)
  show "typed_tick sample_tick" by code_simp
qed simp

text \<open>
  A moment that arrives as an empty text is kept as that text, and then the tick cannot be
  made into a dictionary any more.
\<close>

lemma empty_moment_breaks_to_dict:
  "read_moment parse (PStr []) = Inr (Plain (PStr []))"
  "dget t ''datetime'' = Some (Plain PNone) \<Longrightarrow> dget t ''event_time_utc'' = Some (Plain (PStr [])) \<Longrightarrow>
   tick_to_dict fmt t = Inl AttributeError"
  by (simp_all add: read_moment_def tick_to_dict_def moments_def iso_field_def)

text \<open>A \<open>datetime\<close> that was not made into text is lost, although the other moments keep theirs.\<close>

lemma datetime_object_lost: "dget d ''datetime'' = Some v \<Longrightarrow> \<forall>s. v \<noteq> PStr s \<Longrightarrow> read_datetime parse d = Inr (Plain PNone)"
  by (cases v) (simp_all add: read_datetime_def)

section \<open>The queue of an adapter\<close>

text \<open>
  \<open>BaseGatewayAdapter.emit\<close> and \<open>poll_output\<close>, and \<open>PluginGatewayAdapter.poll_output\<close>, which makes a
  tick of a market payload that is a dictionary.
\<close>

datatype 'd payload = Raw pyval | Tick "'d tick_data"

definition adapter_emit :: "string \<Rightarrow> 'd payload \<Rightarrow> (string \<times> 'd payload) list \<Rightarrow> (string \<times> 'd payload) list" where
  "adapter_emit channel p q = q @ [(channel, p)]"

definition adapter_poll :: "(string \<times> 'd payload) list \<Rightarrow> (string \<times> 'd payload) option \<times> (string \<times> 'd payload) list" where
  "adapter_poll q = (case q of [] \<Rightarrow> (None, []) | x # rest \<Rightarrow> (Some x, rest))"

definition plugin_poll ::
    "(pyval \<Rightarrow> string) \<Rightarrow> (string \<Rightarrow> 'd py) \<Rightarrow> (string \<times> 'd payload) list
     \<Rightarrow> (string \<times> 'd payload) option py \<times> (string \<times> 'd payload) list" where
  "plugin_poll str_of parse q =
     (case adapter_poll q of
        (Some (channel, Raw (PDict d)), rest) \<Rightarrow>
          if channel = ''market''
          then (case tick_from_dict str_of parse d of
                  Inl e \<Rightarrow> (Inl e, rest) | Inr t \<Rightarrow> (Inr (Some (channel, Tick t)), rest))
          else (Inr (Some (channel, Raw (PDict d))), rest)
      | (item, rest) \<Rightarrow> (Inr item, rest))"

text \<open>A tick put on the queue in its wire form comes out as the tick, and leaves the queue.\<close>

lemma plugin_poll_tick:
  assumes "iso_reads fmt parse" "\<And>s. str_of (PStr s) = s" "typed_tick t"
  shows "plugin_poll str_of parse ((''market'', Raw (PDict (dumps_tick fmt t))) # q) = (Inr (Some (''market'', Tick t)), q)"
  using wire_reads [OF assms] by (simp add: plugin_poll_def adapter_poll_def)

text \<open>A market payload that does not make a tick is taken off the queue before it raises: it is lost.\<close>

lemma bad_tick_lost:
  "tick_from_dict str_of parse d = Inl e \<Longrightarrow> plugin_poll str_of parse ((''market'', Raw (PDict d)) # q) = (Inl e, q)"
  by (simp add: plugin_poll_def adapter_poll_def)

end
