(* ===== verification/Credentials.thy ===== *)
theory Credentials
  imports GatewayConfig "HOL-Library.Sublist"
begin

text \<open>
  Model of the handling of credentials and configuration values: \<open>src/bt_api_base/security.py\<close>
  (masking, validation, environment files, the credentials of each exchange),
  \<open>src/bt_api_base/auth_config.py\<close> (the checked account configurations) and the parsers of
  \<open>src/bt_api_base/functions/utils.py\<close>. The environment is a dict of strings. Parameters: the
  cipher (the \<open>cryptography\<close> package), \<open>urlparse\<close>, and the parser and printer of \<open>outside\<close>.
\<close>

section \<open>Masking and validation\<close>

definition mask_credential :: "string \<Rightarrow> int \<Rightarrow> string" where
  "mask_credential credential visible =
     (let v = nat (max 0 visible); n = length credential
      in if credential = [] \<or> n \<le> v * 2 then ''****''
         else take v credential @ replicate (n - v * 2) CHR ''*'' @ (if 0 < v then drop (n - v) credential else []))"

definition validate_api_key :: "pyval \<Rightarrow> int \<Rightarrow> bool" where
  "validate_api_key api_key min_length =
     (case api_key of
        PStr s \<Rightarrow>
          (let t = py_strip s; l = py_lower t
           in s \<noteq> [] \<and> min_length \<le> int (length t) \<and>
              l \<notin> {''your_api_key'', ''api_key_here'', ''placeholder'', ''example''} \<and>
              \<not> (prefix ''your_'' l \<and> suffix ''_here'' l))
      | _ \<Rightarrow> False)"

section \<open>Environment files\<close>

text \<open>\<open>str.strip(c)\<close> for one character.\<close>

definition strip_char :: "char \<Rightarrow> string \<Rightarrow> string" where
  "strip_char c s = rev (dropWhile (\<lambda>x. x = c) (rev (dropWhile (\<lambda>x. x = c) s)))"

definition env_line :: "string \<Rightarrow> (string \<times> string) option" where
  "env_line raw =
     (let line = py_strip raw
      in if line = [] \<or> hd line = CHR ''#'' \<or> CHR ''='' \<notin> set line then None
         else Some (py_strip (takeWhile (\<lambda>c. c \<noteq> CHR ''='') line),
                    strip_char (CHR 39) (strip_char (CHR 34) (py_strip (tl (dropWhile (\<lambda>c. c \<noteq> CHR ''='') line))))))"

text \<open>The reader used without \<open>dotenv\<close>: a missing file is \<open>None\<close>.\<close>

definition load_env_file :: "string list option \<Rightarrow> (string, string) dict" where
  "load_env_file content =
     (case content of
        None \<Rightarrow> []
      | Some ls \<Rightarrow> foldl (\<lambda>d l. case env_line l of None \<Rightarrow> d | Some (k, v) \<Rightarrow> dset k v d) [] ls)"

definition env_template :: "string list" where
  "env_template =
     [''# Binance API Credentials'', ''BINANCE_API_KEY=your_binance_api_key_here'',
      ''BINANCE_SECRET=your_binance_secret_here'', ''BINANCE_TESTNET=false'', '''',
      ''# OKX API Credentials'', ''OKX_API_KEY=your_okx_api_key_here'', ''OKX_SECRET=your_okx_secret_here'',
      ''OKX_PASSPHRASE=your_okx_passphrase_here'', ''OKX_TESTNET=false'', '''',
      ''# CTP Credentials'', ''CTP_BROKER_ID=9999'', ''CTP_USER_ID=your_ctp_user_id_here'',
      ''CTP_PASSWORD=your_ctp_password_here'', ''CTP_MD_FRONT=tcp://180.168.146.187:10211'',
      ''CTP_TD_FRONT=tcp://180.168.146.187:10201'', '''',
      ''# Interactive Brokers Credentials'', ''IB_ACCOUNT_ID=your_ib_account_id_here'',
      ''IB_USERNAME=your_ib_username_here'', ''IB_PASSWORD=your_ib_password_here'', '''',
      ''# Security Settings'', ''ENCRYPTION_KEY=your_encryption_key_here'', '''',
      ''# Testing'', ''SKIP_LIVE_TESTS=true'']"

section \<open>Credentials of an exchange\<close>

definition env_value :: "(string, string) dict \<Rightarrow> string \<Rightarrow> pyval" where
  "env_value env k = (case dget env k of None \<Rightarrow> PNone | Some v \<Rightarrow> PStr v)"

definition env_flag :: "(string, string) dict \<Rightarrow> string \<Rightarrow> pyval" where
  "env_flag env k = PBool (py_lower (dget_default env k ''false'') = ''true'')"

definition plain_credentials :: "(string, string) dict \<Rightarrow> string \<Rightarrow> (string \<times> pyval) list" where
  "plain_credentials env exchange =
     (if exchange = ''BINANCE'' then
        [(''api_key'', env_value env ''BINANCE_API_KEY''), (''secret'', env_value env ''BINANCE_SECRET''),
         (''testnet'', env_flag env ''BINANCE_TESTNET'')]
      else if exchange = ''OKX'' then
        [(''api_key'', env_value env ''OKX_API_KEY''), (''secret'', env_value env ''OKX_SECRET''),
         (''passphrase'', env_value env ''OKX_PASSPHRASE''), (''testnet'', env_flag env ''OKX_TESTNET'')]
      else if exchange = ''CTP'' then
        [(''broker_id'', env_value env ''CTP_BROKER_ID''), (''user_id'', env_value env ''CTP_USER_ID''),
         (''password'', env_value env ''CTP_PASSWORD''), (''md_front'', env_value env ''CTP_MD_FRONT''),
         (''td_front'', env_value env ''CTP_TD_FRONT'')]
      else if exchange = ''IB'' then
        [(''account_id'', env_value env ''IB_ACCOUNT_ID''), (''username'', env_value env ''IB_USERNAME''),
         (''password'', env_value env ''IB_PASSWORD'')]
      else [])"

text \<open>Without a cipher nothing is decrypted; a value that does not decrypt becomes \<open>None\<close>.\<close>

definition encrypt_credential :: "(string \<Rightarrow> string) option \<Rightarrow> string \<Rightarrow> string" where
  "encrypt_credential cipher s = (case cipher of None \<Rightarrow> s | Some enc \<Rightarrow> enc s)"

definition decrypt_credential :: "(string \<Rightarrow> string option) option \<Rightarrow> string \<Rightarrow> string option" where
  "decrypt_credential cipher s = (case cipher of None \<Rightarrow> Some s | Some dec \<Rightarrow> dec s)"

definition decrypt_entry :: "(string \<Rightarrow> string option) \<Rightarrow> string \<times> pyval \<Rightarrow> string \<times> pyval" where
  "decrypt_entry dec p =
     (case p of
        (k, PStr v) \<Rightarrow>
          if v \<noteq> [] \<and> k \<noteq> ''testnet''
          then (k, case decrypt_credential (Some dec) v of Some s \<Rightarrow> PStr s | None \<Rightarrow> PNone) else p
      | _ \<Rightarrow> p)"

definition get_exchange_credentials ::
    "(string, string) dict \<Rightarrow> (string \<Rightarrow> string option) option \<Rightarrow> string \<Rightarrow> bool \<Rightarrow> (string \<times> pyval) list" where
  "get_exchange_credentials env cipher exchange encrypted =
     (let plain = plain_credentials env (py_upper exchange)
      in case cipher of Some dec \<Rightarrow> if encrypted then map (decrypt_entry dec) plain else plain | None \<Rightarrow> plain)"

section \<open>The parsers of \<open>functions/utils.py\<close>\<close>

definition truthy_strings :: "string list" where
  "truthy_strings = [''true'', ''1'', ''yes'', ''y'', ''on'']"

definition falsy_strings :: "string list" where
  "falsy_strings = [''false'', ''0'', ''no'', ''n'', ''off'']"

definition bool_text :: "string \<Rightarrow> bool option" where
  "bool_text s =
     (let t = py_lower (py_strip s)
      in if t \<in> set truthy_strings then Some True else if t \<in> set falsy_strings then Some False else None)"

definition parse_env_int :: "(string, string) dict \<Rightarrow> string \<Rightarrow> int \<Rightarrow> int" where
  "parse_env_int env name dflt =
     (case dget env name of
        None \<Rightarrow> dflt
      | Some v \<Rightarrow> if v = [] then dflt else case int_of_str v of Inr i \<Rightarrow> i | Inl _ \<Rightarrow> dflt)"

definition parse_env_bool :: "(string, string) dict \<Rightarrow> string \<Rightarrow> bool \<Rightarrow> bool" where
  "parse_env_bool env name dflt =
     (case dget env name of
        None \<Rightarrow> dflt
      | Some v \<Rightarrow> if v = [] then dflt else case bool_text v of Some b \<Rightarrow> b | None \<Rightarrow> dflt)"

definition update_extra_data :: "(string \<times> pyval) list option \<Rightarrow> (string \<times> pyval) list \<Rightarrow> (string \<times> pyval) list" where
  "update_extra_data extra kwargs =
     foldl (\<lambda>d (k, v). dset k v d) (case extra of None \<Rightarrow> [] | Some d \<Rightarrow> d) kwargs"

definition from_dict_get_string :: "outside \<Rightarrow> (string \<times> pyval) list \<Rightarrow> string \<Rightarrow> pyval \<Rightarrow> pyval" where
  "from_dict_get_string ou content key dflt =
     (case dget content key of None \<Rightarrow> dflt | Some v \<Rightarrow> PStr (py_str ou v))"

definition from_dict_get_bool :: "(string \<times> pyval) list \<Rightarrow> string \<Rightarrow> pyval \<Rightarrow> pyval py" where
  "from_dict_get_bool content key dflt =
     (case dget content key of
        None \<Rightarrow> Inr dflt
      | Some (PBool b) \<Rightarrow> Inr (PBool b)
      | Some (PStr s) \<Rightarrow> (case bool_text s of Some b \<Rightarrow> Inr (PBool b) | None \<Rightarrow> Inl TypeError)
      | Some (PInt i) \<Rightarrow> if i \<in> {0, 1} then Inr (PBool (i = 1)) else Inl TypeError
      | Some _ \<Rightarrow> Inl TypeError)"

definition from_dict_get_float :: "outside \<Rightarrow> (string \<times> pyval) list \<Rightarrow> string \<Rightarrow> pyval \<Rightarrow> pyval" where
  "from_dict_get_float ou content key dflt =
     (case dget content key of
        None \<Rightarrow> dflt
      | Some v \<Rightarrow> if blank v then PNone else case py_float ou v of Inr f \<Rightarrow> f | Inl _ \<Rightarrow> dflt)"

definition from_dict_get_list :: "(string \<times> pyval) list \<Rightarrow> string \<Rightarrow> pyval \<Rightarrow> pyval" where
  "from_dict_get_list content key dflt =
     (case dget content key of Some (PList xs) \<Rightarrow> PList xs | _ \<Rightarrow> dflt)"

definition from_dict_get_int :: "(string \<times> pyval) list \<Rightarrow> string \<Rightarrow> pyval \<Rightarrow> pyval py" where
  "from_dict_get_int content key dflt =
     (case dget content key of
        None \<Rightarrow> Inr dflt
      | Some v \<Rightarrow>
          if blank v then Inr PNone
          else (case v of
                  PInt i \<Rightarrow> Inr v
                | PBool b \<Rightarrow> Inr v
                | _ \<Rightarrow>
                    (case py_int v of
                       Inr i \<Rightarrow> Inr (PInt i)
                     | Inl e \<Rightarrow> if e = TypeError \<or> e = ValueError then Inr dflt else Inl e)))"

section \<open>\<open>read_account_config\<close>\<close>

definition env_text :: "(string, string) dict \<Rightarrow> string \<Rightarrow> string \<Rightarrow> pyval" where
  "env_text env k dflt = PStr (dget_default env k dflt)"

definition proxies :: "(string, string) dict \<Rightarrow> pyval \<times> pyval" where
  "proxies env =
     (let first = (\<lambda>a b. let x = dget_default env a [] in if x = [] then dget_default env b [] else x);
          http = first ''HTTP_PROXY'' ''http_proxy'';
          https = first ''HTTPS_PROXY'' ''https_proxy''
      in if http = [] \<and> https = [] then (PNone, PNone)
         else (PDict ((if http = [] then [] else [(''http'', PStr http)]) @ (if https = [] then [] else [(''https'', PStr https)])),
               PStr (if https = [] then http else https)))"

definition ib_web_config :: "(string, string) dict \<Rightarrow> pyval py" where
  "ib_web_config env =
     (case int_of_str (dget_default env ''IB_WEB_LOGIN_TIMEOUT'' ''180'') of
        Inl e \<Rightarrow> Inl e
      | Inr login_timeout \<Rightarrow> Inr (PDict
          [(''base_url'', env_text env ''IB_WEB_BASE_URL'' ''https://localhost:5000''),
           (''account_id'', env_text env ''IB_WEB_ACCOUNT_ID'' []),
           (''verify_ssl'', PBool (parse_env_bool env ''IB_WEB_VERIFY_SSL'' False)),
           (''timeout'', PInt (parse_env_int env ''IB_WEB_TIMEOUT'' 10)),
           (''access_token'', env_text env ''IB_WEB_ACCESS_TOKEN'' []),
           (''client_id'', env_text env ''IB_WEB_CLIENT_ID'' []),
           (''private_key_path'', env_text env ''IB_WEB_PRIVATE_KEY_PATH'' []),
           (''username'', env_text env ''IB_WEB_USERNAME'' []), (''password'', env_text env ''IB_WEB_PASSWORD'' []),
           (''login_mode'', env_text env ''IB_WEB_LOGIN_MODE'' ''paper''),
           (''login_browser'', env_text env ''IB_WEB_LOGIN_BROWSER'' ''chrome''),
           (''login_headless'', env_flag env ''IB_WEB_LOGIN_HEADLESS''), (''login_timeout'', PInt login_timeout),
           (''cookie_output'', env_text env ''IB_WEB_COOKIE_OUTPUT'' []),
           (''cookie_source'', env_text env ''IB_WEB_COOKIE_SOURCE'' []),
           (''cookie_browser'', env_text env ''IB_WEB_COOKIE_BROWSER'' ''chrome''),
           (''cookie_path'', env_text env ''IB_WEB_COOKIE_PATH'' ''/sso'')]))"

definition read_account_config :: "(string, string) dict \<Rightarrow> (string \<times> pyval) list py" where
  "read_account_config env =
     (case ib_web_config env of
        Inl e \<Rightarrow> Inl e
      | Inr ib_web \<Rightarrow> Inr
          [(''okx'', PDict [(''public_key'', env_text env ''OKX_API_KEY'' []), (''private_key'', env_text env ''OKX_SECRET'' []),
              (''passphrase'', env_text env ''OKX_PASSWORD'' [])]),
           (''binance'', PDict [(''public_key'', env_text env ''BINANCE_API_KEY'' []),
              (''private_key'', env_text env ''BINANCE_PASSWORD'' [])]),
           (''htx'', PDict [(''public_key'', env_text env ''HTX_API_KEY'' []), (''private_key'', env_text env ''HTX_SECRET'' [])]),
           (''ctp'', PDict [(''broker_id'', env_text env ''CTP_BROKER_ID'' ''9999''), (''user_id'', env_text env ''CTP_USER_ID'' []),
              (''password'', env_text env ''CTP_PASSWORD'' []), (''auth_code'', env_text env ''CTP_AUTH_CODE'' []),
              (''app_id'', env_text env ''CTP_APP_ID'' ''simnow_client_test''), (''md_front'', env_text env ''CTP_MD_FRONT'' []),
              (''td_front'', env_text env ''CTP_TD_FRONT'' [])]),
           (''ib'', PDict [(''host'', env_text env ''IB_HOST'' ''127.0.0.1''), (''port'', PInt (parse_env_int env ''IB_PORT'' 7497)),
              (''client_id'', PInt (parse_env_int env ''IB_CLIENT_ID'' 1))]),
           (''ib_web'', ib_web), (''proxies'', fst (proxies env)), (''async_proxy'', snd (proxies env))])"

section \<open>Account configurations\<close>

text \<open>The attributes of a configuration object in the order they are set; \<open>to_dict\<close> leaves private ones out.\<close>

type_synonym auth_config = "(string \<times> pyval) list"

definition require_non_empty :: "pyval \<Rightarrow> string py" where
  "require_non_empty v =
     (case v of PStr s \<Rightarrow> if py_strip s = [] then Inl ValueError else Inr (py_strip s) | _ \<Rightarrow> Inl ValueError)"

definition optional_non_empty :: "pyval \<Rightarrow> pyval py" where
  "optional_non_empty v = (if v = PNone then Inr PNone else map_sum id PStr (require_non_empty v))"

text \<open>\<open>isinstance(x, int)\<close> accepts a \<open>bool\<close>, which then counts as 0 or 1.\<close>

definition int_value :: "pyval \<Rightarrow> int option" where
  "int_value v = (case v of PInt i \<Rightarrow> Some i | PBool b \<Rightarrow> Some (if b then 1 else 0) | _ \<Rightarrow> None)"

definition checked_int :: "(int \<Rightarrow> bool) \<Rightarrow> pyval \<Rightarrow> pyval py" where
  "checked_int ok v = (case int_value v of Some i \<Rightarrow> if ok i then Inr v else Inl ValueError | None \<Rightarrow> Inl ValueError)"

definition validate_port :: "pyval \<Rightarrow> pyval py" where
  "validate_port = checked_int (\<lambda>i. 1 \<le> i \<and> i \<le> 65535)"

text \<open>\<open>urlparse\<close>: the scheme, the network location, the host name if any, and the port (\<open>Inl\<close>: it raises).\<close>

record parsed_url =
  pu_scheme :: string
  pu_netloc :: string
  pu_hostname :: "string option"
  pu_port :: "pyerr + int option"

definition validate_url :: "(string \<Rightarrow> parsed_url) \<Rightarrow> string \<Rightarrow> string py" where
  "validate_url urlparse s =
     (let p = urlparse s
      in if pu_scheme p \<notin> {''http'', ''https''} \<or> pu_netloc p = [] then Inl ValueError else Inr s)"

definition validate_tcp_front :: "(string \<Rightarrow> parsed_url) \<Rightarrow> string \<Rightarrow> string py" where
  "validate_tcp_front urlparse s =
     (let p = urlparse s
      in if pu_scheme p \<noteq> ''tcp'' \<or> (case pu_hostname p of None \<Rightarrow> True | Some h \<Rightarrow> h = []) then Inl ValueError
         else case pu_port p of Inl e \<Rightarrow> Inl e | Inr None \<Rightarrow> Inl ValueError | Inr (Some _) \<Rightarrow> Inr s)"

definition auth_config :: "pyval \<Rightarrow> pyval \<Rightarrow> auth_config py" where
  "auth_config exchange asset_type =
     (case require_non_empty exchange of Inl e \<Rightarrow> Inl e
      | Inr x \<Rightarrow> (case require_non_empty asset_type of Inl e \<Rightarrow> Inl e
      | Inr a \<Rightarrow> Inr [(''exchange'', PStr x), (''asset_type'', PStr a)]))"

definition auth_to_dict :: "auth_config \<Rightarrow> (string \<times> pyval) list" where
  "auth_to_dict c = filter (\<lambda>(k, v). \<not> prefix ''_'' k) c"

definition auth_exchange_name :: "string \<Rightarrow> string \<Rightarrow> string" where
  "auth_exchange_name exchange asset_type = exchange @ ''___'' @ asset_type"

definition crypto_auth_config :: "pyval \<Rightarrow> pyval \<Rightarrow> pyval \<Rightarrow> pyval \<Rightarrow> pyval \<Rightarrow> auth_config py" where
  "crypto_auth_config exchange asset_type public_key private_key passphrase =
     (case auth_config exchange asset_type of Inl e \<Rightarrow> Inl e
      | Inr c \<Rightarrow> (case optional_non_empty public_key of Inl e \<Rightarrow> Inl e
      | Inr pub \<Rightarrow> (case optional_non_empty private_key of Inl e \<Rightarrow> Inl e
      | Inr priv \<Rightarrow>
          if (pub = PNone) \<noteq> (priv = PNone) then Inl ValueError
          else (case optional_non_empty passphrase of Inl e \<Rightarrow> Inl e
      | Inr phrase \<Rightarrow> Inr (c @ [(''public_key'', pub), (''private_key'', priv), (''passphrase'', phrase)])))))"

definition ctp_auth_config ::
    "(string \<Rightarrow> parsed_url) \<Rightarrow> pyval \<Rightarrow> pyval \<Rightarrow> pyval \<Rightarrow> pyval \<Rightarrow> pyval \<Rightarrow> pyval \<Rightarrow> pyval \<Rightarrow> string \<Rightarrow> string \<Rightarrow> pyval \<Rightarrow> auth_config py" where
  "ctp_auth_config urlparse exchange asset_type broker_id user_id password auth_code app_id md_front td_front product_info =
     (case auth_config exchange asset_type of Inl e \<Rightarrow> Inl e
      | Inr c \<Rightarrow> (case require_non_empty broker_id of Inl e \<Rightarrow> Inl e
      | Inr b \<Rightarrow> (case require_non_empty user_id of Inl e \<Rightarrow> Inl e
      | Inr u \<Rightarrow> (case require_non_empty password of Inl e \<Rightarrow> Inl e
      | Inr p \<Rightarrow> (case validate_tcp_front urlparse md_front of Inl e \<Rightarrow> Inl e
      | Inr md \<Rightarrow> (case validate_tcp_front urlparse td_front of Inl e \<Rightarrow> Inl e
      | Inr td \<Rightarrow> Inr (c @ [(''broker_id'', PStr b), (''user_id'', PStr u), (''password'', PStr p), (''auth_code'', auth_code),
            (''app_id'', app_id), (''md_front'', PStr md), (''td_front'', PStr td), (''product_info'', product_info)])))))))"

definition ib_auth_config :: "pyval \<Rightarrow> pyval \<Rightarrow> pyval \<Rightarrow> pyval \<Rightarrow> pyval \<Rightarrow> auth_config py" where
  "ib_auth_config exchange asset_type host port client_id =
     (case auth_config exchange asset_type of Inl e \<Rightarrow> Inl e
      | Inr c \<Rightarrow> (case require_non_empty host of Inl e \<Rightarrow> Inl e
      | Inr h \<Rightarrow> (case validate_port port of Inl e \<Rightarrow> Inl e
      | Inr p \<Rightarrow> (case checked_int (\<lambda>i. 0 \<le> i) client_id of Inl e \<Rightarrow> Inl e
      | Inr i \<Rightarrow> Inr (c @ [(''host'', PStr h), (''port'', p), (''client_id'', i)])))))"

text \<open>The fields of \<open>IbWebAuthConfig\<close> that are only stored are \<open>before\<close> and \<open>after\<close> the timeout.\<close>

definition ib_web_auth_config ::
    "(string \<Rightarrow> parsed_url) \<Rightarrow> pyval \<Rightarrow> pyval \<Rightarrow> string \<Rightarrow> auth_config \<Rightarrow> pyval \<Rightarrow> auth_config \<Rightarrow> auth_config py" where
  "ib_web_auth_config urlparse exchange asset_type base_url before timeout after =
     (case auth_config exchange asset_type of Inl e \<Rightarrow> Inl e
      | Inr c \<Rightarrow> (case validate_url urlparse base_url of Inl e \<Rightarrow> Inl e
      | Inr u \<Rightarrow> (case checked_int (\<lambda>i. 0 < i) timeout of Inl e \<Rightarrow> Inl e
      | Inr t \<Rightarrow> Inr (c @ [(''base_url'', PStr u)] @ before @ [(''timeout'', t)] @ after))))"

section \<open>What a mask shows\<close>

text \<open>
  A masked credential shows its length and its first and last characters and nothing else:
  any two credentials that agree on those have the same mask, and so have any two that are
  too short to be shown. At least one character is hidden.
\<close>

theorem mask_reveals_only_ends:
  assumes "v = nat (max 0 visible)" "length s = length t"
    and "2 * v < length s \<Longrightarrow> take v s = take v t \<and> drop (length s - v) s = drop (length t - v) t"
  shows "mask_credential s visible = mask_credential t visible \<and>
    (2 * v < length s \<longrightarrow> length (mask_credential s visible) = length s \<and>
       (\<forall>i. v \<le> i \<and> i < length s - v \<longrightarrow> mask_credential s visible ! i = CHR ''*''))"
proof -
  have eq: "mask_credential s visible = mask_credential t visible"
    using assms by (cases "2 * v < length s") (auto simp: mask_credential_def Let_def)
  show ?thesis
  proof (cases "2 * v < length s")
    case True
    then have "mask_credential s visible =
        take v s @ replicate (length s - v * 2) CHR ''*'' @ (if 0 < v then drop (length s - v) s else [])"
      using assms(1) by (auto simp: mask_credential_def Let_def)
    then show ?thesis using eq True by (auto simp: nth_append min_def)
  qed (use eq in simp)
qed

theorem mask_reveals_only_ends_witness:
  "mask_credential ''abcdXXXXwxyz'' 4 = mask_credential ''abcdYYYYwxyz'' 4 \<and> mask_credential ''abcdXXXXwxyz'' 4 ! 5 = CHR ''*''"
proof -
  have "mask_credential ''abcdXXXXwxyz'' 4 = mask_credential ''abcdYYYYwxyz'' 4 \<and>
    (2 * 4 < length ''abcdXXXXwxyz'' \<longrightarrow> length (mask_credential ''abcdXXXXwxyz'' 4) = length ''abcdXXXXwxyz'' \<and>
       (\<forall>i. 4 \<le> i \<and> i < length ''abcdXXXXwxyz'' - 4 \<longrightarrow> mask_credential ''abcdXXXXwxyz'' 4 ! i = CHR ''*''))"
    by (rule mask_reveals_only_ends) simp_all
  note both = this
  have "2 * 4 < length ''abcdXXXXwxyz''" "4 \<le> (5::nat) \<and> 5 < length ''abcdXXXXwxyz'' - 4" by simp_all
  then have "mask_credential ''abcdXXXXwxyz'' 4 ! 5 = CHR ''*''" using both by blast
  then show ?thesis using both by blast
qed

section \<open>Values that are no numbers\<close>

text \<open>
  \<open>from_dict_get_int\<close> returns whatever the value is, except for an infinite float, whose
  \<open>OverflowError\<close> it lets through.
\<close>

theorem get_int_raises_only_on_infinity:
  "from_dict_get_int content key dflt = Inl e \<longleftrightarrow> (\<exists>s. dget content key = Some (PInf s)) \<and> e = OverflowError"
proof (cases "dget content key")
  case (Some v)
  have str: "int_of_str s = Inl ValueError \<or> (\<exists>i. int_of_str s = Inr i)" for s
    by (auto simp: int_of_str_def split: option.split)
  have "(case int_of_str s of Inl e \<Rightarrow> if e = TypeError \<or> e = ValueError then Inr dflt else Inl e
      | Inr i \<Rightarrow> Inr (PInt i)) \<noteq> Inl e" for s
    using str [of s] by auto
  then show ?thesis using Some
    by (cases v) (auto simp: from_dict_get_int_def blank_def)
qed (simp add: from_dict_get_int_def)

section \<open>Account configurations\<close>

lemma require_stripped: "require_non_empty v = Inr s \<Longrightarrow> s \<noteq> [] \<and> py_strip s = s \<and> require_non_empty (PStr s) = Inr s"
  by (auto simp: require_non_empty_def split: pyval.splits if_splits)

lemma optional_stripped:
  "optional_non_empty v = Inr w \<Longrightarrow>
     (w = PNone \<or> (\<exists>s. w = PStr s \<and> s \<noteq> [] \<and> py_strip s = s)) \<and> optional_non_empty w = Inr w"
  by (cases "require_non_empty v") (auto simp: optional_non_empty_def require_stripped split: if_splits)

text \<open>
  A crypto account configuration that is accepted has both keys or none, every text in it
  is non-empty and has no white space around it, and making a configuration of its own values
  gives the same one.
\<close>

theorem crypto_config_sound:
  assumes "crypto_auth_config exchange asset_type public_key private_key passphrase = Inr c"
  shows "\<exists>x a pub priv phrase.
    c = [(''exchange'', PStr x), (''asset_type'', PStr a), (''public_key'', pub), (''private_key'', priv), (''passphrase'', phrase)] \<and>
    (pub = PNone) = (priv = PNone) \<and>
    list_all (\<lambda>p. p = PNone \<or> (\<exists>s. p = PStr s \<and> s \<noteq> [] \<and> py_strip s = s)) [PStr x, PStr a, pub, priv, phrase] \<and>
    auth_to_dict c = c \<and> crypto_auth_config (PStr x) (PStr a) pub priv phrase = Inr c"
proof -
  obtain x a pub priv phrase where parts:
    "require_non_empty exchange = Inr x" "require_non_empty asset_type = Inr a"
    "optional_non_empty public_key = Inr pub" "optional_non_empty private_key = Inr priv"
    "optional_non_empty passphrase = Inr phrase" "(pub = PNone) = (priv = PNone)"
    and c: "c = [(''exchange'', PStr x), (''asset_type'', PStr a), (''public_key'', pub), (''private_key'', priv),
      (''passphrase'', phrase)]"
    using assms by (auto simp: crypto_auth_config_def auth_config_def split: sum.splits if_splits)
  have "crypto_auth_config (PStr x) (PStr a) pub priv phrase = Inr c"
    using parts(1,2) [THEN require_stripped] parts(3-5) [THEN optional_stripped] parts(6)
    by (simp add: crypto_auth_config_def auth_config_def c)
  then show ?thesis
    using parts(1,2) [THEN require_stripped] parts(3-5) [THEN optional_stripped] parts(6)
    by (auto simp: c auth_to_dict_def)
qed

theorem crypto_config_sound_witness:
  "crypto_auth_config (PStr '' OKX '') (PStr ''SWAP'') (PStr ''k'') (PStr ''s '') PNone =
     Inr [(''exchange'', PStr ''OKX''), (''asset_type'', PStr ''SWAP''), (''public_key'', PStr ''k''),
       (''private_key'', PStr ''s''), (''passphrase'', PNone)] \<and>
   crypto_auth_config (PStr ''OKX'') (PStr ''SWAP'') (PStr ''k'') (PStr ''s'') PNone =
     crypto_auth_config (PStr '' OKX '') (PStr ''SWAP'') (PStr ''k'') (PStr ''s '') PNone"
proof -
  have c: "crypto_auth_config (PStr '' OKX '') (PStr ''SWAP'') (PStr ''k'') (PStr ''s '') PNone =
     Inr [(''exchange'', PStr ''OKX''), (''asset_type'', PStr ''SWAP''), (''public_key'', PStr ''k''),
       (''private_key'', PStr ''s''), (''passphrase'', PNone)]" by code_simp
  from crypto_config_sound [OF c] show ?thesis using c by auto
qed

section \<open>The template and the reader\<close>

text \<open>
  The two readers of credentials use different names for the same secret: what the template
  names \<open>BINANCE_SECRET\<close> and \<open>OKX_PASSPHRASE\<close>, \<open>read_account_config\<close> looks up as
  \<open>BINANCE_PASSWORD\<close> and \<open>OKX_PASSWORD\<close>, and finds nothing.
\<close>

lemma template_secrets_not_read:
  "case read_account_config (load_env_file (Some env_template)) of Inl e \<Rightarrow> False
   | Inr c \<Rightarrow>
       dget c ''binance'' = Some (PDict [(''public_key'', PStr ''your_binance_api_key_here''), (''private_key'', PStr [])]) \<and>
       dget c ''okx'' = Some (PDict [(''public_key'', PStr ''your_okx_api_key_here''),
         (''private_key'', PStr ''your_okx_secret_here''), (''passphrase'', PStr [])])"
  by code_simp

lemma template_credentials:
  "get_exchange_credentials (load_env_file (Some env_template)) None ''binance'' False =
     [(''api_key'', PStr ''your_binance_api_key_here''), (''secret'', PStr ''your_binance_secret_here''), (''testnet'', PBool False)]"
  by code_simp

text \<open>The login timeout is the one number of the environment whose error is not caught.\<close>

lemma bad_login_timeout_raises:
  "dget env ''IB_WEB_LOGIN_TIMEOUT'' = Some [] \<Longrightarrow> read_account_config env = Inl ValueError"
  by (simp add: read_account_config_def ib_web_config_def dget_default_def int_of_str_def py_strip_def)

end
