(* ===== verification/Support.thy ===== *)
theory Support
  imports PyVal
begin

text \<open>
  Models of the smaller stateful parts: the base of the data streams (\<open>feeds/base_stream.py\<close>), the
  containers that initialise themselves (\<open>containers/auto_init_mixin.py\<close>,
  \<open>containers/requestdatas/request_data.py\<close>), the balance handlers (\<open>balance_utils.py\<close>), the
  logger proxy (\<open>logging_factory.py\<close>) and the task group of \<open>core/async_context.py\<close>, all under
  \<open>src/bt_api_base\<close>.
\<close>

section \<open>\<open>BaseDataStream\<close>\<close>

datatype stream_state = Disconnected | Connecting | Connected | Authenticated | Stream_Error

record 'd BaseDataStream =
  bs_running :: bool
  bs_state :: stream_state
  bs_queue :: "'d list option"
  bs_changes :: "(stream_state \<times> stream_state) list"

definition bs_new :: "'d list option \<Rightarrow> 'd BaseDataStream" where
  "bs_new queue = \<lparr>bs_running = False, bs_state = Disconnected, bs_queue = queue, bs_changes = []\<rparr>"

text \<open>The setter of \<open>state\<close>; \<open>bs_changes\<close> are the calls of \<open>on_state_change\<close>.\<close>

definition bs_set_state :: "stream_state \<Rightarrow> 'd BaseDataStream \<Rightarrow> 'd BaseDataStream" where
  "bs_set_state st s = s\<lparr>bs_state := st, bs_changes := bs_changes s @ [(bs_state s, st)]\<rparr>"

definition bs_start :: "'d BaseDataStream \<Rightarrow> 'd BaseDataStream" where
  "bs_start s = s\<lparr>bs_running := True\<rparr>"

definition bs_stop :: "('d BaseDataStream \<Rightarrow> 'd BaseDataStream) \<Rightarrow> 'd BaseDataStream \<Rightarrow> 'd BaseDataStream" where
  "bs_stop disconnect s = disconnect (s\<lparr>bs_running := False\<rparr>)"

definition push_data :: "'d \<Rightarrow> 'd BaseDataStream \<Rightarrow> 'd BaseDataStream" where
  "push_data d s = s\<lparr>bs_queue := map_option (\<lambda>q. q @ [d]) (bs_queue s)\<rparr>"

text \<open>
  \<open>wait_connected\<close>: \<open>seen k\<close> is the state that the test after \<open>k\<close> sleeps reads. The result is what it
  returns and how often it slept; \<open>None\<close>: still waiting when the fuel is used up.
\<close>

fun wait_connected :: "(nat \<Rightarrow> stream_state) \<Rightarrow> time \<Rightarrow> time \<Rightarrow> nat \<Rightarrow> nat \<Rightarrow> time \<Rightarrow> (bool \<times> nat) option" where
  "wait_connected seen timeout interval 0 k elapsed = None"
| "wait_connected seen timeout interval (Suc fuel) k elapsed =
     (if timeout \<le> elapsed then Some (False, k)
      else if seen k \<in> {Connected, Authenticated} then Some (True, k)
      else wait_connected seen timeout interval fuel (Suc k) (elapsed + interval))"

section \<open>\<open>AutoInitMixin\<close>\<close>

text \<open>
  What \<open>init_data\<close> of a container does: it reads attributes of the object, and it may raise. The
  object is its flag and how often \<open>init_data\<close> was entered and finished.
\<close>

datatype init_step = Read_Attr string | Raise_In_Init

record auto_obj =
  ao_initialized :: bool
  ao_entered :: nat
  ao_finished :: nat

definition hooked :: "string \<Rightarrow> bool" where
  "hooked name \<longleftrightarrow> take 4 name = ''get_'' \<and> name \<notin> {''get_event'', ''get_event_type'', ''get_data''}"

text \<open>
  Reading the callable attribute \<open>name\<close>; the result says whether the read raised. The recursion
  through \<open>init_data\<close> is bounded by fuel, and \<open>None\<close> stands for its end.
\<close>

fun read_attr :: "nat \<Rightarrow> init_step list \<Rightarrow> string \<Rightarrow> auto_obj \<Rightarrow> (bool \<times> auto_obj) option"
  and run_init :: "nat \<Rightarrow> init_step list \<Rightarrow> init_step list \<Rightarrow> auto_obj \<Rightarrow> (bool \<times> auto_obj) option" where
  "read_attr 0 body name ob = None"
| "read_attr (Suc fuel) body name ob =
     (if hooked name \<and> \<not> ao_initialized ob
      then (case run_init fuel body body (ob\<lparr>ao_initialized := True, ao_entered := ao_entered ob + 1\<rparr>) of
              None \<Rightarrow> None
            | Some (True, ob1) \<Rightarrow> Some (True, ob1\<lparr>ao_initialized := False\<rparr>)
            | Some (False, ob1) \<Rightarrow> Some (False, ob1\<lparr>ao_finished := ao_finished ob1 + 1\<rparr>))
      else Some (False, ob))"
| "run_init 0 body steps ob = None"
| "run_init (Suc fuel) body [] ob = Some (False, ob)"
| "run_init (Suc fuel) body (Raise_In_Init # steps) ob = Some (True, ob)"
| "run_init (Suc fuel) body (Read_Attr name # steps) ob =
     (case read_attr fuel body name ob of
        None \<Rightarrow> None
      | Some (True, ob1) \<Rightarrow> Some (True, ob1)
      | Some (False, ob1) \<Rightarrow> run_init fuel body steps ob1)"

section \<open>\<open>RequestData\<close>\<close>

text \<open>The normalising function gives the data and the status, or raises.\<close>

record ('i, 'd) RequestData =
  rd_input :: 'i
  rd_data :: 'd
  rd_status :: "bool option"
  rd_initialized :: bool

definition rd_init :: "('i \<Rightarrow> 'd) \<Rightarrow> ('i \<Rightarrow> pyerr + 'd \<times> bool option) option \<Rightarrow> ('i, 'd) RequestData \<Rightarrow> pyerr option \<times> ('i, 'd) RequestData" where
  "rd_init as_data nf r =
     (case nf of
        None \<Rightarrow> (None, r\<lparr>rd_data := as_data (rd_input r), rd_status := None, rd_initialized := True\<rparr>)
      | Some f \<Rightarrow>
          (case f (rd_input r) of
             Inl e \<Rightarrow> (Some e, r)
           | Inr (d, st) \<Rightarrow> (None, r\<lparr>rd_data := d, rd_status := st, rd_initialized := True\<rparr>)))"

definition rd_get_data :: "('i \<Rightarrow> 'd) \<Rightarrow> ('i \<Rightarrow> pyerr + 'd \<times> bool option) option \<Rightarrow> ('i, 'd) RequestData \<Rightarrow> (pyerr + 'd) \<times> ('i, 'd) RequestData" where
  "rd_get_data as_data nf r =
     (if rd_initialized r then (Inr (rd_data r), r)
      else case rd_init as_data nf r of (Some e, r1) \<Rightarrow> (Inl e, r1) | (None, r1) \<Rightarrow> (Inr (rd_data r1), r1))"

definition rd_get_status :: "('i \<Rightarrow> 'd) \<Rightarrow> ('i \<Rightarrow> pyerr + 'd \<times> bool option) option \<Rightarrow> ('i, 'd) RequestData \<Rightarrow> (pyerr + bool option) \<times> ('i, 'd) RequestData" where
  "rd_get_status as_data nf r =
     (if rd_initialized r then (Inr (rd_status r), r)
      else case rd_init as_data nf r of (Some e, r1) \<Rightarrow> (Inl e, r1) | (None, r1) \<Rightarrow> (Inr (rd_status r1), r1))"

section \<open>Balances\<close>

record holding =
  ho_currency :: "string option"
  ho_margin :: "rat option"
  ho_available :: "rat option"
  ho_profit :: "rat option"

definition to_float :: "rat option \<Rightarrow> rat" where
  "to_float v = (case v of None \<Rightarrow> 0 | Some r \<Rightarrow> r)"

definition currency_key :: "string option \<Rightarrow> string" where
  "currency_key c = (case c of None \<Rightarrow> [] | Some s \<Rightarrow> s)"

type_synonym balance_maps = "(string, rat) dict \<times> (string, rat) dict"

text \<open>The maps of the values and of the cash; the inner dicts have the one key each.\<close>

definition apply_balance :: "balance_maps \<Rightarrow> holding \<Rightarrow> balance_maps" where
  "apply_balance m h =
     (dset (currency_key (ho_currency h)) (to_float (ho_margin h) + to_float (ho_profit h)) (fst m),
      dset (currency_key (ho_currency h)) (to_float (ho_available h)) (snd m))"

definition simple_balance_handler :: "holding list \<Rightarrow> balance_maps" where
  "simple_balance_handler accounts = foldl apply_balance ([], []) accounts"

definition nested_balance_handler :: "holding list list \<Rightarrow> balance_maps" where
  "nested_balance_handler accounts = foldl (foldl apply_balance) ([], []) accounts"

section \<open>The logger proxy\<close>

text \<open>The methods the wrapped logger has, and whether a call of one raises.\<close>

definition proxy_emit :: "(string \<Rightarrow> bool option) \<Rightarrow> string \<Rightarrow> string option \<Rightarrow> nat \<Rightarrow> string option \<times> nat" where
  "proxy_emit sink meth fallback failures =
     (let chosen = (if sink meth \<noteq> None then Some meth
                    else case fallback of None \<Rightarrow> None | Some f \<Rightarrow> if sink f \<noteq> None then Some f else None)
      in case chosen of
           None \<Rightarrow> (None, failures)
         | Some x \<Rightarrow> if sink x = Some True then (None, failures + 1) else (Some x, failures))"

section \<open>The task group\<close>

text \<open>Tasks are numbers. \<open>_shutdown\<close> is set nowhere.\<close>

record AsyncTaskGroup =
  tg_tasks :: "nat list"
  tg_next :: nat
  tg_shutdown :: bool

definition tg_new :: AsyncTaskGroup where
  "tg_new = \<lparr>tg_tasks = [], tg_next = 0, tg_shutdown = False\<rparr>"

definition tg_create :: "AsyncTaskGroup \<Rightarrow> nat py \<times> AsyncTaskGroup" where
  "tg_create g =
     (if tg_shutdown g then (Inl RuntimeError, g)
      else (Inr (tg_next g), g\<lparr>tg_tasks := sadd (tg_next g) (tg_tasks g), tg_next := tg_next g + 1\<rparr>))"

definition tg_done :: "nat \<Rightarrow> AsyncTaskGroup \<Rightarrow> AsyncTaskGroup" where
  "tg_done t g = g\<lparr>tg_tasks := sdiscard t (tg_tasks g)\<rparr>"

text \<open>
  \<open>wait_all\<close>: \<open>finish\<close> are the tasks that end in time; none is created meanwhile. On a timeout
  every task of the group is cancelled, and \<open>TimeoutError\<close> is raised.
\<close>

definition tg_wait_all :: "nat list \<Rightarrow> AsyncTaskGroup \<Rightarrow> pyerr option \<times> AsyncTaskGroup" where
  "tg_wait_all finish g =
     (if tg_tasks g = [] then (None, g)
      else if set (tg_tasks g) \<subseteq> set finish then (None, foldl (\<lambda>g t. tg_done t g) g (tg_tasks g))
      else (Some TimeoutError, foldl (\<lambda>g t. tg_done t g) g (tg_tasks g)))"

definition tg_cancel_all :: "AsyncTaskGroup \<Rightarrow> AsyncTaskGroup" where
  "tg_cancel_all g = foldl (\<lambda>g t. tg_done t g) g (tg_tasks g)"

definition tg_task_count :: "AsyncTaskGroup \<Rightarrow> nat" where
  "tg_task_count g = length (tg_tasks g)"

section \<open>Properties\<close>

lemma wait_connected_steps:
  assumes "0 < interval" "timeout \<le> elapsed + of_nat fuel * interval"
  shows "\<exists>b n. wait_connected seen timeout interval (Suc fuel) k elapsed = Some (b, n) \<and> k \<le> n \<and>
    (b \<longleftrightarrow> seen n \<in> {Connected, Authenticated} \<and> elapsed + of_nat (n - k) * interval < timeout) \<and>
    (\<forall>j. k \<le> j \<and> j < n \<longrightarrow> seen j \<notin> {Connected, Authenticated}) \<and>
    (\<not> b \<longrightarrow> timeout \<le> elapsed + of_nat (n - k) * interval)"
  using assms(2)
proof (induction fuel arbitrary: k elapsed)
  case (Suc fuel)
  show ?case
  proof (cases "timeout \<le> elapsed \<or> seen k \<in> {Connected, Authenticated}")
    case False
    have "timeout \<le> (elapsed + interval) + of_nat fuel * interval"
      using Suc.prems by (simp add: algebra_simps)
    from Suc.IH [OF this, of "Suc k"] obtain b n where
      n: "wait_connected seen timeout interval (Suc fuel) (Suc k) (elapsed + interval) = Some (b, n)" "Suc k \<le> n"
      "b \<longleftrightarrow> seen n \<in> {Connected, Authenticated} \<and> elapsed + interval + of_nat (n - Suc k) * interval < timeout"
      "\<forall>j. Suc k \<le> j \<and> j < n \<longrightarrow> seen j \<notin> {Connected, Authenticated}"
      "\<not> b \<longrightarrow> timeout \<le> elapsed + interval + of_nat (n - Suc k) * interval" by blast
    have "n - k = Suc (n - Suc k)" using n(2) by simp
    then have eq: "elapsed + interval + of_nat (n - Suc k) * interval = elapsed + of_nat (n - k) * interval"
      by (simp add: algebra_simps)
    have "b \<longleftrightarrow> seen n \<in> {Connected, Authenticated} \<and> elapsed + of_nat (n - k) * interval < timeout"
      "\<not> b \<longrightarrow> timeout \<le> elapsed + of_nat (n - k) * interval"
      using n(3,5) by (simp_all only: eq)
    moreover have "wait_connected seen timeout interval (Suc (Suc fuel)) k elapsed = Some (b, n)"
      using False n(1) by (subst wait_connected.simps) simp
    moreover have "\<forall>j. k \<le> j \<and> j < n \<longrightarrow> seen j \<notin> {Connected, Authenticated}"
      using n(4) False by (metis le_eq_less_or_eq Suc_le_eq)
    moreover have "k \<le> n" using n(2) by simp
    ultimately show ?thesis by blast
  qed (auto intro!: exI [of _ k])
qed (auto intro!: exI [of _ k])

text \<open>
  With a positive interval \<open>wait_connected\<close> returns: after the first sleep whose test found
  the stream connected, or, with \<open>False\<close>, after the first whose sleeps make up the timeout.
\<close>

theorem wait_connected_returns:
  assumes "0 < interval" "timeout \<le> of_nat fuel * interval"
  shows "\<exists>b n. wait_connected seen timeout interval (Suc fuel) 0 0 = Some (b, n) \<and>
    (b \<longleftrightarrow> seen n \<in> {Connected, Authenticated} \<and> of_nat n * interval < timeout) \<and>
    (\<forall>j < n. seen j \<notin> {Connected, Authenticated}) \<and> (\<not> b \<longrightarrow> timeout \<le> of_nat n * interval)"
  using wait_connected_steps [OF assms(1), of timeout 0 fuel seen 0] assms(2) by simp

theorem wait_connected_returns_witness:
  "\<exists>n. wait_connected (\<lambda>k. if k < 3 then Connecting else Connected) 30 (1 / 2) 61 0 0 = Some (True, n)"
proof -
  obtain b n where n: "wait_connected (\<lambda>k. if k < 3 then Connecting else Connected) 30 (1 / 2) (Suc 60) 0 0 = Some (b, n)"
    "b \<longleftrightarrow> (if n < 3 then Connecting else Connected) \<in> {Connected, Authenticated} \<and> of_nat n * (1 / 2) < (30::rat)"
    "\<forall>j < n. (if j < 3 then Connecting else Connected) \<notin> {Connected, Authenticated}"
    "\<not> b \<longrightarrow> 30 \<le> of_nat n * (1 / 2 :: rat)"
    using wait_connected_returns [of "1 / 2" 30 60 "\<lambda>k. if k < 3 then Connecting else Connected"] by auto
  have "n \<le> 3" using n(3) by (metis insertI1 less_irrefl not_le)
  then have "(of_nat n :: rat) \<le> 3" by (metis of_nat_le_iff of_nat_numeral)
  then have "b" using n(4) by auto
  then show ?thesis using n(1) by auto
qed

text \<open>With no interval a stream that does not connect is waited for without end, in a busy loop.\<close>

lemma zero_interval_waits_for_ever:
  "0 < timeout \<Longrightarrow> \<forall>k. seen k = Connecting \<Longrightarrow> wait_connected seen timeout 0 fuel k 0 = None"
  by (induction fuel arbitrary: k) auto

section \<open>Initialisation happens once\<close>

lemma initialized_steps:
  "ao_initialized ob \<Longrightarrow> run_init fuel body steps ob = Some (b, ob') \<Longrightarrow> ob' = ob"
proof (induction steps arbitrary: fuel)
  case (Cons s steps)
  obtain f where "fuel = Suc f" using Cons.prems(2) by (cases fuel) auto
  then show ?case
    using Cons by (cases s; cases f) auto
next
  case Nil
  then show ?case by (cases fuel) auto
qed

lemma initialized_ends:
  "ao_initialized ob \<Longrightarrow> length steps + 1 < fuel \<Longrightarrow>
   run_init fuel body steps ob = Some (Raise_In_Init \<in> set steps, ob)"
proof (induction steps arbitrary: fuel)
  case (Cons s steps)
  obtain f where "fuel = Suc (Suc f)" using Cons.prems(2) by (cases fuel; cases "fuel - 1") auto
  then show ?case
    using Cons by (cases s) auto
next
  case Nil
  then show ?case by (cases fuel) auto
qed

text \<open>
  The first read of a getter runs \<open>init_data\<close> once, although \<open>init_data\<close> may read getters of
  the object itself; reads after it has finished do not run it again, and when it raises the
  exception is passed on and the next read tries again.
\<close>

theorem init_runs_once:
  assumes "hooked name" "length body + 2 < fuel"
  shows "read_attr fuel body name ob =
    (if ao_initialized ob then Some (False, ob)
     else if Raise_In_Init \<in> set body then Some (True, ob\<lparr>ao_entered := ao_entered ob + 1\<rparr>)
     else Some (False, ob\<lparr>ao_initialized := True, ao_entered := ao_entered ob + 1, ao_finished := ao_finished ob + 1\<rparr>))"
proof -
  obtain f where f: "fuel = Suc f" using assms(2) by (cases fuel) auto
  show ?thesis
    using assms f initialized_ends [of "ob\<lparr>ao_initialized := True, ao_entered := ao_entered ob + 1\<rparr>" body f body]
    by (auto simp: f)
qed

theorem init_runs_once_witness:
  "read_attr 9 [Read_Attr ''get_price'', Read_Attr ''get_event''] ''get_price'' \<lparr>ao_initialized = False, ao_entered = 0, ao_finished = 0\<rparr> =
     Some (False, \<lparr>ao_initialized = True, ao_entered = 1, ao_finished = 1\<rparr>)"
  by (subst init_runs_once) (simp_all add: hooked_def)

section \<open>Balances\<close>

lemma apply_balances:
  "dget (fst (foldl apply_balance m hs)) c =
     (case filter (\<lambda>h. currency_key (ho_currency h) = c) hs of
        [] \<Rightarrow> dget (fst m) c | h # t \<Rightarrow> Some (to_float (ho_margin (last (h # t))) + to_float (ho_profit (last (h # t)))))"
  by (induction hs arbitrary: m) (auto simp: apply_balance_def split: list.splits)

text \<open>
  Of several accounts with one currency only the last is kept: their balances are not added.
\<close>

lemma last_account_replaces:
  "currency_key (ho_currency a) = c \<Longrightarrow> currency_key (ho_currency b) = c \<Longrightarrow>
   dget (fst (simple_balance_handler [a, b])) c = Some (to_float (ho_margin b) + to_float (ho_profit b))"
  by (simp add: simple_balance_handler_def apply_balance_def)

lemma nested_is_flat: "nested_balance_handler accounts = simple_balance_handler (concat accounts)"
proof -
  have "foldl (foldl apply_balance) m accounts = foldl apply_balance m (concat accounts)" for m
    by (induction accounts arbitrary: m) simp_all
  then show ?thesis by (simp add: nested_balance_handler_def simple_balance_handler_def)
qed

end
