(* ===== verification/RemoteTicks.thy ===== *)
theory RemoteTicks
  imports RemoteRuntimeCorrect TickWriterCorrect
begin

text \<open>
  The remote runtime together with its tick writer (\<open>src/bt_api_base/gateway/runtime_remote.py\<close>,
  where \<open>tick_writer\<close> is configured): the writes of \<open>_flush_adapter_output\<close>, the start and the two
  stops. The writer changes nothing of the gateway, and records exactly the ticks the adapter
  gave. The flushes of the writer's own thread happen between the turns of the loop.
\<close>

section \<open>Turns with a tick writer\<close>

text \<open>
  A payload is an object with attributes or a plain value; \<open>as_value\<close> is what is published of an
  object. An item of the adapter carries whether the file accesses of its write succeed.
\<close>

datatype adapter_payload = TickPayload tick | PlainPayload pyval

type_synonym recorded_item = "bool \<times> string \<times> adapter_payload"

definition plain_item :: "(tick \<Rightarrow> pyval) \<Rightarrow> recorded_item \<Rightarrow> string \<times> pyval" where
  "plain_item as_value item =
     (case item of (io, channel, payload) \<Rightarrow>
        (channel, case payload of TickPayload t \<Rightarrow> as_value t | PlainPayload v \<Rightarrow> v))"

text \<open>The write an item causes: on the market channel, for an object with a symbol.\<close>

definition item_write :: "recorded_item \<Rightarrow> tw_op list" where
  "item_write item =
     (case item of
        (io, channel, TickPayload t) \<Rightarrow> if channel = ''market'' \<and> tk_symbol t \<noteq> None then [Write t io] else []
      | (io, channel, PlainPayload v) \<Rightarrow> [])"

fun flush_recording ::
    "outside \<Rightarrow> (tick \<Rightarrow> pyval) \<Rightarrow> (pyval \<Rightarrow> string option) \<Rightarrow> time \<Rightarrow> (exn + recorded_item) list
     \<Rightarrow> RemoteRuntime \<times> TickWriter \<Rightarrow> exn option \<times> outgoing list \<times> RemoteRuntime \<times> TickWriter" where
  "flush_recording ou as_value trading_day now [] (r, w) = (None, [], r, w)"
| "flush_recording ou as_value trading_day now (Inl e # _) (r, w) = (Some e, [], r, w)"
| "flush_recording ou as_value trading_day now (Inr item # polls) (r, w) =
     (let w1 = foldl (tw_step trading_day) w (item_write item);
          (out, r1) = flush_item ou now (plain_item as_value item) r;
          (failed, out', s) = flush_recording ou as_value trading_day now polls (r1, w1)
      in (failed, out @ out', s))"

definition recording_start :: "exn option \<Rightarrow> time \<Rightarrow> time \<Rightarrow> RemoteRuntime \<times> TickWriter \<Rightarrow> RemoteRuntime \<times> TickWriter" where
  "recording_start bind_fails now ticks s =
     (case s of (r, w) \<Rightarrow>
        (rr_start bind_fails now ticks r, if rr_running r \<or> bind_fails \<noteq> None then w else tw_start now w))"

definition recording_stop ::
    "(pyval \<Rightarrow> string option) \<Rightarrow> (string \<Rightarrow> bool) \<Rightarrow> exn option \<Rightarrow> time \<Rightarrow> RemoteRuntime \<times> TickWriter
     \<Rightarrow> RemoteRuntime \<times> TickWriter" where
  "recording_stop trading_day io disconnect_fails now s =
     (case s of (r, w) \<Rightarrow> (rr_stop disconnect_fails now r, tw_stop trading_day io w))"

text \<open>\<open>io\<close>: the file accesses of the stop that a failure causes.\<close>

definition recording_turn ::
    "outside \<Rightarrow> (tick \<Rightarrow> pyval) \<Rightarrow> (pyval \<Rightarrow> string option) \<Rightarrow> (string \<Rightarrow> bool) \<Rightarrow> remote_adapter \<Rightarrow> bool \<Rightarrow> time \<Rightarrow> time
     \<Rightarrow> frame \<Rightarrow> (exn + recorded_item) list \<Rightarrow> exn option \<Rightarrow> RemoteRuntime \<times> TickWriter
     \<Rightarrow> bool \<times> outgoing list \<times> RemoteRuntime \<times> TickWriter" where
  "recording_turn ou as_value trading_day io ad writable now ticks fr polls disconnect_fails s =
     (case s of (r, w) \<Rightarrow>
      if \<not> rr_running r then (False, [], cleanup_sockets r, w)
      else
        let fails = (\<lambda>e out q v.
              (False, out,
               cleanup_sockets (if rr_running q then handle_runtime_failure ''runtime_loop'' e disconnect_fails now q else q),
               if rr_running q then tw_stop trading_day io v else v))
        in case handle_commands ou ad writable now fr r of
             (Some e, out, r1) \<Rightarrow> fails e out r1 w
           | (None, out, r1) \<Rightarrow>
               if rr_adapter_connected r1
               then (case flush_recording ou as_value trading_day now polls (r1, w) of
                       (Some e, out', r2, w2) \<Rightarrow> fails e (out @ out') r2 w2
                     | (None, out', r2, w2) \<Rightarrow> (True, out @ out', refresh_runtime_heartbeat False now ticks r2, w2))
               else (True, out, refresh_runtime_heartbeat False now ticks r1, w))"

section \<open>The writer does not disturb the gateway\<close>

abbreviation plain_polls :: "(tick \<Rightarrow> pyval) \<Rightarrow> (exn + recorded_item) list \<Rightarrow> (exn + string \<times> pyval) list" where
  "plain_polls as_value \<equiv> map (map_sum id (plain_item as_value))"

text \<open>The items taken from the adapter before it gives none or raises.\<close>

fun taken_items :: "(exn + recorded_item) list \<Rightarrow> recorded_item list" where
  "taken_items [] = []"
| "taken_items (Inl e # _) = []"
| "taken_items (Inr item # polls) = item # taken_items polls"

lemma flush_recording_split:
  "flush_recording ou as_value trading_day now polls (r, w) =
     (case flush_adapter_output ou now (plain_polls as_value polls) r of
        (failed, out, r1) \<Rightarrow>
          (failed, out, r1, foldl (tw_step trading_day) w (concat (map item_write (taken_items polls)))))"
proof (induction polls arbitrary: r w)
  case (Cons p polls)
  then show ?case by (cases p) (auto simp: Let_def split: prod.splits)
qed simp

text \<open>The operations of the writer in a turn.\<close>

definition turn_writes ::
    "outside \<Rightarrow> (tick \<Rightarrow> pyval) \<Rightarrow> (string \<Rightarrow> bool) \<Rightarrow> remote_adapter \<Rightarrow> bool \<Rightarrow> time \<Rightarrow> frame
     \<Rightarrow> (exn + recorded_item) list \<Rightarrow> RemoteRuntime \<Rightarrow> tw_op list" where
  "turn_writes ou as_value io ad writable now fr polls r =
     (if \<not> rr_running r then []
      else case handle_commands ou ad writable now fr r of
        (Some e, out, r1) \<Rightarrow> if rr_running r1 then [Stop_Writer io] else []
      | (None, out, r1) \<Rightarrow>
          if \<not> rr_adapter_connected r1 then []
          else concat (map item_write (taken_items polls)) @
               (case flush_adapter_output ou now (plain_polls as_value polls) r1 of
                  (Some e, out', r2) \<Rightarrow> if rr_running r2 then [Stop_Writer io] else []
                | (None, out', r2) \<Rightarrow> []))"

lemma recording_turn_split:
  "recording_turn ou as_value trading_day io ad writable now ticks fr polls disc (r, w) =
     (case loop_turn ou ad writable now ticks fr (plain_polls as_value polls) disc r of
        (goes_on, out, r1) \<Rightarrow>
          (goes_on, out, r1, foldl (tw_step trading_day) w (turn_writes ou as_value io ad writable now fr polls r)))"
proof (cases "rr_running r")
  case True
  obtain failed out r1 where h: "handle_commands ou ad writable now fr r = (failed, out, r1)" by (metis prod_cases3)
  obtain failed2 out2 r2 where f: "flush_adapter_output ou now (plain_polls as_value polls) r1 = (failed2, out2, r2)"
    by (metis prod_cases3)
  show ?thesis
    by (cases failed; cases failed2)
      (simp_all add: recording_turn_def loop_turn_def turn_writes_def True h f flush_recording_split Let_def)
qed (simp add: recording_turn_def loop_turn_def turn_writes_def)

section \<open>Runs\<close>

datatype rec_op =
    RecStart "exn option" time time
  | RecTurn "string \<Rightarrow> bool" remote_adapter bool time time frame "(exn + recorded_item) list" "exn option"
  | RecStop "string \<Rightarrow> bool" "exn option" time
  | RecFlush "string \<Rightarrow> bool" time time
  | RecConnect rr_op

fun rec_step ::
    "outside \<Rightarrow> (tick \<Rightarrow> pyval) \<Rightarrow> (pyval \<Rightarrow> string option) \<Rightarrow> RemoteRuntime \<times> TickWriter \<Rightarrow> rec_op
     \<Rightarrow> RemoteRuntime \<times> TickWriter" where
  "rec_step ou as_value td s (RecStart e now ticks) = recording_start e now ticks s"
| "rec_step ou as_value td s (RecTurn io ad writable now ticks fr polls d) =
     snd (snd (recording_turn ou as_value td io ad writable now ticks fr polls d s))"
| "rec_step ou as_value td s (RecStop io d now) = recording_stop td io d now s"
| "rec_step ou as_value td (r, w) (RecFlush io now later) = (r, flush_turn td io now later w)"
| "rec_step ou as_value td (r, w) (RecConnect x) =
     (case x of ConnectBegins \<Rightarrow> rr_step ou r x | ConnectReturns _ _ _ \<Rightarrow> rr_step ou r x
      | ConnectGivesUp \<Rightarrow> rr_step ou r x | _ \<Rightarrow> r, w)"

text \<open>The same operation on the gateway without a writer, and on the writer alone.\<close>

fun gateway_ops :: "(tick \<Rightarrow> pyval) \<Rightarrow> rec_op \<Rightarrow> rr_op list" where
  "gateway_ops as_value (RecStart e now ticks) = [Start e now ticks]"
| "gateway_ops as_value (RecTurn io ad writable now ticks fr polls d) =
     [Turn ad writable now ticks fr (plain_polls as_value polls) d]"
| "gateway_ops as_value (RecStop io d now) = [Stop d now]"
| "gateway_ops as_value (RecFlush io now later) = []"
| "gateway_ops as_value (RecConnect x) =
     (case x of ConnectBegins \<Rightarrow> [x] | ConnectReturns _ _ _ \<Rightarrow> [x] | ConnectGivesUp \<Rightarrow> [x] | _ \<Rightarrow> [])"

fun writer_ops :: "outside \<Rightarrow> (tick \<Rightarrow> pyval) \<Rightarrow> RemoteRuntime \<Rightarrow> rec_op \<Rightarrow> tw_op list" where
  "writer_ops ou as_value r (RecStart e now ticks) = (if rr_running r \<or> e \<noteq> None then [] else [Start_Writer now])"
| "writer_ops ou as_value r (RecTurn io ad writable now ticks fr polls d) =
     turn_writes ou as_value io ad writable now fr polls r"
| "writer_ops ou as_value r (RecStop io d now) = [Stop_Writer io]"
| "writer_ops ou as_value r (RecFlush io now later) = [Flush_Turn io now later]"
| "writer_ops ou as_value r (RecConnect x) = []"

lemma rec_step_split:
  "rec_step ou as_value td (r, w) x =
     (foldl (rr_step ou) r (gateway_ops as_value x), foldl (tw_step td) w (writer_ops ou as_value r x))"
  by (cases x) (auto simp: recording_start_def recording_stop_def recording_turn_split split: prod.splits rr_op.splits)

text \<open>
  The ticks the gateway takes from its adapter in a run: of each turn of a running gateway whose
  request was handled and whose adapter is connected, those on the market channel.
\<close>

fun run_writes :: "outside \<Rightarrow> (tick \<Rightarrow> pyval) \<Rightarrow> RemoteRuntime \<Rightarrow> rec_op list \<Rightarrow> tw_op list" where
  "run_writes ou as_value r [] = []"
| "run_writes ou as_value r (x # xs) =
     writer_ops ou as_value r x @ run_writes ou as_value (foldl (rr_step ou) r (gateway_ops as_value x)) xs"

lemma rec_run_split:
  "foldl (rec_step ou as_value td) (r, w) xs =
     (foldl (rr_step ou) r (concat (map (gateway_ops as_value) xs)),
      foldl (tw_step td) w (run_writes ou as_value r xs))"
  by (induction xs arbitrary: r w) (simp_all add: rec_step_split)

fun op_ticks :: "tw_op \<Rightarrow> tick list" where
  "op_ticks (Write t io) = [t]"
| "op_ticks _ = []"

definition ticks_taken :: "outside \<Rightarrow> (tick \<Rightarrow> pyval) \<Rightarrow> RemoteRuntime \<Rightarrow> rec_op list \<Rightarrow> tick list" where
  "ticks_taken ou as_value r xs = concat (map op_ticks (run_writes ou as_value r xs))"

lemma rows_of_ticks:
  "concat (map (rows_of ex a s) ys) =
     map (tick_row ex a) (filter (\<lambda>t. tick_symbol t = s) (concat (map op_ticks ys)))"
proof (induction ys)
  case (Cons y ys)
  then show ?case by (cases y) simp_all
qed simp


text \<open>
  What is recorded is what is published: a turn of a running gateway publishes on the market
  channel exactly the market items it takes, in order.
\<close>

fun on_market :: "outgoing \<Rightarrow> bool" where
  "on_market (OnChannel channel v) = (channel = ''market'')"
| "on_market _ = False"

lemma flush_item_sockets: "rr_sockets (snd (flush_item ou now item r)) = rr_sockets r"
proof -
  have "rr_sockets (record_trade_event ou payload q) = rr_sockets q" for payload q
    by (cases payload) (auto simp: record_trade_event_def)
  then show ?thesis by (auto simp: flush_item_def Let_def split: prod.split)
qed

lemma flush_item_market:
  assumes "rr_sockets r"
  shows "filter on_market (fst (flush_item ou now (channel, v) r)) = (if channel = ''market'' then [OnChannel channel v] else [])"
proof -
  have "rr_sockets (record_trade_event ou payload q) = rr_sockets q" for payload q
    by (cases payload) (auto simp: record_trade_event_def)
  then show ?thesis using assms
    by (auto simp: flush_item_def publish_def Let_def split: prod.split)
qed

lemma market_items_published:
  "rr_sockets r \<Longrightarrow> filter on_market (fst (snd (flush_recording ou as_value td now polls (r, w)))) =
     map (\<lambda>item. OnChannel ''market'' (snd (plain_item as_value item)))
       (filter (\<lambda>item. fst (snd item) = ''market'') (taken_items polls))"
proof (induction polls arbitrary: r w)
  case (Cons p polls)
  show ?case
  proof (cases p)
    case (Inr item)
    obtain io channel payload where i: "item = (io, channel, payload)" by (cases item)
    define v where "v = snd (plain_item as_value item)"
    have v: "plain_item as_value item = (channel, v)" by (simp add: v_def i plain_item_def)
    obtain out r1 where f: "flush_item ou now (channel, v) r = (out, r1)" by fastforce
    have "rr_sockets r1" using flush_item_sockets [of ou now "(channel, v)" r] Cons.prems by (simp add: f)
    moreover have "filter on_market out = (if channel = ''market'' then [OnChannel channel v] else [])"
      using flush_item_market [OF Cons.prems, of ou now channel v] by (simp add: f)
    moreover have "fst (snd item) = channel" by (simp add: i)
    ultimately show ?thesis using Cons.IH [of r1] by (simp add: Inr v f Let_def case_prod_beta)
  qed simp
qed simp

section \<open>Stopping\<close>

text \<open>A stop between two turns stores everything.\<close>

lemma stop_stores_all:
  assumes "\<And>t. td t \<noteq> None"
  shows "buffered symbol (snd (rec_step ou as_value td s (RecStop (\<lambda>_. True) d now))) = []"
  using stop_empties [of td symbol, OF assms] by (cases s) (simp add: recording_stop_def)

text \<open>
  A stop from another thread during a turn: the writer is stopped before the loop thread has
  ended, and the ticks this turn still takes stay in the buffer, with nobody to flush them.
\<close>

lemma ticks_after_stop_stay:
  fixes now :: time and r :: RemoteRuntime
  assumes "\<And>t. td t \<noteq> None" "tk_symbol t = Some symbol" "1 < tw_flush_count w"
  defines "s \<equiv> recording_stop td (\<lambda>_. True) None now (r, w)"
  shows "\<exists>row. buffered symbol (snd (snd (snd (flush_recording ou as_value td now [Inr (True, ''market'', TickPayload t)] s)))) = [row] \<and>
    \<not> tw_running (snd (snd (snd (flush_recording ou as_value td now [Inr (True, ''market'', TickPayload t)] s))))"
proof -
  obtain w1 where w1: "w1 = tw_stop td (\<lambda>_. True) w" by simp
  have b: "buffered symbol w1 = []" unfolding w1 by (rule stop_empties) (rule assms)
  have f: "tw_flush_count w1 = tw_flush_count w"
    using fixed_step [of td w "Stop_Writer (\<lambda>_. True)"] by (simp add: w1 tw_fixed_def)
  have run: "tw_running (flush_symbol td io x v) = tw_running v" for io x v
    by (simp add: flush_symbol_def tw_defs split: option.split)
  have "tw_running (foldl (\<lambda>w s. flush_symbol td (io s) s w) v ss) = tw_running v" for io v ss
    by (induction ss arbitrary: v) (simp_all add: run)
  then have n: "\<not> tw_running w1" by (simp add: w1 tw_stop_def flush_all_def)
  have "buffered symbol (tw_write td True t w1) = [tick_row (tw_exchange w1) (tw_asset_type w1) t] \<and>
      \<not> tw_running (tw_write td True t w1)"
    using b f n assms(2,3) by (simp add: tw_write_def tw_append_def tick_symbol_def Let_def) (simp add: buffered_def dget_default_def)
  then show ?thesis using assms(2)
    by (simp add: s_def recording_stop_def flush_recording_split item_write_def w1 [symmetric] split: prod.split)
qed

end
