(* ===== verification/VenueServices.thy ===== *)
theory VenueServices
  imports Services
begin

text \<open>
  Model of the services that \<open>src/bt_api_base/core/services.py\<close> builds on top of its other
  services: \<open>MarketDataService\<close>, \<open>TradingService\<close> and \<open>AccountService\<close>. They share the
  connection manager, the cache, the rate limiter and the event bus (theory Services), and
  \<open>place_order\<close> has one circuit breaker and three attempts (theory Resilience). One call runs
  at a time; an attempt that needs a permit nobody gives back waits for ever, unless the timeout
  of \<open>get_ticker\<close> ends it. Event handlers have no part in the shared services.
\<close>

section \<open>State\<close>

text \<open>\<open>vs_breaker\<close> is the state the decorator of \<open>place_order\<close> made when the class was read.\<close>

record venue_services =
  vs_connections :: ConnectionService
  vs_cache :: "pyval CacheService"
  vs_limits :: RateLimitService
  vs_events :: "pyval EventService"
  vs_breaker :: CircuitState

definition market_data_init :: "venue_services \<Rightarrow> venue_services" where
  "market_data_init s =
     s\<lparr>vs_limits := configure_limit ''kline'' 30 60 (configure_limit ''depth'' 50 60
         (configure_limit ''ticker'' 100 60 (vs_limits s)))\<rparr>"

definition trading_init :: "venue_services \<Rightarrow> venue_services" where
  "trading_init s =
     s\<lparr>vs_limits := configure_limit ''cancel'' 40 60 (configure_limit ''order'' 20 60 (vs_limits s))\<rparr>"

text \<open>The readings of the clock in one attempt.\<close>

record attempt_clock =
  at_lookup :: time
  at_acquire :: "time \<times> time"
  at_fetch :: time
  at_store :: time

text \<open>A failure, or the wait for a permit that does not end.\<close>

datatype svc_error = Failed pyerr | WaitsForPermit

fun is_exception :: "svc_error \<Rightarrow> bool" where
  "is_exception (Failed e) = True"
| "is_exception WaitsForPermit = False"

section \<open>Retrying with a state\<close>

text \<open>
  The loop of \<open>async_retry\<close> (\<open>Resilience.retry_loop\<close>) around a coroutine that changes the
  services: the result, the attempts made, the sleeps and the services left.
\<close>

fun retry_run ::
    "('e \<Rightarrow> bool) \<Rightarrow> time \<Rightarrow> (nat \<Rightarrow> 's \<Rightarrow> ('e + 'v) \<times> 's) \<Rightarrow> nat \<Rightarrow> nat \<Rightarrow> time \<Rightarrow> time list \<Rightarrow> 's
     \<Rightarrow> (('e + 'v) option \<times> nat \<times> time list) \<times> 's" where
  "retry_run caught backoff func attempt 0 current_delay sleeps s = ((None, attempt, sleeps), s)"
| "retry_run caught backoff func attempt (Suc left) current_delay sleeps s =
     (case func attempt s of
        (Inr v, s1) \<Rightarrow> ((Some (Inr v), Suc attempt, sleeps), s1)
      | (Inl e, s1) \<Rightarrow>
          if \<not> caught e \<or> left = 0 then ((Some (Inl e), Suc attempt, sleeps), s1)
          else retry_run caught backoff func (Suc attempt) left (current_delay * backoff)
                 (sleeps @ [current_delay]) s1)"

definition retrying ::
    "time \<Rightarrow> (nat \<Rightarrow> venue_services \<Rightarrow> (svc_error + 'v) \<times> venue_services) \<Rightarrow> venue_services
     \<Rightarrow> (svc_error + 'v) \<times> venue_services" where
  "retrying delay func s =
     (case retry_run is_exception 2 func 0 3 delay [] s of ((res, _), s1) \<Rightarrow> (the res, s1))"

section \<open>Market data\<close>

text \<open>
  \<open>acquire\<close> under the timeout of the caller: a sleep that is as long as the timeout is
  cancelled; the limiter has dropped its old requests by then and records none.
\<close>

definition acquire_within ::
    "time option \<Rightarrow> string \<Rightarrow> time \<times> time \<Rightarrow> RateLimitService \<Rightarrow> (svc_error + unit) \<times> RateLimitService" where
  "acquire_within timeout resource clock r =
     (case rs_acquire resource 1 (\<lambda>_. clock) r of
        (Inl e, r1) \<Rightarrow> (Inl (Failed e), r1)
      | (Inr sleeps, r1) \<Rightarrow>
          (case (timeout, limiter_of resource r) of
             (Some t, Inr l) \<Rightarrow>
               if \<exists>d \<in> set sleeps. d \<noteq> None \<and> t \<le> the d
               then (Inl (Failed TimeoutError),
                     r\<lparr>rs_limiters := dset resource (forget_old (fst clock) l) (rs_limiters r)\<rparr>)
               else (Inr (), r1)
           | _ \<Rightarrow> (Inr (), r1)))"

text \<open>
  \<open>try: ... finally: release_connection\<close>: \<open>body\<close> runs with the connection; \<open>waiting\<close> is how
  the call ends when no permit is free.
\<close>

definition with_connection ::
    "svc_error \<Rightarrow> string \<Rightarrow> (venue_services \<Rightarrow> 'v \<times> venue_services) \<Rightarrow> venue_services
     \<Rightarrow> (svc_error + 'v) \<times> venue_services" where
  "with_connection waiting ex body s =
     (case cn_get_connection ex (vs_connections s) of
        (NotConfigured, cn) \<Rightarrow> (Inl (Failed RuntimeError), s\<lparr>vs_connections := cn\<rparr>)
      | (Waits, cn) \<Rightarrow> (Inl waiting, s\<lparr>vs_connections := cn\<rparr>)
      | (Connection obj, cn) \<Rightarrow>
          (case body (s\<lparr>vs_connections := cn\<rparr>) of
             (v, s1) \<Rightarrow> (Inr v, s1\<lparr>vs_connections := cn_release_connection ex obj (vs_connections s1)\<rparr>)))"

definition publish_data :: "string \<Rightarrow> pyval \<Rightarrow> venue_services \<Rightarrow> venue_services" where
  "publish_data ev data s = s\<lparr>vs_events := snd (publish_async ev data (vs_events s))\<rparr>"

definition store_data :: "string \<Rightarrow> pyval \<Rightarrow> int \<Rightarrow> time \<Rightarrow> venue_services \<Rightarrow> venue_services" where
  "store_data key data ttl now s = s\<lparr>vs_cache := cs_set (vs_cache s) key data (Some ttl) now\<rparr>"

text \<open>A value found in the cache counts when it is a dict.\<close>

definition cached_dict ::
    "string \<Rightarrow> bool \<Rightarrow> time \<Rightarrow> venue_services \<Rightarrow> (string \<times> pyval) list option \<times> venue_services" where
  "cached_dict key use_cache now s =
     (if use_cache
      then (case cs_get (vs_cache s) key now of
              (found, cache) \<Rightarrow>
                (case found of Some (PDict d) \<Rightarrow> Some d | _ \<Rightarrow> None, s\<lparr>vs_cache := cache\<rparr>))
      else (None, s))"

definition ticker_cache_key :: "string \<Rightarrow> string \<Rightarrow> string" where
  "ticker_cache_key ex symbol = ''ticker:'' @ ex @ '':'' @ symbol"

definition ticker_data :: "string \<Rightarrow> string \<Rightarrow> time \<Rightarrow> (string \<times> pyval) list" where
  "ticker_data ex symbol now =
     [(''symbol'', PStr symbol), (''price'', PFloat 50000), (''timestamp'', PFloat now), (''exchange'', PStr ex)]"

definition fetch_ticker ::
    "string \<Rightarrow> string \<Rightarrow> bool \<Rightarrow> attempt_clock \<Rightarrow> venue_services \<Rightarrow> (string \<times> pyval) list \<times> venue_services" where
  "fetch_ticker ex symbol use_cache c s =
     (let data = ticker_data ex symbol (at_fetch c);
          s1 = (if use_cache then store_data (ticker_cache_key ex symbol) (PDict data) 5 (at_store c) s else s)
      in (data, publish_data ''ticker_received''
                  (PDict [(''exchange'', PStr ex), (''symbol'', PStr symbol), (''data'', PDict data)]) s1))"

definition ticker_attempt ::
    "string \<Rightarrow> string \<Rightarrow> bool \<Rightarrow> attempt_clock \<Rightarrow> venue_services
     \<Rightarrow> (svc_error + (string \<times> pyval) list) \<times> venue_services" where
  "ticker_attempt ex symbol use_cache c s =
     (case cached_dict (ticker_cache_key ex symbol) use_cache (at_lookup c) s of
        (Some d, s1) \<Rightarrow> (Inr d, s1)
      | (None, s1) \<Rightarrow>
          (case acquire_within (Some 10) ''ticker'' (at_acquire c) (vs_limits s1) of
             (Inl e, r) \<Rightarrow> (Inl e, s1\<lparr>vs_limits := r\<rparr>)
           | (Inr _, r) \<Rightarrow>
               with_connection (Failed TimeoutError) ex (fetch_ticker ex symbol use_cache c)
                 (s1\<lparr>vs_limits := r\<rparr>)))"

definition get_market_ticker ::
    "string \<Rightarrow> string \<Rightarrow> bool \<Rightarrow> (nat \<Rightarrow> attempt_clock) \<Rightarrow> venue_services
     \<Rightarrow> (svc_error + (string \<times> pyval) list) \<times> venue_services" where
  "get_market_ticker ex symbol use_cache clock s =
     retrying (1/2) (\<lambda>k. ticker_attempt ex symbol use_cache (clock k)) s"

text \<open>What \<open>get_multiple_tickers\<close> makes of the results of its tasks.\<close>

definition collect_tickers ::
    "(string \<times> string) list \<Rightarrow> (svc_error + (string \<times> pyval) list) list \<Rightarrow> (string, (string \<times> pyval) list) dict" where
  "collect_tickers requests results =
     foldl (\<lambda>out ((ex, symbol), r). case r of Inr d \<Rightarrow> dset (ex @ '':'' @ symbol) d out | Inl _ \<Rightarrow> out)
       [] (zip requests results)"

section \<open>Orders\<close>

record order_request =
  or_exchange :: string
  or_symbol :: string
  or_side :: string
  or_type :: string
  or_quantity :: pyval
  or_price :: pyval

text \<open>\<open>hash_of\<close> is Python's \<open>hash\<close> of strings.\<close>

definition order_data :: "(string \<Rightarrow> int) \<Rightarrow> order_request \<Rightarrow> time \<Rightarrow> time \<Rightarrow> (string \<times> pyval) list" where
  "order_data hash_of q now later =
     [(''order_id'', PStr (''order_'' @ show_int \<lfloor>now\<rfloor> @ ''_'' @ show_int (hash_of (or_symbol q)))),
      (''symbol'', PStr (or_symbol q)), (''side'', PStr (or_side q)), (''type'', PStr (or_type q)),
      (''quantity'', or_quantity q), (''price'', or_price q), (''status'', PStr ''submitted''),
      (''exchange'', PStr (or_exchange q)), (''timestamp'', PFloat later)]"

definition order_attempt ::
    "(string \<Rightarrow> int) \<Rightarrow> order_request \<Rightarrow> attempt_clock \<Rightarrow> venue_services
     \<Rightarrow> (svc_error + (string \<times> pyval) list) \<times> venue_services" where
  "order_attempt hash_of q c s =
     (case acquire_within None ''order'' (at_acquire c) (vs_limits s) of
        (Inl e, r) \<Rightarrow> (Inl e, s\<lparr>vs_limits := r\<rparr>)
      | (Inr _, r) \<Rightarrow>
          with_connection WaitsForPermit (or_exchange q)
            (\<lambda>s1. (let data = order_data hash_of q (at_fetch c) (at_store c)
                   in (data, publish_data ''order_placed'' (PDict data) s1)))
            (s\<lparr>vs_limits := r\<rparr>))"

text \<open>\<open>place_order\<close>: the breaker around the retries; \<open>now\<close> and \<open>later\<close> are its readings.\<close>

definition place_order ::
    "(string \<Rightarrow> int) \<Rightarrow> order_request \<Rightarrow> time \<Rightarrow> time \<Rightarrow> (nat \<Rightarrow> attempt_clock) \<Rightarrow> venue_services
     \<Rightarrow> (svc_error + (string \<times> pyval) list) \<times> venue_services" where
  "place_order hash_of q now later clock s =
     (case should_attempt 60 (vs_breaker s) now of
        (False, b) \<Rightarrow> (Inl (Failed RuntimeError), s\<lparr>vs_breaker := b\<rparr>)
      | (True, b) \<Rightarrow>
          (case retrying 1 (\<lambda>k. order_attempt hash_of q (clock k)) (s\<lparr>vs_breaker := b\<rparr>) of
             (Inr d, s1) \<Rightarrow> (Inr d, s1\<lparr>vs_breaker := on_success (vs_breaker s1)\<rparr>)
           | (Inl e, s1) \<Rightarrow>
               (Inl e, if is_exception e
                       then s1\<lparr>vs_breaker := on_failure 5 (vs_breaker s1) later\<rparr> else s1)))"

section \<open>Accounts\<close>

definition balance_key :: "string \<Rightarrow> string" where
  "balance_key ex = ''balance:'' @ ex"

definition balance_data :: "string \<Rightarrow> time \<Rightarrow> (string \<times> pyval) list" where
  "balance_data ex now =
     [(''exchange'', PStr ex),
      (''balances'', PDict [(''BTC'', PDict [(''free'', PFloat (3/2)), (''locked'', PFloat (1/2))]),
                            (''USDT'', PDict [(''free'', PFloat 10000), (''locked'', PFloat 2000)])]),
      (''timestamp'', PFloat now)]"

definition get_balance ::
    "string \<Rightarrow> bool \<Rightarrow> attempt_clock \<Rightarrow> venue_services \<Rightarrow> (svc_error + (string \<times> pyval) list) \<times> venue_services" where
  "get_balance ex use_cache c s =
     (case cached_dict (balance_key ex) use_cache (at_lookup c) s of
        (Some d, s1) \<Rightarrow> (Inr d, s1)
      | (None, s1) \<Rightarrow>
          with_connection WaitsForPermit ex
            (\<lambda>s2. (let data = balance_data ex (at_fetch c)
                   in (data, publish_data ''balance_updated'' (PDict data)
                              (store_data (balance_key ex) (PDict data) 30 (at_store c) s2))))
            s1)"

end
