(* ===== verification/VenueServicesCorrect.thy ===== *)
theory VenueServicesCorrect
  imports VenueServices
begin

text \<open>
  What the services built on the shared ones guarantee: the retry loop is the one of theory
  Resilience, every permit comes back and no call waits for one, a fetched ticker is served from
  the cache, and failed orders of one exchange close the way to all of them.
\<close>

section \<open>Retrying\<close>

text \<open>The services before attempt \<open>k\<close>.\<close>

definition state_at :: "(nat \<Rightarrow> 's \<Rightarrow> 'r \<times> 's) \<Rightarrow> nat \<Rightarrow> 's \<Rightarrow> nat \<Rightarrow> 's" where
  "state_at func attempt s k = foldl (\<lambda>t i. snd (func i t)) s [attempt..<k]"

lemma state_at_same [simp]: "state_at func k s k = s"
  by (simp add: state_at_def)

lemma state_at_step: "attempt < k \<Longrightarrow> state_at func attempt s k = state_at func (Suc attempt) (snd (func attempt s)) k"
  by (simp add: state_at_def upt_conv_Cons)

lemma retry_loop_cong:
  "(\<And>k. attempt \<le> k \<Longrightarrow> f k = g k) \<Longrightarrow>
   retry_loop caught backoff f attempt left delay sleeps = retry_loop caught backoff g attempt left delay sleeps"
  by (induction left arbitrary: attempt delay sleeps) (auto split: sum.split)

text \<open>The loop around a coroutine with a state makes the attempts of \<open>Resilience.retry_loop\<close>.\<close>

lemma retry_run_refines:
  "fst (retry_run caught backoff func attempt left delay sleeps s) =
     retry_loop caught backoff (\<lambda>k. fst (func k (state_at func attempt s k))) attempt left delay sleeps"
proof (induction left arbitrary: attempt delay sleeps s)
  case (Suc left)
  obtain r s1 where r: "func attempt s = (r, s1)" by fastforce
  have "retry_loop caught backoff (\<lambda>k. fst (func k (state_at func attempt s k))) (Suc attempt) left d sl =
      retry_loop caught backoff (\<lambda>k. fst (func k (state_at func (Suc attempt) s1 k))) (Suc attempt) left d sl" for d sl
    by (rule retry_loop_cong) (simp add: state_at_step r)
  with r Suc show ?case by (auto split: sum.split)
qed simp

lemma retry_run_keeps:
  assumes "\<And>k t. P t \<Longrightarrow> P (snd (func k t))"
  shows "P s \<Longrightarrow> P (snd (retry_run caught backoff func attempt left delay sleeps s))"
proof (induction left arbitrary: attempt delay sleeps s)
  case (Suc left)
  then show ?case using assms [of s attempt] by (auto split: prod.split sum.split)
qed simp

lemma retry_run_result:
  assumes "\<And>k t. P t \<Longrightarrow> P (snd (func k t)) \<and> Q (fst (func k t))"
  shows "P s \<Longrightarrow> 0 < left \<Longrightarrow>
    \<exists>r. fst (fst (retry_run caught backoff func attempt left delay sleeps s)) = Some r \<and> Q r"
proof (induction left arbitrary: attempt delay sleeps s)
  case (Suc left)
  then show ?case using assms [of s attempt] by (cases "left = 0") (auto split: prod.split sum.split)
qed simp

lemma retrying_keeps:
  assumes "\<And>k t. P t \<Longrightarrow> P (snd (func k t)) \<and> Q (fst (func k t))" "P s"
  shows "P (snd (retrying delay func s)) \<and> Q (fst (retrying delay func s))"
proof -
  have "P (snd (retry_run is_exception 2 func 0 3 delay [] s))"
    by (rule retry_run_keeps [where P = P]) (use assms in blast)+
  moreover obtain r where "fst (fst (retry_run is_exception 2 func 0 3 delay [] s)) = Some r" "Q r"
    using retry_run_result [of P func Q s 3 is_exception 2 0 delay "[]"] assms by auto
  ultimately show ?thesis by (auto simp: retrying_def split: prod.split)
qed

section \<open>Permits\<close>

text \<open>Nothing is in use.\<close>

definition idle :: "ConnectionService \<Rightarrow> bool" where
  "idle s \<longleftrightarrow> (\<forall>e. dget_default (cn_active s) e 0 = 0) \<and>
     (\<forall>e p. dget (cn_pools s) e = Some p \<longrightarrow> dget (cn_permits s) e = Some 10)"

lemma dget_default_dset [simp]: "dget_default (dset k v d) k' w = (if k' = k then v else dget_default d k' w)"
  by (simp add: dget_default_def)

lemma create_pool_idle: "idle s \<Longrightarrow> idle (create_pool e s)"
  by (simp add: idle_def create_pool_def)

definition pool_object :: "ConnectionService \<Rightarrow> string \<Rightarrow> nat option" where
  "pool_object s e =
     (case dget (cn_pools s) e of None \<Rightarrow> None
      | Some p \<Rightarrow> (case ep_session p of Some x \<Rightarrow> Some x | None \<Rightarrow> ep_connection p))"

lemma get_connection_idle:
  assumes "idle s"
  shows "case cn_get_connection e s of
      (NotConfigured, s1) \<Rightarrow> pool_object s e = None \<and> idle s1 \<and> (\<forall>e'. pool_object s1 e' = pool_object s e')
    | (Waits, s1) \<Rightarrow> False
    | (Connection obj, s1) \<Rightarrow> pool_object s e = Some obj \<and> idle (cn_release_connection e obj s1) \<and>
        (\<forall>e'. pool_object (cn_release_connection e obj s1) e' = pool_object s e')"
proof (cases "dget (cn_pools s) e")
  case None
  then have "e \<notin> set (dkeys (cn_pools s))" by (simp add: dget_None_iff)
  with None create_pool_idle [OF assms] show ?thesis
    by (auto simp: cn_get_connection_def create_pool_def pool_object_def Let_def)
next
  case (Some p)
  then have k: "e \<in> set (dkeys (cn_pools s))" "dget (cn_permits s) e = Some 10" "dget_default (cn_active s) e 0 = 0"
    using assms by (auto simp: idle_def dget_Some_key)
  with Some assms show ?thesis
    by (auto simp: cn_get_connection_def cn_release_connection_def pool_object_def idle_def Let_def
        split: option.split)
qed

text \<open>A body that leaves the connections alone gives its connection back, and nothing waits.\<close>

lemma with_connection_idle:
  fixes body :: "venue_services \<Rightarrow> 'v \<times> venue_services"
  assumes "idle (vs_connections s)" "\<And>t. vs_connections (snd (body t)) = vs_connections t"
  shows "idle (vs_connections (snd (with_connection waiting ex body s)))"
    "\<And>e. pool_object (vs_connections (snd (with_connection waiting ex body s))) e = pool_object (vs_connections s) e"
    "pool_object (vs_connections s) ex = None \<Longrightarrow> fst (with_connection waiting ex body s) = Inl (Failed RuntimeError)"
    "pool_object (vs_connections s) ex \<noteq> None \<Longrightarrow> \<exists>v. fst (with_connection waiting ex body s) = Inr v"
proof -
  obtain r cn where r: "cn_get_connection ex (vs_connections s) = (r, cn)" by fastforce
  obtain v s1 where v: "body (s\<lparr>vs_connections := cn\<rparr>) = (v, s1)" by fastforce
  have s1: "vs_connections s1 = cn" using assms(2) [of "s\<lparr>vs_connections := cn\<rparr>"] v by simp
  note get = get_connection_idle [OF assms(1), of ex, unfolded r]
  show "idle (vs_connections (snd (with_connection waiting ex body s)))"
    using get v s1 by (cases r) (auto simp: with_connection_def r)
  show "pool_object (vs_connections (snd (with_connection waiting ex body s))) e = pool_object (vs_connections s) e" for e
    using get v s1 by (cases r) (auto simp: with_connection_def r)
  show "pool_object (vs_connections s) ex = None \<Longrightarrow> fst (with_connection waiting ex body s) = Inl (Failed RuntimeError)"
    using get by (cases r) (auto simp: with_connection_def r)
  show "pool_object (vs_connections s) ex \<noteq> None \<Longrightarrow> \<exists>v. fst (with_connection waiting ex body s) = Inr v"
    using get v by (cases r) (auto simp: with_connection_def r)
qed

section \<open>Attempts\<close>

lemma service_bodies [simp]:
  "vs_connections (snd (fetch_ticker ex symbol u c s)) = vs_connections s"
  "vs_connections (snd (cached_dict key u now s)) = vs_connections s"
  "vs_connections (publish_data ev d s) = vs_connections s"
  "vs_connections (store_data key d ttl now s) = vs_connections s"
  by (auto simp: fetch_ticker_def cached_dict_def publish_data_def store_data_def Let_def split: prod.split)

lemma acquire_within_exception: "fst (acquire_within t r c s) \<noteq> Inl WaitsForPermit"
  by (auto simp: acquire_within_def split: prod.split sum.split option.split)

text \<open>What an attempt does to the connections, whatever it is an attempt of.\<close>

definition returns_permits ::
    "(venue_services \<Rightarrow> (svc_error + 'v) \<times> venue_services) \<Rightarrow> bool" where
  "returns_permits f \<longleftrightarrow> (\<forall>s. idle (vs_connections s) \<longrightarrow>
     idle (vs_connections (snd (f s))) \<and>
     pool_object (vs_connections (snd (f s))) = pool_object (vs_connections s) \<and>
     fst (f s) \<noteq> Inl WaitsForPermit)"

lemma with_connection_returns_permits:
  fixes body :: "venue_services \<Rightarrow> 'v \<times> venue_services"
  assumes "\<And>t. vs_connections (snd (body t)) = vs_connections t"
  shows "returns_permits (with_connection waiting ex body)"
  unfolding returns_permits_def
proof (intro allI impI conjI)
  fix s :: venue_services assume i: "idle (vs_connections s)"
  note w = with_connection_idle [of s body, OF i assms, where ex = ex and waiting = waiting]
  show "idle (vs_connections (snd (with_connection waiting ex body s)))" by (rule w(1))
  show "pool_object (vs_connections (snd (with_connection waiting ex body s))) = pool_object (vs_connections s)"
    by (rule ext) (rule w(2))
  show "fst (with_connection waiting ex body s) \<noteq> Inl WaitsForPermit"
    using w(3,4) by (cases "pool_object (vs_connections s) ex") auto
qed

lemma returns_permitsD:
  assumes "returns_permits f" "idle (vs_connections s)" "f s = (r, s1)"
  shows "idle (vs_connections s1) \<and> pool_object (vs_connections s1) = pool_object (vs_connections s) \<and> r \<noteq> Inl WaitsForPermit"
  using assms(1) [unfolded returns_permits_def, rule_format, OF assms(2)] assms(3) by simp

text \<open>Steps before the connection that leave the connections alone.\<close>

lemma limits_kept: "vs_connections s1 = vs_connections s \<Longrightarrow> vs_connections (s1\<lparr>vs_limits := r\<rparr>) = vs_connections s"
  by simp

lemma ticker_attempt_permits: "returns_permits (ticker_attempt ex symbol u c)"
  unfolding returns_permits_def
proof (intro allI impI)
  fix s :: venue_services assume i: "idle (vs_connections s)"
  obtain found s1 where c: "cached_dict (ticker_cache_key ex symbol) u (at_lookup c) s = (found, s1)" by fastforce
  have s1: "vs_connections s1 = vs_connections s"
    using service_bodies(2) [of "ticker_cache_key ex symbol" u "at_lookup c" s] c by simp
  obtain a r where a: "acquire_within (Some 10) ''ticker'' (at_acquire c) (vs_limits s1) = (a, r)" by fastforce
  note p = with_connection_returns_permits [of "fetch_ticker ex symbol u c" "Failed TimeoutError" ex, simplified,
      unfolded returns_permits_def, rule_format, of "s1\<lparr>vs_limits := r\<rparr>"]
  show "idle (vs_connections (snd (ticker_attempt ex symbol u c s))) \<and>
      pool_object (vs_connections (snd (ticker_attempt ex symbol u c s))) = pool_object (vs_connections s) \<and>
      fst (ticker_attempt ex symbol u c s) \<noteq> Inl WaitsForPermit"
    using i s1 p acquire_within_exception [of "Some 10" "''ticker''" "at_acquire c" "vs_limits s1"]
    by (auto simp: ticker_attempt_def c a split: option.split sum.split)
qed

lemma order_attempt_permits: "returns_permits (order_attempt hash_of q c)"
  unfolding returns_permits_def
proof (intro allI impI)
  fix s :: venue_services assume i: "idle (vs_connections s)"
  obtain a r where a: "acquire_within None ''order'' (at_acquire c) (vs_limits s) = (a, r)" by fastforce
  define body where "body = (\<lambda>s1. (let data = order_data hash_of q (at_fetch c) (at_store c)
                   in (data, publish_data ''order_placed'' (PDict data) s1)))"
  have "\<And>t. vs_connections (snd (body t)) = vs_connections t" by (simp add: body_def Let_def)
  note p = with_connection_returns_permits [of body WaitsForPermit "or_exchange q", OF this,
      unfolded returns_permits_def, rule_format, of "s\<lparr>vs_limits := r\<rparr>"]
  show "idle (vs_connections (snd (order_attempt hash_of q c s))) \<and>
      pool_object (vs_connections (snd (order_attempt hash_of q c s))) = pool_object (vs_connections s) \<and>
      fst (order_attempt hash_of q c s) \<noteq> Inl WaitsForPermit"
    using i p acquire_within_exception [of None "''order''" "at_acquire c" "vs_limits s"]
    by (auto simp: order_attempt_def a body_def [symmetric] split: sum.split)
qed

lemma get_balance_permits: "returns_permits (get_balance ex u c)"
  unfolding returns_permits_def
proof (intro allI impI)
  fix s :: venue_services assume i: "idle (vs_connections s)"
  obtain found s1 where c: "cached_dict (balance_key ex) u (at_lookup c) s = (found, s1)" by fastforce
  have s1: "vs_connections s1 = vs_connections s"
    using service_bodies(2) [of "balance_key ex" u "at_lookup c" s] c by simp
  define body where "body = (\<lambda>s2. (let data = balance_data ex (at_fetch c)
                   in (data, publish_data ''balance_updated'' (PDict data)
                              (store_data (balance_key ex) (PDict data) 30 (at_store c) s2))))"
  have "\<And>t. vs_connections (snd (body t)) = vs_connections t" by (simp add: body_def Let_def)
  note p = with_connection_returns_permits [of body WaitsForPermit ex, OF this,
      unfolded returns_permits_def, rule_format, of s1]
  show "idle (vs_connections (snd (get_balance ex u c s))) \<and>
      pool_object (vs_connections (snd (get_balance ex u c s))) = pool_object (vs_connections s) \<and>
      fst (get_balance ex u c s) \<noteq> Inl WaitsForPermit"
    using i s1 p by (auto simp: get_balance_def c body_def [symmetric] split: option.split)
qed

lemma retrying_permits:
  fixes f :: "nat \<Rightarrow> venue_services \<Rightarrow> (svc_error + 'v) \<times> venue_services"
  assumes "\<And>k. returns_permits (f k)"
  shows "returns_permits (retrying delay f)"
  unfolding returns_permits_def
proof (intro allI impI)
  fix s :: venue_services assume i: "idle (vs_connections s)"
  define P where "P = (\<lambda>t :: venue_services. idle (vs_connections t) \<and> pool_object (vs_connections t) = pool_object (vs_connections s))"
  have "P (snd (f k t)) \<and> fst (f k t) \<noteq> Inl WaitsForPermit" if "P t" for k t
    using that assms [of k, unfolded returns_permits_def, rule_format, of t] by (simp add: P_def)
  from retrying_keeps [of P f "\<lambda>r. r \<noteq> Inl WaitsForPermit", OF this, of s delay] i
  show "idle (vs_connections (snd (retrying delay f s))) \<and>
      pool_object (vs_connections (snd (retrying delay f s))) = pool_object (vs_connections s) \<and>
      fst (retrying delay f s) \<noteq> Inl WaitsForPermit"
    by (simp add: P_def)
qed

lemma get_ticker_permits: "returns_permits (get_market_ticker ex symbol u clock)"
proof -
  have "get_market_ticker ex symbol u clock = retrying (1/2) (\<lambda>k. ticker_attempt ex symbol u (clock k))"
    by (rule ext) (simp add: get_market_ticker_def)
  then show ?thesis by (simp add: retrying_permits ticker_attempt_permits)
qed

lemma should_attempt_cases: "\<exists>b. should_attempt rec s now = (True, b) \<or> should_attempt rec s now = (False, s)"
  by (auto simp: should_attempt_def split: breaker_mode.split option.split)

lemma place_order_permits: "returns_permits (place_order hash_of q now later clock)"
  unfolding returns_permits_def
proof (intro allI impI)
  fix s :: venue_services assume i: "idle (vs_connections s)"
  obtain ok b where b: "should_attempt 60 (vs_breaker s) now = (ok, b)" by fastforce
  have p: "returns_permits (retrying 1 (\<lambda>k. order_attempt hash_of q (clock k)))"
    by (rule retrying_permits) (rule order_attempt_permits)
  obtain r s1 where r: "retrying 1 (\<lambda>k. order_attempt hash_of q (clock k)) (s\<lparr>vs_breaker := b\<rparr>) = (r, s1)" by fastforce
  from returns_permitsD [OF p _ r] i
  show "idle (vs_connections (snd (place_order hash_of q now later clock s))) \<and>
      pool_object (vs_connections (snd (place_order hash_of q now later clock s))) = pool_object (vs_connections s) \<and>
      fst (place_order hash_of q now later clock s) \<noteq> Inl WaitsForPermit"
    by (auto simp: place_order_def b r split: bool.split sum.split)
qed

section \<open>Sequences of calls\<close>

datatype venue_op =
    GetTicker string string bool "nat \<Rightarrow> attempt_clock"
  | PlaceOrder order_request time time "nat \<Rightarrow> attempt_clock"
  | GetBalance string bool attempt_clock

fun venue_call ::
    "(string \<Rightarrow> int) \<Rightarrow> venue_op \<Rightarrow> venue_services \<Rightarrow> (svc_error + (string \<times> pyval) list) \<times> venue_services" where
  "venue_call h (GetTicker ex symbol u clock) = get_market_ticker ex symbol u clock"
| "venue_call h (PlaceOrder q now later clock) = place_order h q now later clock"
| "venue_call h (GetBalance ex u c) = get_balance ex u c"

definition venue_step :: "(string \<Rightarrow> int) \<Rightarrow> venue_services \<Rightarrow> venue_op \<Rightarrow> venue_services" where
  "venue_step h s x = snd (venue_call h x s)"

definition venue_new :: venue_services where
  "venue_new = trading_init (market_data_init
     \<lparr>vs_connections = cn_new, vs_cache = cs_new, vs_limits = \<lparr>rs_limiters = [], rs_limits = []\<rparr>,
      vs_events = es_new, vs_breaker = cb_new\<rparr>)"

lemma venue_call_permits: "returns_permits (venue_call h x)"
  by (cases x) (simp_all add: get_ticker_permits place_order_permits get_balance_permits)

interpretation venue: op_system venue_new "venue_step h" "\<lambda>s. idle (vs_connections s)"
proof unfold_locales
  show "idle (vs_connections venue_new)"
    by (simp add: venue_new_def trading_init_def market_data_init_def idle_def cn_new_def dget_default_def)
  show "idle (vs_connections s) \<Longrightarrow> idle (vs_connections (venue_step h s x))" for s x
    using venue_call_permits [of h x] by (simp add: venue_step_def returns_permits_def)
qed


text \<open>Two exchanges: a session is configured for the second.\<close>

definition two_venues :: venue_services where
  "two_venues = venue_new\<lparr>vs_connections :=
     \<lparr>cn_pools = [(''OKX'', \<lparr>ep_session = Some 7, ep_connection = None\<rparr>)], cn_permits = [(''OKX'', 10)], cn_active = []\<rparr>\<rparr>"

lemma two_venues_idle: "idle (vs_connections two_venues)"
  by (simp add: idle_def two_venues_def dget_default_def)

definition steady_clock :: "time \<Rightarrow> nat \<Rightarrow> attempt_clock" where
  "steady_clock t k = \<lparr>at_lookup = t, at_acquire = (t, t), at_fetch = t, at_store = t\<rparr>"


section \<open>Failed orders\<close>

text \<open>An order of an exchange that has no connection.\<close>

lemma order_attempt_unconfigured:
  assumes "idle (vs_connections s)" "pool_object (vs_connections s) (or_exchange q) = None"
  shows "\<exists>e. fst (order_attempt h q c s) = Inl (Failed e)"
proof -
  obtain a r where a: "acquire_within None ''order'' (at_acquire c) (vs_limits s) = (a, r)" by fastforce
  define body where "body = (\<lambda>s1. (let data = order_data h q (at_fetch c) (at_store c)
                   in (data, publish_data ''order_placed'' (PDict data) s1)))"
  have "\<And>t. vs_connections (snd (body t)) = vs_connections t" by (simp add: body_def Let_def)
  with with_connection_idle(3) [of "s\<lparr>vs_limits := r\<rparr>" body "or_exchange q" WaitsForPermit] assms
  have w: "fst (with_connection WaitsForPermit (or_exchange q) body (s\<lparr>vs_limits := r\<rparr>)) = Inl (Failed RuntimeError)"
    by simp
  show ?thesis
  proof (cases a)
    case (Inl e)
    then show ?thesis using acquire_within_exception [of None "''order''" "at_acquire c" "vs_limits s"]
      by (cases e) (auto simp: order_attempt_def a)
  next
    case (Inr u)
    then show ?thesis using w by (simp add: order_attempt_def a body_def)
  qed
qed

lemma order_attempt_breaker: "vs_breaker (snd (order_attempt h q c t)) = vs_breaker t"
  by (auto simp: order_attempt_def with_connection_def publish_data_def Let_def
      split: prod.split sum.split connection_result.split)

lemma place_order_unconfigured:
  assumes i: "idle (vs_connections s)" and n: "pool_object (vs_connections s) (or_exchange q) = None"
    and b: "should_attempt 60 (vs_breaker s) now = (True, b)"
  shows "(\<exists>e. fst (place_order h q now later clock s) = Inl (Failed e)) \<and>
    vs_breaker (snd (place_order h q now later clock s)) = on_failure 5 b later"
proof -
  define P where "P = (\<lambda>t :: venue_services. idle (vs_connections t) \<and>
    pool_object (vs_connections t) = pool_object (vs_connections s) \<and> vs_breaker t = b)"
  let ?f = "\<lambda>k. order_attempt h q (clock k)"
  have step: "P (snd (?f k t)) \<and> (\<exists>e. fst (?f k t) = Inl (Failed e))" if "P t" for k and t :: venue_services
  proof -
    have t: "idle (vs_connections t)" "pool_object (vs_connections t) (or_exchange q) = None"
      using that n by (simp_all add: P_def)
    obtain r t1 where r: "?f k t = (r, t1)" by fastforce
    from returns_permitsD [OF order_attempt_permits t(1) r] order_attempt_breaker [of h q "clock k" t]
      order_attempt_unconfigured [OF t, of h "clock k"] that
    show ?thesis by (simp add: r P_def)
  qed
  obtain r s1 where r: "retrying 1 ?f (s\<lparr>vs_breaker := b\<rparr>) = (r, s1)" by fastforce
  have "P (s\<lparr>vs_breaker := b\<rparr>)" using i by (simp add: P_def)
  from retrying_keeps [of P ?f "\<lambda>r. \<exists>e. r = Inl (Failed e)" "s\<lparr>vs_breaker := b\<rparr>" 1, OF step this] r
  obtain e where "r = Inl (Failed e)" "vs_breaker s1 = b" by (auto simp: P_def)
  with b r show ?thesis by (simp add: place_order_def)
qed

text \<open>A refused order changes nothing.\<close>

lemma place_order_refused:
  assumes "cb_state (vs_breaker s) = OPEN" "cb_last_failure (vs_breaker s) = Some t" "now - t \<le> 60"
  shows "place_order h q now later clock s = (Inl (Failed RuntimeError), s)"
  using assms by (simp add: place_order_def should_attempt_def)

type_synonym order_call = "order_request \<times> time \<times> time \<times> (nat \<Rightarrow> attempt_clock)"

fun order_op :: "order_call \<Rightarrow> venue_op" where
  "order_op (q, now, later, clock) = PlaceOrder q now later clock"

lemma failed_orders_counted:
  fixes h :: "string \<Rightarrow> int"
  assumes "idle (vs_connections s)" "\<forall>(q, rest) \<in> set calls. pool_object (vs_connections s) (or_exchange q) = None"
    and "cb_failures (vs_breaker s) + length calls \<le> 5" "cb_state (vs_breaker s) = CLOSED" "calls \<noteq> []"
  defines "b \<equiv> vs_breaker (foldl (venue_step h) s (map order_op calls))"
  shows "cb_failures b = cb_failures (vs_breaker s) + length calls \<and>
    cb_last_failure b = Some (fst (snd (snd (last calls)))) \<and>
    cb_state b = (if cb_failures b = 5 then OPEN else CLOSED)"
  using assms(1-5) unfolding b_def
proof (induction calls arbitrary: s)
  case (Cons x calls)
  obtain q now later clock where x: "x = (q, now, later, clock)" by (cases x)
  define s1 where "s1 = venue_step h s (order_op x)"
  then have s1: "venue_step h s (PlaceOrder q now later clock) = s1" by (simp add: x)
  have "should_attempt 60 (vs_breaker s) now = (True, vs_breaker s)"
    using Cons.prems by (simp add: should_attempt_def)
  with Cons.prems x have b1: "vs_breaker s1 = on_failure 5 (vs_breaker s) later"
    using place_order_unconfigured [of s q now "vs_breaker s" h later clock] by (simp add: s1_def venue_step_def)
  have "returns_permits (place_order h q now later clock)" by (rule place_order_permits)
  then have c1: "idle (vs_connections s1) \<and> pool_object (vs_connections s1) = pool_object (vs_connections s)"
    using Cons.prems x by (simp add: s1_def venue_step_def returns_permits_def)
  show ?case
  proof (cases "calls = []")
    case True
    with b1 x Cons.prems show ?thesis by (simp add: s1 on_failure_def Let_def)
  next
    case False
    then have "cb_failures (vs_breaker s) + 1 < 5" using Cons.prems by (cases calls) auto
    with b1 Cons.prems have b2: "cb_failures (vs_breaker s1) = Suc (cb_failures (vs_breaker s))" "cb_state (vs_breaker s1) = CLOSED"
      by (simp_all add: on_failure_def Let_def)
    with Cons.IH [of s1] c1 Cons.prems False b2 show ?thesis by (simp add: s1 x)
  qed
qed simp


definition some_order :: "string \<Rightarrow> order_request" where
  "some_order ex = \<lparr>or_exchange = ex, or_symbol = ''BTC'', or_side = ''buy'', or_type = ''limit'',
     or_quantity = PInt 1, or_price = PInt 100\<rparr>"


section \<open>Tickers\<close>

text \<open>What was fetched is served from the cache for five seconds.\<close>

lemma cached_dict_stored:
  assumes "dget (cs_cache (vs_cache s)) key = Some (PDict d)" "dget (cs_ttl (vs_cache s)) key = Some (Some t)" "now < t"
  shows "cached_dict key True now s = (Some d, s)"
  using assms by (simp add: cached_dict_def cs_get_def before_deadline_def)

lemma fetched_ticker_stored:
  assumes "cached_dict (ticker_cache_key ex symbol) True (at_lookup c) s = (None, s0)"
    and "ticker_attempt ex symbol True c s = (Inr d, s1)"
  shows "dget (cs_cache (vs_cache s1)) (ticker_cache_key ex symbol) = Some (PDict d)"
    "dget (cs_ttl (vs_cache s1)) (ticker_cache_key ex symbol) = Some (Some (at_store c + 5))"
  using assms
  by (auto simp: ticker_attempt_def with_connection_def fetch_ticker_def store_data_def publish_data_def cs_set_def
      cs_put_def Let_def split: prod.splits sum.splits connection_result.splits)

text \<open>
  A ticker that was fetched is answered from the cache until five seconds later: the same
  data, with no token of the rate limit, no connection and no change of the services.
\<close>

theorem fetched_ticker_is_cached:
  assumes "cached_dict (ticker_cache_key ex symbol) True (at_lookup c) s = (None, s0)"
    and "ticker_attempt ex symbol True c s = (Inr d, s1)"
    and "at_lookup (clock 0) < at_store c + 5"
  shows "get_market_ticker ex symbol True clock s1 = (Inr d, s1)"
proof -
  have "ticker_attempt ex symbol True (clock 0) s1 = (Inr d, s1)"
    using cached_dict_stored [OF fetched_ticker_stored [OF assms(1,2)] assms(3)] by (simp add: ticker_attempt_def)
  then show ?thesis by (simp add: get_market_ticker_def retrying_def eval_nat_numeral)
qed

theorem fetched_ticker_is_cached_witness:
  "get_market_ticker ''OKX'' ''BTC'' True (steady_clock 5) (snd (ticker_attempt ''OKX'' ''BTC'' True (steady_clock 1 0) two_venues)) =
     (Inr (ticker_data ''OKX'' ''BTC'' 1), snd (ticker_attempt ''OKX'' ''BTC'' True (steady_clock 1 0) two_venues))"
proof (rule fetched_ticker_is_cached)
  show "cached_dict (ticker_cache_key ''OKX'' ''BTC'') True (at_lookup (steady_clock 1 0)) two_venues = (None, two_venues)"
    by code_simp
  show "ticker_attempt ''OKX'' ''BTC'' True (steady_clock 1 0) two_venues =
      (Inr (ticker_data ''OKX'' ''BTC'' 1), snd (ticker_attempt ''OKX'' ''BTC'' True (steady_clock 1 0) two_venues))"
    by (rule prod_eqI) (code_simp, simp)
  show "at_lookup (steady_clock 5 0) < at_store (steady_clock 1 0) + 5" by (simp add: steady_clock_def)
qed

text \<open>A ticker of an exchange without a connection takes a token and is tried again.\<close>

lemma failing_ticker_takes_tokens:
  "case venue_call (\<lambda>_. 0) (GetTicker ''BINANCE'' ''BTC'' True (\<lambda>k. steady_clock (of_nat k) k)) venue_new of
     (res, s) \<Rightarrow> res = Inl (Failed RuntimeError) \<and>
       map_option ar_requests (dget (rs_limiters (vs_limits s)) ''ticker'') = Some [0, 1, 2]"
  by code_simp

section \<open>Batches of tickers\<close>

text \<open>The batch holds, for each key, the last of its requests that succeeded.\<close>

lemma collect_tickers_lookup:
  "dget (collect_tickers requests results) k =
     map_of (rev (concat (map (\<lambda>((ex, symbol), r). case r of Inr d \<Rightarrow> [(ex @ '':'' @ symbol, d)] | Inl _ \<Rightarrow> [])
        (zip requests results)))) k"
proof -
  define put where "put = (\<lambda>(out :: (string, (string \<times> pyval) list) dict) ((ex, symbol), r :: svc_error + (string \<times> pyval) list).
     case r of Inr d \<Rightarrow> dset (ex @ '':'' @ symbol) d out | Inl _ \<Rightarrow> out)"
  have "dget (foldl put out xs) k =
      (case map_of (rev (concat (map (\<lambda>((ex, symbol), r). case r of Inr d \<Rightarrow> [(ex @ '':'' @ symbol, d)] | Inl _ \<Rightarrow> []) xs))) k of
         Some d \<Rightarrow> Some d | None \<Rightarrow> dget out k)" for out xs
    by (induction xs arbitrary: out) (auto simp: put_def map_add_def split: sum.split option.split)
  from this [of "[]" "zip requests results"] show ?thesis
    by (simp add: collect_tickers_def put_def split: option.split)
qed

section \<open>Order identifiers\<close>

text \<open>Two orders of a symbol within a second get one identifier.\<close>

lemma order_ids_collide:
  "\<lfloor>now\<rfloor> = \<lfloor>now'\<rfloor> \<Longrightarrow> or_symbol q = or_symbol q' \<Longrightarrow>
     dget (order_data h q now later) ''order_id'' = dget (order_data h q' now' later') ''order_id''"
  by (simp add: order_data_def)

section \<open>A second service\<close>

text \<open>Constructing a trading service again forgets the orders counted against its limit.\<close>

lemma second_service_forgets_orders:
  "dget (rs_limiters (vs_limits (trading_init s))) ''order'' = None \<and>
   fst (get_remaining_tokens ''order'' now (vs_limits (trading_init s))) = 20"
  by (simp add: trading_init_def configure_limit_def get_remaining_tokens_def)

end
