(* ===== verification/ConfigLoader.thy ===== *)
theory ConfigLoader
  imports PyVal "HOL-Library.List_Lexorder" "HOL-Library.Char_ord"
begin

text \<open>
  Model of \<open>src/bt_api_base/config_loader.py\<close>: the fields of the exchange configuration with
  their types, defaults and bounds, the validators of \<open>ExchangeConfig\<close>, and the loading of one
  file and of a directory. \<open>pydantic\<close> is \<open>coerce\<close>, which says what a plain field makes of a value;
  what the classes declare is written out: a field that is absent takes its default, which no
  check or validator sees, other keys are ignored. The YAML reader is \<open>outcome\<close> of a file.
\<close>

section \<open>Field types\<close>

datatype basic = Text | Whole | AnyValue | Enum "string list"

text \<open>\<open>Field name type default check\<close>: no default makes a field required.\<close>

datatype ftype =
    Basic basic | Maybe ftype | ListOf ftype | DictOf ftype | OrDict ftype
  | Model "field list"
and field = Field string ftype "pyval option" "pyval \<Rightarrow> bool"

fun option_list :: "'a option list \<Rightarrow> 'a list option" where
  "option_list [] = Some []"
| "option_list (None # xs) = None"
| "option_list (Some x # xs) = map_option ((#) x) (option_list xs)"

definition option_dict :: "('k \<times> 'a option) list \<Rightarrow> ('k \<times> 'a) list option" where
  "option_dict d = map_option (zip (map fst d)) (option_list (map snd d))"

text \<open>\<open>OrDict t\<close> is \<open>t | dict[str, t]\<close>.\<close>

primrec validate :: "(basic \<Rightarrow> pyval \<Rightarrow> pyval option) \<Rightarrow> ftype \<Rightarrow> pyval \<Rightarrow> pyval option"
  and validate_field :: "(basic \<Rightarrow> pyval \<Rightarrow> pyval option) \<Rightarrow> field \<Rightarrow> (string, pyval) dict \<Rightarrow> (string \<times> pyval) option"
where
  "validate coerce (Basic b) v = coerce b v"
| "validate coerce (Maybe t) v = (if v = PNone then Some PNone else validate coerce t v)"
| "validate coerce (ListOf t) v =
     (case v of PList xs \<Rightarrow> map_option PList (option_list (map (validate coerce t) xs)) | _ \<Rightarrow> None)"
| "validate coerce (DictOf t) v =
     (case v of PDict d \<Rightarrow> map_option PDict (option_dict (map (map_prod id (validate coerce t)) d)) | _ \<Rightarrow> None)"
| "validate coerce (OrDict t) v =
     (case v of
        PDict d \<Rightarrow> map_option PDict (option_dict (map (map_prod id (validate coerce t)) d))
      | _ \<Rightarrow> validate coerce t v)"
| "validate coerce (Model fs) v =
     (case v of PDict d \<Rightarrow> map_option PDict (option_list (map (\<lambda>f. validate_field coerce f d) fs)) | _ \<Rightarrow> None)"
| "validate_field coerce (Field name t dflt check) d =
     (case dget d name of
        None \<Rightarrow> map_option (Pair name) dflt
      | Some v \<Rightarrow>
          (case validate coerce t v of
             Some w \<Rightarrow> if check w then Some (name, w) else None
           | None \<Rightarrow> None))"

section \<open>The classes\<close>

abbreviation no_check :: "pyval \<Rightarrow> bool" where
  "no_check \<equiv> (\<lambda>_. True)"

definition required :: "string \<Rightarrow> ftype \<Rightarrow> field" where
  "required name t = Field name t None no_check"

definition optional :: "string \<Rightarrow> ftype \<Rightarrow> field" where
  "optional name t = Field name (Maybe t) (Some PNone) no_check"

definition with_default :: "string \<Rightarrow> ftype \<Rightarrow> pyval \<Rightarrow> field" where
  "with_default name t v = Field name t (Some v) no_check"

definition whole_between :: "int \<Rightarrow> int \<Rightarrow> pyval \<Rightarrow> bool" where
  "whole_between lo hi v \<longleftrightarrow> (case v of PInt i \<Rightarrow> lo \<le> i \<and> i \<le> hi | _ \<Rightarrow> False)"

definition whole_from :: "int \<Rightarrow> pyval \<Rightarrow> bool" where
  "whole_from lo v \<longleftrightarrow> (case v of PInt i \<Rightarrow> lo \<le> i | _ \<Rightarrow> False)"

definition one_of :: "string list \<Rightarrow> pyval \<Rightarrow> bool" where
  "one_of xs v \<longleftrightarrow> (case v of PStr s \<Rightarrow> s \<in> set xs | _ \<Rightarrow> False)"

definition text_length :: "nat \<Rightarrow> nat \<Rightarrow> pyval \<Rightarrow> bool" where
  "text_length lo hi v \<longleftrightarrow> (case v of PStr s \<Rightarrow> lo \<le> length s \<and> length s \<le> hi | _ \<Rightarrow> False)"

definition venue_types :: "string list" where
  "venue_types = [''cex'', ''dex'', ''broker'']"

definition auth_types :: "string list" where
  "auth_types = [''none'', ''api_key'', ''hmac_sha256'', ''hmac_sha256_jwt'', ''hmac_sha384'', ''hmac_sha512'',
     ''oauth'', ''certificate'', ''password'']"

definition connection_types :: "string list" where
  "connection_types = [''http'', ''websocket'', ''spi'', ''tws'', ''local_terminal'', ''rpc'']"

definition base_urls_model :: ftype where
  "base_urls_model = Model
     [with_default ''rest'' (DictOf (Basic Text)) (PDict []), with_default ''wss'' (DictOf (Basic Text)) (PDict []),
      with_default ''acct_wss'' (DictOf (Basic Text)) (PDict [])]"

definition connection_model :: ftype where
  "connection_model = Model
     [required ''type'' (Basic (Enum connection_types)),
      Field ''timeout'' (Basic Whole) (Some (PInt 10)) (whole_between 1 120),
      Field ''max_retries'' (Basic Whole) (Some (PInt 3)) (whole_between 0 10),
      optional ''md_front'' (Basic Text), optional ''td_front'' (Basic Text), optional ''exe_path'' (Basic Text),
      optional ''session_id'' (Basic Whole), optional ''host'' (Basic Text), optional ''port'' (Basic Whole),
      optional ''client_id'' (Basic Whole)]"

definition auth_model :: ftype where
  "auth_model = Model
     [required ''type'' (Basic (Enum auth_types)), optional ''header_name'' (Basic Text),
      optional ''timestamp_key'' (Basic Text), optional ''signature_key'' (Basic Text),
      optional ''api_key_param'' (Basic Text)]"

definition rate_rule_model :: ftype where
  "rate_rule_model = Model
     [required ''name'' (Basic Text),
      Field ''type'' (Basic Text) None (one_of [''sliding_window'', ''fixed_window'', ''token_bucket'']),
      Field ''interval'' (Basic Whole) None (whole_from 1),
      Field ''limit'' (Basic Whole) None (whole_from 1),
      Field ''scope'' (Basic Text) (Some (PStr ''global'')) (one_of [''global'', ''endpoint'', ''ip'']),
      optional ''endpoint'' (Basic Text),
      Field ''weight'' (Basic Whole) (Some (PInt 1)) (whole_from 1),
      optional ''weight_map'' (DictOf (Basic Whole))]"

definition asset_type_model :: ftype where
  "asset_type_model = Model
     [optional ''exchange_name'' (Basic Text), optional ''rest_url'' (Basic Text), optional ''wss_url'' (Basic Text),
      required ''symbol_format'' (Basic Text),
      with_default ''rest_paths'' (DictOf (Basic Text)) (PDict []),
      with_default ''wss_paths'' (DictOf (Basic AnyValue)) (PDict []),
      with_default ''wss_channels'' (DictOf (Basic Text)) (PDict []),
      optional ''kline_periods'' (DictOf (Basic Text)), optional ''legal_currency'' (ListOf (Basic Text)),
      optional ''symbols'' (ListOf (Basic Text)), optional ''trading_symbols'' (DictOf (Basic Text))]"

definition exchange_fields :: "field list" where
  "exchange_fields =
     [Field ''id'' (Basic Text) None (text_length 2 30), required ''display_name'' (Basic Text),
      required ''venue_type'' (Basic (Enum venue_types)), optional ''website'' (Basic Text),
      optional ''api_doc'' (Basic Text), optional ''base_urls'' base_urls_model,
      required ''connection'' connection_model, optional ''authentication'' auth_model,
      with_default ''rate_limits'' (ListOf rate_rule_model) (PList []),
      with_default ''asset_types'' (DictOf asset_type_model) (PDict []),
      optional ''chains'' (ListOf (Basic Text)), optional ''router_address'' (OrDict (Basic Text)),
      optional ''factory_address'' (OrDict (Basic Text)), optional ''kline_periods'' (DictOf (Basic Text)),
      optional ''legal_currency'' (ListOf (Basic Text)), optional ''status_dict'' (DictOf (Basic Text)),
      optional ''exchange_id_map'' (DictOf (Basic Text)), optional ''broker_id'' (Basic Text),
      optional ''app_id'' (Basic Text)]"

section \<open>Validators\<close>

type_synonym config = "(string, pyval) dict"

definition validate_base_urls :: "pyval option \<Rightarrow> pyval \<Rightarrow> bool" where
  "validate_base_urls venue_type v \<longleftrightarrow> \<not> (venue_type = Some (PStr ''cex'') \<and> v = PNone)"

definition connection_kind :: "pyval \<Rightarrow> pyval option" where
  "connection_kind v = (case v of PDict d \<Rightarrow> dget d ''type'' | _ \<Rightarrow> None)"

definition validate_connection :: "pyval option \<Rightarrow> pyval \<Rightarrow> bool" where
  "validate_connection venue_type v \<longleftrightarrow>
     \<not> (venue_type = Some (PStr ''cex'') \<and>
        connection_kind v \<notin> {Some (PStr ''http''), Some (PStr ''websocket''), Some (PStr ''spi'')})"

text \<open>A validator runs when its field is given; \<open>info.data\<close> has the fields before it.\<close>

definition exchange_config :: "(basic \<Rightarrow> pyval \<Rightarrow> pyval option) \<Rightarrow> config \<Rightarrow> config option" where
  "exchange_config coerce data =
     (case validate coerce (Model exchange_fields) (PDict data) of
        Some (PDict cfg) \<Rightarrow>
          (let venue_type = dget cfg ''venue_type'';
               given = (\<lambda>name ok. dget data name = None \<or> ok venue_type (the (dget cfg name)))
           in if given ''base_urls'' validate_base_urls \<and> given ''connection'' validate_connection
              then Some cfg else None)
      | _ \<Rightarrow> None)"

section \<open>Files\<close>

text \<open>What reading a file gives; \<open>OddKeys\<close>: a mapping with a key that is no string.\<close>

datatype file_content = Missing | Unreadable | NotUtf8 | BadYaml | OddKeys | Parsed pyval

datatype load_error =
    FileNotFound | OsFailure | DecodeFailure | YamlFailure | ConfigurationFailure | KeywordFailure | ValidationFailure

definition load_exchange_config ::
    "(basic \<Rightarrow> pyval \<Rightarrow> pyval option) \<Rightarrow> file_content \<Rightarrow> load_error + config" where
  "load_exchange_config coerce content =
     (case content of
        Missing \<Rightarrow> Inl FileNotFound
      | Unreadable \<Rightarrow> Inl OsFailure
      | NotUtf8 \<Rightarrow> Inl DecodeFailure
      | BadYaml \<Rightarrow> Inl YamlFailure
      | OddKeys \<Rightarrow> Inl KeywordFailure
      | Parsed data \<Rightarrow>
          if \<not> truthy data then Inl ConfigurationFailure
          else (case data of
                  PDict d \<Rightarrow> (case exchange_config coerce d of None \<Rightarrow> Inl ValidationFailure | Some cfg \<Rightarrow> Inr cfg)
                | _ \<Rightarrow> Inl ConfigurationFailure))"

text \<open>\<open>Path.suffix\<close>: from the last dot, which neither starts nor ends the name.\<close>

definition path_suffix :: "string \<Rightarrow> string" where
  "path_suffix name =
     (let ext = takeWhile (\<lambda>c. c \<noteq> CHR ''.'') (rev name);
          stem = length name - Suc (length ext)
      in if CHR ''.'' \<in> set name \<and> 0 < stem \<and> ext \<noteq> [] then CHR ''.'' # rev ext else [])"

definition is_config_name :: "string \<Rightarrow> bool" where
  "is_config_name name \<longleftrightarrow> path_suffix name \<in> {''.yaml'', ''.yml''} \<and> take 1 name \<noteq> ''_''"

fun skipped_error :: "load_error \<Rightarrow> bool" where
  "skipped_error FileNotFound = True"
| "skipped_error ConfigurationFailure = True"
| "skipped_error ValidationFailure = True"
| "skipped_error YamlFailure = True"
| "skipped_error _ = False"

fun load_files ::
    "(basic \<Rightarrow> pyval \<Rightarrow> pyval option) \<Rightarrow> (string \<times> file_content) list \<Rightarrow> (string, config) dict
     \<Rightarrow> load_error + (string, config) dict" where
  "load_files coerce [] configs = Inr configs"
| "load_files coerce ((name, content) # files) configs =
     (if is_config_name name
      then (case load_exchange_config coerce content of
              Inr cfg \<Rightarrow>
                load_files coerce files
                  (dset (case dget cfg ''id'' of Some (PStr i) \<Rightarrow> i | _ \<Rightarrow> []) cfg configs)
            | Inl e \<Rightarrow> if skipped_error e then load_files coerce files configs else Inl e)
      else load_files coerce files configs)"

text \<open>\<open>None\<close>: no such directory. The names in a directory differ.\<close>

definition load_all_exchange_configs ::
    "(basic \<Rightarrow> pyval \<Rightarrow> pyval option) \<Rightarrow> (string \<times> file_content) list option
     \<Rightarrow> load_error + (string, config) dict" where
  "load_all_exchange_configs coerce directory =
     (case directory of
        None \<Rightarrow> Inr []
      | Some files \<Rightarrow> load_files coerce (sort_key fst files) [])"

text \<open>\<open>get_exchange_config_path\<close>: \<open>in_plugin\<close> is the path of the Binance plugin's own file, if there is one.\<close>

definition get_exchange_config_path :: "string option \<Rightarrow> string \<Rightarrow> string \<Rightarrow> string" where
  "get_exchange_config_path in_plugin configs_dir filename =
     (case (filename = ''binance.yaml'', in_plugin) of
        (True, Some path) \<Rightarrow> path
      | _ \<Rightarrow> configs_dir @ ''/'' @ filename)"

section \<open>What a loaded configuration satisfies\<close>

lemma option_list_map: "option_list (map f xs) = Some ys \<longleftrightarrow> list_all2 (\<lambda>x y. f x = Some y) xs ys"
proof (induction xs arbitrary: ys)
  case (Cons x xs)
  then show ?case by (cases "f x"; cases ys) (auto simp: list_all2_Cons1)
qed auto

lemma validate_ListOf:
  assumes "validate coerce (ListOf t) v = Some w"
  shows "\<exists>ws. w = PList ws \<and> (\<forall>x \<in> set ws. \<exists>y. validate coerce t y = Some x)"
proof -
  from assms obtain vs ws where w: "w = PList ws" "list_all2 (\<lambda>x y. validate coerce t x = Some y) vs ws"
    by (cases v) (auto simp: option_list_map)
  from w(2) have "\<forall>x \<in> set ws. \<exists>y. validate coerce t y = Some x" by (induction rule: list_all2_induct) auto
  with w(1) show ?thesis by blast
qed

definition field_name :: "field \<Rightarrow> string" where
  "field_name f = (case f of Field n _ _ _ \<Rightarrow> n)"

lemma validate_field_name: "validate_field coerce f d = Some p \<Longrightarrow> fst p = field_name f"
  by (cases f) (auto simp: field_name_def split: option.splits if_splits)

lemma validated_lookup:
  assumes "list_all2 (\<lambda>f p. validate_field coerce f d = Some p) fs out" "f \<in> set fs" "distinct (map field_name fs)"
  shows "\<exists>v. validate_field coerce f d = Some (field_name f, v) \<and> dget out (field_name f) = Some v"
  using assms
proof (induction fs out rule: list_all2_induct)
  case (Cons g fs p out)
  then have p: "fst p = field_name g" by (simp add: validate_field_name)
  show ?case
  proof (cases "f = g")
    case True
    with Cons.hyps p show ?thesis by (cases p) auto
  next
    case False
    then have "f \<in> set fs" "field_name f \<noteq> field_name g" using Cons.prems by (auto simp: rev_image_eqI)
    with Cons p show ?thesis by (cases p) auto
  qed
qed simp

text \<open>A validated model has every field of its class: checked when given, else the default.\<close>

lemma validated_field:
  assumes "validate coerce (Model fs) v = Some w" "Field n t dflt check \<in> set fs" "distinct (map field_name fs)"
  shows "\<exists>d out x. v = PDict d \<and> w = PDict out \<and> dget out n = Some x \<and>
    (case dget d n of None \<Rightarrow> dflt = Some x | Some y \<Rightarrow> validate coerce t y = Some x \<and> check x)"
proof -
  from assms(1) obtain d out where d: "v = PDict d" "w = PDict out"
      "list_all2 (\<lambda>f p. validate_field coerce f d = Some p) fs out"
    by (auto simp: option_list_map split: pyval.splits)
  from validated_lookup [OF d(3) assms(2,3)] obtain x where
    "validate_field coerce (Field n t dflt check) d = Some (n, x)" "dget out n = Some x"
    by (auto simp: field_name_def)
  with d show ?thesis by (auto split: option.splits if_splits)
qed

lemmas field_kinds = required_def optional_def with_default_def

lemma exchange_fields_distinct: "distinct (map field_name exchange_fields)"
  by (simp add: exchange_fields_def field_kinds field_name_def)

lemma connection_timeouts:
  assumes "validate coerce connection_model v = Some w"
  shows "\<exists>c t r. w = PDict c \<and> dget c ''timeout'' = Some (PInt t) \<and> t \<in> {1..120} \<and>
    dget c ''max_retries'' = Some (PInt r) \<and> r \<in> {0..10}"
proof -
  define fs where "fs = (case connection_model of Model fs \<Rightarrow> fs | _ \<Rightarrow> [])"
  have m: "connection_model = Model fs" by (simp add: fs_def connection_model_def)
  have dist: "distinct (map field_name fs)" by (simp add: fs_def connection_model_def field_kinds field_name_def)
  have f: "Field ''timeout'' (Basic Whole) (Some (PInt 10)) (whole_between 1 120) \<in> set fs"
      "Field ''max_retries'' (Basic Whole) (Some (PInt 3)) (whole_between 0 10) \<in> set fs"
    by (simp_all add: fs_def connection_model_def)
  from validated_field [OF assms [unfolded m] f(1) dist] obtain d out x where
    a: "v = PDict d" "w = PDict out" "dget out ''timeout'' = Some x" "x = PInt 10 \<or> whole_between 1 120 x"
    by (auto split: option.splits)
  from validated_field [OF assms [unfolded m] f(2) dist] a obtain y where
    b: "dget out ''max_retries'' = Some y" "y = PInt 3 \<or> whole_between 0 10 y"
    by (auto split: option.splits)
  from a b show ?thesis by (auto simp: whole_between_def split: pyval.splits)
qed

text \<open>What the model calls a rule that a limiter can use.\<close>

definition usable_rule :: "pyval \<Rightarrow> bool" where
  "usable_rule rule \<longleftrightarrow> (\<exists>r k i l g. rule = PDict r \<and> dget r ''type'' = Some (PStr k) \<and>
     k \<in> {''sliding_window'', ''fixed_window'', ''token_bucket''} \<and> dget r ''interval'' = Some (PInt i) \<and> 1 \<le> i \<and>
     dget r ''limit'' = Some (PInt l) \<and> 1 \<le> l \<and> dget r ''weight'' = Some (PInt g) \<and> 1 \<le> g)"

lemma rate_rule_bounds:
  assumes "validate coerce rate_rule_model v = Some w"
  shows "usable_rule w"
proof -
  define fs where "fs = (case rate_rule_model of Model fs \<Rightarrow> fs | _ \<Rightarrow> [])"
  have m: "rate_rule_model = Model fs" by (simp add: fs_def rate_rule_model_def)
  have dist: "distinct (map field_name fs)" by (simp add: fs_def rate_rule_model_def field_kinds field_name_def)
  have f: "Field ''type'' (Basic Text) None (one_of [''sliding_window'', ''fixed_window'', ''token_bucket'']) \<in> set fs"
      "Field ''interval'' (Basic Whole) None (whole_from 1) \<in> set fs" "Field ''limit'' (Basic Whole) None (whole_from 1) \<in> set fs"
      "Field ''weight'' (Basic Whole) (Some (PInt 1)) (whole_from 1) \<in> set fs"
    by (simp_all add: fs_def rate_rule_model_def)
  note get = validated_field [OF assms [unfolded m] _ dist]
  from get [OF f(1)] obtain d out x where
    a: "v = PDict d" "w = PDict out" "dget out ''type'' = Some x" "one_of [''sliding_window'', ''fixed_window'', ''token_bucket''] x"
    by (auto split: option.splits)
  from get [OF f(2)] a obtain y where b: "dget out ''interval'' = Some y" "whole_from 1 y" by (auto split: option.splits)
  from get [OF f(3)] a obtain z where c: "dget out ''limit'' = Some z" "whole_from 1 z" by (auto split: option.splits)
  from get [OF f(4)] a obtain g where e: "dget out ''weight'' = Some g" "g = PInt 1 \<or> whole_from 1 g"
    by (auto split: option.splits)
  from a b c e show ?thesis by (auto simp: usable_rule_def one_of_def whole_from_def split: pyval.splits)
qed

text \<open>
  C27. What a loaded exchange configuration satisfies: an identifier of two to thirty characters, a
  connection with timeout and retries in their ranges and, for a centralised exchange, one of the
  three kinds it may use, and rate limit rules with a known type and positive interval, limit and
  weight.
\<close>

theorem loaded_config_sound:
  assumes "load_exchange_config coerce content = Inr cfg"
  shows "(\<exists>i. dget cfg ''id'' = Some (PStr i) \<and> length i \<in> {2..30}) \<and>
    (\<exists>c t r. dget cfg ''connection'' = Some (PDict c) \<and>
       dget c ''timeout'' = Some (PInt t) \<and> t \<in> {1..120} \<and> dget c ''max_retries'' = Some (PInt r) \<and> r \<in> {0..10} \<and>
       (dget cfg ''venue_type'' = Some (PStr ''cex'') \<longrightarrow>
          dget c ''type'' \<in> {Some (PStr ''http''), Some (PStr ''websocket''), Some (PStr ''spi'')})) \<and>
    (\<exists>rules. dget cfg ''rate_limits'' = Some (PList rules) \<and> (\<forall>rule \<in> set rules. usable_rule rule))"
proof -
  from assms obtain d where d: "exchange_config coerce d = Some cfg"
    by (auto simp: load_exchange_config_def split: file_content.splits if_splits pyval.splits option.splits)
  then have v: "validate coerce (Model exchange_fields) (PDict d) = Some (PDict cfg)"
    by (auto simp: exchange_config_def Let_def split: option.splits pyval.splits if_splits)
  note get = validated_field [OF v _ exchange_fields_distinct]
  have f: "Field ''id'' (Basic Text) None (text_length 2 30) \<in> set exchange_fields"
      "Field ''connection'' connection_model None no_check \<in> set exchange_fields"
      "Field ''rate_limits'' (ListOf rate_rule_model) (Some (PList [])) no_check \<in> set exchange_fields"
    by (simp_all add: exchange_fields_def field_kinds)
  from get [OF f(1)] obtain x where "dget cfg ''id'' = Some x" "text_length 2 30 x" by (auto split: option.splits)
  then have 1: "\<exists>i. dget cfg ''id'' = Some (PStr i) \<and> length i \<in> {2..30}" by (auto simp: text_length_def split: pyval.splits)
  from get [OF f(2)] obtain y c where c: "dget cfg ''connection'' = Some c" "dget d ''connection'' = Some y"
      "validate coerce connection_model y = Some c"
    by (auto split: option.splits)
  from connection_timeouts [OF c(3)] obtain cd t r where cd: "c = PDict cd" "dget cd ''timeout'' = Some (PInt t)" "t \<in> {1..120}"
      "dget cd ''max_retries'' = Some (PInt r)" "r \<in> {0..10}" by blast
  have "validate_connection (dget cfg ''venue_type'') c"
    using d v c by (auto simp: exchange_config_def Let_def split: if_splits)
  with c cd have 2: "\<exists>c t r. dget cfg ''connection'' = Some (PDict c) \<and>
       dget c ''timeout'' = Some (PInt t) \<and> t \<in> {1..120} \<and> dget c ''max_retries'' = Some (PInt r) \<and> r \<in> {0..10} \<and>
       (dget cfg ''venue_type'' = Some (PStr ''cex'') \<longrightarrow>
          dget c ''type'' \<in> {Some (PStr ''http''), Some (PStr ''websocket''), Some (PStr ''spi'')})"
    by (auto simp: validate_connection_def connection_kind_def)
  from get [OF f(3)] obtain z where z: "dget cfg ''rate_limits'' = Some z"
      "z = PList [] \<or> (\<exists>y. validate coerce (ListOf rate_rule_model) y = Some z)"
    by (auto split: option.splits)
  from z(2) have "\<exists>rules. z = PList rules \<and> (\<forall>rule \<in> set rules. usable_rule rule)"
  proof
    assume "\<exists>y. validate coerce (ListOf rate_rule_model) y = Some z"
    then show ?thesis using validate_ListOf rate_rule_bounds by metis
  qed simp
  with 1 2 z(1) show ?thesis by blast
qed

section \<open>Directories\<close>

definition config_id :: "config \<Rightarrow> string" where
  "config_id cfg = (case dget cfg ''id'' of Some (PStr i) \<Rightarrow> i | _ \<Rightarrow> [])"

text \<open>The configurations of the files that load, with their identifiers.\<close>

fun valid_configs :: "(basic \<Rightarrow> pyval \<Rightarrow> pyval option) \<Rightarrow> (string \<times> file_content) list \<Rightarrow> (string, config) dict" where
  "valid_configs coerce [] = []"
| "valid_configs coerce ((name, content) # files) =
     (case (is_config_name name, load_exchange_config coerce content) of
        (True, Inr cfg) \<Rightarrow> [(config_id cfg, cfg)] | _ \<Rightarrow> []) @ valid_configs coerce files"

lemma load_files_lookup:
  "load_files coerce files configs = Inr out \<Longrightarrow>
     dget out i = (case map_of (rev (valid_configs coerce files)) i of Some c \<Rightarrow> Some c | None \<Rightarrow> dget configs i)"
proof (induction files arbitrary: configs)
  case (Cons f files)
  obtain name content where f: "f = (name, content)" by fastforce
  show ?case
  proof (cases "is_config_name name")
    case True
    show ?thesis
    proof (cases "load_exchange_config coerce content")
      case (Inl e)
      with Cons True show ?thesis by (auto simp: f split: if_splits)
    next
      case (Inr cfg)
      with Cons.prems True have "load_files coerce files (dset (config_id cfg) cfg configs) = Inr out"
        by (simp add: f config_id_def)
      from Cons.IH [OF this] Inr True show ?thesis by (auto simp: f map_add_def split: option.split)
    qed
  next
    case False
    with Cons show ?thesis by (simp add: f)
  qed
qed simp

lemma load_files_append:
  "load_files coerce (us @ vs) configs =
     (case load_files coerce us configs of Inl e \<Rightarrow> Inl e | Inr out \<Rightarrow> load_files coerce vs out)"
  by (induction coerce us configs rule: load_files.induct) (auto split: sum.split)

text \<open>
  Loading a directory gives, for each identifier, the last configuration in the order of the
  file names that loads; files that do not exist, are no YAML, no mapping, empty or invalid are
  passed over.
\<close>

theorem load_all_spec:
  assumes "load_all_exchange_configs coerce (Some files) = Inr configs"
  shows "dget configs i = map_of (rev (valid_configs coerce (sort_key fst files))) i"
  using load_files_lookup [of coerce "sort_key fst files" "[]" configs i] assms
  by (simp add: load_all_exchange_configs_def split: option.split)

text \<open>The plain values of the types, without pydantic's conversions.\<close>

fun plain_coerce :: "basic \<Rightarrow> pyval \<Rightarrow> pyval option" where
  "plain_coerce Text v = (case v of PStr s \<Rightarrow> Some v | _ \<Rightarrow> None)"
| "plain_coerce Whole v = (case v of PInt i \<Rightarrow> Some v | _ \<Rightarrow> None)"
| "plain_coerce AnyValue v = Some v"
| "plain_coerce (Enum xs) v = (case v of PStr s \<Rightarrow> if s \<in> set xs then Some v else None | _ \<Rightarrow> None)"

definition sample_file :: "string \<Rightarrow> string \<Rightarrow> (string \<times> pyval) list \<Rightarrow> file_content" where
  "sample_file i venue_type more = Parsed (PDict
     ([(''id'', PStr i), (''display_name'', PStr i), (''venue_type'', PStr venue_type),
       (''connection'', PDict [(''type'', PStr ''http'')])] @ more))"

definition sample_directory :: "(string \<times> file_content) list" where
  "sample_directory =
     [(''b.yaml'', sample_file ''venue'' ''dex'' []), (''a.yaml'', sample_file ''venue'' ''broker'' []),
      (''_c.yaml'', sample_file ''venue'' ''broker'' []), (''d.yml'', Parsed (PList [])), (''e.yaml'', BadYaml)]"

theorem load_all_spec_witness:
  "map_option (\<lambda>cfg. dget cfg ''venue_type'')
     (dget (projr (load_all_exchange_configs plain_coerce (Some sample_directory))) ''venue'') = Some (Some (PStr ''dex''))"
proof -
  have "load_all_exchange_configs plain_coerce (Some sample_directory) =
      Inr (projr (load_all_exchange_configs plain_coerce (Some sample_directory)))"
    by code_simp
  from load_all_spec [OF this, of "''venue''"] show ?thesis
    by (simp only:) code_simp
qed

theorem loaded_config_sound_witness:
  "dget (projr (load_exchange_config plain_coerce (sample_file ''ab'' ''broker'' []))) ''id'' = Some (PStr ''ab'') \<and>
   (\<exists>i. dget (projr (load_exchange_config plain_coerce (sample_file ''ab'' ''broker'' []))) ''id'' = Some (PStr i) \<and> length i \<in> {2..30})"
proof -
  have "load_exchange_config plain_coerce (sample_file ''ab'' ''broker'' []) =
      Inr (projr (load_exchange_config plain_coerce (sample_file ''ab'' ''broker'' [])))"
    by code_simp
  note sound = loaded_config_sound [OF this, THEN conjunct1]
  show ?thesis by (rule conjI [OF _ sound]) code_simp
qed

text \<open>A centralised exchange must have base URLs, but only where the field is written down.\<close>

lemma missing_base_urls_accepted:
  "load_exchange_config plain_coerce (sample_file ''ab'' ''cex'' [(''base_urls'', PNone)]) = Inl ValidationFailure \<and>
   (\<exists>cfg. load_exchange_config plain_coerce (sample_file ''ab'' ''cex'' []) = Inr cfg \<and> dget cfg ''base_urls'' = Some PNone)"
proof
  show "load_exchange_config plain_coerce (sample_file ''ab'' ''cex'' [(''base_urls'', PNone)]) = Inl ValidationFailure"
    by code_simp
  show "\<exists>cfg. load_exchange_config plain_coerce (sample_file ''ab'' ''cex'' []) = Inr cfg \<and> dget cfg ''base_urls'' = Some PNone"
    by (rule exI [of _ "projr (load_exchange_config plain_coerce (sample_file ''ab'' ''cex'' []))"]) code_simp
qed

text \<open>One file that is no UTF-8 stops the loading of all others.\<close>

lemma bad_encoding_stops_all:
  assumes "load_files coerce us [] = Inr out" "is_config_name name"
  shows "load_files coerce (us @ (name, NotUtf8) # vs) [] = Inl DecodeFailure"
  using assms by (simp add: load_files_append load_exchange_config_def)

end
