(* ===== verification/Loggers.thy ===== *)
theory Loggers
  imports PyVal
begin

text \<open>
  Model of \<open>src/bt_api_base/logging_factory.py\<close> (\<open>get_logger\<close>, the names of log files) and of
  \<open>functions/log_message.py\<close> (\<open>SpdLogManager\<close>) without the \<open>spdlog\<close> package, where loggers are
  those of the standard library. What a handler writes is not modelled; the proxy around a logger
  is in theory LogProxy. Paths are POSIX paths without empty or dot components; module names are ASCII.
\<close>

section \<open>File names\<close>

definition module_log_map :: "(string, string \<times> string) dict" where
  "module_log_map =
     [(''api'', (''bt_api.log'', ''api'')), (''registry'', (''bt_api_registry.log'', ''registry'')),
      (''feed'', (''feed_data.log'', ''base_feed'')), (''event_bus'', (''event_bus.log'', ''event_bus'')),
      (''http_client'', (''http_client.log'', ''http_client'')), (''websocket'', (''websocket.log'', ''websocket''))]"

definition ascii_alnum :: "char \<Rightarrow> bool" where
  "ascii_alnum c \<longleftrightarrow> (let n = of_char c :: nat in
     (48 \<le> n \<and> n \<le> 57) \<or> (65 \<le> n \<and> n \<le> 90) \<or> (97 \<le> n \<and> n \<le> 122))"

definition file_char :: "char \<Rightarrow> bool" where
  "file_char c \<longleftrightarrow> ascii_alnum c \<or> c \<in> {CHR ''_'', CHR ''-'', CHR ''.''}"

definition strip_marks :: "string \<Rightarrow> string" where
  "strip_marks s =
     (let mark = (\<lambda>c. c = CHR ''.'' \<or> c = CHR ''_'') in rev (dropWhile mark (rev (dropWhile mark s))))"

definition build_custom_log_file_name :: "string \<Rightarrow> string" where
  "build_custom_log_file_name key =
     (let sanitized = strip_marks (map (\<lambda>c. if file_char c then c else CHR ''_'') key)
      in (if sanitized = [] then ''bt_api'' else sanitized) @ ''.log'')"

definition is_absolute :: "string \<Rightarrow> bool" where
  "is_absolute path \<longleftrightarrow> take 1 path = ''/''"

definition path_join :: "string \<Rightarrow> string \<Rightarrow> string" where
  "path_join dir name = (if is_absolute name then name else dir @ ''/'' @ name)"

text \<open>\<open>log_dir\<close>: the expanded value of \<open>BT_API_LOG_DIR\<close>.\<close>

definition resolve_log_file_name :: "string option \<Rightarrow> string \<Rightarrow> string" where
  "resolve_log_file_name log_dir file_name =
     (case log_dir of
        Some dir \<Rightarrow> if dir = [] \<or> is_absolute file_name then file_name else path_join dir file_name
      | None \<Rightarrow> file_name)"

definition normalize_file_name :: "string \<Rightarrow> string \<Rightarrow> string" where
  "normalize_file_name logs_dir file_name =
     (if is_absolute file_name then file_name
      else path_join logs_dir
             (if take 7 file_name = ''./logs/'' then drop 7 file_name
              else if take 2 file_name = ''./'' then drop 2 file_name else file_name))"

section \<open>Loggers\<close>

datatype log_handler = FileHandler string | StreamHandler

text \<open>
  \<open>logging.getLogger\<close> gives one logger per name; \<open>ls_std\<close> has the handlers of those that were
  asked for. The keys of the caches are the file, the name and \<open>print_info\<close> (the rotation is always
  the default), and the module and \<open>print_info\<close>. A proxy is its number; it wraps a logger by name.
\<close>

record log_state =
  ls_std :: "(string, log_handler list) dict"
  ls_managed :: "(string \<times> string \<times> bool, string) dict"
  ls_proxies :: "(string \<times> bool, nat) dict"
  ls_wraps :: "string list"

definition ls_new :: log_state where
  "ls_new = \<lparr>ls_std = [], ls_managed = [], ls_proxies = [], ls_wraps = []\<rparr>"

definition log_handlers_of :: "log_state \<Rightarrow> string \<Rightarrow> log_handler list" where
  "log_handlers_of s name = dget_default (ls_std s) name []"

definition create_logger :: "string \<Rightarrow> string \<Rightarrow> bool \<Rightarrow> log_state \<Rightarrow> string \<times> log_state" where
  "create_logger file name print_info s =
     (case dget (ls_managed s) (file, name, print_info) of
        Some logger \<Rightarrow> (logger, s)
      | None \<Rightarrow>
          (let hs = (if log_handlers_of s name = []
                     then FileHandler file # (if print_info then [StreamHandler] else [])
                     else log_handlers_of s name)
           in (name, s\<lparr>ls_std := dset name hs (ls_std s),
                       ls_managed := dset (file, name, print_info) name (ls_managed s)\<rparr>)))"

definition get_logger :: "string option \<Rightarrow> string \<Rightarrow> string \<Rightarrow> bool \<Rightarrow> log_state \<Rightarrow> nat \<times> log_state" where
  "get_logger log_dir logs_dir key print_info s =
     (case dget (ls_proxies s) (key, print_info) of
        Some proxy \<Rightarrow> (proxy, s)
      | None \<Rightarrow>
          (let (file, name) = (case dget module_log_map key of
                                 Some names \<Rightarrow> names
                               | None \<Rightarrow> (build_custom_log_file_name key, key));
               (logger, s1) = create_logger (normalize_file_name logs_dir (resolve_log_file_name log_dir file)) name print_info s;
               proxy = length (ls_wraps s1)
           in (proxy, s1\<lparr>ls_proxies := dset (key, print_info) proxy (ls_proxies s1),
                         ls_wraps := ls_wraps s1 @ [logger]\<rparr>)))"

section \<open>File names are safe\<close>

lemma dropWhile_all: "(\<forall>c \<in> set s. P c) \<Longrightarrow> \<forall>c \<in> set (dropWhile Q s). P c"
  by (meson set_dropWhileD)

lemma hd_dropWhile_not: "dropWhile Q s \<noteq> [] \<Longrightarrow> \<not> Q (hd (dropWhile Q s))"
  by (rule hd_dropWhile)

lemma strip_marks_chars: "(\<forall>c \<in> set s. P c) \<Longrightarrow> \<forall>c \<in> set (strip_marks s). P c"
  by (auto simp: strip_marks_def Let_def dest!: set_dropWhileD)

lemma strip_marks_hd:
  assumes "strip_marks s \<noteq> []"
  shows "hd (strip_marks s) \<noteq> CHR ''.''"
proof -
  define mark where "mark = (\<lambda>c. c = CHR ''.'' \<or> c = CHR ''_'')"
  define t where "t = dropWhile mark s"
  have st: "strip_marks s = rev (dropWhile mark (rev t))" by (simp add: strip_marks_def mark_def t_def Let_def)
  obtain us where "rev t = us @ dropWhile mark (rev t)" by (metis takeWhile_dropWhile_id)
  then have "t = strip_marks s @ rev us" unfolding st by (metis rev_append rev_rev_ident)
  then have "hd t = hd (strip_marks s)" "t \<noteq> []" using assms by auto
  with hd_dropWhile [of mark s] show ?thesis by (auto simp: t_def mark_def)
qed

text \<open>
  The log file of any module is a plain file name: it holds only letters, digits, dashes,
  underscores and dots, does not start with a dot and ends in \<open>.log\<close>, so no module name leads out
  of the log directory.
\<close>

theorem custom_log_file_safe:
  defines "name \<equiv> \<lambda>key. build_custom_log_file_name key"
  shows "list_all file_char (name key) \<and> hd (name key) \<noteq> CHR ''.'' \<and> CHR ''/'' \<notin> set (name key) \<and>
    (\<exists>stem. stem \<noteq> [] \<and> name key = stem @ ''.log'')"
proof -
  define stem where "stem = strip_marks (map (\<lambda>c. if file_char c then c else CHR ''_'') key)"
  have n: "name key = (if stem = [] then ''bt_api'' else stem) @ ''.log''"
    by (simp add: name_def build_custom_log_file_name_def stem_def)
  have chars: "\<forall>c \<in> set stem. file_char c"
    unfolding stem_def by (rule strip_marks_chars) (auto simp: file_char_def)
  have log: "list_all file_char ''.log''" "list_all file_char ''bt_api''" by code_simp+
  have "list_all file_char (name key)" using chars log by (auto simp: n list_all_iff)
  moreover have "\<not> file_char (CHR ''/'')" by code_simp
  ultimately have "CHR ''/'' \<notin> set (name key)" by (auto simp: list_all_iff)
  moreover have "hd (name key) \<noteq> CHR ''.''" using strip_marks_hd [of "map (\<lambda>c. if file_char c then c else CHR ''_'') key"]
    by (auto simp: n stem_def [symmetric])
  ultimately show ?thesis using \<open>list_all file_char (name key)\<close> by (auto simp: n)
qed

section \<open>One logger for a module\<close>

lemma get_logger_again:
  "get_logger log_dir logs_dir key p s = (proxy, s1) \<Longrightarrow> get_logger log_dir' logs_dir' key p s1 = (proxy, s1)"
  by (auto simp: get_logger_def Let_def split: option.splits prod.splits)

text \<open>A logger has at most one file, whatever files are asked for under its name.\<close>

definition one_file :: "log_state \<Rightarrow> bool" where
  "one_file s \<longleftrightarrow> (\<forall>name. \<exists>f. log_handlers_of s name \<in> {[], [FileHandler f], [FileHandler f, StreamHandler]})"

type_synonym log_call = "string option \<times> string \<times> string \<times> bool"

definition log_step :: "log_state \<Rightarrow> log_call \<Rightarrow> log_state" where
  "log_step s c = (case c of (log_dir, logs_dir, key, p) \<Rightarrow> snd (get_logger log_dir logs_dir key p s))"

lemma create_logger_one_file: "one_file s \<Longrightarrow> one_file (snd (create_logger file name p s))"
  by (auto simp: create_logger_def one_file_def log_handlers_of_def dget_default_def Let_def split: option.splits)

interpretation log_calls: op_system ls_new log_step one_file
proof unfold_locales
  show "one_file ls_new" by (simp add: one_file_def ls_new_def log_handlers_of_def dget_default_def)
  show "one_file (log_step s c)" if "one_file s" for s c
  proof -
    have "log_step s c = s \<or> (\<exists>file name p. ls_std (log_step s c) = ls_std (snd (create_logger file name p s)))"
      unfolding log_step_def get_logger_def Let_def case_prod_beta by (auto split: option.split)
    with that create_logger_one_file [OF that] show ?thesis by (auto simp: one_file_def log_handlers_of_def) metis
  qed
qed

lemma loggers_have_one_file: "one_file (foldl log_step ls_new calls)"
  by (rule log_calls.reach_inv)

text \<open>A module that had a logger without a console never gets one with it.\<close>

lemma print_info_ignored:
  "log_handlers_of (foldl log_step ls_new [(None, ''logs'', m, False), (None, ''logs'', m, True)])
     (case dget module_log_map m of Some (_, name) \<Rightarrow> name | None \<Rightarrow> m) =
   [FileHandler (normalize_file_name ''logs''
      (case dget module_log_map m of Some (file, _) \<Rightarrow> file | None \<Rightarrow> build_custom_log_file_name m))]"
  by (cases "dget module_log_map m")
    (auto simp: log_step_def get_logger_def create_logger_def resolve_log_file_name_def ls_new_def log_handlers_of_def
      dget_default_def Let_def)

text \<open>Two modules may share a file, each with a handler of its own.\<close>

lemma modules_share_file:
  "build_custom_log_file_name ''ws/okx'' = build_custom_log_file_name ''ws_okx'' \<and>
   map (log_handlers_of (foldl log_step ls_new [(None, ''logs'', ''ws/okx'', False), (None, ''logs'', ''ws_okx'', False)]))
     [''ws/okx'', ''ws_okx''] = [[FileHandler ''logs/ws_okx.log''], [FileHandler ''logs/ws_okx.log'']]"
  by code_simp

end
