(* ===== verification/Discovery.thy ===== *)
theory Discovery
  imports RegistryCorrect
begin

text \<open>
  Model of how plugins and gateway adapters are found: the discovery of entry points of
  \<open>src/bt_api_base/plugins/loader.py\<close>, the adapter classes of \<open>gateway/runtime_remote.py\<close> with
  the loading of the plugins they may need, \<open>_resolve_adapter\<close> of \<open>gateway/runtime.py\<close>, and the
  attributes of \<open>gateway/adapters/plugin_adapter.py\<close>. What is installed is a parameter.
\<close>

section \<open>Entry points\<close>

text \<open>An entry point as \<open>importlib.metadata\<close> describes it; empty texts are absent attributes.\<close>

record raw_entry =
  re_name :: string
  re_group :: "string option"
  re_module :: string
  re_value :: string

text \<open>The aggregate index, in the forms of the supported Python versions.\<close>

datatype entry_index =
    IndexRaises | Selectable "raw_entry list" | ByGroup "(string, raw_entry list) dict" | PlainList "raw_entry list"

text \<open>
  A distribution is the entry points its metadata yields and whether reading them raises after
  these.
\<close>

type_synonym distribution = "raw_entry list \<times> bool"

definition entry_identity :: "raw_entry \<Rightarrow> string" where
  "entry_identity e = (if re_value e \<noteq> [] then re_value e else re_name e)"

fun add_entries ::
    "string \<Rightarrow> raw_entry list \<Rightarrow> raw_entry list \<times> string pyset \<Rightarrow> raw_entry list \<times> string pyset" where
  "add_entries grp [] acc = acc"
| "add_entries grp (e # es) (found, seen) =
     (if re_group e \<noteq> Some grp \<or> entry_identity e \<in> set seen then add_entries grp es (found, seen)
      else add_entries grp es (found @ [e], sadd (entry_identity e) seen))"

text \<open>A distribution that raises keeps what it yielded; the next ones are read.\<close>

definition entry_points_from_distributions :: "string \<Rightarrow> distribution list \<Rightarrow> raw_entry list" where
  "entry_points_from_distributions grp dists =
     fst (foldl (\<lambda>acc (es, raises). add_entries grp es acc) ([], []) dists)"

definition discover_entry_points :: "string \<Rightarrow> entry_index \<Rightarrow> distribution list \<Rightarrow> raw_entry list" where
  "discover_entry_points grp index dists =
     (case index of
        IndexRaises \<Rightarrow> entry_points_from_distributions grp dists
      | Selectable es \<Rightarrow> filter (\<lambda>e. re_group e = Some grp) es
      | ByGroup d \<Rightarrow> dget_default d grp []
      | PlainList es \<Rightarrow> filter (\<lambda>e. re_group e = Some grp) es)"

definition entry_point_module :: "raw_entry \<Rightarrow> string" where
  "entry_point_module e =
     (if re_module e \<noteq> [] then re_module e
      else if CHR '':'' \<in> set (re_value e) then takeWhile (\<lambda>c. c \<noteq> CHR '':'') (re_value e)
      else [])"

text \<open>\<open>load_all\<close> over what was discovered; \<open>load\<close> says what importing an entry point gives.\<close>

definition entry_of :: "(raw_entry \<Rightarrow> 'c plugin_load) \<Rightarrow> raw_entry \<Rightarrow> 'c entry_point" where
  "entry_of load e = \<lparr>ep_name = re_name e, ep_module = entry_point_module e, ep_load = load e\<rparr>"

definition load_discovered ::
    "(string \<Rightarrow> plugin_error + bool) \<Rightarrow> (raw_entry \<Rightarrow> 'c plugin_load) \<Rightarrow> string \<Rightarrow> entry_index
     \<Rightarrow> distribution list \<Rightarrow> 'c PluginLoader \<Rightarrow> 'c PluginLoader" where
  "load_discovered core_ok load grp index dists s =
     load_all core_ok s (map (entry_of load) (discover_entry_points grp index dists))"

section \<open>Adapter classes of the remote runtime\<close>

text \<open>
  \<open>at_own\<close> is \<open>GatewayRuntime.ADAPTER_REGISTRY\<close>, \<open>at_shared\<close> the table of
  \<open>GatewayRuntimeRegistrar\<close>, \<open>at_exchanges\<close> the one registry of exchanges.
\<close>

record 'c adapter_tables =
  at_own :: "(string, 'c) dict"
  at_shared :: "(string, 'c) dict"
  at_exchanges :: "'c ExchangeRegistry"
  at_plugins_loaded :: bool

text \<open>\<open>installed\<close> is what \<open>load_all\<close> of a new loader does: the plugins it finds.\<close>

definition ensure_plugins_loaded ::
    "(string \<Rightarrow> plugin_error + bool) \<Rightarrow> 'c entry_point list \<Rightarrow> 'c adapter_tables \<Rightarrow> 'c adapter_tables" where
  "ensure_plugins_loaded core_ok installed t =
     (if at_plugins_loaded t then t
      else let ld = load_all core_ok
             \<lparr>ld_registry = at_exchanges t, ld_runtime = at_shared t, ld_loaded = [], ld_failed = [], ld_skipped = []\<rparr>
             installed
           in t\<lparr>at_exchanges := ld_registry ld, at_shared := ld_runtime ld, at_plugins_loaded := True\<rparr>)"

definition remote_register_adapter :: "string \<Rightarrow> 'c \<Rightarrow> 'c adapter_tables \<Rightarrow> 'c adapter_tables" where
  "remote_register_adapter exchange_type c t =
     (let normalized = normalize_type exchange_type
      in t\<lparr>at_own := dset normalized c (at_own t), at_shared := register_adapter normalized c (at_shared t)\<rparr>)"

definition get_adapter_class ::
    "(string \<Rightarrow> plugin_error + bool) \<Rightarrow> 'c entry_point list \<Rightarrow> string \<Rightarrow> 'c adapter_tables
     \<Rightarrow> (pyerr + 'c) \<times> 'c adapter_tables" where
  "get_adapter_class core_ok installed exchange_type t =
     (let normalized = normalize_type exchange_type
      in case dget (at_own t) normalized of
           Some c \<Rightarrow> (Inr c, t)
         | None \<Rightarrow>
             (let t1 = ensure_plugins_loaded core_ok installed t
              in case get_adapter (at_shared t1) normalized of
                   None \<Rightarrow> (Inl ValueError, t1)
                 | Some c \<Rightarrow> (Inr c, t1\<lparr>at_own := dset normalized c (at_own t1)\<rparr>)))"

section \<open>Adapter classes of the local runtime\<close>

definition default_plugins :: "(string, string) dict" where
  "default_plugins =
     [(''CTP'', ''bt_api_ctp.plugin''), (''IB_WEB'', ''bt_api_ib_web.plugin''), (''MT5'', ''bt_api_mt5.plugin''),
      (''BINANCE'', ''bt_api_binance.plugin''), (''OKX'', ''bt_api_okx.plugin'')]"

text \<open>
  \<open>plugin\<close> says what importing a module and calling its \<open>register_plugin\<close>, if it has one, does:
  the calls it makes on the shared tables and whether an exception ends it.
\<close>

fun run_shared_calls ::
    "'c plugin_call list \<Rightarrow> 'c ExchangeRegistry \<times> (string, 'c) dict \<Rightarrow> 'c ExchangeRegistry \<times> (string, 'c) dict" where
  "run_shared_calls [] s = s"
| "run_shared_calls (CallFeed n c # cs) (r, a) = run_shared_calls cs (register_feed n c r, a)"
| "run_shared_calls (CallStream n t c # cs) (r, a) = run_shared_calls cs (register_stream n t c r, a)"
| "run_shared_calls (CallExchangeData n c # cs) (r, a) = run_shared_calls cs (register_exchange_data n c r, a)"
| "run_shared_calls (CallBalance n c # cs) (r, a) = run_shared_calls cs (register_balance_handler n c r, a)"
| "run_shared_calls (CallAdapter t c # cs) (r, a) = run_shared_calls cs (r, register_adapter t c a)"

definition load_default_plugin ::
    "(string \<Rightarrow> 'c plugin_call list \<times> bool) \<Rightarrow> string \<Rightarrow> 'c adapter_tables \<Rightarrow> bool \<times> 'c adapter_tables" where
  "load_default_plugin plugin exchange_type t =
     (case dget default_plugins exchange_type of
        None \<Rightarrow> (False, t)
      | Some module_name \<Rightarrow>
          (let (calls, raises) = plugin module_name;
               (r, a) = run_shared_calls calls (at_exchanges t, at_shared t)
           in (raises, t\<lparr>at_exchanges := r, at_shared := a\<rparr>)))"

datatype resolve_error = PluginRaised | NoAdapter

definition resolve_adapter ::
    "(string \<Rightarrow> 'c plugin_call list \<times> bool) \<Rightarrow> string \<Rightarrow> 'c adapter_tables \<Rightarrow> (resolve_error + 'c) \<times> 'c adapter_tables" where
  "resolve_adapter plugin exchange_type t =
     (let exchange = normalize_type exchange_type
      in case get_adapter (at_shared t) exchange of
           Some c \<Rightarrow> (Inr c, t)
         | None \<Rightarrow>
             (case load_default_plugin plugin exchange t of
                (True, t1) \<Rightarrow> (Inl PluginRaised, t1)
              | (False, t1) \<Rightarrow>
                  (case get_adapter (at_shared t1) exchange of
                     None \<Rightarrow> (Inl NoAdapter, t1)
                   | Some c \<Rightarrow> (Inr c, t1))))"

section \<open>Attributes of a plugin adapter\<close>

text \<open>
  The instance dict of the adapter, the attributes of its client and the names the class defines.
\<close>

record 'v plugin_adapter =
  pa_own :: "(string, 'v) dict"
  pa_client :: "(string, 'v) dict option"

definition local_attrs :: "string list" where
  "local_attrs = [''client'', ''direct_client_cls'', ''kwargs'', ''logger'', ''output_queue'']"

definition pa_setattr :: "string list \<Rightarrow> string \<Rightarrow> 'v \<Rightarrow> 'v plugin_adapter \<Rightarrow> 'v plugin_adapter" where
  "pa_setattr class_names name v a =
     (case pa_client a of
        Some c \<Rightarrow>
          if name \<notin> set local_attrs \<and> name \<notin> set class_names then a\<lparr>pa_client := Some (dset name v c)\<rparr>
          else a\<lparr>pa_own := dset name v (pa_own a)\<rparr>
      | None \<Rightarrow> a\<lparr>pa_own := dset name v (pa_own a)\<rparr>)"

text \<open>
  A lookup finds the instance's own value, then a name of the class, and asks the client last;
  without a client \<open>__getattr__\<close> looks up \<open>client\<close> again and again.
\<close>

datatype 'v attribute = Value 'v | ClassAttribute | NoAttribute | EndlessLookup

definition pa_getattr :: "string list \<Rightarrow> string \<Rightarrow> 'v plugin_adapter \<Rightarrow> 'v attribute" where
  "pa_getattr class_names name a =
     (case dget (pa_own a) name of
        Some v \<Rightarrow> Value v
      | None \<Rightarrow>
          if name \<in> set class_names then ClassAttribute
          else case pa_client a of
                 Some c \<Rightarrow> (case dget c name of Some v \<Rightarrow> Value v | None \<Rightarrow> NoAttribute)
               | None \<Rightarrow> EndlessLookup)"

section \<open>Discovery\<close>

lemma add_entries_spec:
  assumes "add_entries grp es (found, seen) = (found', seen')" "distinct (map entry_identity found)"
    "set seen = entry_identity ` set found"
  shows "distinct (map entry_identity found') \<and> set seen' = entry_identity ` set found' \<and>
    set found' \<subseteq> set found \<union> {e \<in> set es. re_group e = Some grp} \<and>
    entry_identity ` set found' = entry_identity ` (set found \<union> {e \<in> set es. re_group e = Some grp})"
  using assms
proof (induction grp es "(found, seen)" arbitrary: found seen rule: add_entries.induct)
  case (2 grp e es found seen)
  show ?case
  proof (cases "re_group e \<noteq> Some grp \<or> entry_identity e \<in> set seen")
    case True
    then have "add_entries grp es (found, seen) = (found', seen')" using "2.prems"(1) by simp
    from "2.hyps"(1) [OF True this "2.prems"(2,3)] True "2.prems"(3) show ?thesis
      by (auto simp: image_Un)
  next
    case False
    then have a: "add_entries grp es (found @ [e], sadd (entry_identity e) seen) = (found', seen')"
      using "2.prems"(1) by simp
    have d: "distinct (map entry_identity (found @ [e]))" using False "2.prems"(2,3) by simp
    have s: "set (sadd (entry_identity e) seen) = entry_identity ` set (found @ [e])" using "2.prems"(3) by simp
    from "2.hyps"(2) [OF False a d s] False show ?thesis by (auto simp: image_Un)
  qed
qed simp

text \<open>
  When the aggregate index is broken the distributions are scanned one by one: each identity
  of the group is found once, nothing of another group is, and everything that any distribution
  yields before it breaks is found, whatever the others do.
\<close>

theorem scan_finds_all:
  defines "yielded \<equiv> \<lambda>dists grp. {e \<in> \<Union> (set ` fst ` set dists). re_group e = Some grp}"
  shows "distinct (map entry_identity (discover_entry_points grp IndexRaises dists)) \<and>
    set (discover_entry_points grp IndexRaises dists) \<subseteq> yielded dists grp \<and>
    entry_identity ` set (discover_entry_points grp IndexRaises dists) = entry_identity ` yielded dists grp"
proof -
  define run where "run = foldl (\<lambda>acc (es, raises :: bool). add_entries grp es acc)"
  have "distinct (map entry_identity found') \<and> set seen' = entry_identity ` set found' \<and>
      set found' \<subseteq> set found \<union> yielded ds grp \<and>
      entry_identity ` set found' = entry_identity ` (set found \<union> yielded ds grp)"
    if "run (found, seen) ds = (found', seen')" "distinct (map entry_identity found)" "set seen = entry_identity ` set found"
    for ds found seen found' seen'
    using that
  proof (induction ds arbitrary: found seen)
    case Nil
    then show ?case by (simp add: run_def yielded_def)
  next
    case (Cons d ds)
    obtain es raises where d: "d = (es, raises)" by fastforce
    obtain f1 s1 where a: "add_entries grp es (found, seen) = (f1, s1)" by fastforce
    note one = add_entries_spec [OF a Cons.prems(2,3)]
    have "run (f1, s1) ds = (found', seen')" using Cons.prems(1) by (simp add: run_def d a)
    from Cons.IH [OF this] one
    have rest: "distinct (map entry_identity found')" "set seen' = entry_identity ` set found'"
      "set found' \<subseteq> set f1 \<union> yielded ds grp"
      "entry_identity ` set found' = entry_identity ` set f1 \<union> entry_identity ` yielded ds grp"
      by (auto simp: image_Un)
    have y: "yielded (d # ds) grp = {e \<in> set es. re_group e = Some grp} \<union> yielded ds grp"
      by (auto simp: yielded_def d)
    from one rest show ?case by (auto simp: y image_Un)
  qed
  from this [of "[]" "[]" dists] show ?thesis
    by (cases "run ([], []) dists") (simp add: discover_entry_points_def entry_points_from_distributions_def run_def)
qed

section \<open>Adapter classes\<close>

datatype 'c adapter_op = LookUp string | RegisterClass string 'c

fun adapter_step ::
    "(string \<Rightarrow> plugin_error + bool) \<Rightarrow> 'c entry_point list \<Rightarrow> 'c adapter_tables \<Rightarrow> 'c adapter_op \<Rightarrow> 'c adapter_tables" where
  "adapter_step core_ok installed t (LookUp x) = snd (get_adapter_class core_ok installed x t)"
| "adapter_step core_ok installed t (RegisterClass x c) = remote_register_adapter x c t"

lemma ensure_plugins_loaded_own [simp]: "at_own (ensure_plugins_loaded core_ok installed t) = at_own t"
  by (simp add: ensure_plugins_loaded_def Let_def)

lemma adapter_step_own:
  assumes "dget (at_own t) n = Some c" "\<forall>y d. x = RegisterClass y d \<longrightarrow> normalize_type y \<noteq> n"
  shows "dget (at_own (adapter_step core_ok installed t x)) n = Some c"
  using assms
  by (cases x) (auto simp: get_adapter_class_def remote_register_adapter_def Let_def split: option.split)

lemma lookup_own: "dget (at_own t) (normalize_type x) = Some c \<Longrightarrow> get_adapter_class core_ok installed x t = (Inr c, t)"
  by (simp add: get_adapter_class_def)

text \<open>
  Once a gateway has been given the adapter class of an exchange type it is given the same
  one, whatever types are looked up or registered afterwards and whatever plugins that loads, as
  long as no class is registered for that type, in any spelling of it.
\<close>

theorem adapter_class_stable:
  assumes "get_adapter_class core_ok installed x t = (Inr c, t1)"
    and "\<forall>op \<in> set ops. \<forall>y d. op = RegisterClass y d \<longrightarrow> normalize_type y \<noteq> normalize_type x"
    and "normalize_type z = normalize_type x"
  shows "fst (get_adapter_class core_ok installed z (foldl (adapter_step core_ok installed) t1 ops)) = Inr c"
proof -
  have "dget (at_own t1) (normalize_type x) = Some c"
    using assms(1) by (auto simp: get_adapter_class_def Let_def split: option.splits)
  then have "dget (at_own (foldl (adapter_step core_ok installed) t1 ops)) (normalize_type x) = Some c"
    using assms(2)
  proof (induction ops arbitrary: t1)
    case (Cons a ops)
    then show ?case using adapter_step_own [of t1 "normalize_type x" c a core_ok installed] by simp
  qed simp
  with assms(3) show ?thesis by (simp add: lookup_own)
qed

definition no_adapters :: "'c adapter_tables" where
  "no_adapters = \<lparr>at_own = [], at_shared = [], at_exchanges = create_isolated, at_plugins_loaded = True\<rparr>"

theorem adapter_class_stable_witness:
  "fst (get_adapter_class (\<lambda>_. Inr True) [] ''OKX'' (foldl (adapter_step (\<lambda>_. Inr True) [])
     (snd (get_adapter_class (\<lambda>_. Inr True) [] '' okx'' (remote_register_adapter ''Okx'' (7 :: nat) no_adapters)))
     [LookUp ''CTP'', RegisterClass ''CTP'' 8])) = Inr 7"
proof (rule adapter_class_stable)
  show "get_adapter_class (\<lambda>_. Inr True) [] '' okx'' (remote_register_adapter ''Okx'' (7 :: nat) no_adapters) =
      (Inr 7, snd (get_adapter_class (\<lambda>_. Inr True) [] '' okx'' (remote_register_adapter ''Okx'' (7 :: nat) no_adapters)))"
    by (rule prod_eqI) (code_simp, simp)
  have "normalize_type ''CTP'' \<noteq> normalize_type '' okx''" by code_simp
  then show "\<forall>op \<in> set [LookUp ''CTP'', RegisterClass ''CTP'' (8 :: nat)].
      \<forall>y d. op = RegisterClass y d \<longrightarrow> normalize_type y \<noteq> normalize_type '' okx''" by simp
  show "normalize_type ''OKX'' = normalize_type '' okx''" by code_simp
qed

text \<open>A second class for a type reaches the remote runtime, while the local one keeps the first.\<close>

lemma registrations_diverge:
  fixes c d :: 'c
  assumes "dget (at_shared t) (normalize_type x) = None"
  defines "t2 \<equiv> remote_register_adapter x d (remote_register_adapter x c t)"
  shows "fst (get_adapter_class core_ok installed x t2) = Inr d \<and> fst (resolve_adapter plugin x t2) = Inr c"
  using assms
  by (simp add: get_adapter_class_def resolve_adapter_def remote_register_adapter_def register_adapter_def
      get_adapter_def Let_def)

text \<open>A default plugin that raises half way leaves what it registered: the next attempt gives it.\<close>

lemma half_loaded_plugin_stays:
  assumes "dget (at_shared t) ''CTP'' = None" "plugin ''bt_api_ctp.plugin'' = ([CallAdapter ''CTP'' c], True)"
  shows "fst (resolve_adapter plugin ''CTP'' t) = Inl PluginRaised \<and>
    fst (resolve_adapter plugin ''CTP'' (snd (resolve_adapter plugin ''CTP'' t))) = Inr c"
proof -
  have n: "normalize_type ''CTP'' = ''CTP''" by code_simp
  show ?thesis using assms
    by (simp add: resolve_adapter_def load_default_plugin_def default_plugins_def get_adapter_def register_adapter_def n)
qed

section \<open>Attributes\<close>

text \<open>
  An attribute reads as it was written, unless the adapter itself got one of that name before it
  had a client.
\<close>

lemma attribute_roundtrip:
  assumes "pa_client a \<noteq> None" "name \<in> set local_attrs \<or> name \<in> set class_names \<or> dget (pa_own a) name = None"
  shows "pa_getattr class_names name (pa_setattr class_names name v a) = Value v"
  using assms by (auto simp: pa_getattr_def pa_setattr_def split: option.splits)

end
