(* ===== verification/AsyncPrimitives.thy ===== *)
theory AsyncPrimitives
  imports Resilience
begin

text \<open>
  Model of the wrappers around asyncio of \<open>src/bt_api_base/core/async_context.py\<close>:
  \<open>_TimeoutContext\<close>, \<open>AsyncSemaphore\<close> and \<open>AsyncQueue\<close>, and the checks of exception arguments.
  Tasks run one at a time between their awaits; a call that must wait gets its permit, room or
  item when another task gives it, in the order of waiting, or gives up at its timeout. A task
  that is woken goes on before another one takes what it was woken for.
\<close>

section \<open>Checks\<close>

datatype class_arg = ExceptionClass | OtherClass | NoClass

definition validate_timeout :: "time option \<Rightarrow> unit py" where
  "validate_timeout timeout = (case timeout of None \<Rightarrow> Inr () | Some t \<Rightarrow> validate_positive_number t)"

definition validate_exception_types :: "class_arg list \<Rightarrow> unit py" where
  "validate_exception_types exceptions =
     (if exceptions = [] then Inl ValueError
      else if list_all (\<lambda>x. x = ExceptionClass) exceptions then Inr () else Inl TypeError)"

definition validate_expected_exception :: "class_arg \<Rightarrow> unit py" where
  "validate_expected_exception x = (if x = ExceptionClass then Inr () else Inl TypeError)"

section \<open>\<open>_TimeoutContext\<close>\<close>

text \<open>
  \<open>tc_timer\<close>: the timer is set and has not run. \<open>tc_requests\<close> counts the cancellations asked of
  the task, by the timer or from outside.
\<close>

record timeout_context =
  tc_timer :: bool
  tc_cancelled :: bool
  tc_task_done :: bool
  tc_requests :: nat

definition tc_enter :: timeout_context where
  "tc_enter = \<lparr>tc_timer = True, tc_cancelled = False, tc_task_done = False, tc_requests = 0\<rparr>"

text \<open>The timer runs, unless it was cancelled.\<close>

definition tc_cancel_task :: "timeout_context \<Rightarrow> timeout_context" where
  "tc_cancel_task c =
     (if \<not> tc_timer c then c
      else if tc_task_done c then c\<lparr>tc_timer := False\<rparr>
      else c\<lparr>tc_timer := False, tc_cancelled := True, tc_requests := tc_requests c + 1\<rparr>)"

datatype 'e body_end = BodyReturns | BodyRaises 'e | BodyCancelled

datatype 'e exit_result = Passes "'e body_end" | RaisesTimeout

definition tc_exit :: "'e body_end \<Rightarrow> timeout_context \<Rightarrow> 'e exit_result \<times> timeout_context" where
  "tc_exit body c =
     (if body = BodyCancelled \<and> tc_cancelled c then RaisesTimeout else Passes body, c\<lparr>tc_timer := False\<rparr>)"

datatype tc_event = TimerRuns | OuterCancel

fun tc_step :: "timeout_context \<Rightarrow> tc_event \<Rightarrow> timeout_context" where
  "tc_step c TimerRuns = tc_cancel_task c"
| "tc_step c OuterCancel = c\<lparr>tc_requests := tc_requests c + 1\<rparr>"

lemma tc_run:
  "tc_task_done c = False \<Longrightarrow>
   tc_cancelled (foldl tc_step c es) = (tc_cancelled c \<or> tc_timer c \<and> TimerRuns \<in> set es) \<and>
   tc_timer (foldl tc_step c es) = (tc_timer c \<and> TimerRuns \<notin> set es) \<and> tc_task_done (foldl tc_step c es) = False"
proof (induction es arbitrary: c)
  case (Cons e es)
  then show ?case by (cases e) (auto simp: tc_cancel_task_def)
qed simp

text \<open>
  The block ends with a timeout exactly when its timer ran while it was running and the body
  ended by a cancellation; after the block the timer never cancels the task.
\<close>

theorem timeout_context_spec:
  "fst (tc_exit body (foldl tc_step tc_enter es)) = (if body = BodyCancelled \<and> TimerRuns \<in> set es then RaisesTimeout else Passes body) \<and>
   tc_requests (tc_cancel_task (snd (tc_exit body (foldl tc_step tc_enter es)))) =
     tc_requests (snd (tc_exit body (foldl tc_step tc_enter es)))"
  using tc_run [of tc_enter es] by (auto simp: tc_exit_def tc_enter_def tc_cancel_task_def)

text \<open>A cancellation from outside that comes with the timer is turned into a timeout.\<close>

lemma outer_cancel_lost:
  "fst (tc_exit BodyCancelled (foldl tc_step tc_enter [OuterCancel, TimerRuns])) = RaisesTimeout"
  by (simp add: tc_exit_def tc_enter_def tc_cancel_task_def)

section \<open>\<open>AsyncSemaphore\<close>\<close>

text \<open>\<open>sm_waiting\<close> has the tasks that wait, the first to wait first.\<close>

record AsyncSemaphore =
  sm_permits :: nat
  sm_waiting :: "nat list"

definition sm_init :: "int \<Rightarrow> AsyncSemaphore py" where
  "sm_init max_concurrent =
     (case validate_positive_int max_concurrent of
        Inl e \<Rightarrow> Inl e | Inr _ \<Rightarrow> Inr \<lparr>sm_permits = nat max_concurrent, sm_waiting = []\<rparr>)"

datatype grant = Granted | Queues | Rejected pyerr

definition sm_acquire :: "nat \<Rightarrow> time option \<Rightarrow> AsyncSemaphore \<Rightarrow> grant \<times> AsyncSemaphore" where
  "sm_acquire task timeout s =
     (case validate_timeout timeout of
        Inl e \<Rightarrow> (Rejected e, s)
      | Inr _ \<Rightarrow>
          if 0 < sm_permits s \<and> sm_waiting s = [] then (Granted, s\<lparr>sm_permits := sm_permits s - 1\<rparr>)
          else (Queues, s\<lparr>sm_waiting := sm_waiting s @ [task]\<rparr>))"

text \<open>\<open>release\<close> wakes the first that waits, which takes the permit.\<close>

definition sm_release :: "AsyncSemaphore \<Rightarrow> nat option \<times> AsyncSemaphore" where
  "sm_release s =
     (case sm_waiting s of
        [] \<Rightarrow> (None, s\<lparr>sm_permits := sm_permits s + 1\<rparr>)
      | task # rest \<Rightarrow> (Some task, s\<lparr>sm_waiting := rest\<rparr>))"

text \<open>The timeout of a task that waits.\<close>

definition sm_give_up :: "nat \<Rightarrow> AsyncSemaphore \<Rightarrow> AsyncSemaphore" where
  "sm_give_up task s = s\<lparr>sm_waiting := remove1 task (sm_waiting s)\<rparr>"

section \<open>\<open>AsyncQueue\<close>\<close>

text \<open>A size of 0 is no bound. Waiting getters and putters are tasks in the order of waiting.\<close>

record 'a AsyncQueue =
  aq_maxsize :: nat
  aq_items :: "'a list"
  aq_getters :: "nat list"
  aq_putters :: "(nat \<times> 'a) list"

definition aq_init :: "int \<Rightarrow> 'a AsyncQueue py" where
  "aq_init maxsize =
     (if maxsize < 0 then Inl ValueError
      else Inr \<lparr>aq_maxsize = nat maxsize, aq_items = [], aq_getters = [], aq_putters = []\<rparr>)"

definition aq_full :: "'a AsyncQueue \<Rightarrow> bool" where
  "aq_full q \<longleftrightarrow> 0 < aq_maxsize q \<and> aq_maxsize q \<le> length (aq_items q)"

definition aq_empty :: "'a AsyncQueue \<Rightarrow> bool" where
  "aq_empty q \<longleftrightarrow> aq_items q = []"

datatype 'a delivery = NoDelivery | ToGetter nat 'a

text \<open>\<open>put\<close>: the item goes to the first getter that waits, into the queue, or waits for room.\<close>

definition aq_put :: "nat \<Rightarrow> 'a \<Rightarrow> time option \<Rightarrow> 'a AsyncQueue \<Rightarrow> (grant \<times> 'a delivery) \<times> 'a AsyncQueue" where
  "aq_put task x timeout q =
     (case validate_timeout timeout of
        Inl e \<Rightarrow> ((Rejected e, NoDelivery), q)
      | Inr _ \<Rightarrow>
          if aq_full q then ((Queues, NoDelivery), q\<lparr>aq_putters := aq_putters q @ [(task, x)]\<rparr>)
          else case aq_getters q of
                 g # rest \<Rightarrow> ((Granted, ToGetter g (hd (aq_items q @ [x]))),
                              q\<lparr>aq_getters := rest, aq_items := tl (aq_items q @ [x])\<rparr>)
               | [] \<Rightarrow> ((Granted, NoDelivery), q\<lparr>aq_items := aq_items q @ [x]\<rparr>))"

text \<open>\<open>get\<close>: the first item, or waiting; the room it leaves goes to the first putter.\<close>

definition aq_get :: "nat \<Rightarrow> time option \<Rightarrow> 'a AsyncQueue \<Rightarrow> (grant \<times> 'a option) \<times> 'a AsyncQueue" where
  "aq_get task timeout q =
     (case validate_timeout timeout of
        Inl e \<Rightarrow> ((Rejected e, None), q)
      | Inr _ \<Rightarrow>
          (case aq_items q of
             [] \<Rightarrow> ((Queues, None), q\<lparr>aq_getters := aq_getters q @ [task]\<rparr>)
           | x # xs \<Rightarrow>
               (case aq_putters q of
                  [] \<Rightarrow> ((Granted, Some x), q\<lparr>aq_items := xs\<rparr>)
                | (_, y) # rest \<Rightarrow> ((Granted, Some x), q\<lparr>aq_items := xs @ [y], aq_putters := rest\<rparr>))))"

definition aq_give_up :: "nat \<Rightarrow> 'a AsyncQueue \<Rightarrow> 'a AsyncQueue" where
  "aq_give_up task q =
     q\<lparr>aq_getters := remove1 task (aq_getters q), aq_putters := filter (\<lambda>p. fst p \<noteq> task) (aq_putters q)\<rparr>"

section \<open>Order and bounds\<close>

datatype 'a aq_op = Put nat 'a "time option" | Get nat "time option" | GiveUp nat

text \<open>A run: the queue, and the items handed out so far.\<close>

fun aq_step :: "'a AsyncQueue \<times> 'a list \<Rightarrow> 'a aq_op \<Rightarrow> 'a AsyncQueue \<times> 'a list" where
  "aq_step (q, out) (Put task x timeout) =
     (case aq_put task x timeout q of
        ((_, ToGetter _ y), q1) \<Rightarrow> (q1, out @ [y]) | ((_, NoDelivery), q1) \<Rightarrow> (q1, out))"
| "aq_step (q, out) (Get task timeout) =
     (case aq_get task timeout q of
        ((_, Some y), q1) \<Rightarrow> (q1, out @ [y]) | ((_, None), q1) \<Rightarrow> (q1, out))"
| "aq_step (q, out) (GiveUp task) = (aq_give_up task q, out)"

text \<open>Nobody waits for what is there.\<close>

definition aq_ok :: "nat \<Rightarrow> 'a AsyncQueue \<times> 'a list \<Rightarrow> bool" where
  "aq_ok m s \<longleftrightarrow> (case s of (q, out) \<Rightarrow>
     aq_maxsize q = m \<and> (0 < m \<longrightarrow> length (aq_items q) \<le> m) \<and>
     (aq_getters q \<noteq> [] \<longrightarrow> aq_items q = []) \<and> (aq_putters q \<noteq> [] \<longrightarrow> aq_full q))"

definition aq_new :: "nat \<Rightarrow> 'a AsyncQueue" where
  "aq_new m = \<lparr>aq_maxsize = m, aq_items = [], aq_getters = [], aq_putters = []\<rparr>"

lemma aq_give_up_ok: "aq_ok m (q, out) \<Longrightarrow> aq_ok m (aq_give_up task q, out)"
  by (auto simp: aq_ok_def aq_give_up_def aq_full_def)

interpretation aq: op_system "(aq_new m, [])" aq_step "aq_ok m"
proof unfold_locales
  show "aq_ok m (aq_new m, [])" by (simp add: aq_ok_def aq_new_def)
  show "aq_ok m (aq_step s x)" if "aq_ok m s" for s :: "'a AsyncQueue \<times> 'a list" and x
  proof (cases s)
    case (Pair q out)
    show ?thesis
    proof (cases x)
      case (Put task y t)
      with that Pair show ?thesis
        by (auto simp: aq_put_def aq_ok_def aq_full_def not_le split: sum.splits list.splits)
    next
      case (Get task t)
      with that Pair show ?thesis
        by (auto simp: aq_get_def aq_ok_def aq_full_def split: sum.splits list.splits)
    next
      case (GiveUp task)
      with that Pair show ?thesis by (simp add: aq_give_up_ok)
    qed
  qed
qed

text \<open>The items of a run that were put in, in order, when nobody gives up.\<close>

definition puts_of :: "'a aq_op list \<Rightarrow> 'a list" where
  "puts_of ops = concat (map (\<lambda>x. case x of Put _ y t \<Rightarrow> (if validate_timeout t = Inr () then [y] else []) | _ \<Rightarrow> []) ops)"

lemma aq_step_order:
  assumes "aq_ok m (q, out)" "\<forall>task. x \<noteq> GiveUp task" "aq_step (q, out) x = (q1, out1)"
  shows "out1 @ aq_items q1 @ map snd (aq_putters q1) = out @ aq_items q @ map snd (aq_putters q) @ puts_of [x]"
  using assms
  by (cases x) (auto simp: aq_put_def aq_get_def aq_ok_def aq_full_def puts_of_def
      split: sum.splits list.splits if_splits)

text \<open>
  The queue hands out exactly the items put into it, in the order of the calls of \<open>put\<close>, and
  never holds more than its size, while no call gives up at its timeout.
\<close>

theorem async_queue_fifo:
  assumes "\<forall>task. GiveUp task \<notin> set ops" "foldl aq_step (aq_new m, []) ops = (q, out)"
  shows "out @ aq_items q @ map snd (aq_putters q) = puts_of ops \<and> (0 < m \<longrightarrow> length (aq_items q) \<le> m)"
proof -
  have "fst s = q' \<Longrightarrow> snd s = out' \<Longrightarrow> aq_ok m s \<Longrightarrow> \<forall>task. GiveUp task \<notin> set ops \<Longrightarrow> foldl aq_step s ops = (q, out) \<Longrightarrow>
      out @ aq_items q @ map snd (aq_putters q) = out' @ aq_items q' @ map snd (aq_putters q') @ puts_of ops" for s q' out'
  proof (induction ops arbitrary: s q' out')
    case (Cons x ops)
    obtain q1 out1 where s1: "aq_step s x = (q1, out1)" by fastforce
    have ok: "aq_ok m (q1, out1)" using aq.step_inv [OF Cons.prems(3), of x] s1 by simp
    have "out1 @ aq_items q1 @ map snd (aq_putters q1) = out' @ aq_items q' @ map snd (aq_putters q') @ puts_of [x]"
      using Cons.prems s1 by (intro aq_step_order [of m]) auto
    with Cons.IH [of "(q1, out1)" q1 out1] ok Cons.prems s1 show ?case by (simp add: puts_of_def)
  qed (simp add: puts_of_def)
  from this [of "(aq_new m, [])" "aq_new m" "[]"] aq.reach_inv [of m ops] assms show ?thesis
    by (auto simp: aq_new_def aq_ok_def)
qed

definition sample_queue_ops :: "string aq_op list" where
  "sample_queue_ops = [Put 1 ''a'' None, Put 2 ''b'' (Some 1), Get 3 None, Get 4 None]"

theorem async_queue_fifo_witness:
  "snd (foldl aq_step (aq_new 1, []) sample_queue_ops) = puts_of sample_queue_ops \<and> puts_of sample_queue_ops \<noteq> []"
proof -
  have r: "foldl aq_step (aq_new 1, []) sample_queue_ops = (aq_new 1, [''a'', ''b''])" by code_simp
  have n: "\<forall>task. GiveUp task \<notin> set sample_queue_ops" by (simp add: sample_queue_ops_def)
  from async_queue_fifo [OF n r] have "puts_of sample_queue_ops = [''a'', ''b'']" by (simp add: aq_new_def)
  then show ?thesis by (subst r) simp
qed

section \<open>Permits\<close>

datatype sm_op = Acquire nat "time option" | Release | LeaveQueue nat

text \<open>The semaphore and the number of permits that are out.\<close>

fun sm_step :: "AsyncSemaphore \<times> int \<Rightarrow> sm_op \<Rightarrow> AsyncSemaphore \<times> int" where
  "sm_step (s, held) (Acquire task t) =
     (case sm_acquire task t s of (Granted, s1) \<Rightarrow> (s1, held + 1) | (_, s1) \<Rightarrow> (s1, held))"
| "sm_step (s, held) Release = (case sm_release s of (None, s1) \<Rightarrow> (s1, held - 1) | (Some _, s1) \<Rightarrow> (s1, held))"
| "sm_step (s, held) (LeaveQueue task) = (sm_give_up task s, held)"

definition sm_ok :: "nat \<Rightarrow> AsyncSemaphore \<times> int \<Rightarrow> bool" where
  "sm_ok m s \<longleftrightarrow> int (sm_permits (fst s)) + snd s = int m"

interpretation sm: op_system "(\<lparr>sm_permits = m, sm_waiting = []\<rparr>, 0)" sm_step "sm_ok m"
proof unfold_locales
  show "sm_ok m (\<lparr>sm_permits = m, sm_waiting = []\<rparr>, 0)" by (simp add: sm_ok_def)
  show "sm_ok m (sm_step s x)" if "sm_ok m s" for s x
    using that by (cases s; cases x)
      (auto simp: sm_ok_def sm_acquire_def sm_release_def sm_give_up_def split: sum.splits list.splits)
qed

text \<open>At most \<open>max_concurrent\<close> permits are out at a time, whatever waits and gives up.\<close>

lemma semaphore_bound:
  "snd (foldl sm_step (\<lparr>sm_permits = m, sm_waiting = []\<rparr>, 0) ops) \<le> int m"
  using sm.reach_inv [of m ops] by (simp add: sm_ok_def)

end
