(* ===== verification/Containers.thy ===== *)
theory Containers
  imports PyVal
begin

text \<open>
  Model of the data containers that hold logic of their own: \<open>OrderStatus\<close> and \<open>get_all_data\<close> of
  \<open>src/bt_api_base/containers/orders/order.py\<close>, \<open>ExchangeData\<close> of
  \<open>containers/exchanges/exchange_data.py\<close> with its copies, and the reading of timestamps of
  \<open>utils/time.py\<close>.
\<close>

section \<open>Order states\<close>

datatype OrderStatus =
    SUBMITTED | ACCEPTED | PARTIAL_FILL | COMPLETED | CANCELED | REJECTED | MARGIN_STATUS | EXPIRED | MMP_CANCELED
  | EXPIRED_IN_MATCH | UNKNOWN

fun status_value :: "OrderStatus \<Rightarrow> string" where
  "status_value SUBMITTED = ''submitted''"
| "status_value ACCEPTED = ''new''"
| "status_value PARTIAL_FILL = ''partially_filled''"
| "status_value COMPLETED = ''filled''"
| "status_value CANCELED = ''canceled''"
| "status_value REJECTED = ''rejected''"
| "status_value MARGIN_STATUS = ''margin''"
| "status_value EXPIRED = ''expired''"
| "status_value MMP_CANCELED = ''mmp_canceled''"
| "status_value EXPIRED_IN_MATCH = ''expired_in_match''"
| "status_value UNKNOWN = ''unknown''"

definition get_static_dict :: "(string, OrderStatus) dict" where
  "get_static_dict =
     [(''submitted'', SUBMITTED), (''accepted'', ACCEPTED), (''margin'', MARGIN_STATUS), (''NEW'', ACCEPTED),
      (''new'', ACCEPTED), (''live'', ACCEPTED), (''PARTIALLY_FILLED'', PARTIAL_FILL),
      (''partially_filled'', PARTIAL_FILL), (''FILLED'', COMPLETED), (''filled'', COMPLETED),
      (''CANCELED'', CANCELED), (''canceled'', CANCELED), (''REJECTED'', REJECTED), (''EXPIRED'', EXPIRED),
      (''EXPIRED_IN_MATCH'', EXPIRED_IN_MATCH), (''mmp_canceled'', MMP_CANCELED)]"

definition status_from_value :: "string option \<Rightarrow> OrderStatus py" where
  "status_from_value given =
     (case given of
        None \<Rightarrow> Inr REJECTED
      | Some v \<Rightarrow> (case dget get_static_dict v of None \<Rightarrow> Inl ValueError | Some s \<Rightarrow> Inr s))"

text \<open>The text of a state is read back as that state, except for four states, whose own text raises.\<close>

lemma status_text_read_back:
  "status_from_value (Some (status_value s)) =
     (if s \<in> {REJECTED, EXPIRED, EXPIRED_IN_MATCH, UNKNOWN} then Inl ValueError else Inr s)"
  by (cases s) (simp_all add: status_from_value_def get_static_dict_def)

text \<open>Every state but \<open>UNKNOWN\<close> can be read from some text, and reading never gives \<open>UNKNOWN\<close>.\<close>

lemma status_readable: "(\<exists>v. status_from_value v = Inr s) \<longleftrightarrow> s \<noteq> UNKNOWN"
proof -
  have "status_from_value (Some v) \<noteq> Inr UNKNOWN" for v
    by (simp add: status_from_value_def get_static_dict_def split: option.split)
  then have "status_from_value v \<noteq> Inr UNKNOWN" for v by (cases v) (simp_all add: status_from_value_def)
  moreover have "\<exists>v. status_from_value v = Inr s" if "s \<noteq> UNKNOWN"
  proof -
    define own where "own = (case s of REJECTED \<Rightarrow> ''REJECTED'' | EXPIRED \<Rightarrow> ''EXPIRED''
      | EXPIRED_IN_MATCH \<Rightarrow> ''EXPIRED_IN_MATCH'' | _ \<Rightarrow> status_value s)"
    have "status_from_value (Some own) = Inr s"
      using that by (cases s) (simp_all add: own_def status_from_value_def get_static_dict_def)
    then show ?thesis by blast
  qed
  ultimately show ?thesis by blast
qed

section \<open>All data of an order\<close>

datatype order_value = PlainValue pyval | StatusValue OrderStatus

definition order_fields :: "string list" where
  "order_fields =
     [''exchange_name'', ''symbol_name'', ''asset_type'', ''local_update_time'', ''server_time'', ''trade_id'',
      ''client_order_id'', ''cum_quote'', ''executed_qty'', ''order_id'', ''order_size'', ''order_price'',
      ''reduce_only'', ''order_side'', ''order_status'', ''order_symbol_name'', ''order_time_in_force'',
      ''order_type'', ''order_avg_price'', ''origin_order_type'', ''position_side'', ''trailing_stop_price'',
      ''trailing_stop_trigger_price'', ''trailing_stop_callback_rate'', ''trailing_stop_trigger_price_type'',
      ''stop_loss_price'', ''stop_loss_trigger_price'', ''stop_loss_trigger_price_type'', ''take_profit_price'',
      ''take_profit_trigger_price'', ''take_profit_trigger_price_type'', ''close_position'', ''order_offset'',
      ''order_exchange_id'']"

record OrderData =
  od_attrs :: "(string, order_value) dict"
  od_all_data :: "(string, pyval) dict option"

definition od_new :: OrderData where
  "od_new = \<lparr>od_attrs = map (\<lambda>f. (f, PlainValue PNone)) order_fields, od_all_data = None\<rparr>"

definition od_set :: "string \<Rightarrow> order_value \<Rightarrow> OrderData \<Rightarrow> OrderData" where
  "od_set field v od = od\<lparr>od_attrs := dset field v (od_attrs od)\<rparr>"

definition field_data :: "order_value \<Rightarrow> pyval" where
  "field_data v = (case v of PlainValue p \<Rightarrow> p | StatusValue s \<Rightarrow> PStr (status_value s))"

definition get_all_data :: "OrderData \<Rightarrow> (string, pyval) dict \<times> OrderData" where
  "get_all_data od =
     (case od_all_data od of
        Some d \<Rightarrow> (d, od)
      | None \<Rightarrow>
          (let d = map (\<lambda>f. (f, field_data (dget_default (od_attrs od) f (PlainValue PNone)))) order_fields
           in (d, od\<lparr>od_all_data := Some d\<rparr>)))"

text \<open>The dict is made once: what is set afterwards does not reach it.\<close>

lemma all_data_frozen:
  "fst (get_all_data (od_set field v (snd (get_all_data od)))) = fst (get_all_data od)"
  by (auto simp: get_all_data_def od_set_def Let_def split: option.split)

lemma dget_tabulated:
  "dget (map (\<lambda>n. (n, g n)) ns) n = (if n \<in> set ns then Some (g n) else None)"
  by (induction ns) auto

lemma all_data_of_new_values:
  "od_all_data od = None \<Longrightarrow> field \<in> set order_fields \<Longrightarrow>
     dget (fst (get_all_data (od_set field v od))) field = Some (field_data v)"
  by (simp add: get_all_data_def od_set_def Let_def dget_tabulated dget_default_def)

section \<open>Copies of exchange data\<close>

text \<open>Objects are numbers in a store; an attribute is a value or a method bound to an object.\<close>

datatype ed_value = EdValue pyval | EdBound nat string

type_synonym ed_store = "nat \<Rightarrow> (string, ed_value) dict"

definition ed_methods :: "string list" where
  "ed_methods = [''get_wss_url'', ''raise_path_error'', ''raise_timeout'', ''raise400'', ''raise_proxy_error'',
     ''update_info'', ''to_dict'']"

text \<open>The attributes \<open>__init__\<close> sets.\<close>

definition ed_new :: "(string, ed_value) dict" where
  "ed_new = map (map_prod id EdValue)
     ([(''rate_limit_type'', PStr []), (''interval'', PStr []), (''interval_num'', PInt 0), (''limit'', PInt 0),
       (''server_time'', PFloat 0), (''local_update_time'', PFloat 0), (''timezone'', PStr []),
       (''rate_limits'', PList []), (''exchange_filters'', PList []), (''symbols'', PList []),
       (''exchange_name'', PStr []), (''rest_url'', PStr []), (''acct_wss_url'', PStr []), (''wss_url'', PStr []),
       (''um_rest_url'', PStr []), (''um_wss_Url'', PStr []), (''rest_paths'', PDict []), (''wss_paths'', PDict []),
       (''kline_periods'', PDict []), (''reverse_kline_periods'', PDict []), (''status_dict'', PDict []),
       (''legal_currency'', PList []), (''api_key'', PStr []), (''api_secret'', PStr []), (''passphrase'', PStr [])])"

definition ed_getattr :: "ed_store \<Rightarrow> nat \<Rightarrow> string \<Rightarrow> ed_value option" where
  "ed_getattr st obj name =
     (case dget (st obj) name of
        Some v \<Rightarrow> Some v
      | None \<Rightarrow> if name \<in> set ed_methods then Some (EdBound obj name) else None)"

text \<open>\<open>dir(self)\<close>, less the names that start with two underscores, \<open>update\<close> or \<open>to_dict\<close>.\<close>

definition ed_kept :: "string \<Rightarrow> bool" where
  "ed_kept name \<longleftrightarrow> take 2 name \<noteq> ''__'' \<and> take 6 name \<noteq> ''update'' \<and> take 7 name \<noteq> ''to_dict''"

definition ed_to_dict :: "ed_store \<Rightarrow> nat \<Rightarrow> (string, ed_value) dict" where
  "ed_to_dict st obj =
     map (\<lambda>name. (name, the (ed_getattr st obj name)))
       (filter ed_kept (dkeys (st obj) @ filter (\<lambda>m. m \<notin> set (dkeys (st obj))) ed_methods))"

definition ed_update_info :: "(string, ed_value) dict \<Rightarrow> nat \<Rightarrow> ed_store \<Rightarrow> ed_store" where
  "ed_update_info info fresh st = st(fresh := foldl (\<lambda>d (k, v). dset k v d) ed_new info)"

definition ed_setattr :: "nat \<Rightarrow> string \<Rightarrow> ed_value \<Rightarrow> ed_store \<Rightarrow> ed_store" where
  "ed_setattr obj name v st = st(obj := dset name v (st obj))"

text \<open>A call of \<open>get_wss_url\<close>; anything else found under the name is not callable.\<close>

definition call_get_wss_url :: "ed_store \<Rightarrow> nat \<Rightarrow> ed_value option" where
  "call_get_wss_url st obj =
     (case ed_getattr st obj ''get_wss_url'' of
        Some (EdBound owner m) \<Rightarrow> if m = ''get_wss_url'' then ed_getattr st owner ''wss_url'' else None
      | _ \<Rightarrow> None)"

lemma foldl_dset_get:
  "dget (foldl (\<lambda>d (k, v). dset k v d) d0 info) k = (case map_of (rev info) k of Some v \<Rightarrow> Some v | None \<Rightarrow> dget d0 k)"
  by (induction info arbitrary: d0) (auto simp: map_add_def split: option.split)

lemma to_dict_get:
  assumes "ed_kept name"
  shows "dget (ed_to_dict st obj) name = ed_getattr st obj name"
  unfolding ed_to_dict_def dget_tabulated using assms
  by (auto simp: ed_getattr_def dget_None_iff split: option.split dest: dget_Some_key)

lemma to_dict_ok: "dict_ok (st obj) \<Longrightarrow> dict_ok (ed_to_dict st obj)"
proof -
  have "distinct ed_methods" by code_simp
  moreover assume "dict_ok (st obj)"
  ultimately have "distinct (filter ed_kept (dkeys (st obj) @ filter (\<lambda>m. m \<notin> set (dkeys (st obj))) ed_methods))"
    by (auto simp: dict_ok_dkeys)
  then show ?thesis by (simp only: ed_to_dict_def dict_ok_def map_map comp_def fst_conv map_ident)
qed

lemma map_of_rev_dict: "dict_ok d \<Longrightarrow> map_of (rev d) k = dget d k"
proof -
  assume d: "dict_ok d"
  then have r: "dict_ok (rev d)" by (simp add: dict_ok_def rev_map [symmetric])
  have "dget (rev d) k = Some v \<longleftrightarrow> dget d k = Some v" for v
    using mem_dget [OF d, of k v] mem_dget [OF r, of k v] by simp
  then show ?thesis by (cases "dget d k") (auto simp: dget_def intro: option.exhaust)
qed

text \<open>
  A copy made from \<open>to_dict\<close> has every attribute of the original, but it has the methods of
  the original as well: whatever is set on the copy, its \<open>get_wss_url\<close> answers with the address of
  the original.
\<close>

theorem copy_keeps_methods_of_original:
  assumes "dict_ok (st obj)" "fresh \<noteq> obj" "dget (st obj) ''get_wss_url'' = None" "dget (st obj) ''wss_url'' = Some url"
    and "dget (st obj) name = Some v" "ed_kept name"
  defines "st' \<equiv> ed_update_info (ed_to_dict st obj) fresh st"
  shows "ed_getattr st' fresh name = Some v \<and>
    call_get_wss_url (ed_setattr fresh ''wss_url'' w st') fresh = Some url"
proof -
  have get: "dget (st' fresh) n = (case ed_getattr st obj n of Some x \<Rightarrow> Some x | None \<Rightarrow> dget ed_new n)" if "ed_kept n" for n
    using assms(1) that
    by (simp add: st'_def ed_update_info_def foldl_dset_get map_of_rev_dict to_dict_ok to_dict_get)
  have k: "ed_kept ''get_wss_url''" by code_simp
  have "dget (st' fresh) ''get_wss_url'' = Some (EdBound obj ''get_wss_url'')"
    using get [OF k] assms(3) by (simp add: ed_getattr_def ed_methods_def)
  moreover have "st' obj = st obj" using assms(2) by (simp add: st'_def ed_update_info_def)
  ultimately have "call_get_wss_url (ed_setattr fresh ''wss_url'' w st') fresh = Some url"
    using assms(2,4) by (simp add: call_get_wss_url_def ed_setattr_def ed_getattr_def)
  moreover have "ed_getattr st' fresh name = Some v"
    using get [OF assms(6)] assms(5) by (simp add: ed_getattr_def)
  ultimately show ?thesis by blast
qed

theorem copy_keeps_methods_of_original_witness:
  "call_get_wss_url (ed_setattr 1 ''wss_url'' (EdValue (PStr ''b''))
     (ed_update_info (ed_to_dict (\<lambda>_. ed_new) 0) 1 (\<lambda>_. ed_new))) 1 = Some (EdValue (PStr []))"
  by (rule conjunct2 [OF copy_keeps_methods_of_original [where name = "''limit''" and v = "EdValue (PInt 0)"]])
    code_simp+

section \<open>Timestamps\<close>

text \<open>
  \<open>convert_utc_timestamp\<close> up to \<open>utcfromtimestamp\<close>, which gets the seconds: \<open>None\<close> for no
  timestamp and for a text that is no integer; what has no seconds raises.
\<close>

definition as_seconds :: "rat \<Rightarrow> rat" where
  "as_seconds x = (if 1000000000000 < x then x / 1000 else x)"

definition timestamp_seconds :: "pyval \<Rightarrow> rat option py" where
  "timestamp_seconds v =
     (case v of
        PNone \<Rightarrow> Inr None
      | PStr s \<Rightarrow> (case int_of_str s of Inl _ \<Rightarrow> Inr None | Inr i \<Rightarrow> Inr (Some (as_seconds (of_int i))))
      | PBool b \<Rightarrow> Inr (Some (if b then 1 else 0))
      | PInt i \<Rightarrow> Inr (Some (as_seconds (of_int i)))
      | PFloat x \<Rightarrow> Inr (Some (as_seconds x))
      | PInf negative \<Rightarrow> Inl OverflowError
      | PNan \<Rightarrow> Inl ValueError
      | PList xs \<Rightarrow> Inl TypeError
      | PDict d \<Rightarrow> Inl TypeError)"

text \<open>Milliseconds count as such after September 2001 only; before, they are read as seconds.\<close>

lemma early_milliseconds_misread:
  "timestamp_seconds (PInt 1000000000000) = Inr (Some 1000000000000) \<and>
   timestamp_seconds (PInt 1000000000001) = Inr (Some (1000000000001 / 1000))"
  by (simp add: timestamp_seconds_def as_seconds_def)

lemma timestamp_of_number: "timestamp_seconds (PStr (show_int i)) = timestamp_seconds (PInt i)"
  by (simp add: timestamp_seconds_def int_of_str_show)

end
