(* ===== verification/RegistryDispatch.thy ===== *)
theory RegistryDispatch
  imports Registry
begin

text \<open>
  Model of the part of \<open>src/bt_api_base/registry.py\<close> that decides which registry a call reaches:
  the single default object behind \<open>ExchangeRegistry()\<close>, the isolated objects, and the public
  names, each of which is the method of the object it is taken from or, taken from the class,
  the same method of the default object. Objects are numbered in the order they are made. The
  methods run under a lock, so threads are an order of events.
\<close>

section \<open>The methods by name\<close>

datatype 'c registry_call =
    RegisterFeed string 'c | RegisterStream string string 'c | RegisterExchangeData string 'c
  | RegisterBalanceHandler string 'c | UnregisterFeed string
  | GetFeedClass string | GetFeedClasses | CreateFeed string | CreateExchangeData string
  | GetExchangeDataClass string | GetExchangeDataClasses | GetStreamClasses string
  | GetStreamClass string string | GetBalanceHandler string | HasExchange string | ListExchanges
  | ClearRegistry

datatype 'c registry_answer =
    NoAnswer | Truth bool | ClassOrNone "'c option" | Classes "(string, 'c) dict" | Names "string list"
  | Creates 'c | NotFound string "string list"

fun creates :: "(string \<times> string list) + 'c \<Rightarrow> 'c registry_answer" where
  "creates (Inl (name, available)) = NotFound name available"
| "creates (Inr c) = Creates c"

fun registry_method :: "'c registry_call \<Rightarrow> 'c ExchangeRegistry \<Rightarrow> 'c registry_answer \<times> 'c ExchangeRegistry" where
  "registry_method (RegisterFeed n c) r = (NoAnswer, register_feed n c r)"
| "registry_method (RegisterStream n t c) r = (NoAnswer, register_stream n t c r)"
| "registry_method (RegisterExchangeData n c) r = (NoAnswer, register_exchange_data n c r)"
| "registry_method (RegisterBalanceHandler n c) r = (NoAnswer, register_balance_handler n c r)"
| "registry_method (UnregisterFeed n) r = (case unregister_feed n r of (b, r') \<Rightarrow> (Truth b, r'))"
| "registry_method (GetFeedClass n) r = (ClassOrNone (get_feed_class r n), r)"
| "registry_method GetFeedClasses r = (Classes (feed_classes r), r)"
| "registry_method (CreateFeed n) r = (creates (create_feed r n), r)"
| "registry_method (CreateExchangeData n) r = (creates (create_exchange_data r n), r)"
| "registry_method (GetExchangeDataClass n) r = (ClassOrNone (get_exchange_data_class r n), r)"
| "registry_method GetExchangeDataClasses r = (Classes (exchange_data_classes r), r)"
| "registry_method (GetStreamClasses n) r = (Classes (get_stream_classes r n), r)"
| "registry_method (GetStreamClass n t) r = (ClassOrNone (get_stream_class r n t), r)"
| "registry_method (GetBalanceHandler n) r = (ClassOrNone (get_balance_handler r n), r)"
| "registry_method (HasExchange n) r = (Truth (has_exchange r n), r)"
| "registry_method ListExchanges r = (Names (list_exchanges r), r)"
| "registry_method ClearRegistry r = (NoAnswer, registry_clear r)"

section \<open>The objects\<close>

text \<open>\<open>ro_initialized\<close> is the attribute \<open>_singleton_initialized\<close>, which an isolated object lacks.\<close>

record 'c registry_object =
  ro_registry :: "'c ExchangeRegistry"
  ro_initialized :: "bool option"

record 'c registries =
  rw_default :: "nat option"
  rw_objects :: "'c registry_object list"

definition no_registries :: "'c registries" where
  "no_registries = \<lparr>rw_default = None, rw_objects = []\<rparr>"

definition registry_new :: "'c registries \<Rightarrow> nat \<times> 'c registries" where
  "registry_new w =
     (case rw_default w of
        Some i \<Rightarrow> (i, w)
      | None \<Rightarrow>
          (length (rw_objects w),
           w\<lparr>rw_objects := rw_objects w @ [\<lparr>ro_registry = create_isolated, ro_initialized = Some False\<rparr>],
             rw_default := Some (length (rw_objects w))\<rparr>))"

definition registry_init :: "nat \<Rightarrow> 'c registries \<Rightarrow> 'c registries" where
  "registry_init i w =
     (if ro_initialized (rw_objects w ! i) = Some True then w
      else w\<lparr>rw_objects := (rw_objects w)[i := (rw_objects w ! i)\<lparr>ro_initialized := Some True\<rparr>]\<rparr>)"

text \<open>The call of the class: Python runs \<open>__init__\<close> on what \<open>__new__\<close> returned, old or new.\<close>

definition call_class :: "'c registries \<Rightarrow> nat \<times> 'c registries" where
  "call_class w = (case registry_new w of (i, w1) \<Rightarrow> (i, registry_init i w1))"

definition registry_default :: "'c registries \<Rightarrow> nat option \<times> 'c registries" where
  "registry_default w =
     (case rw_default w of
        Some i \<Rightarrow> (Some i, w)
      | None \<Rightarrow> (case call_class w of (_, w1) \<Rightarrow> (rw_default w1, w1)))"

definition new_isolated :: "'c registries \<Rightarrow> nat \<times> 'c registries" where
  "new_isolated w =
     (length (rw_objects w),
      w\<lparr>rw_objects := rw_objects w @ [\<lparr>ro_registry = create_isolated, ro_initialized = None\<rparr>]\<rparr>)"

definition object_method :: "nat \<Rightarrow> 'c registry_call \<Rightarrow> 'c registries \<Rightarrow> 'c registry_answer \<times> 'c registries" where
  "object_method i call w =
     (case registry_method call (ro_registry (rw_objects w ! i)) of
        (a, r) \<Rightarrow> (a, w\<lparr>rw_objects := (rw_objects w)[i := (rw_objects w ! i)\<lparr>ro_registry := r\<rparr>]\<rparr>))"

text \<open>
  A public name: taken from the class (\<open>None\<close>) it is the class method, which goes to the default
  object or raises \<open>RuntimeError\<close> (the outer \<open>None\<close>); taken from an object it is its own method.
\<close>

definition public_method ::
    "nat option \<Rightarrow> 'c registry_call \<Rightarrow> 'c registries \<Rightarrow> 'c registry_answer option \<times> 'c registries" where
  "public_method obj call w =
     (case obj of
        Some i \<Rightarrow> (case object_method i call w of (a, w1) \<Rightarrow> (Some a, w1))
      | None \<Rightarrow>
          (case registry_default w of
             (Some i, w1) \<Rightarrow> (case object_method i call w1 of (a, w2) \<Rightarrow> (Some a, w2))
           | (None, w1) \<Rightarrow> (None, w1)))"

section \<open>What reaches which object\<close>

datatype 'c registry_event = CallsClass | MakesIsolated | CallsMethod "nat option" "'c registry_call"

fun registry_step :: "'c registries \<Rightarrow> 'c registry_event \<Rightarrow> 'c registries" where
  "registry_step w CallsClass = snd (call_class w)"
| "registry_step w MakesIsolated = snd (new_isolated w)"
| "registry_step w (CallsMethod obj call) = snd (public_method obj call w)"

definition registry_run :: "'c registry_event list \<Rightarrow> 'c registries" where
  "registry_run = foldl registry_step no_registries"

text \<open>A program has references only to objects it made.\<close>

fun refers :: "'c registries \<Rightarrow> 'c registry_event \<Rightarrow> bool" where
  "refers w (CallsMethod (Some i) call) \<longleftrightarrow> i < length (rw_objects w)"
| "refers w _ \<longleftrightarrow> True"

fun references_ok :: "'c registries \<Rightarrow> 'c registry_event list \<Rightarrow> bool" where
  "references_ok w [] \<longleftrightarrow> True"
| "references_ok w (e # es) \<longleftrightarrow> refers w e \<and> references_ok (registry_step w e) es"

text \<open>The calls meant for the object \<open>i\<close>: its own and, if it is the default, those of the class.\<close>

fun calls_for :: "nat option \<Rightarrow> nat \<Rightarrow> 'c registry_event list \<Rightarrow> 'c registry_call list" where
  "calls_for d i [] = []"
| "calls_for d i (CallsMethod obj call # es) =
     (if (case obj of Some j \<Rightarrow> j = i | None \<Rightarrow> d = Some i)
      then call # calls_for d i es else calls_for d i es)"
| "calls_for d i (_ # es) = calls_for d i es"

definition registry_after :: "'c registry_call list \<Rightarrow> 'c ExchangeRegistry" where
  "registry_after calls = foldl (\<lambda>r call. snd (registry_method call r)) create_isolated calls"

definition registries_ok :: "'c registries \<Rightarrow> bool" where
  "registries_ok w \<longleftrightarrow> (case rw_default w of Some i \<Rightarrow> i < length (rw_objects w) | None \<Rightarrow> True)"

lemma calls_for_append: "calls_for d i (xs @ ys) = calls_for d i xs @ calls_for d i ys"
  by (induction d i xs rule: calls_for.induct) auto

lemma references_ok_append:
  "references_ok w (xs @ ys) \<longleftrightarrow> references_ok w xs \<and> references_ok (foldl registry_step w xs) ys"
  by (induction xs arbitrary: w) auto

lemma call_class_some: "rw_default w = Some i \<Longrightarrow> rw_default (snd (call_class w)) = Some i \<and> fst (call_class w) = i"
  by (simp add: call_class_def registry_new_def registry_init_def)

lemma map_update_keep: "f y = f (xs ! i) \<Longrightarrow> map f (xs[i := y]) = map f xs"
  by (metis list_update_beyond list_update_id map_update not_le nth_map)

lemma call_class_objects:
  "rw_default w = Some i \<Longrightarrow> map ro_registry (rw_objects (snd (call_class w))) = map ro_registry (rw_objects w)"
  "rw_default w = None \<Longrightarrow>
     map ro_registry (rw_objects (snd (call_class w))) = map ro_registry (rw_objects w) @ [create_isolated]"
  by (simp_all add: call_class_def registry_new_def registry_init_def map_update_keep)

lemma call_class_none: "rw_default w = None \<Longrightarrow>
    rw_default (snd (call_class w)) = Some (length (rw_objects w)) \<and> fst (call_class w) = length (rw_objects w)"
  by (simp add: call_class_def registry_new_def registry_init_def)

lemma object_method_default [simp]: "rw_default (snd (object_method i call w)) = rw_default w"
  by (simp add: object_method_def split: prod.split)

lemma object_method_objects [simp]:
  "i < length (rw_objects w) \<Longrightarrow> map ro_registry (rw_objects (snd (object_method i call w))) =
     (map ro_registry (rw_objects w))[i := snd (registry_method call (map ro_registry (rw_objects w) ! i))]"
  by (simp add: object_method_def map_update split: prod.split)

lemma object_method_answer [simp]:
  "i < length (rw_objects w) \<Longrightarrow>
     fst (object_method i call w) = fst (registry_method call (map ro_registry (rw_objects w) ! i))"
  by (simp add: object_method_def split: prod.split)

lemma public_method_object:
  "public_method (Some i) call w = (case object_method i call w of (a, w1) \<Rightarrow> (Some a, w1))"
  by (simp add: public_method_def)

lemma public_method_class:
  "public_method None call w =
     (case rw_default w of
        Some i \<Rightarrow> (case object_method i call w of (a, w1) \<Rightarrow> (Some a, w1))
      | None \<Rightarrow> (case object_method (length (rw_objects w)) call (snd (call_class w)) of (a, w1) \<Rightarrow> (Some a, w1)))"
  by (cases "rw_default w")
    (auto simp: public_method_def registry_default_def dest: call_class_none split: option.split prod.split)

text \<open>The view of a state that the calls so far must explain.\<close>

definition explains :: "'c registry_event list \<Rightarrow> nat option \<Rightarrow> 'c ExchangeRegistry list \<Rightarrow> bool" where
  "explains es d objects \<longleftrightarrow>
     (case d of Some i \<Rightarrow> i < length objects | None \<Rightarrow> \<forall>call. CallsMethod None call \<notin> set es) \<and>
     (\<forall>i. if i < length objects then objects ! i = registry_after (calls_for d i es) else calls_for d i es = [])"

lemma calls_for_no_class:
  "\<forall>call. CallsMethod None call \<notin> set es \<Longrightarrow> calls_for d i es = calls_for None i es"
  by (induction d i es rule: calls_for.induct) (auto split: option.split)

lemma registry_after_snoc: "registry_after (cs @ [c]) = snd (registry_method c (registry_after cs))"
  by (simp add: registry_after_def)

lemma registry_after_Nil [simp]: "registry_after [] = create_isolated"
  by (simp add: registry_after_def)

text \<open>The three ways a state grows: an object more, the default object, a call.\<close>

lemma explains_isolated:
  "explains es d objects \<Longrightarrow> explains (es @ [MakesIsolated]) d (objects @ [create_isolated])"
  by (fastforce simp: explains_def calls_for_append nth_append split: option.splits if_splits)

lemma explains_default:
  "explains es None objects \<Longrightarrow> explains es (Some (length objects)) (objects @ [create_isolated])"
  by (fastforce simp: explains_def nth_append calls_for_no_class [of es "Some _"] split: if_splits)

lemma explains_class: "explains (es @ [CallsClass]) (Some j) objects \<longleftrightarrow> explains es (Some j) objects"
  by (simp add: explains_def calls_for_append)

lemma explains_call:
  assumes "explains es (rw_default w) (map ro_registry (rw_objects w))" "i < length (rw_objects w)"
    and "case obj of Some j \<Rightarrow> j = i | None \<Rightarrow> rw_default w = Some i"
  shows "explains (es @ [CallsMethod obj call]) (rw_default w)
           (map ro_registry (rw_objects (snd (object_method i call w)))) \<and>
    fst (object_method i call w) =
      fst (registry_method call (registry_after (calls_for (rw_default w) i es)))"
proof -
  have e: "ro_registry (rw_objects w ! i) = registry_after (calls_for (rw_default w) i es)"
    using assms(1) [unfolded explains_def] assms(2) by (metis length_map nth_map)
  have "explains (es @ [CallsMethod obj call]) (rw_default w)
      ((map ro_registry (rw_objects w))[i := snd (registry_method call (ro_registry (rw_objects w ! i)))])"
    using assms e
    by (auto simp: explains_def calls_for_append nth_list_update registry_after_snoc
        split: option.splits if_splits)
  with e assms(2) show ?thesis by simp
qed

text \<open>A call on the class is: make the default object if there is none, then call it.\<close>

lemma public_call_explained:
  assumes "explains es (rw_default w) (map ro_registry (rw_objects w))" "refers w (CallsMethod obj call)"
    and "public_method obj call w = (answer, w')" "i = (case obj of Some j \<Rightarrow> j | None \<Rightarrow> the (rw_default w'))"
  shows "explains (es @ [CallsMethod obj call]) (rw_default w') (map ro_registry (rw_objects w')) \<and>
    answer = Some (fst (registry_method call (registry_after (calls_for (rw_default w') i es)))) \<and>
    (obj = None \<longrightarrow> rw_default w' = Some i)"
proof -
  have reach: ?thesis
    if "explains es (rw_default w1) (map ro_registry (rw_objects w1))" "j < length (rw_objects w1)"
      "case obj of Some k \<Rightarrow> k = j | None \<Rightarrow> rw_default w1 = Some j"
      "(answer, w') = (case object_method j call w1 of (a, w2) \<Rightarrow> (Some a, w2))" for w1 j
  proof -
    obtain a w2 where m: "object_method j call w1 = (a, w2)" by fastforce
    then have "rw_default w2 = rw_default w1" using object_method_default [of j call w1] by simp
    moreover from this have "i = j" using that(3,4) m assms(4) by (auto split: option.splits)
    ultimately show ?thesis
      using explains_call [OF that(1-3), of call] that(3,4) m by (auto split: option.splits)
  qed
  show ?thesis
  proof (cases obj)
    case (Some j)
    with reach [OF assms(1), of j] assms(2,3) show ?thesis by (simp add: public_method_object)
  next
    case None
    show ?thesis
    proof (cases "rw_default w")
      case (Some d)
      then have "d < length (rw_objects w)" using assms(1) by (simp add: explains_def)
      moreover have "(answer, w') = (case object_method d call w of (a, w2) \<Rightarrow> (Some a, w2))"
        using assms(3) None Some by (simp add: public_method_class)
      ultimately show ?thesis by (intro reach [OF assms(1)]) (use None Some in simp_all)
    next
      case none: None
      let ?w1 = "snd (call_class w)"
      have d: "rw_default ?w1 = Some (length (rw_objects w))"
        and o: "map ro_registry (rw_objects ?w1) = map ro_registry (rw_objects w) @ [create_isolated]"
        using call_class_none [OF none] call_class_objects(2) [OF none] by simp_all
      from o have "length (rw_objects ?w1) = Suc (length (rw_objects w))"
        by (metis length_append_singleton length_map)
      moreover have "explains es (rw_default ?w1) (map ro_registry (rw_objects ?w1))"
        using explains_default [of es "map ro_registry (rw_objects w)"] assms(1) none d o by simp
      moreover have "(answer, w') =
          (case object_method (length (rw_objects w)) call ?w1 of (a, w2) \<Rightarrow> (Some a, w2))"
        using assms(3) None none by (simp add: public_method_class)
      ultimately show ?thesis
        by (intro reach [of ?w1 "length (rw_objects w)"]) (use None d in simp_all)
    qed
  qed
qed

lemma step_explained:
  assumes "explains es (rw_default w) (map ro_registry (rw_objects w))" "refers w e"
  shows "explains (es @ [e]) (rw_default (registry_step w e)) (map ro_registry (rw_objects (registry_step w e)))"
proof (cases e)
  case CallsClass
  show ?thesis
  proof (cases "rw_default w")
    case None
    then show ?thesis
      using assms CallsClass explains_default [of es "map ro_registry (rw_objects w)"] call_class_none [OF None] call_class_objects(2) [OF None]
      by (simp add: explains_class)
  next
    case (Some d)
    then show ?thesis
      using assms CallsClass call_class_some [OF Some] call_class_objects(1) [OF Some] by (simp add: explains_class)
  qed
next
  case MakesIsolated
  with explains_isolated [OF assms(1)] show ?thesis by (simp add: new_isolated_def)
next
  case (CallsMethod obj call)
  with assms public_call_explained [OF assms(1)] show ?thesis
    by (metis registry_step.simps(3) prod.collapse)
qed

lemma run_explained:
  "references_ok no_registries es \<Longrightarrow>
   explains es (rw_default (registry_run es)) (map ro_registry (rw_objects (registry_run es)))"
proof (induction es rule: rev_induct)
  case (snoc e es)
  then show ?case using step_explained [of es "registry_run es" e]
    by (simp add: references_ok_append registry_run_def)
qed (simp add: explains_def registry_run_def no_registries_def)

text \<open>
  C34. Whatever registries a program makes and however it calls them, from the class or from an
  object, an answer is the one a fresh registry would give after exactly the earlier calls meant
  for the same object: calls on the class, and on every reference that \<open>ExchangeRegistry()\<close>
  returned, are meant for the one default object, and an isolated registry sees only its own.
\<close>

theorem registry_calls_separate:
  assumes "references_ok no_registries (es @ [CallsMethod obj call])"
    and "public_method obj call (registry_run es) = (answer, w)"
  shows "\<exists>i. (case obj of Some j \<Rightarrow> i = j | None \<Rightarrow> rw_default w = Some i) \<and>
    answer = Some (fst (registry_method call (registry_after (calls_for (rw_default w) i es))))"
proof -
  have "references_ok no_registries es" "refers (registry_run es) (CallsMethod obj call)"
    using assms(1) by (simp_all add: references_ok_append registry_run_def)
  from public_call_explained [OF run_explained [OF this(1)] this(2) assms(2) refl] show ?thesis
    by (auto split: option.splits)
qed

theorem registry_calls_separate_witness:
  "fst (public_method (Some 0) (GetFeedClass ''X'')
     (registry_run [MakesIsolated, CallsMethod (Some 0) (RegisterFeed ''X'' (1::nat)),
        CallsMethod None (RegisterFeed ''X'' 2)])) = Some (ClassOrNone (Some 1))"
proof -
  let ?es = "[MakesIsolated, CallsMethod (Some 0) (RegisterFeed ''X'' (1::nat)), CallsMethod None (RegisterFeed ''X'' 2)]"
  obtain a w where r: "public_method (Some 0) (GetFeedClass ''X'') (registry_run ?es) = (a, w)" by fastforce
  have "references_ok no_registries (?es @ [CallsMethod (Some 0) (GetFeedClass ''X'')])"
    by (simp add: no_registries_def new_isolated_def public_method_def object_method_def registry_default_def
        call_class_def registry_new_def registry_init_def)
  from registry_calls_separate [OF this r]
  have "a = Some (fst (registry_method (GetFeedClass ''X'') (registry_after (calls_for (rw_default w) 0 ?es))))"
    by simp
  moreover have "rw_default w = Some 1"
    using r by (auto simp: registry_run_def no_registries_def new_isolated_def public_method_def object_method_def
        registry_default_def call_class_def registry_new_def registry_init_def)
  ultimately show ?thesis
    unfolding r by (simp add: registry_after_def get_feed_class_def register_feed_def create_isolated_def)
qed

text \<open>
  \<open>ExchangeRegistry()\<close> is no new registry: once the default object exists the call returns it,
  with all that is registered.
\<close>

lemma constructor_shares:
  "rw_default w = Some i \<Longrightarrow> fst (call_class w) = i \<and>
     map ro_registry (rw_objects (snd (call_class w))) = map ro_registry (rw_objects w)"
  using call_class_some call_class_objects(1) by blast

end
