(* ===== verification/Wiring.thy ===== *)
theory Wiring
  imports InjectionCorrect
begin

text \<open>
  Model of how the package is put together with the container of theory \<open>Injection\<close>: the global
  container with the decorators of \<open>src/bt_api_base/core/dependency_injection.py\<close>, the old
  \<open>Container\<close> beside it, and what importing \<open>core/services.py\<close> and \<open>websocket_manager.py\<close> does:
  each class statement registers its class, and each default value of a constructor parameter
  is resolved once, when the statement runs. Interfaces, classes and annotations are numbers,
  named below; the objects of the two containers are numbered apart.
\<close>

section \<open>The global container and \<open>Container\<close>\<close>

record di_world =
  dw_global :: DIContainer
  dw_legacy :: "DIContainer option"

definition di_start :: di_world where
  "di_start = \<lparr>dw_global = di_new, dw_legacy = None\<rparr>"

definition injectable :: "nat \<Rightarrow> nat \<Rightarrow> di_world \<Rightarrow> di_world" where
  "injectable i cls w = w\<lparr>dw_global := register_transient i cls (dw_global w)\<rparr>"

definition singleton :: "nat \<Rightarrow> nat \<Rightarrow> di_world \<Rightarrow> di_world" where
  "singleton i cls w = w\<lparr>dw_global := register_singleton i cls (dw_global w)\<rparr>"

definition scoped :: "nat \<Rightarrow> nat \<Rightarrow> di_world \<Rightarrow> di_world" where
  "scoped i cls w = w\<lparr>dw_global := register_scoped i cls (dw_global w)\<rparr>"

definition di_inject :: "nat \<Rightarrow> (nat \<Rightarrow> param list) \<Rightarrow> nat \<Rightarrow> di_world \<Rightarrow> di_result \<times> di_world" where
  "di_inject fuel params i w =
     (case resolve fuel params i (dw_global w) of (r, c) \<Rightarrow> (r, w\<lparr>dw_global := c\<rparr>))"

text \<open>\<open>with container.create_scope():\<close>, whatever the body does.\<close>

definition with_scope :: "(DIContainer \<Rightarrow> 'r \<times> DIContainer) \<Rightarrow> DIContainer \<Rightarrow> 'r \<times> DIContainer" where
  "with_scope body c =
     (case enter_scope c of (old, c1) \<Rightarrow> (case body c1 of (r, c2) \<Rightarrow> (r, exit_scope old c2)))"

text \<open>\<open>Container()\<close> is one object with a container of its own, made at the first call.\<close>

definition legacy_container :: "di_world \<Rightarrow> DIContainer" where
  "legacy_container w = (case dw_legacy w of Some c \<Rightarrow> c | None \<Rightarrow> di_new)"

definition legacy_new :: "di_world \<Rightarrow> di_world" where
  "legacy_new w = w\<lparr>dw_legacy := Some (legacy_container w)\<rparr>"

definition legacy_register :: "nat \<Rightarrow> nat \<Rightarrow> di_lifetime \<Rightarrow> di_world \<Rightarrow> bool \<times> di_world" where
  "legacy_register i cls l w =
     (case container_register i cls l (legacy_container w) of (raises, c) \<Rightarrow> (raises, w\<lparr>dw_legacy := Some c\<rparr>))"

definition legacy_resolve :: "nat \<Rightarrow> (nat \<Rightarrow> param list) \<Rightarrow> nat \<Rightarrow> di_world \<Rightarrow> di_result \<times> di_world" where
  "legacy_resolve fuel params i w =
     (case resolve fuel params i (legacy_container w) of (r, c) \<Rightarrow> (r, w\<lparr>dw_legacy := Some c\<rparr>))"

definition legacy_with_scope :: "(DIContainer \<Rightarrow> 'r \<times> DIContainer) \<Rightarrow> di_world \<Rightarrow> 'r \<times> di_world" where
  "legacy_with_scope body w =
     (case with_scope body (legacy_container w) of (r, c) \<Rightarrow> (r, w\<lparr>dw_legacy := Some c\<rparr>))"

section \<open>What the modules register\<close>

definition IConnectionManager :: nat where "IConnectionManager = 0"
definition IEventBus :: nat where "IEventBus = 1"
definition ICache :: nat where "ICache = 2"
definition IRateLimiter :: nat where "IRateLimiter = 3"

definition ConnectionServiceClass :: nat where "ConnectionServiceClass = 10"
definition EventServiceClass :: nat where "EventServiceClass = 11"
definition CacheServiceClass :: nat where "CacheServiceClass = 12"
definition RateLimitServiceClass :: nat where "RateLimitServiceClass = 13"
definition WebSocketManagerClass :: nat where "WebSocketManagerClass = 14"

text \<open>
  The modules postpone annotations, so an annotation is a text: the number 100 for
  \<open>Any | None\<close>, 101 for \<open>str | None\<close> and 102 for the text \<open>IEventBus\<close>. All have defaults.
\<close>

definition annotation_text :: "nat \<Rightarrow> nat" where
  "annotation_text n = 100 + n"

definition text_param :: "nat \<Rightarrow> param" where
  "text_param n = \<lparr>pr_annotation = Some (annotation_text n), pr_has_default = True\<rparr>"

definition service_params :: "nat \<Rightarrow> param list" where
  "service_params cls =
     (if cls \<in> {ConnectionServiceClass, EventServiceClass, RateLimitServiceClass} then [text_param 0]
      else if cls = CacheServiceClass then [text_param 1, text_param 0]
      else if cls = WebSocketManagerClass then [text_param 2]
      else [])"

text \<open>The defaults of one constructor; \<open>None\<close>: a \<open>ValueError\<close> ends the import.\<close>

fun inject_defaults :: "nat list \<Rightarrow> di_world \<Rightarrow> nat list option \<times> di_world" where
  "inject_defaults [] w = (Some [], w)"
| "inject_defaults (i # is) w =
     (case di_inject 2 service_params i w of
        (Object obj, w1) \<Rightarrow> (case inject_defaults is w1 of (rest, w2) \<Rightarrow> (map_option ((#) obj) rest, w2))
      | (_, w1) \<Rightarrow> (None, w1))"

text \<open>\<open>core/services.py\<close>: the defaults of the market data, trading and account services.\<close>

definition load_services :: "di_world \<Rightarrow> (nat list option \<times> nat list option \<times> nat list option) \<times> di_world" where
  "load_services w =
     (let w1 = singleton IRateLimiter RateLimitServiceClass
                 (singleton ICache CacheServiceClass
                   (singleton IEventBus EventServiceClass
                     (singleton IConnectionManager ConnectionServiceClass w)));
          (market, w2) = inject_defaults [IConnectionManager, ICache, IRateLimiter, IEventBus] w1;
          (trading, w3) = inject_defaults [IConnectionManager, IEventBus, IRateLimiter] w2;
          (account, w4) = inject_defaults [IConnectionManager, ICache, IEventBus] w3
      in ((market, trading, account), w4))"

text \<open>\<open>websocket_manager.py\<close>: the body of the class runs before its decorator.\<close>

definition load_websocket_manager :: "di_world \<Rightarrow> nat list option \<times> di_world" where
  "load_websocket_manager w =
     (case inject_defaults [IEventBus] w of
        (Some bus, w1) \<Rightarrow> (Some bus, singleton IConnectionManager WebSocketManagerClass w1)
      | (None, w1) \<Rightarrow> (None, w1))"

section \<open>One set of services\<close>

text \<open>No text is registered as an interface.\<close>

definition no_texts :: "DIContainer \<Rightarrow> bool" where
  "no_texts c \<longleftrightarrow> (\<forall>n. dget (di_singletons c) (annotation_text n) = None \<and>
     dget (di_scoped_services c) (annotation_text n) = None \<and>
     dget (di_services c) (annotation_text n) = None \<and> dget (di_factories c) (annotation_text n) = None)"

lemmas interface_numbers = IConnectionManager_def IEventBus_def ICache_def IRateLimiter_def

lemma resolve_text [simp]: "no_texts c \<Longrightarrow> resolve (Suc f) params (annotation_text n) c = (NotResolved, c)"
  by (simp add: no_texts_def)

lemma inject_texts:
  "no_texts c \<Longrightarrow> set ps \<subseteq> range text_param \<Longrightarrow> inject_params (resolve (Suc f) params) ps c = (None, c)"
  by (induction ps) (auto simp: text_param_def simp del: resolve.simps)

lemma service_params_texts: "set (service_params cls) \<subseteq> range text_param"
  by (auto simp: service_params_def)

lemma create_service:
  "no_texts c \<Longrightarrow> create_instance (resolve (Suc f) params) service_params cls c = construct c"
  by (simp add: create_instance_def inject_texts service_params_texts del: resolve.simps)

text \<open>A registered singleton that has no object yet gets one; one that has it keeps it.\<close>

definition unmade :: "nat \<Rightarrow> DIContainer \<Rightarrow> bool" where
  "unmade i c \<longleftrightarrow> dget (di_singletons c) i = None \<and> dget (di_scoped_services c) i = None \<and>
     dget (di_services c) i \<noteq> None"

definition made :: "nat \<Rightarrow> nat \<Rightarrow> DIContainer \<Rightarrow> bool" where
  "made i obj c \<longleftrightarrow> dget (di_singletons c) i = Some obj"

definition with_object :: "nat \<Rightarrow> DIContainer \<Rightarrow> DIContainer" where
  "with_object i c =
     c\<lparr>di_next_object := di_next_object c + 1, di_singletons := dset i (di_next_object c) (di_singletons c)\<rparr>"

lemma resolve_unmade:
  assumes "no_texts c" "unmade i c"
  shows "resolve 2 service_params i c = (Object (di_next_object c), with_object i c)"
proof -
  have "resolve 2 service_params i c = resolve (Suc 1) service_params i c" by (simp only: Suc_1)
  with assms create_service [OF assms(1), of 0 service_params] show ?thesis
    by (auto simp: unmade_def construct_def keep_singleton_def with_object_def simp del: resolve.simps(1))
qed

lemma resolve_made: "made i obj c \<Longrightarrow> resolve (Suc f) params i c = (Object obj, c)"
  by (simp add: made_def)

lemma interface_no_text [simp]:
  "annotation_text n \<noteq> IConnectionManager" "annotation_text n \<noteq> IEventBus"
  "annotation_text n \<noteq> ICache" "annotation_text n \<noteq> IRateLimiter"
  by (simp_all add: annotation_text_def interface_numbers)

lemma interfaces_differ [simp]:
  "IConnectionManager \<noteq> IEventBus" "IConnectionManager \<noteq> ICache" "IConnectionManager \<noteq> IRateLimiter"
  "IEventBus \<noteq> ICache" "IEventBus \<noteq> IRateLimiter" "ICache \<noteq> IRateLimiter"
  by (simp_all add: interface_numbers)

lemmas interfaces_differ' [simp] = interfaces_differ [symmetric]

lemma with_object_facts [simp]:
  "di_next_object (with_object i c) = di_next_object c + 1"
  "made j obj (with_object i c) \<longleftrightarrow> (if j = i then obj = di_next_object c else made j obj c)"
  "unmade j (with_object i c) \<longleftrightarrow> j \<noteq> i \<and> unmade j c"
  "(\<And>n. annotation_text n \<noteq> i) \<Longrightarrow> no_texts c \<Longrightarrow> no_texts (with_object i c)"
  by (auto simp: with_object_def made_def unmade_def no_texts_def)

lemma register_singleton_facts [simp]:
  "di_next_object (register_singleton i cls c) = di_next_object c"
  "made j obj (register_singleton i cls c) \<longleftrightarrow> j \<noteq> i \<and> made j obj c"
  "unmade j (register_singleton i cls c) \<longleftrightarrow> j = i \<or> unmade j c"
  "(\<And>n. annotation_text n \<noteq> i) \<Longrightarrow> no_texts c \<Longrightarrow> no_texts (register_singleton i cls c)"
  by (auto simp: register_singleton_def clear_registration_def made_def unmade_def no_texts_def Let_def)

lemma di_inject_facts:
  "no_texts (dw_global w) \<Longrightarrow> unmade i (dw_global w) \<Longrightarrow> di_inject 2 service_params i w =
     (Object (di_next_object (dw_global w)), w\<lparr>dw_global := with_object i (dw_global w)\<rparr>)"
  "made i obj (dw_global w) \<Longrightarrow> di_inject (Suc f) params i w = (Object obj, w)"
  by (simp_all add: di_inject_def resolve_unmade resolve_made del: resolve.simps)

lemma inject_made [simp]:
  "made i obj (dw_global w) \<Longrightarrow> inject_defaults (i # is) w =
     (case inject_defaults is w of (rest, w2) \<Rightarrow> (map_option ((#) obj) rest, w2))"
  using di_inject_facts(2) [of i obj w 1 service_params] by (simp add: numeral_2_eq_2)

lemma inject_unmade [simp]:
  "no_texts (dw_global w) \<Longrightarrow> unmade i (dw_global w) \<Longrightarrow> inject_defaults (i # is) w =
     (case inject_defaults is (w\<lparr>dw_global := with_object i (dw_global w)\<rparr>) of
        (rest, w2) \<Rightarrow> (map_option ((#) (di_next_object (dw_global w))) rest, w2))"
  by (simp add: di_inject_facts(1))

text \<open>
  However the container is filled before: once \<open>core/services.py\<close> is imported, the market
  data, trading and account services have by default one connection manager, cache, rate limiter
  and event bus among them, four new objects, and \<open>inject\<close> gives the same ones. Importing
  \<open>websocket_manager.py\<close> takes that event bus and registers itself as the connection manager:
  from then on \<open>inject\<close> gives a new object, and the services stay with the old one.
\<close>

theorem services_wired:
  assumes "no_texts (dw_global w)" "load_services w = ((market, trading, account), w1)"
    and "load_websocket_manager w1 = (bus, w2)"
  defines "n \<equiv> di_next_object (dw_global w)"
  shows "market = Some [n, n + 1, n + 2, n + 3] \<and> trading = Some [n, n + 3, n + 2] \<and>
    account = Some [n, n + 1, n + 3] \<and>
    map (\<lambda>i. fst (di_inject 2 service_params i w1)) [IConnectionManager, ICache, IRateLimiter, IEventBus] =
      [Object n, Object (n + 1), Object (n + 2), Object (n + 3)] \<and>
    bus = Some [n + 3] \<and>
    map (\<lambda>i. fst (di_inject 2 service_params i w2)) [IConnectionManager, ICache, IRateLimiter, IEventBus] =
      [Object (n + 4), Object (n + 1), Object (n + 2), Object (n + 3)]"
proof -
  note [simp del] = inject_defaults.simps(2) register_singleton_def
  define c where "c = register_singleton IRateLimiter RateLimitServiceClass
    (register_singleton ICache CacheServiceClass (register_singleton IEventBus EventServiceClass
      (register_singleton IConnectionManager ConnectionServiceClass (dw_global w))))"
  define d where "d = with_object IEventBus (with_object IRateLimiter (with_object ICache
    (with_object IConnectionManager c)))"
  have c: "no_texts c" "unmade IConnectionManager c" "unmade ICache c" "unmade IRateLimiter c"
    "unmade IEventBus c" "di_next_object c = n"
    using assms(1) by (simp_all add: c_def n_def)
  have load: "load_services w =
      ((Some [n, n + 1, n + 2, n + 3], Some [n, n + 3, n + 2], Some [n, n + 1, n + 3]), w\<lparr>dw_global := d\<rparr>)"
    using c by (simp add: load_services_def singleton_def Let_def d_def flip: c_def)
  have d: "made IConnectionManager n d" "made ICache (n + 1) d" "made IRateLimiter (n + 2) d"
    "made IEventBus (n + 3) d" "no_texts d" "di_next_object d = n + 4"
    using c by (simp_all add: d_def)
  have ws: "load_websocket_manager (w\<lparr>dw_global := d\<rparr>) = (Some [n + 3],
      w\<lparr>dw_global := register_singleton IConnectionManager WebSocketManagerClass d\<rparr>)"
    using d by (simp add: load_websocket_manager_def singleton_def)
  have "market = Some [n, n + 1, n + 2, n + 3]" "trading = Some [n, n + 3, n + 2]" "account = Some [n, n + 1, n + 3]"
    and w1: "w1 = w\<lparr>dw_global := d\<rparr>"
    using assms(2) load by simp_all
  moreover have "bus = Some [n + 3]"
    and w2: "w2 = w\<lparr>dw_global := register_singleton IConnectionManager WebSocketManagerClass d\<rparr>"
    using assms(3) ws w1 by simp_all
  moreover have inject: "fst (di_inject 2 service_params i v) = Object obj" if "made i obj (dw_global v)" for i obj v
    using di_inject_facts(2) [OF that, of 1 service_params] by (simp add: numeral_2_eq_2)
  ultimately show ?thesis using d by (simp add: w1 w2 di_inject_facts(1) inject)
qed

theorem services_wired_witness:
  "snd (fst (load_services di_start)) = (Some [0, 3, 2], Some [0, 1, 3]) \<and>
   fst (load_websocket_manager (snd (load_services di_start))) = Some [3]"
proof -
  have t: "no_texts (dw_global di_start)" by (simp add: no_texts_def di_start_def di_new_def)
  obtain m tr a w1 where l: "load_services di_start = ((m, tr, a), w1)" by (metis prod.collapse)
  obtain b w2 where s: "load_websocket_manager w1 = (b, w2)" by fastforce
  have "di_next_object (dw_global di_start) = 0" by (simp add: di_start_def di_new_def)
  with services_wired [OF t l s] l s show ?thesis by simp
qed

text \<open>
  What the decorators register is not in the container of \<open>Container()\<close>: without registrations
  of its own it finds nothing.
\<close>

lemma legacy_container_apart:
  "dw_legacy w = None \<Longrightarrow> fst (legacy_resolve (Suc f) params i (singleton i cls w)) = NotResolved"
  by (simp add: legacy_resolve_def legacy_container_def singleton_def di_new_def)

lemma legacy_new_once: "legacy_new (legacy_new w) = legacy_new w"
  by (simp add: legacy_new_def legacy_container_def)

text \<open>A scope leaves the current scope as it was, whatever the body does to it.\<close>

lemma with_scope_restores: "di_current_scope (snd (with_scope body c)) = di_current_scope c"
  by (simp add: with_scope_def enter_scope_def exit_scope_def split: prod.split)

end
