(* ===== verification/PooledConnections.thy ===== *)
theory PooledConnections
  imports ConnPool
begin

text \<open>
  Model of the users of the pools of theory \<open>ConnPool\<close> in \<open>src/bt_api_base/connection_pool.py\<close>:
  the context managers \<open>PooledConnection\<close> and \<open>AsyncPooledConnection\<close>, and the thread that runs
  the cleanup rounds. A handle is its attribute \<open>_conn\<close>. \<open>truthy\<close> says which connection objects
  count as true: an object with a \<open>__len__\<close> or \<open>__bool__\<close> of its own may not.
\<close>

section \<open>Context managers\<close>

type_synonym handle = "conn option"

definition pooled_enter ::
    "(conn \<Rightarrow> bool) \<Rightarrow> bool \<Rightarrow> handle \<times> ConnectionPool \<Rightarrow> acquire_end \<times> handle \<times> ConnectionPool" where
  "pooled_enter healthy factory_ok x =
     (case cp_acquire healthy factory_ok (snd x) of
        (Acquired c, p) \<Rightarrow> (Acquired c, Some c, p)
      | (e, p) \<Rightarrow> (e, fst x, p))"

definition pooled_exit ::
    "(conn \<Rightarrow> bool) \<Rightarrow> (conn \<Rightarrow> bool) \<Rightarrow> time \<Rightarrow> handle \<times> ConnectionPool \<Rightarrow> handle \<times> ConnectionPool" where
  "pooled_exit truthy healthy now x =
     (case fst x of
        Some c \<Rightarrow> if truthy c then (fst x, snd (cp_release healthy now c (snd x))) else x
      | None \<Rightarrow> x)"

text \<open>
  \<open>with PooledConnection(pool) as conn:\<close>. What is done with the pool while the body runs, by it
  and by other threads, is \<open>body\<close>; whether it raises makes no difference to the pool.
\<close>

definition with_pooled ::
    "(conn \<Rightarrow> bool) \<Rightarrow> (conn \<Rightarrow> bool) \<Rightarrow> bool \<Rightarrow> (conn \<Rightarrow> ConnectionPool \<Rightarrow> ConnectionPool)
     \<Rightarrow> (conn \<Rightarrow> bool) \<Rightarrow> time \<Rightarrow> ConnectionPool \<Rightarrow> acquire_end \<times> ConnectionPool" where
  "with_pooled truthy healthy factory_ok body healthy' now p =
     (case pooled_enter healthy factory_ok (None, p) of
        (Acquired c, h, p1) \<Rightarrow> (Acquired c, snd (pooled_exit truthy healthy' now (h, body c p1)))
      | (e, h, p1) \<Rightarrow> (e, p1))"

definition apooled_enter :: "bool \<Rightarrow> handle \<times> AsyncPool \<Rightarrow> ap_result \<times> handle \<times> AsyncPool" where
  "apooled_enter factory_ok x =
     (case ap_acquire factory_ok (snd x) of
        (AsyncConn c, p) \<Rightarrow> (AsyncConn c, Some c, p)
      | (e, p) \<Rightarrow> (e, fst x, p))"

definition apooled_exit :: "(conn \<Rightarrow> bool) \<Rightarrow> time \<Rightarrow> handle \<times> AsyncPool \<Rightarrow> handle \<times> AsyncPool" where
  "apooled_exit truthy now x =
     (case fst x of
        Some c \<Rightarrow> if truthy c then (fst x, ap_release now c (snd x)) else x
      | None \<Rightarrow> x)"

section \<open>The cleanup thread\<close>

text \<open>
  One turn: the test of \<open>_running\<close>, a minute of sleep in which other threads use the pool, and a
  round at \<open>now\<close> in which \<open>oks\<close> calls of the factory succeed. A factory that raises ends the
  thread. \<open>LoopSleeps\<close>: the turns given are over.
\<close>

datatype cleanup_end = LoopEnded | LoopRaised | LoopSleeps

fun cp_cleanup_loop ::
    "((ConnectionPool \<Rightarrow> ConnectionPool) \<times> nat \<times> time) list \<Rightarrow> ConnectionPool \<Rightarrow> cleanup_end \<times> ConnectionPool" where
  "cp_cleanup_loop env p =
     (if \<not> cp_running p then (LoopEnded, p)
      else case env of
        [] \<Rightarrow> (LoopSleeps, p)
      | (others, oks, now) # env' \<Rightarrow>
          (case cp_cleanup oks now (others p) of
             (True, p1) \<Rightarrow> (LoopRaised, p1)
           | (False, p1) \<Rightarrow> cp_cleanup_loop env' p1))"

declare cp_cleanup_loop.simps [simp del]

section \<open>Connections come back\<close>

lemma try_acquire_keeps: "c \<in> set (cp_in_use p) \<Longrightarrow> c \<in> set (cp_in_use (snd (cp_try_acquire healthy ok p)))"
  by (auto simp: cp_try_acquire_def Let_def split: prod.split option.split)

text \<open>A connection in use stays so until it is released itself or the pool is stopped.\<close>

lemma step_keeps_in_use:
  assumes "c \<in> set (cp_in_use p)" "\<And>healthy t. op \<noteq> Release healthy t c" "op \<noteq> Stop"
  shows "c \<in> set (cp_in_use (cp_step p op))"
proof (cases op)
  case (Acquire healthy ok)
  with assms(1) show ?thesis by (simp add: cp_acquire_snd try_acquire_keeps)
qed (use assms in \<open>auto simp: cp_start_def cp_fill_def cp_release_def cp_close_def cp_cleanup_def Let_def\<close>)

definition keeps_out :: "conn \<Rightarrow> cp_op list \<Rightarrow> bool" where
  "keeps_out c ops \<longleftrightarrow> Stop \<notin> set ops \<and> (\<forall>healthy t. Release healthy t c \<notin> set ops)"

lemma steps_keep_in_use:
  "c \<in> set (cp_in_use p) \<Longrightarrow> keeps_out c ops \<Longrightarrow> c \<in> set (cp_in_use (foldl cp_step p ops))"
  by (induction ops arbitrary: p) (auto simp: keeps_out_def, metis step_keeps_in_use)

text \<open>
  A \<open>with\<close> statement over a pool gives its connection back: whatever calls the pool serves
  before and while the body runs, if none of them stops the pool or releases that connection, it
  was in use by nobody before and is in use all the time until the end, and after it the
  connection is idle in the pool or, if it fails its health check, shut, and in use by nobody.
\<close>

theorem pooled_connection_returned:
  assumes "p = foldl cp_step (cp_init max_size min_size max_idle) before"
    and "with_pooled truthy healthy factory_ok (\<lambda>c q. foldl cp_step q (during c)) healthy' now p = (Acquired c, p')"
    and "truthy c" and "keeps_out c (during c)"
  shows "c \<notin> set (cp_in_use p) \<and> c \<notin> set (cp_in_use p') \<and>
    (if healthy' c then (c, now) \<in> set (cp_pool p') else c \<in> set (cp_closed p')) \<and>
    (\<forall>k \<le> length (during c).
       c \<in> set (cp_in_use (foldl cp_step (snd (cp_acquire healthy factory_ok p)) (take k (during c)))))"
proof -
  obtain p1 where a: "cp_acquire healthy factory_ok p = (Acquired c, p1)"
    and p': "p' = snd (cp_release healthy' now c (foldl cp_step p1 (during c)))"
    using assms(2,3)
    by (auto simp: with_pooled_def pooled_enter_def pooled_exit_def split: prod.splits acquire_end.splits)
  have ok: "cp_ok p" unfolding assms(1) by (rule cp.reach_inv)
  have r: "cp_try_acquire healthy factory_ok p = (Conn c, p1)"
    using a by (auto simp: cp_acquire_def split: prod.splits acquired.splits)
  from cp_try_acquire_ok [OF ok r] have u: "c \<notin> set (cp_in_use p)" "c \<in> set (cp_in_use p1)" by simp_all
  have k: "c \<in> set (cp_in_use (foldl cp_step p1 (take k (during c))))" for k
    by (rule steps_keep_in_use [OF u(2)])
      (use assms(4) in \<open>auto simp: keeps_out_def dest: in_set_takeD\<close>)
  from k [of "length (during c)"] have "c \<in> set (cp_in_use (foldl cp_step p1 (during c)))" by simp
  then show ?thesis using u k a by (auto simp: p' cp_release_def cp_close_def Let_def)
qed

theorem pooled_connection_returned_witness:
  "cp_in_use (snd (with_pooled (\<lambda>_. True) (\<lambda>_. True) True
     (\<lambda>c q. foldl cp_step q [Acquire (\<lambda>_. True) True]) (\<lambda>_. True) 5 (cp_init 2 0 300))) = [1] \<and>
   (0 :: conn) \<notin> set (cp_in_use (snd (with_pooled (\<lambda>_. True) (\<lambda>_. True) True
     (\<lambda>c q. foldl cp_step q [Acquire (\<lambda>_. True) True]) (\<lambda>_. True) 5 (cp_init 2 0 300))))"
proof -
  let ?w = "with_pooled (\<lambda>_. True) (\<lambda>_. True) True (\<lambda>c q. foldl cp_step q [Acquire (\<lambda>_. True) True])
    (\<lambda>_. True) 5 (cp_init 2 0 300)"
  have v: "fst ?w = Acquired 0" "cp_in_use (snd ?w) = [1]"
    by (simp_all add: with_pooled_def pooled_enter_def pooled_exit_def cp_init_def cp_acquire_def
        cp_try_acquire_def cp_release_def sadd_def sdiscard_def Let_def)
  obtain p' where w: "?w = (Acquired 0, p')" using v(1) by (metis prod.collapse)
  from pooled_connection_returned [OF _ w, of 2 0 300 "[]"] v show ?thesis by (simp add: keeps_out_def)
qed

section \<open>Connections that do not\<close>

text \<open>A connection object that counts as false is never given back.\<close>

lemma falsy_connection_kept:
  "\<not> truthy c \<Longrightarrow> pooled_enter healthy ok (h, p) = (Acquired c, x) \<Longrightarrow> pooled_exit truthy healthy' now x = x"
  by (auto simp: pooled_enter_def pooled_exit_def split: prod.splits acquire_end.splits)

lemma falsy_connection_keeps_permit:
  "\<not> truthy c \<Longrightarrow> apooled_enter ok (h, p) = (AsyncConn c, x) \<Longrightarrow> apooled_exit truthy now x = x"
  by (auto simp: apooled_enter_def apooled_exit_def split: prod.splits ap_result.splits)

text \<open>
  A handle used twice, one \<open>with\<close> inside the other, remembers only the inner connection: both
  exits give that one back, and the outer connection stays in use.
\<close>

lemma reused_handle_leaks:
  assumes "cp_ok p" "pooled_enter healthy1 ok1 (None, p) = (Acquired c1, x1)"
    and "pooled_enter healthy2 ok2 x1 = (Acquired c2, x2)"
  shows "c1 \<in> set (cp_in_use (snd (pooled_exit truthy h4 t4 (pooled_exit truthy h3 t3 x2))))"
proof -
  obtain p1 p2 where x: "x1 = (Some c1, p1)" "x2 = (Some c2, p2)"
    and a: "cp_try_acquire healthy1 ok1 p = (Conn c1, p1)" "cp_try_acquire healthy2 ok2 p1 = (Conn c2, p2)"
    using assms(2,3) by (auto simp: pooled_enter_def cp_acquire_def split: prod.splits acquire_end.splits acquired.splits)
  have "c1 \<in> set (cp_in_use p1)" "cp_ok p1" using cp_try_acquire_ok [OF assms(1) a(1)] by simp_all
  moreover from cp_try_acquire_ok [OF this(2) a(2)] have "c2 \<notin> set (cp_in_use p1)"
    "set (cp_in_use p2) = insert c2 (set (cp_in_use p1))" by simp_all
  ultimately show ?thesis
    by (auto simp: x pooled_exit_def cp_release_def cp_close_def Let_def)
qed

text \<open>
  The cleanup thread sleeps a minute before its round and does not look at \<open>_running\<close> again,
  while \<open>stop\<close> waits five seconds for it: a pool that is stopped during the sleep is filled
  again, with connections that nobody shuts.
\<close>

lemma stopped_pool_filled_again:
  assumes "cp_running p"
  shows "cp_cleanup_loop [(cp_stop, cp_min_size p, now)] p =
    (LoopEnded, (cp_stop p)\<lparr>cp_pool := map (\<lambda>i. (cp_made p + i, now)) [0..<cp_min_size p],
       cp_made := cp_made p + cp_min_size p\<rparr>)"
  using assms by (simp add: cp_cleanup_loop.simps cp_cleanup_def cp_stop_def cp_fill_def Let_def)

lemma loop_after_stop: "\<not> cp_running p \<Longrightarrow> cp_cleanup_loop env p = (LoopEnded, p)"
  by (simp add: cp_cleanup_loop.simps)

lemma failing_factory_ends_cleanup:
  "cp_running p \<Longrightarrow> cp_pool p = [] \<Longrightarrow> 0 < cp_min_size p \<Longrightarrow>
   fst (cp_cleanup_loop ((id, 0, now) # env) p) = LoopRaised"
  by (simp add: cp_cleanup_loop.simps cp_cleanup_def cp_fill_def Let_def split: prod.split)

end
