(* ===== verification/WebSocketMonitor.thy ===== *)
theory WebSocketMonitor
  imports WebSocketCorrect Support
begin

text \<open>
  Model of the supervision in \<open>src/bt_api_base/websocket_manager.py\<close>: the monitor task of a
  connection with its heartbeats, and the manager of theory \<open>WebSocket\<close> together with the task
  group of theory \<open>Support\<close> that holds the monitors.
\<close>

section \<open>One monitor\<close>

text \<open>
  One turn: thirty seconds in which others use the connection, then a ping if it has a socket.
  \<open>Pong t\<close>: the ping was sent and the clock reads \<open>t\<close>; \<open>PingFails\<close>: an \<open>OSError\<close> or an
  error of the library. \<open>None\<close>: no such statistic yet (0.0).
\<close>

datatype ping = Pong time | PingFails

datatype monitor_end = MonitorEnds | MonitorBreaks | MonitorSleeps

fun monitor_connection ::
    "((ws_conn \<Rightarrow> ws_conn) \<times> ping) list \<Rightarrow> ws_conn \<Rightarrow> time option
     \<Rightarrow> monitor_end \<times> ws_conn \<times> time option" where
  "monitor_connection env c heartbeat =
     (if \<not> wc_running c then (MonitorEnds, c, heartbeat)
      else case env of
        [] \<Rightarrow> (MonitorSleeps, c, heartbeat)
      | (others, p) # env' \<Rightarrow>
          (let c1 = others c
           in if wc_connected c1 \<and> wc_socket c1
              then (case p of
                      Pong t \<Rightarrow> monitor_connection env' c1 (Some t)
                    | PingFails \<Rightarrow> (MonitorBreaks, c1, heartbeat))
              else monitor_connection env' c1 heartbeat))"

declare monitor_connection.simps [simp del]

section \<open>The manager with its tasks\<close>

text \<open>
  A monitor belongs to the exchange and the place of its connection; its task has a number in
  the group. \<open>None\<close>: the group is shutting down and \<open>create_task\<close> raises.
\<close>

record ws_supervisor =
  sv_manager :: WebSocketManager
  sv_group :: AsyncTaskGroup
  sv_monitors :: "((string \<times> nat) \<times> nat) list"

text \<open>A manager to which the exchanges \<open>fs\<close> have been added.\<close>

definition sv_new :: "WebSocketConfig list \<Rightarrow> ws_supervisor" where
  "sv_new fs =
     \<lparr>sv_manager = foldl (\<lambda>m f. add_exchange f m) wm_new fs, sv_group = tg_new, sv_monitors = []\<rparr>"

definition pool_length :: "WebSocketManager \<Rightarrow> string \<Rightarrow> nat" where
  "pool_length m e = length (dget_default (wm_pools m) e [])"

definition sv_get_connection ::
    "bool \<Rightarrow> string \<Rightarrow> ws_supervisor \<Rightarrow> (ws_result + nat) option \<times> ws_supervisor" where
  "sv_get_connection connect_ok e s =
     (case wm_get_connection connect_ok e (sv_manager s) of
        (r, m) \<Rightarrow>
          if pool_length m e = pool_length (sv_manager s) e then (Some r, s\<lparr>sv_manager := m\<rparr>)
          else (case tg_create (sv_group s) of
                  (Inl _, g) \<Rightarrow> (None, s\<lparr>sv_manager := m, sv_group := g\<rparr>)
                | (Inr t, g) \<Rightarrow>
                    (Some r, s\<lparr>sv_manager := m, sv_group := g,
                               sv_monitors := sv_monitors s @ [((e, pool_length (sv_manager s) e), t)]\<rparr>)))"

definition sv_monitor_ends :: "nat \<Rightarrow> ws_supervisor \<Rightarrow> ws_supervisor" where
  "sv_monitor_ends t s =
     s\<lparr>sv_group := tg_done t (sv_group s), sv_monitors := filter (\<lambda>(_, u). u \<noteq> t) (sv_monitors s)\<rparr>"

text \<open>\<open>close_all\<close> cancels the monitors and waits for them; \<open>stop\<close> is another name of it.\<close>

definition sv_close_all :: "ws_supervisor \<Rightarrow> ws_supervisor" where
  "sv_close_all s =
     (let cancelled = tg_tasks (sv_group s)
      in s\<lparr>sv_manager := wm_close_all (sv_manager s), sv_group := tg_new,
           sv_monitors := filter (\<lambda>(_, t). t \<notin> set cancelled) (sv_monitors s)\<rparr>)"

definition sv_stop :: "ws_supervisor \<Rightarrow> ws_supervisor" where
  "sv_stop s = sv_close_all s"

datatype sv_op = SvGet bool string | SvMonitorEnds nat | SvCloseAll | SvConn string nat ws_op

fun sv_step :: "ws_supervisor \<Rightarrow> sv_op \<Rightarrow> ws_supervisor" where
  "sv_step s (SvGet ok e) = snd (sv_get_connection ok e s)"
| "sv_step s (SvMonitorEnds t) = sv_monitor_ends t s"
| "sv_step s SvCloseAll = sv_close_all s"
| "sv_step s (SvConn e i x) = s\<lparr>sv_manager := wm_step (sv_manager s) (WmConn e i x)\<rparr>"

section \<open>Every connection is watched once\<close>

definition sv_ok :: "ws_supervisor \<Rightarrow> bool" where
  "sv_ok s \<longleftrightarrow> \<not> tg_shutdown (sv_group s) \<and> set (tg_tasks (sv_group s)) = snd ` set (sv_monitors s) \<and>
     distinct (map fst (sv_monitors s)) \<and> distinct (map snd (sv_monitors s)) \<and>
     (\<forall>((e, i), t) \<in> set (sv_monitors s). t < tg_next (sv_group s) \<and> i < pool_length (sv_manager s) e)"

lemma get_connection_length:
  assumes "wm_get_connection ok e m = (r, m')"
  shows "pool_length m' e' = pool_length m e' \<or>
    e' = e \<and> r = Inr (pool_length m e) \<and> pool_length m' e = Suc (pool_length m e)"
  using assms
  by (auto simp: wm_get_connection_def pool_length_def dget_default_def Let_def
      split: option.splits prod.splits if_splits bool.splits)

lemma step_conn_length: "pool_length (wm_step m (WmConn e i x)) e' = pool_length m e'"
  by (auto simp: pool_length_def dget_default_def split: option.split)

lemma sv_get_connection_ok: "sv_ok s \<Longrightarrow> sv_ok (snd (sv_get_connection ok e s))"
proof -
  assume s: "sv_ok s"
  obtain r m where g: "wm_get_connection ok e (sv_manager s) = (r, m)" by fastforce
  note len = get_connection_length [OF g]
  show ?thesis
  proof (cases "pool_length m e = pool_length (sv_manager s) e")
    case True
    then have "pool_length m e' = pool_length (sv_manager s) e'" for e' using len [of e'] by auto
    with True s g show ?thesis by (simp add: sv_get_connection_def sv_ok_def)
  next
    case False
    let ?n = "pool_length (sv_manager s) e"
    have n: "pool_length m e = Suc ?n" "\<And>e'. e' \<noteq> e \<Longrightarrow> pool_length m e' = pool_length (sv_manager s) e'"
      using False len by auto
    have new: "((e, ?n), t) \<notin> set (sv_monitors s)" "(k, tg_next (sv_group s)) \<notin> set (sv_monitors s)" for t k
      using s by (force simp: sv_ok_def)+
    have place: "i < pool_length m e'" if "((e', i), t) \<in> set (sv_monitors s)" for e' i t
      using that s n by (cases "e' = e") (fastforce simp: sv_ok_def)+
    have s': "snd (sv_get_connection ok e s) =
        s\<lparr>sv_manager := m,
          sv_group := (sv_group s)\<lparr>tg_tasks := sadd (tg_next (sv_group s)) (tg_tasks (sv_group s)),
            tg_next := tg_next (sv_group s) + 1\<rparr>,
          sv_monitors := sv_monitors s @ [((e, ?n), tg_next (sv_group s))]\<rparr>"
      using False s g by (simp add: sv_get_connection_def tg_create_def sv_ok_def)
    have "(e, ?n) \<notin> fst ` set (sv_monitors s)" "tg_next (sv_group s) \<notin> snd ` set (sv_monitors s)"
      using new by auto
    then show ?thesis
      using s n(1) place unfolding s' sv_ok_def by (simp add: case_prod_unfold) (metis less_SucI prod.collapse)
  qed
qed

lemma sv_monitor_ends_ok:
  assumes "sv_ok s" shows "sv_ok (sv_monitor_ends t s)"
proof -
  have d: "distinct (map fst (filter P (sv_monitors s)))" "distinct (map snd (filter P (sv_monitors s)))" for P
    using assms by (simp_all add: sv_ok_def distinct_map_filter)
  have "snd ` {x \<in> set (sv_monitors s). snd x \<noteq> t} = snd ` set (sv_monitors s) - {t}" by auto
  with assms d show ?thesis by (auto simp: sv_ok_def sv_monitor_ends_def tg_done_def case_prod_unfold)
qed

lemma sv_close_all_ok:
  assumes "sv_ok s" shows "sv_ok (sv_close_all s) \<and> sv_monitors (sv_close_all s) = []"
proof -
  have "filter (\<lambda>(_, t). t \<notin> set (tg_tasks (sv_group s))) (sv_monitors s) = []"
    using assms unfolding sv_ok_def filter_empty_conv by (metis (no_types, lifting) case_prod_unfold imageI)
  then show ?thesis by (simp add: sv_ok_def sv_close_all_def tg_new_def Let_def)
qed

interpretation supervisor: op_system "sv_new fs" sv_step sv_ok for fs
proof
  show "sv_ok (sv_new fs)" by (simp add: sv_ok_def sv_new_def tg_new_def)
  fix s x assume ok: "sv_ok s"
  show "sv_ok (sv_step s x)"
  proof (cases x)
    case (SvConn e i y)
    with ok show ?thesis by (simp add: sv_ok_def step_conn_length del: wm_step.simps)
  qed (use ok in \<open>simp_all add: sv_get_connection_ok sv_monitor_ends_ok sv_close_all_ok\<close>)
qed



section \<open>What is not watched\<close>

text \<open>
  A monitor ends at its first failed ping, and nothing starts another: whatever happens later, a
  connection that reconnects in its place of the pool has no monitor until the pools are closed.
\<close>

lemma monitor_breaks_at_failure:
  "wc_running c \<Longrightarrow> wc_connected (others c) \<Longrightarrow> wc_socket (others c) \<Longrightarrow>
   monitor_connection ((others, PingFails) # env) c heartbeat = (MonitorBreaks, others c, heartbeat)"
  by (simp add: monitor_connection.simps)

lemma step_not_watched:
  assumes "sv_ok s" "i < pool_length (sv_manager s) e" "(e, i) \<notin> fst ` set (sv_monitors s)" "op \<noteq> SvCloseAll"
  shows "i < pool_length (sv_manager (sv_step s op)) e \<and> (e, i) \<notin> fst ` set (sv_monitors (sv_step s op))"
proof (cases op)
  case (SvGet ok e')
  obtain r m where g: "wm_get_connection ok e' (sv_manager s) = (r, m)" by fastforce
  from get_connection_length [OF g, of e] have "pool_length (sv_manager s) e \<le> pool_length m e" by auto
  with assms SvGet g show ?thesis
    by (auto simp: sv_get_connection_def tg_create_def sv_ok_def split: prod.split)
next
  case (SvMonitorEnds t)
  with assms show ?thesis by (auto simp: sv_monitor_ends_def)
next
  case (SvConn e' j x)
  with assms show ?thesis by (simp add: step_conn_length del: wm_step.simps)
qed (use assms in simp)

lemma dead_monitor_not_replaced:
  assumes "sv_ok s" "i < pool_length (sv_manager s) e" "((e, i), t) \<in> set (sv_monitors s)" "SvCloseAll \<notin> set ops"
  shows "(e, i) \<notin> fst ` set (sv_monitors (foldl sv_step s (SvMonitorEnds t # ops)))"
proof -
  let ?s = "sv_monitor_ends t s"
  have "(e, i) \<notin> fst ` set (sv_monitors ?s)"
    using assms(1,3) by (auto simp: sv_ok_def sv_monitor_ends_def dest: eq_key_imp_eq_value)
  moreover have "sv_ok ?s" "i < pool_length (sv_manager ?s) e"
    using assms(1,2) sv_monitor_ends_ok by (auto simp: sv_monitor_ends_def)
  moreover have "sv_ok s' \<Longrightarrow> i < pool_length (sv_manager s') e \<Longrightarrow> (e, i) \<notin> fst ` set (sv_monitors s') \<Longrightarrow>
      (e, i) \<notin> fst ` set (sv_monitors (foldl sv_step s' ops))" for s'
    using assms(4)
  proof (induction ops arbitrary: s')
    case (Cons x ops)
    from step_not_watched [OF Cons.prems(1-3), of x] Cons.prems(4) supervisor.step_inv [OF Cons.prems(1), of x]
    show ?case using Cons.IH [of "sv_step s' x"] Cons.prems(4) by auto
  qed simp
  ultimately show ?thesis by simp
qed

text \<open>
  Adding an exchange again replaces its pool by an empty one: its connections are not closed
  then, and \<open>close_all\<close> cannot reach them any more.
\<close>

lemma readding_exchange_loses_connections:
  "dget (wm_pools (add_exchange f m)) (wf_exchange_name f) = Some []"
  by (simp add: add_exchange_def)

end
