(* ===== verification/HttpTransport.thy ===== *)
theory HttpTransport
  imports Feed
begin

text \<open>
  Model of how the clients of \<open>src/bt_api_base/feeds/http_client.py\<close> are configured and used, and
  of the feed of \<open>feeds/feed.py\<close> as the object that owns them: proxies, the requests of both
  clients, closing, and \<open>connect\<close> and \<open>disconnect\<close> of the feed. A client is what it was made with;
  \<open>httpx\<close> documents that a closed client refuses a request with \<open>RuntimeError\<close>.
\<close>

section \<open>How clients are made\<close>

datatype proxy_setting = NoProxies | ProxyUrl string | ProxyDict "(string, string) dict"

text \<open>\<open>a or b or c\<close>, then \<open>if proxy_url\<close>: the first entry that is there and not empty.\<close>

definition proxy_url :: "proxy_setting \<Rightarrow> string option" where
  "proxy_url p =
     (case p of
        NoProxies \<Rightarrow> None
      | ProxyUrl u \<Rightarrow> if u = [] then None else Some u
      | ProxyDict d \<Rightarrow>
          (case List.find (\<lambda>k. dget_default d k [] \<noteq> []) [''https'', ''http'', ''all''] of
             Some k \<Rightarrow> dget d k
           | None \<Rightarrow> None))"

record client_policy =
  po_timeout :: time
  po_max_connections :: nat
  po_max_keepalive :: nat
  po_verify :: bool
  po_follow_redirects :: bool
  po_trust_env :: bool
  po_proxy :: "string option"

definition client_policy_of :: "time \<Rightarrow> nat \<Rightarrow> nat \<Rightarrow> bool \<Rightarrow> proxy_setting \<Rightarrow> client_policy" where
  "client_policy_of timeout max_connections max_keepalive verify proxies =
     \<lparr>po_timeout = timeout, po_max_connections = max_connections, po_max_keepalive = max_keepalive,
      po_verify = verify, po_follow_redirects = False, po_trust_env = (proxies = NoProxies),
      po_proxy = proxy_url proxies\<rparr>"

text \<open>
  The client object: its two clients, the keywords kept for asynchronous ones, and what every
  client was made with, in order.
\<close>

record http_client =
  hl_venue :: string
  hl_clients :: http_clients
  hl_async_kwargs :: client_policy
  hl_policies :: "client_policy list"

definition http_client_new :: "string \<Rightarrow> client_policy \<Rightarrow> http_client" where
  "http_client_new venue policy =
     \<lparr>hl_venue = venue, hl_clients = \<lparr>hc_sync_open = True, hc_async = NoClient, hc_made = 0\<rparr>,
      hl_async_kwargs = policy, hl_policies = [policy]\<rparr>"

section \<open>Requests\<close>

datatype client_answer = Replies client_reply | ClientClosed

definition client_answer_of ::
    "(string \<Rightarrow> string) \<Rightarrow> (pyval \<Rightarrow> string) \<Rightarrow> (string \<Rightarrow> time option) \<Rightarrow> bool \<Rightarrow> string
     \<Rightarrow> (string \<times> string) list option \<Rightarrow> client_answer \<Rightarrow> client_exc + pyval" where
  "client_answer_of clean render parse_float is_async venue headers a =
     (case a of
        ClientClosed \<Rightarrow> Inl (FromResponse (HttpPython RuntimeError))
      | Replies (Answer r) \<Rightarrow>
          (case process_response clean render parse_float venue r of
             Inl e \<Rightarrow> Inl (FromResponse e)
           | Inr j \<Rightarrow> Inr j)
      | Replies (NoAnswer t) \<Rightarrow>
          Inl (FromTransport (transport_failure clean render is_async venue headers t)))"

definition http_sync_request ::
    "(string \<Rightarrow> string) \<Rightarrow> (pyval \<Rightarrow> string) \<Rightarrow> (string \<Rightarrow> time option)
     \<Rightarrow> (string \<times> string) list option \<Rightarrow> client_reply \<Rightarrow> http_client \<Rightarrow> client_exc + pyval" where
  "http_sync_request clean render parse_float headers reply h =
     client_answer_of clean render parse_float False (hl_venue h) headers
       (if hc_sync_open (hl_clients h) then Replies reply else ClientClosed)"

text \<open>The asynchronous client is made when there is none or it was closed.\<close>

definition async_client_for :: "http_client \<Rightarrow> http_client" where
  "async_client_for h =
     (case get_async_client (hl_clients h) of
        (_, cs) \<Rightarrow>
          h\<lparr>hl_clients := cs,
            hl_policies := hl_policies h @ replicate (hc_made cs - hc_made (hl_clients h)) (hl_async_kwargs h)\<rparr>)"

definition http_async_request ::
    "(string \<Rightarrow> string) \<Rightarrow> (pyval \<Rightarrow> string) \<Rightarrow> (string \<Rightarrow> time option)
     \<Rightarrow> (string \<times> string) list option \<Rightarrow> client_reply \<Rightarrow> http_client
     \<Rightarrow> (client_exc + pyval) \<times> http_client" where
  "http_async_request clean render parse_float headers reply h =
     (client_answer_of clean render parse_float True (hl_venue h) headers (Replies reply), async_client_for h)"

definition http_client_close :: "http_client \<Rightarrow> http_client" where
  "http_client_close h = h\<lparr>hl_clients := http_close (hl_clients h)\<rparr>"

definition http_client_aclose :: "http_client \<Rightarrow> http_client" where
  "http_client_aclose h = h\<lparr>hl_clients := http_aclose (hl_clients h)\<rparr>"

section \<open>The feed\<close>

text \<open>\<open>Feed.__init__\<close> passes its venue, timeout and proxies on; the rest are the defaults.\<close>

record feed =
  fd_connection :: FeedConnectionState
  fd_http :: http_client

definition feed_new :: "string \<Rightarrow> time option \<Rightarrow> proxy_setting \<Rightarrow> feed" where
  "feed_new exchange_name timeout proxies =
     \<lparr>fd_connection = DISCONNECTED,
      fd_http = http_client_new exchange_name
        (client_policy_of (case timeout of Some t \<Rightarrow> t | None \<Rightarrow> 10) 100 20 True proxies)\<rparr>"

definition fd_connect :: "feed \<Rightarrow> feed" where
  "fd_connect f = f\<lparr>fd_connection := feed_connect (fd_connection f)\<rparr>"

definition fd_disconnect :: "feed \<Rightarrow> feed" where
  "fd_disconnect f =
     f\<lparr>fd_http := http_client_close (fd_http f), fd_connection := feed_disconnect (fd_connection f)\<rparr>"

text \<open>
  \<open>http_request\<close> of a feed: between two attempts other threads may use or close the feed, so
  attempt \<open>i\<close> meets the feed \<open>feeds i\<close>.
\<close>

definition fd_http_request ::
    "(string \<Rightarrow> string) \<Rightarrow> (pyval \<Rightarrow> string) \<Rightarrow> (string \<Rightarrow> time option)
     \<Rightarrow> (string \<times> string) list option \<Rightarrow> (nat \<Rightarrow> client_reply) \<Rightarrow> nat \<Rightarrow> (nat \<Rightarrow> feed)
     \<Rightarrow> feed_end \<times> time list \<times> nat" where
  "fd_http_request clean render parse_float headers replies max_retries feeds =
     attempt_loop
       (\<lambda>i. http_sync_request clean render parse_float
              (Some (case headers of None \<Rightarrow> [] | Some h \<Rightarrow> h)) (replies i) (fd_http (feeds i)))
       max_retries 0 max_retries"

datatype feed_op = FeedConnect | FeedDisconnect | FeedAsyncRequest | CloseClients | AcloseClients

fun feed_step :: "feed \<Rightarrow> feed_op \<Rightarrow> feed" where
  "feed_step f FeedConnect = fd_connect f"
| "feed_step f FeedDisconnect = fd_disconnect f"
| "feed_step f FeedAsyncRequest = f\<lparr>fd_http := async_client_for (fd_http f)\<rparr>"
| "feed_step f CloseClients = f\<lparr>fd_http := http_client_close (fd_http f)\<rparr>"
| "feed_step f AcloseClients = f\<lparr>fd_http := http_client_aclose (fd_http f)\<rparr>"

section \<open>Every client is safe\<close>

definition feed_ok :: "client_policy \<Rightarrow> feed \<Rightarrow> bool" where
  "feed_ok policy f \<longleftrightarrow> hl_async_kwargs (fd_http f) = policy \<and>
     hl_policies (fd_http f) = replicate (Suc (hc_made (hl_clients (fd_http f)))) policy"

lemma made_grows: "hc_made cs \<le> hc_made (snd (get_async_client cs))"
  by (simp add: get_async_client_def split: async_client.split)

lemma feed_step_ok: "feed_ok policy f \<Longrightarrow> feed_ok policy (feed_step f x)"
  using made_grows [of "hl_clients (fd_http f)"]
  by (cases x)
    (auto simp: feed_ok_def fd_connect_def fd_disconnect_def http_client_close_def http_client_aclose_def
      http_close_def http_aclose_def async_client_for_def replicate_add [symmetric] split: prod.split)

interpretation feeds: op_system "feed_new e t p" feed_step
  "feed_ok (client_policy_of (case t of Some t \<Rightarrow> t | None \<Rightarrow> 10) 100 20 True p)" for e t p
  by unfold_locales (simp_all add: feed_step_ok, simp add: feed_ok_def feed_new_def http_client_new_def)

lemma proxy_url_None: "proxy_url p = None \<longleftrightarrow>
    (case p of NoProxies \<Rightarrow> True | ProxyUrl u \<Rightarrow> u = []
     | ProxyDict d \<Rightarrow> \<forall>k \<in> {''https'', ''http'', ''all''}. dget_default d k [] = [])"
  by (auto simp: proxy_url_def dget_default_def split: proxy_setting.split option.split)

text \<open>
  Whatever a feed is made with and whatever is done with it: every HTTP client it ever makes, the
  synchronous one and each asynchronous one, verifies certificates, follows no redirect, uses the
  proxy its options name, and looks at the environment only if no proxies were given.
\<close>

theorem feed_clients_safe:
  assumes "f = foldl feed_step (feed_new e t p) ops" and "c \<in> set (hl_policies (fd_http f))"
  shows "po_verify c \<and> \<not> po_follow_redirects c \<and> po_proxy c = proxy_url p \<and>
    (po_trust_env c \<longleftrightarrow> p = NoProxies) \<and>
    length (hl_policies (fd_http f)) = Suc (hc_made (hl_clients (fd_http f)))"
proof -
  have "feed_ok (client_policy_of (case t of Some t \<Rightarrow> t | None \<Rightarrow> 10) 100 20 True p) f"
    unfolding assms(1) by (rule feeds.reach_inv)
  with assms(2) show ?thesis by (auto simp: feed_ok_def client_policy_of_def)
qed

theorem feed_clients_safe_witness:
  "\<not> po_follow_redirects (last (hl_policies (fd_http (foldl feed_step (feed_new ''OKX'' None (ProxyUrl ''p''))
     [FeedAsyncRequest, FeedDisconnect, FeedAsyncRequest]))))"
proof -
  let ?f = "foldl feed_step (feed_new ''OKX'' None (ProxyUrl ''p'')) [FeedAsyncRequest, FeedDisconnect, FeedAsyncRequest]"
  have "feed_ok (client_policy_of (case None of Some t \<Rightarrow> t | None \<Rightarrow> 10) 100 20 True (ProxyUrl ''p'')) ?f"
    by (rule feeds.reach_inv)
  then have "hl_policies (fd_http ?f) \<noteq> []" by (simp add: feed_ok_def del: foldl_Cons)
  from feed_clients_safe [OF refl last_in_set [OF this]] show ?thesis by simp
qed

section \<open>Closed feeds\<close>

lemma closed_stays: "\<not> hc_sync_open (hl_clients (fd_http f)) \<Longrightarrow>
    \<not> hc_sync_open (hl_clients (fd_http (foldl feed_step f ops)))"
proof (induction ops arbitrary: f)
  case (Cons x ops)
  have "\<not> hc_sync_open (hl_clients (fd_http (feed_step f x)))"
    using Cons.prems
    by (cases x) (auto simp: fd_connect_def fd_disconnect_def http_client_close_def http_client_aclose_def
        http_close_def http_aclose_def async_client_for_def get_async_client_def split: prod.split async_client.split)
  with Cons.IH show ?case by simp
qed simp

lemma open_feed_requests:
  assumes "\<And>i. hc_sync_open (hl_clients (fd_http (feeds i))) \<and> hl_venue (fd_http (feeds i)) = venue"
  shows "fd_http_request clean render parse_float headers replies n feeds =
    http_request clean render parse_float venue headers replies n"
proof -
  have "http_sync_request clean render parse_float hs (replies i) (fd_http (feeds i)) =
      client_request clean render parse_float venue hs (replies i)" for hs i
    using assms [of i]
    by (simp add: http_sync_request_def client_answer_of_def client_request_def split: client_reply.split)
  then show ?thesis by (simp add: fd_http_request_def http_request_def)
qed

lemma attempt_loop_same_error:
  assumes "request_failure e = None" "retry_after e = None"
  shows "a + Suc k = n \<Longrightarrow> attempt_loop (\<lambda>_. Inl e) n a (Suc k) = (RaisesClient e, map backoff [a..<a + k], Suc k)"
proof (induction k arbitrary: a)
  case (Suc k)
  have "[a..<a + Suc k] = a # [Suc a..<Suc a + k]" by (simp add: upt_conv_Cons)
  with Suc.IH [of "Suc a"] Suc.prems assms show ?case by (simp add: Let_def retry_backoff_def)
qed (use assms in simp)



text \<open>
  The asynchronous client, in contrast, is made again by the next request, and stays open.
\<close>

lemma async_client_reopens:
  "hc_async (hl_clients (fd_http (feed_step (fd_disconnect f) FeedAsyncRequest))) \<in> range OpenClient"
  by (simp add: fd_disconnect_def http_client_close_def http_close_def async_client_for_def get_async_client_def
      split: prod.split)

end
