(* ===== verification/AsyncLoop.thy ===== *)
theory AsyncLoop
  imports PyPrelude
begin

text \<open>
  Model of the event loop of \<open>src/bt_api_base/functions/async_base.py\<close>: \<open>start_loop\<close>, the thread
  that runs the loop, \<open>submit\<close>, \<open>release\<close> and \<open>close\<close>. Of \<open>asyncio\<close> the model has what is
  documented: \<open>run_forever\<close> runs what is ready, batch after batch, and returns after the batch in
  which it finds that \<open>stop\<close> was called, before it or meanwhile; it raises \<open>RuntimeError\<close> when the
  loop runs already; a running loop cannot be closed, and a closed one takes no work. Coroutines
  are numbers, loops and threads are numbered in the order they are made.
\<close>

section \<open>State\<close>

record async_loop =
  al_ready :: "nat list"
  al_stopping :: bool
  al_closed :: bool
  al_runner :: "nat option"

definition new_event_loop :: async_loop where
  "new_event_loop = \<lparr>al_ready = [], al_stopping = False, al_closed = False, al_runner = None\<rparr>"

text \<open>A thread is at the top of its \<open>while\<close>, in \<open>run_forever\<close>, or has ended by an exception.\<close>

datatype thread_place = AtTop | InLoop | Ended

record AsyncBase =
  ab_loops :: "async_loop list"
  ab_loop :: "nat option"
  ab_threads :: "(nat \<times> thread_place) list"
  ab_ran :: "nat list"
  ab_session :: bool

definition update_loop :: "nat \<Rightarrow> (async_loop \<Rightarrow> async_loop) \<Rightarrow> AsyncBase \<Rightarrow> AsyncBase" where
  "update_loop l f s = s\<lparr>ab_loops := (ab_loops s)[l := f (ab_loops s ! l)]\<rparr>"

definition start_loop :: "AsyncBase \<Rightarrow> AsyncBase" where
  "start_loop s =
     (let s1 = (case ab_loop s of
                  Some _ \<Rightarrow> s
                | None \<Rightarrow> s\<lparr>ab_loops := ab_loops s @ [new_event_loop], ab_loop := Some (length (ab_loops s))\<rparr>)
      in s1\<lparr>ab_threads := ab_threads s1 @ [(the (ab_loop s1), AtTop)]\<rparr>)"

definition async_base_new :: AsyncBase where
  "async_base_new =
     start_loop \<lparr>ab_loops = [], ab_loop = None, ab_threads = [], ab_ran = [], ab_session = False\<rparr>"

section \<open>The thread\<close>

text \<open>
  One turn of thread \<open>k\<close>. At the top it replaces a closed loop and enters \<open>run_forever\<close>; if that
  raises, the handler tries to close the loop, which runs in another thread, so that raises too
  and ends the thread. In the loop it runs a batch and looks for \<open>stop\<close>.
\<close>

definition thread_enters :: "nat \<Rightarrow> nat \<Rightarrow> AsyncBase \<Rightarrow> AsyncBase" where
  "thread_enters k l s =
     (if al_runner (ab_loops s ! l) \<noteq> None then s\<lparr>ab_threads := (ab_threads s)[k := (l, Ended)]\<rparr>
      else (update_loop l (\<lambda>x. x\<lparr>al_runner := Some k\<rparr>) s)\<lparr>ab_threads := (ab_threads s)[k := (l, InLoop)]\<rparr>)"

definition thread_turn :: "nat \<Rightarrow> AsyncBase \<Rightarrow> AsyncBase" where
  "thread_turn k s =
     (case ab_threads s ! k of
        (l, AtTop) \<Rightarrow>
          if al_closed (ab_loops s ! l)
          then thread_enters k (length (ab_loops s))
                 (s\<lparr>ab_loops := ab_loops s @ [new_event_loop], ab_loop := Some (length (ab_loops s))\<rparr>)
          else thread_enters k l s
      | (l, InLoop) \<Rightarrow>
          (let x = ab_loops s ! l;
               s1 = (update_loop l (\<lambda>x. x\<lparr>al_ready := []\<rparr>) s)\<lparr>ab_ran := ab_ran s @ al_ready x\<rparr>
           in if al_stopping x
              then (update_loop l (\<lambda>x. x\<lparr>al_stopping := False, al_runner := None\<rparr>) s1)
                     \<lparr>ab_threads := (ab_threads s)[k := (l, AtTop)]\<rparr>
              else s1)
      | (l, Ended) \<Rightarrow> s)"

section \<open>Calls from outside\<close>

text \<open>\<open>submit\<close>; the first component says whether it raises (the loop is closed).\<close>

definition submit :: "nat \<Rightarrow> AsyncBase \<Rightarrow> bool \<times> AsyncBase" where
  "submit c s =
     (case ab_loop s of
        None \<Rightarrow> (False, s)
      | Some l \<Rightarrow>
          if al_closed (ab_loops s ! l) then (True, s)
          else (False, update_loop l (\<lambda>x. x\<lparr>al_ready := al_ready x @ [c]\<rparr>) s))"

definition release_loop :: "AsyncBase \<Rightarrow> AsyncBase" where
  "release_loop s =
     (case ab_loop s of None \<Rightarrow> s | Some l \<Rightarrow> update_loop l (\<lambda>x. x\<lparr>al_stopping := True\<rparr>) s)"

text \<open>\<open>close\<close>: \<open>c\<close> is the coroutine \<open>session.close()\<close>.\<close>

definition close_base :: "nat \<Rightarrow> AsyncBase \<Rightarrow> bool \<times> AsyncBase" where
  "close_base c s =
     (if ab_loop s \<noteq> None \<and> ab_session s
      then (case submit c s of (True, s1) \<Rightarrow> (True, s1) | (False, s1) \<Rightarrow> (False, release_loop s1))
      else (False, s))"

text \<open>Other code closes the loop; while it runs this raises.\<close>

definition close_loop :: "AsyncBase \<Rightarrow> AsyncBase" where
  "close_loop s =
     (case ab_loop s of
        None \<Rightarrow> s
      | Some l \<Rightarrow>
          if al_runner (ab_loops s ! l) \<noteq> None then s
          else update_loop l (\<lambda>x. x\<lparr>al_closed := True, al_ready := []\<rparr>) s)"

datatype base_op =
    Submit nat | Release | CloseBase nat | StartLoop | ThreadTurn nat | SessionOpens | CloseLoop

fun base_step :: "AsyncBase \<Rightarrow> base_op \<Rightarrow> AsyncBase" where
  "base_step s (Submit c) = snd (submit c s)"
| "base_step s Release = release_loop s"
| "base_step s (CloseBase c) = snd (close_base c s)"
| "base_step s StartLoop = start_loop s"
| "base_step s (ThreadTurn k) = (if k < length (ab_threads s) then thread_turn k s else s)"
| "base_step s SessionOpens = s\<lparr>ab_session := True\<rparr>"
| "base_step s CloseLoop = close_loop s"

section \<open>The loop is always served\<close>

text \<open>A loop runs in the thread it says, and some thread has not ended.\<close>

definition base_ok :: "AsyncBase \<Rightarrow> bool" where
  "base_ok s \<longleftrightarrow>
     (\<exists>l < length (ab_loops s). ab_loop s = Some l) \<and>
     (\<forall>k < length (ab_threads s). fst (ab_threads s ! k) < length (ab_loops s)) \<and>
     (\<forall>l < length (ab_loops s). \<forall>k. al_runner (ab_loops s ! l) = Some k \<longleftrightarrow>
        k < length (ab_threads s) \<and> ab_threads s ! k = (l, InLoop)) \<and>
     (\<exists>k < length (ab_threads s). snd (ab_threads s ! k) \<noteq> Ended)"

lemma update_loop_simps [simp]:
  "length (ab_loops (update_loop l f s)) = length (ab_loops s)"
  "ab_loop (update_loop l f s) = ab_loop s" "ab_threads (update_loop l f s) = ab_threads s"
  "ab_ran (update_loop l f s) = ab_ran s" "ab_session (update_loop l f s) = ab_session s"
  "l' < length (ab_loops s) \<Longrightarrow> ab_loops (update_loop l f s) ! l' =
     (if l' = l then f (ab_loops s ! l) else ab_loops s ! l')"
  by (simp_all add: update_loop_def nth_list_update)

text \<open>Only the runners of the loops and the places of the threads matter.\<close>

lemma base_ok_cong:
  assumes "base_ok s" "length (ab_loops s') = length (ab_loops s)" "ab_loop s' = ab_loop s"
    "ab_threads s' = ab_threads s"
    "\<And>l. l < length (ab_loops s) \<Longrightarrow> al_runner (ab_loops s' ! l) = al_runner (ab_loops s ! l)"
  shows "base_ok s'"
  using assms by (simp add: base_ok_def)

lemma submit_ok: "base_ok s \<Longrightarrow> base_ok (snd (submit c s))"
  by (erule base_ok_cong) (simp_all add: submit_def split: option.split)

lemma release_ok: "base_ok s \<Longrightarrow> base_ok (release_loop s)"
  by (erule base_ok_cong) (simp_all add: release_loop_def split: option.split)

lemma close_loop_ok: "base_ok s \<Longrightarrow> base_ok (close_loop s)"
  by (erule base_ok_cong) (simp_all add: close_loop_def split: option.split)

lemma close_base_ok: "base_ok s \<Longrightarrow> base_ok (snd (close_base c s))"
  using submit_ok [of s c] release_ok by (auto simp: close_base_def split: prod.split bool.split)

lemma start_loop_ok:
  assumes "base_ok s" shows "base_ok (start_loop s)"
proof -
  obtain l where "ab_loop s = Some l" "l < length (ab_loops s)" using assms by (auto simp: base_ok_def)
  with assms show ?thesis
    by (auto simp: base_ok_def start_loop_def Let_def nth_append less_Suc_eq)
qed

lemma thread_enters_ok:
  assumes "base_ok s" "k < length (ab_threads s)" "l < length (ab_loops s)" "snd (ab_threads s ! k) = AtTop"
  shows "base_ok (thread_enters k l s)"
proof (cases "al_runner (ab_loops s ! l)")
  case None
  with assms show ?thesis
    by (auto simp: base_ok_def thread_enters_def nth_list_update split: if_splits)
next
  case (Some j)
  then have j: "j < length (ab_threads s)" "ab_threads s ! j = (l, InLoop)"
    using assms(1,3) by (auto simp: base_ok_def)
  with assms(4) have "j \<noteq> k" by auto
  with Some assms j show ?thesis
    by (auto simp: base_ok_def thread_enters_def nth_list_update split: if_splits)
qed

lemma new_loop_ok:
  "base_ok s \<Longrightarrow> base_ok (s\<lparr>ab_loops := ab_loops s @ [new_event_loop], ab_loop := Some (length (ab_loops s))\<rparr>)"
  by (fastforce simp: base_ok_def nth_append less_Suc_eq new_event_loop_def)

lemma thread_turn_ok:
  assumes "base_ok s" "k < length (ab_threads s)"
  shows "base_ok (thread_turn k s)"
proof -
  obtain l p where t: "ab_threads s ! k = (l, p)" by fastforce
  then have l: "l < length (ab_loops s)" using assms unfolding base_ok_def by (metis fst_conv)
  show ?thesis
  proof (cases p)
    case AtTop
    with assms t l thread_enters_ok [OF assms l] thread_enters_ok [OF new_loop_ok [OF assms(1)], of k "length (ab_loops s)"]
    show ?thesis by (simp add: thread_turn_def)
  next
    case InLoop
    have runner: "al_runner (ab_loops s ! l) = Some j \<longleftrightarrow> j < length (ab_threads s) \<and> ab_threads s ! j = (l, InLoop)" for j
      using assms(1) l by (simp add: base_ok_def)
    then have "al_runner (ab_loops s ! l) = Some k" using assms(2) t InLoop by blast
    with runner have only: "j = k" if "j < length (ab_threads s)" "ab_threads s ! j = (l, InLoop)" for j
      using that by (metis option.inject)
    from assms t l InLoop show ?thesis
      by (auto simp: base_ok_def thread_turn_def Let_def nth_list_update dest: only split: if_splits)
  next
    case Ended
    with assms(1) t show ?thesis by (simp add: thread_turn_def)
  qed
qed

interpretation base: op_system async_base_new base_step base_ok
proof
  show "base_ok async_base_new"
    by (auto simp: base_ok_def async_base_new_def start_loop_def new_event_loop_def Let_def)
  fix s x assume s: "base_ok s"
  show "base_ok (base_step s x)"
  proof (cases x)
    case SessionOpens
    with base_ok_cong [OF s, of "s\<lparr>ab_session := True\<rparr>"] show ?thesis by simp
  qed (use s in \<open>simp_all add: submit_ok release_ok close_base_ok start_loop_ok thread_turn_ok close_loop_ok\<close>)
qed

section \<open>All submitted work runs, in order\<close>

text \<open>What was submitted; \<open>close\<close> submits only when there is a session.\<close>

fun submitted :: "bool \<Rightarrow> base_op list \<Rightarrow> nat list" where
  "submitted session [] = []"
| "submitted session (Submit c # ops) = c # submitted session ops"
| "submitted session (CloseBase c # ops) = (if session then c # submitted session ops else submitted session ops)"
| "submitted session (SessionOpens # ops) = submitted True ops"
| "submitted session (_ # ops) = submitted session ops"

text \<open>While nobody closes it there is one loop, which has run what is not ready any more.\<close>

definition served :: "nat list \<Rightarrow> AsyncBase \<Rightarrow> bool" where
  "served work s \<longleftrightarrow> base_ok s \<and>
     (\<exists>x. ab_loops s = [x] \<and> \<not> al_closed x \<and> ab_ran s @ al_ready x = work)"

lemma served_loop: "served work s \<Longrightarrow> ab_loop s = Some 0"
  by (auto simp: served_def base_ok_def)

lemma served_thread: "served work s \<Longrightarrow> k < length (ab_threads s) \<Longrightarrow> fst (ab_threads s ! k) = 0"
  by (auto simp: served_def base_ok_def)

lemma served_step:
  assumes "served work s" "x \<noteq> CloseLoop"
  shows "served (work @ submitted (ab_session s) [x]) (base_step s x) \<and>
    ab_session (base_step s x) = (ab_session s \<or> x = SessionOpens)"
proof -
  obtain l where l: "ab_loops s = [l]" "\<not> al_closed l" "ab_ran s @ al_ready l = work"
    using assms(1) by (auto simp: served_def)
  have ok: "base_ok (base_step s x)" using assms(1) base.step_inv by (simp add: served_def)
  note loop = served_loop [OF assms(1)]
  show ?thesis
  proof (cases x)
    case (ThreadTurn k)
    show ?thesis
    proof (cases "k < length (ab_threads s)")
      case True
      obtain p where t: "ab_threads s ! k = (0, p)"
        using served_thread [OF assms(1) True] by (metis prod.collapse)
      show ?thesis
        using ThreadTurn True l loop ok t
        by (cases p) (auto simp: served_def thread_turn_def thread_enters_def update_loop_def Let_def)
    qed (use ThreadTurn l loop ok in \<open>auto simp: served_def\<close>)
  qed (use l loop ok assms(2) in \<open>auto simp: served_def submit_def close_base_def release_loop_def start_loop_def
      update_loop_def Let_def\<close>)
qed

lemma submitted_append:
  "submitted b (xs @ [x]) = submitted b xs @ submitted (b \<or> SessionOpens \<in> set xs) [x]"
  by (induction b xs rule: submitted.induct) (cases x; simp)+

lemma served_run:
  "CloseLoop \<notin> set ops \<Longrightarrow> served (submitted False ops) (foldl base_step async_base_new ops) \<and>
    ab_session (foldl base_step async_base_new ops) = (SessionOpens \<in> set ops)"
proof (induction ops rule: rev_induct)
  case Nil
  have "served [] async_base_new"
    using base.start_inv by (simp add: served_def, simp add: async_base_new_def start_loop_def new_event_loop_def Let_def)
  then show ?case by (simp add: async_base_new_def start_loop_def Let_def)
next
  case (snoc x ops)
  then show ?case using served_step [of "submitted False ops" "foldl base_step async_base_new ops" x]
    by (auto simp: submitted_append)
qed

lemma served_two_turns:
  assumes "served work s"
  shows "\<exists>k. ab_ran (foldl base_step s [ThreadTurn k, ThreadTurn k]) = work"
proof -
  obtain l where l: "ab_loops s = [l]" "\<not> al_closed l" "ab_ran s @ al_ready l = work"
    using assms by (auto simp: served_def)
  obtain k where k: "k < length (ab_threads s)" "snd (ab_threads s ! k) \<noteq> Ended"
    "al_runner l = None \<or> ab_threads s ! k = (0, InLoop)"
  proof (cases "al_runner l")
    case (Some k)
    with assms l that [of k] show ?thesis by (auto simp: served_def base_ok_def)
  qed (use assms that in \<open>auto simp: served_def base_ok_def\<close>)
  obtain p where t: "ab_threads s ! k = (0, p)"
    using served_thread [OF assms k(1)] by (metis prod.collapse)
  have "p = AtTop \<and> al_runner l = None \<or> p = InLoop"
    using k t assms l by (cases p) (auto simp: served_def base_ok_def)
  then have "ab_ran (foldl base_step s [ThreadTurn k, ThreadTurn k]) = work"
    using k(1) t l by (auto simp: thread_turn_def thread_enters_def update_loop_def Let_def)
  then show ?thesis ..
qed



text \<open>
  A second \<open>start_loop\<close> while the loop runs starts a thread that ends at once, with an exception
  that leaves the thread.
\<close>

lemma second_start_ends:
  assumes "base_ok s" "ab_loop s = Some l" "\<not> al_closed (ab_loops s ! l)" "al_runner (ab_loops s ! l) \<noteq> None"
  shows "snd (ab_threads (thread_turn (length (ab_threads s)) (start_loop s)) ! length (ab_threads s)) = Ended"
  using assms by (simp add: start_loop_def thread_turn_def thread_enters_def Let_def)

end
