(* ===== verification/StreamTransport.thy ===== *)
theory StreamTransport
  imports StreamApp Transport
begin

text \<open>
  Model of the parts of \<open>src/bt_api_base/feeds/my_websocket_app.py\<close> between a stream and the
  outside: the transport class that refuses redirects, the choice of the proxy, and what the
  events of a stream tell, with the credentials it knows removed. The WebSocket library,
  \<open>urllib\<close> and the regular expressions of \<open>sanitize_text\<close> are parameters; an object with
  attributes is a dict of those it has.
\<close>

section \<open>No redirects\<close>

text \<open>
  \<open>lib url options\<close> is the library's \<open>connect\<close>: the addresses it opened and how it ended, with
  the status of the handshake if there is one.
\<close>

datatype handshake = HandshakeFails | Handshake "int option"

type_synonym ws_library = "string \<Rightarrow> (string, pyval) dict \<Rightarrow> string list \<times> handshake"

record ws_transport =
  wt_sock :: bool
  wt_connected :: bool
  wt_closed :: nat

datatype connect_end = ConnectionOpen | LibraryRaises | RedirectRefused

definition no_redirect_connect ::
    "int set \<Rightarrow> ws_library \<Rightarrow> string \<Rightarrow> (string, pyval) dict \<Rightarrow> ws_transport
     \<Rightarrow> string list \<times> connect_end \<times> ws_transport" where
  "no_redirect_connect redirect_statuses lib url options t =
     (case lib url (dset ''redirect_limit'' (PInt 0) options) of
        (visited, HandshakeFails) \<Rightarrow> (visited, LibraryRaises, t)
      | (visited, Handshake response) \<Rightarrow>
          (let t1 = t\<lparr>wt_sock := True, wt_connected := True\<rparr>
           in case response of
                None \<Rightarrow> (visited, ConnectionOpen, t1)
              | Some status \<Rightarrow>
                  if status \<notin> redirect_statuses then (visited, ConnectionOpen, t1)
                  else (visited, RedirectRefused,
                        t1\<lparr>wt_closed := wt_closed t1 + 1, wt_sock := False, wt_connected := False\<rparr>)))"

section \<open>Proxies\<close>

definition proxy_env_keys :: "string list" where
  "proxy_env_keys =
     [''HTTPS_PROXY'', ''https_proxy'', ''HTTP_PROXY'', ''http_proxy'', ''ALL_PROXY'', ''all_proxy'',
      ''SOCKS_PROXY'', ''socks_proxy'']"

definition clear_proxy_env :: "(string, string) dict \<Rightarrow> (string, string) dict" where
  "clear_proxy_env env = foldl (\<lambda>e k. dpop k e) env proxy_env_keys"

text \<open>
  The host and port of the constructor: given ones, or those of the system. \<open>urlparse\<close> may raise,
  and so may the reading of the port, after the host was set; the exception is caught.
\<close>

definition choose_proxy ::
    "string option \<Rightarrow> int option \<Rightarrow> (string, string) dict py
     \<Rightarrow> (string \<Rightarrow> (string \<times> string option \<times> int option py) py) \<Rightarrow> string option \<times> int option" where
  "choose_proxy host port system urlparse =
     (case host of
        Some h \<Rightarrow> (Some h, port)
      | None \<Rightarrow>
          (case system of
             Inl _ \<Rightarrow> (None, port)
           | Inr proxies \<Rightarrow>
               (let u = (if dget_default proxies ''http'' [] \<noteq> [] then dget_default proxies ''http'' []
                         else dget_default proxies ''https'' [])
                in if u = [] then (None, port)
                   else case urlparse u of
                     Inl _ \<Rightarrow> (None, port)
                   | Inr (scheme, hostname, p) \<Rightarrow>
                       if scheme \<in> {''http'', ''https''}
                       then (hostname, case p of Inr q \<Rightarrow> q | Inl _ \<Rightarrow> port)
                       else (None, port))))"

text \<open>The keywords of \<open>run_forever\<close>, and the environment of the process after them.\<close>

definition run_kwargs ::
    "pyval \<Rightarrow> pyval \<Rightarrow> pyval \<Rightarrow> string option \<Rightarrow> int option \<Rightarrow> (string, string) dict
     \<Rightarrow> (string, pyval) dict \<times> (string, string) dict" where
  "run_kwargs ping_interval ping_timeout sslopt host port env =
     (let base = [(''ping_interval'', ping_interval), (''ping_timeout'', ping_timeout), (''sslopt'', sslopt)]
      in case host of
           None \<Rightarrow> (base, env)
         | Some h \<Rightarrow>
             if h = [] then (base @ [(''http_no_proxy'', PList [PStr ''*''])], clear_proxy_env env)
             else (base @ [(''http_proxy_host'', PStr h), (''proxy_type'', PStr ''http'')] @
                     (case port of Some p \<Rightarrow> if p \<noteq> 0 then [(''http_proxy_port'', PInt p)] else [] | None \<Rightarrow> []),
                   env))"

section \<open>What events tell\<close>

definition credential_names :: "string list" where
  "credential_names =
     [''public_key'', ''private_key'', ''api_key'', ''api_secret'', ''secret_key'', ''passphrase'', ''listen_key'']"

definition credential_values ::
    "(pyval \<Rightarrow> string) \<Rightarrow> (string, pyval) dict \<Rightarrow> (string, pyval) dict option \<Rightarrow> string list" where
  "credential_values render self params =
     (let owners = self # (case params of None \<Rightarrow> [] | Some p \<Rightarrow> [p]);
          found = concat (map (\<lambda>name. List.map_filter (\<lambda>owner. dget owner name) owners) credential_names)
      in dedup [] (map render (filter (\<lambda>v. v \<notin> {PNone, PStr []}) found)))"

definition safe_failure ::
    "(string \<Rightarrow> string) \<Rightarrow> (pyval \<Rightarrow> string) \<Rightarrow> (string, pyval) dict \<Rightarrow> (string, pyval) dict option
     \<Rightarrow> string \<Rightarrow> string" where
  "safe_failure clean render self params error = sanitize_text clean (credential_values render self params) error"

text \<open>
  The payload of an event of a callback that failed; \<open>subscription\<close> is the code of a
  \<open>WebSocketSubscriptionError\<close>, cleaned when that was raised.
\<close>

definition failure_payload ::
    "(string \<Rightarrow> string) \<Rightarrow> (pyval \<Rightarrow> string) \<Rightarrow> (string, pyval) dict \<Rightarrow> (string, pyval) dict option
     \<Rightarrow> string \<Rightarrow> rsp_exn \<Rightarrow> (string, pyval) dict" where
  "failure_payload clean render self params error exn =
     (''error'', PStr (safe_failure clean render self params error)) #
       (case exn of
          Other_Exn \<Rightarrow> []
        | Subscription_Rejected code \<Rightarrow>
            (''fatal'', PBool True) #
              (case code of None \<Rightarrow> [] | Some c \<Rightarrow> [(''code'', PStr (sanitize_text clean [] c))]))"

definition close_payload :: "pyval \<Rightarrow> pyval \<Rightarrow> (string, pyval) dict" where
  "close_payload status msg = [(''code'', status), (''msg'', msg)]"

text \<open>\<open>_emit_event\<close>: the cleaned payload, and over it the fields of the stream.\<close>

definition event_payload ::
    "(string \<Rightarrow> string) \<Rightarrow> (pyval \<Rightarrow> string) \<Rightarrow> (pyval \<Rightarrow> pyval) \<Rightarrow> (string, pyval) dict
     \<Rightarrow> (string, pyval) dict option \<Rightarrow> nat \<Rightarrow> (string, pyval) dict \<Rightarrow> (string, pyval) dict" where
  "event_payload clean render clean_url self params generation payload =
     (let text = (\<lambda>owner name. PStr (sanitize_text clean []
                    (case dget owner name of Some v \<Rightarrow> render v | None \<Rightarrow> ''unknown'')));
          safe = (case sanitize_value clean (PDict payload) of PDict d \<Rightarrow> d | _ \<Rightarrow> [])
      in foldl (\<lambda>d (k, v). dset k v d) safe
           [(''wss_name'', text self ''wss_name''), (''wss_url'', clean_url (dget_default self ''wss_url'' PNone)),
            (''exchange_name'', text (case params of None \<Rightarrow> [] | Some p \<Rightarrow> p) ''exchange_name''),
            (''asset_type'', text self ''asset_type''), (''stream_role'', text self ''_stream_role''),
            (''connection_generation'', PInt (int generation))])"

section \<open>Redirects are refused\<close>

text \<open>
  The transport of every stream opens the address it was given and no other, if the library
  follows no more redirects than it is told to; and when it returns, the connection is open and
  its handshake was no redirect. A redirect raises, with the socket closed and nothing connected.
\<close>

theorem redirects_refused:
  assumes "\<And>u options visited h. lib u options = (visited, h) \<Longrightarrow>
      hd visited = u \<and> visited \<noteq> [] \<and>
      (\<forall>n. dget options ''redirect_limit'' = Some (PInt n) \<longrightarrow> int (length visited) \<le> 1 + max 0 n)"
    and "no_redirect_connect redirects lib url options t = (visited, result, t')"
  shows "visited = [url] \<and>
    (result = ConnectionOpen \<longrightarrow> wt_sock t' \<and> wt_connected t' \<and>
       (\<forall>status. snd (lib url (dset ''redirect_limit'' (PInt 0) options)) = Handshake (Some status) \<longrightarrow>
          status \<notin> redirects)) \<and>
    (result = RedirectRefused \<longrightarrow> \<not> wt_sock t' \<and> \<not> wt_connected t' \<and> wt_closed t' = wt_closed t + 1)"
proof -
  let ?options = "dset ''redirect_limit'' (PInt 0) options"
  obtain seen h where l: "lib url ?options = (seen, h)" by fastforce
  from assms(1) [OF l] have "hd seen = url" "seen \<noteq> []" "length seen \<le> 1" by auto
  then have "seen = [url]" by (cases seen) auto
  moreover have "visited = seen"
    using assms(2) l by (auto simp: no_redirect_connect_def Let_def split: handshake.splits option.splits if_splits)
  ultimately show ?thesis
    using assms(2) l by (auto simp: no_redirect_connect_def Let_def split: handshake.splits option.splits if_splits)
qed

theorem redirects_refused_witness:
  "fst (no_redirect_connect {302} (\<lambda>u _. ([u], Handshake (Some 302))) ''wss://x'' []
     \<lparr>wt_sock = False, wt_connected = False, wt_closed = 0\<rparr>) = [''wss://x'']"
proof -
  let ?lib = "\<lambda>u _. ([u], Handshake (Some (302 :: int)))"
  obtain visited result t' where r: "no_redirect_connect {302} ?lib ''wss://x'' []
      \<lparr>wt_sock = False, wt_connected = False, wt_closed = 0\<rparr> = (visited, result, t')"
    using prod_cases3 by blast
  have "visited = [''wss://x'']" using redirects_refused [OF _ r] by simp
  with r show ?thesis by simp
qed

section \<open>Errors hide the credentials\<close>

lemma credential_found:
  assumes "name \<in> set credential_names" "dget self name = Some v \<or> (\<exists>p. params = Some p \<and> dget p name = Some v)"
    and "v \<noteq> PNone" "v \<noteq> PStr []"
  shows "render v \<in> set (credential_values render self params)"
proof -
  let ?owners = "self # (case params of None \<Rightarrow> [] | Some p \<Rightarrow> [p])"
  obtain owner where o: "owner \<in> set ?owners" "dget owner name = Some v" using assms(2) by auto
  have "v \<in> set (List.map_filter (\<lambda>owner. dget owner name) ?owners)"
    unfolding List.map_filter_def using o by force
  with assms(1) have "v \<in> set (concat (map (\<lambda>name. List.map_filter (\<lambda>owner. dget owner name) ?owners) credential_names))"
    unfolding set_concat set_map by blast
  with assms(3,4) show ?thesis
    unfolding credential_values_def Let_def set_dedup set_map set_filter by blast
qed

lemma keep_sanitized:
  assumes "starless s" "\<And>t. sublist s (clean t) \<Longrightarrow> sublist s t" "\<not> sublist s t"
  shows "\<not> sublist s (sanitize_text clean secrets t)"
proof -
  have "\<not> sublist s u \<Longrightarrow>
      \<not> sublist s (foldl (\<lambda>t s. if s \<noteq> [] then py_replace s redacted t else t) u secrets)" for u
    using replace_introduces_none [OF assms(1)] by (induction secrets arbitrary: u) auto
  with assms(2,3) show ?thesis unfolding sanitize_text_def by blast
qed

text \<open>The fields of the stream are over the payload, which is cleaned entry by entry.\<close>

lemma event_payload_other:
  assumes "name \<notin> {''wss_name'', ''wss_url'', ''exchange_name'', ''asset_type'', ''stream_role'', ''connection_generation''}"
    and "\<not> is_sensitive_key name" "dget payload name = Some v"
  shows "dget (event_payload clean render clean_url self params generation payload) name =
    Some (sanitize_item clean (collect_sensitive_values (PDict payload)) v)"
proof -
  let ?secrets = "collect_sensitive_values (PDict payload)"
  let ?f = "\<lambda>p. (fst p, if is_sensitive_key (fst p) then PStr redacted else sanitize_item clean ?secrets (snd p))"
  have "dget (map ?f d) name = map_option (sanitize_item clean ?secrets) (dget d name)" for d
    using assms(2) by (induction d) (auto simp: dget_Cons)
  with assms show ?thesis by (simp add: event_payload_def sanitize_value_def Let_def)
qed

lemma event_keys_plain: "\<not> is_sensitive_key ''error''" "\<not> is_sensitive_key ''msg''" "\<not> is_sensitive_key ''code''"
  by code_simp+



text \<open>
  The message with which the server closes the connection, and the code of a rejected
  subscription, are not cleaned with the credentials: what the regular expressions leave is told.
\<close>

lemma close_message_told:
  assumes "clean m = m"
  shows "dget (event_payload clean render clean_url self params g (close_payload (PInt status) (PStr m))) ''msg'' =
    Some (PStr m)"
proof -
  have "collect_sensitive_values (PDict (close_payload (PInt status) (PStr m))) = []"
    by (simp add: close_payload_def collect_sensitive_values_def event_keys_plain)
  with event_payload_other [OF _ event_keys_plain(2), of "close_payload (PInt status) (PStr m)" "PStr m" clean render clean_url]
  show ?thesis by (simp add: close_payload_def sanitize_text_def assms)
qed

lemma rejection_code_told:
  assumes "clean c = c"
  shows "dget (event_payload clean render clean_url self params g
      (failure_payload clean render self params error (Subscription_Rejected (Some c)))) ''code'' = Some (PStr c)"
proof -
  let ?payload = "failure_payload clean render self params error (Subscription_Rejected (Some c))"
  have keys: "\<not> is_sensitive_key ''fatal''" by code_simp
  have "dget ?payload ''code'' = Some (PStr c)" by (simp add: failure_payload_def sanitize_text_def assms)
  moreover have "collect_sensitive_values (PDict ?payload) = []"
    by (simp add: failure_payload_def collect_sensitive_values_def event_keys_plain keys)
  ultimately show ?thesis
    using event_payload_other [OF _ event_keys_plain(3), of ?payload "PStr c" clean render clean_url]
    by (simp add: sanitize_text_def assms)
qed

section \<open>Proxies of one stream\<close>

text \<open>The TLS options of the stream are in the keywords whatever the proxy.\<close>

lemma run_kwargs_tls: "dget (fst (run_kwargs interval timeout sslopt host port env)) ''sslopt'' = Some sslopt"
  by (auto simp: run_kwargs_def Let_def split: option.split)

text \<open>
  A stream with the empty host as its proxy goes direct, and takes the proxy variables from the
  whole process: a client made later that looks at the environment finds none.
\<close>

lemma direct_stream_clears_environment:
  "k \<in> set proxy_env_keys \<Longrightarrow> dget (snd (run_kwargs interval timeout sslopt (Some []) port env)) k = None"
  "k \<notin> set proxy_env_keys \<Longrightarrow> dget (snd (run_kwargs interval timeout sslopt (Some []) port env)) k = dget env k"
  by (auto simp: run_kwargs_def clear_proxy_env_def proxy_env_keys_def Let_def)

lemma given_proxy_kept: "choose_proxy (Some h) port system urlparse = (Some h, port)"
  by (simp add: choose_proxy_def)

end
