(* ===== verification/FeedWrappers.thy ===== *)
theory FeedWrappers
  imports PyPrelude
begin

text \<open>
  Model of \<open>AsyncWrapperMixin\<close> and \<open>check_protocol_compliance\<close> of
  \<open>src/bt_api_base/feeds/abstract_feed.py\<close>: each asynchronous method runs the synchronous method
  of the feed in a thread pool. A call is the name of the method with its positional and keyword
  arguments, all of a type \<open>'v\<close> of values; what the method does to the feed is a parameter.
\<close>

section \<open>The wrappers\<close>

datatype 'v async_call =
    AsyncGetTick 'v 'v "(string, 'v) dict"
  | AsyncGetDepth 'v 'v 'v "(string, 'v) dict"
  | AsyncGetKline 'v 'v 'v 'v "(string, 'v) dict"
  | AsyncMakeOrder 'v 'v 'v 'v 'v 'v 'v 'v "(string, 'v) dict"
  | AsyncCancelOrder 'v 'v 'v "(string, 'v) dict"
  | AsyncCancelAll 'v 'v "(string, 'v) dict"
  | AsyncQueryOrder 'v 'v 'v "(string, 'v) dict"
  | AsyncGetOpenOrders 'v 'v "(string, 'v) dict"
  | AsyncGetBalance 'v 'v "(string, 'v) dict"
  | AsyncGetAccount 'v 'v "(string, 'v) dict"
  | AsyncGetPosition 'v 'v "(string, 'v) dict"

record 'v sync_call =
  sc_method :: string
  sc_args :: "'v list"
  sc_kwargs :: "(string, 'v) dict"

definition with_extra :: "string \<Rightarrow> 'v list \<Rightarrow> (string, 'v) dict \<Rightarrow> 'v \<Rightarrow> (string, 'v) dict \<Rightarrow> 'v sync_call" where
  "with_extra name args named extra_data kwargs =
     \<lparr>sc_method = name, sc_args = args, sc_kwargs = named @ (''extra_data'', extra_data) # kwargs\<rparr>"

fun executor_call :: "'v async_call \<Rightarrow> 'v sync_call" where
  "executor_call (AsyncGetTick symbol extra kwargs) = with_extra ''get_tick'' [symbol] [] extra kwargs"
| "executor_call (AsyncGetDepth symbol count extra kwargs) =
     with_extra ''get_depth'' [symbol] [(''count'', count)] extra kwargs"
| "executor_call (AsyncGetKline symbol period count extra kwargs) =
     with_extra ''get_kline'' [symbol, period] [(''count'', count)] extra kwargs"
| "executor_call (AsyncMakeOrder symbol volume price order_type offset post_only client_order_id extra kwargs) =
     with_extra ''make_order'' [symbol, volume, price, order_type]
       [(''offset'', offset), (''post_only'', post_only), (''client_order_id'', client_order_id)] extra kwargs"
| "executor_call (AsyncCancelOrder symbol order_id extra kwargs) =
     with_extra ''cancel_order'' [symbol, order_id] [] extra kwargs"
| "executor_call (AsyncCancelAll symbol extra kwargs) = with_extra ''cancel_all'' [symbol] [] extra kwargs"
| "executor_call (AsyncQueryOrder symbol order_id extra kwargs) =
     with_extra ''query_order'' [symbol, order_id] [] extra kwargs"
| "executor_call (AsyncGetOpenOrders symbol extra kwargs) =
     with_extra ''get_open_orders'' [symbol] [] extra kwargs"
| "executor_call (AsyncGetBalance symbol extra kwargs) = with_extra ''get_balance'' [symbol] [] extra kwargs"
| "executor_call (AsyncGetAccount symbol extra kwargs) = with_extra ''get_account'' [symbol] [] extra kwargs"
| "executor_call (AsyncGetPosition symbol extra kwargs) = with_extra ''get_position'' [symbol] [] extra kwargs"

text \<open>
  Coroutines that were awaited together: \<open>order\<close> is the order in which the threads of the pool
  run the methods, each of which has the feed for itself; each coroutine gets its own result.
\<close>

fun run_executor ::
    "('v sync_call \<Rightarrow> 's \<Rightarrow> 'r \<times> 's) \<Rightarrow> 'v async_call list \<Rightarrow> nat list \<Rightarrow> 's \<Rightarrow> (nat \<times> 'r) list \<times> 's" where
  "run_executor meth calls [] s = ([], s)"
| "run_executor meth calls (i # order) s =
     (case meth (executor_call (calls ! i)) s of
        (r, s1) \<Rightarrow> (case run_executor meth calls order s1 of (rs, s2) \<Rightarrow> ((i, r) # rs, s2)))"

section \<open>Compliance\<close>

definition required_methods :: "string list" where
  "required_methods =
     [''connect'', ''disconnect'', ''is_connected'', ''get_tick'', ''get_depth'', ''get_kline'', ''make_order'',
      ''cancel_order'', ''cancel_all'', ''query_order'', ''get_open_orders'', ''get_balance'', ''get_account'',
      ''get_position'', ''async_get_tick'', ''async_make_order'', ''async_cancel_order'', ''async_get_balance'']"

text \<open>\<open>attrs\<close>: what \<open>getattr\<close> of the class finds, and whether it is callable.\<close>

definition check_protocol_compliance :: "(string \<Rightarrow> bool option) \<Rightarrow> string list" where
  "check_protocol_compliance attrs =
     filter (\<lambda>name. attrs name = None \<or> attrs name = Some False) required_methods"

section \<open>Properties\<close>

text \<open>The names of the wrappers.\<close>

fun wrapper_name :: "'v async_call \<Rightarrow> string" where
  "wrapper_name (AsyncGetTick _ _ _) = ''async_get_tick''"
| "wrapper_name (AsyncGetDepth _ _ _ _) = ''async_get_depth''"
| "wrapper_name (AsyncGetKline _ _ _ _ _) = ''async_get_kline''"
| "wrapper_name (AsyncMakeOrder _ _ _ _ _ _ _ _ _) = ''async_make_order''"
| "wrapper_name (AsyncCancelOrder _ _ _ _) = ''async_cancel_order''"
| "wrapper_name (AsyncCancelAll _ _ _) = ''async_cancel_all''"
| "wrapper_name (AsyncQueryOrder _ _ _ _) = ''async_query_order''"
| "wrapper_name (AsyncGetOpenOrders _ _ _) = ''async_get_open_orders''"
| "wrapper_name (AsyncGetBalance _ _ _) = ''async_get_balance''"
| "wrapper_name (AsyncGetAccount _ _ _) = ''async_get_account''"
| "wrapper_name (AsyncGetPosition _ _ _) = ''async_get_position''"

lemma wrapper_calls_same_name: "''async_'' @ sc_method (executor_call c) = wrapper_name c"
  by (cases c) (simp_all add: with_extra_def)

text \<open>Each coroutine gets the result of its own call, whatever the order.\<close>

lemma run_executor_results:
  "map fst (fst (run_executor meth calls order s)) = order"
  by (induction order arbitrary: s) (auto split: prod.split, metis fst_conv)

text \<open>A method that reads the feed only answers as the synchronous one, in every order.\<close>

lemma run_executor_reads:
  assumes "\<And>c s. snd (meth c s) = s"
  shows "run_executor meth calls order s =
    (map (\<lambda>i. (i, fst (meth (executor_call (calls ! i)) s))) order, s)"
proof (induction order arbitrary: s)
  case (Cons i order)
  then show ?case using assms by (auto split: prod.split) (metis fst_conv snd_conv)+
qed simp

text \<open>
  A class that has the fourteen synchronous methods complies as soon as it takes its asynchronous
  ones from the mixin.
\<close>

lemma compliant_iff: "check_protocol_compliance attrs = [] \<longleftrightarrow> (\<forall>name \<in> set required_methods. attrs name = Some True)"
proof -
  have "attrs name = None \<or> attrs name = Some False \<longleftrightarrow> attrs name \<noteq> Some True" for name
    by (cases "attrs name") auto
  then show ?thesis by (simp add: check_protocol_compliance_def filter_empty_conv)
qed

lemma mixin_complies:
  assumes "\<And>c :: 'v async_call. attrs (wrapper_name c) = Some True"
    and "\<And>name. name \<in> set (take 14 required_methods) \<Longrightarrow> attrs name = Some True"
  shows "check_protocol_compliance attrs = []"
proof -
  note w = assms(1) [of "AsyncGetTick x x []" for x] assms(1) [of "AsyncMakeOrder x x x x x x x x []" for x]
    assms(1) [of "AsyncCancelOrder x x x []" for x] assms(1) [of "AsyncGetBalance x x []" for x]
  have "required_methods = take 14 required_methods @
      [''async_get_tick'', ''async_make_order'', ''async_cancel_order'', ''async_get_balance'']"
    by (simp add: required_methods_def)
  then have "set required_methods = set (take 14 required_methods) \<union>
      set [''async_get_tick'', ''async_make_order'', ''async_cancel_order'', ''async_get_balance'']"
    by (metis set_append)
  moreover have "attrs name = Some True"
    if "name \<in> set [''async_get_tick'', ''async_make_order'', ''async_cancel_order'', ''async_get_balance'']" for name
    using that w by auto
  ultimately show ?thesis unfolding compliant_iff using assms(2) by (metis UnE)
qed

end
