(* ===== verification/AsyncEvents.thy ===== *)
theory AsyncEvents
  imports Services
begin

text \<open>
  Model of the asynchronous half of \<open>EventService\<close> in \<open>src/bt_api_base/core/services.py\<close>: the
  emission to coroutine handlers, and the lock of \<open>start\<close> and \<open>stop\<close>, which belongs to one event
  loop. Event loops are numbers. A coroutine handler runs at once to its end here, in the order
  in which the tasks are made; \<open>acall\<close> says whether it raises and what it does to the service.
\<close>

section \<open>Emission\<close>

fun call_handlers ::
    "(nat \<Rightarrow> 'd EventService \<Rightarrow> bool \<times> 'd EventService) \<Rightarrow> nat list \<Rightarrow> 'd EventService \<Rightarrow> nat \<times> 'd EventService" where
  "call_handlers acall [] s = (0, s)"
| "call_handlers acall (h # hs) s =
     (case acall h s of
        (raises, s1) \<Rightarrow> (case call_handlers acall hs s1 of (errors, s2) \<Rightarrow> ((if raises then 1 else 0) + errors, s2)))"

text \<open>
  \<open>_emit_async\<close>: the synchronous handlers that ran, the coroutine handlers that ran, and the
  number of errors logged. All tasks are made before the first one runs.
\<close>

definition emit_async ::
    "nat \<Rightarrow> (nat \<Rightarrow> 'd EventService \<Rightarrow> 'd EventService) \<Rightarrow> (nat \<Rightarrow> 'd EventService \<Rightarrow> bool \<times> 'd EventService)
     \<Rightarrow> string \<Rightarrow> 'd EventService \<Rightarrow> ((nat list \<times> nat list \<times> nat) \<times> 'd EventService) option" where
  "emit_async fuel call acall ev s =
     (case emit_sync fuel call ev 0 s of
        None \<Rightarrow> None
      | Some (called, s1) \<Rightarrow>
          (let tasks = handlers_in (es_async_handlers s1) ev
           in case call_handlers acall tasks s1 of (errors, s2) \<Rightarrow> Some ((called, tasks, errors), s2)))"

section \<open>The lock\<close>

record 'd event_lifecycle =
  el_service :: "'d EventService"
  el_lock_loop :: "nat option"

definition el_new :: "'d event_lifecycle" where
  "el_new = \<lparr>el_service = es_new, el_lock_loop = None\<rparr>"

text \<open>\<open>_get_lock\<close>; the first component says whether it raises \<open>RuntimeError\<close>.\<close>

definition get_lock :: "nat \<Rightarrow> 'd event_lifecycle \<Rightarrow> bool \<times> 'd event_lifecycle" where
  "get_lock loop x =
     (if el_lock_loop x = Some loop then (False, x)
      else if es_running (el_service x) then (True, x)
      else (False, x\<lparr>el_lock_loop := Some loop\<rparr>))"

definition el_start :: "nat \<Rightarrow> 'd event_lifecycle \<Rightarrow> bool \<times> 'd event_lifecycle" where
  "el_start loop x =
     (case get_lock loop x of
        (True, y) \<Rightarrow> (True, y)
      | (False, y) \<Rightarrow> (False, y\<lparr>el_service := es_start (el_service y)\<rparr>))"

definition el_stop :: "nat \<Rightarrow> 'd event_lifecycle \<Rightarrow> bool \<times> (string \<times> 'd) list \<times> 'd event_lifecycle" where
  "el_stop loop x =
     (case get_lock loop x of
        (True, y) \<Rightarrow> (True, [], y)
      | (False, y) \<Rightarrow>
          (if es_running (el_service y)
           then (case es_stop (el_service y) of (emitted, s) \<Rightarrow> (False, emitted, y\<lparr>el_service := s\<rparr>))
           else (False, [], y)))"

datatype el_op = ElStart nat | ElStop nat

fun el_step :: "'d event_lifecycle \<Rightarrow> el_op \<Rightarrow> 'd event_lifecycle" where
  "el_step x (ElStart loop) = snd (el_start loop x)"
| "el_step x (ElStop loop) = snd (snd (el_stop loop x))"

section \<open>Properties\<close>

text \<open>A running service is bound to the loop it was started on.\<close>

definition el_ok :: "'d event_lifecycle \<Rightarrow> bool" where
  "el_ok x \<longleftrightarrow> (es_running (el_service x) \<longrightarrow> el_lock_loop x \<noteq> None)"

interpretation el: op_system el_new el_step el_ok
proof
  show "el_ok el_new" by (simp add: el_ok_def el_new_def es_new_def)
  fix x :: "'d event_lifecycle" and op assume "el_ok x"
  then show "el_ok (el_step x op)"
    by (cases op) (auto simp: el_ok_def el_start_def el_stop_def get_lock_def es_stop_def split: bool.split)
qed

text \<open>
  A service that was started on one event loop stays there: until it is stopped on that loop,
  \<open>start\<close> and \<open>stop\<close> on any other loop raise and change nothing, also when the first loop has
  ended and nobody can run on it any more.
\<close>

lemma running_service_bound:
  assumes "x = foldl el_step el_new ops" "es_running (el_service x)" "el_lock_loop x = Some home" "loop \<noteq> home"
  shows "el_start loop x = (True, x) \<and> el_stop loop x = (True, [], x)"
  using assms(2-4) by (simp add: el_start_def el_stop_def get_lock_def)

lemma running_service_has_loop:
  "x = foldl el_step el_new ops \<Longrightarrow> es_running (el_service x) \<Longrightarrow> \<exists>home. el_lock_loop x = Some home"
  using el.reach_inv [of ops] by (auto simp: el_ok_def)

text \<open>
  Every coroutine handler that is registered when the synchronous ones are done runs once, in
  order, whatever the others raise and whatever they register or unregister; each one that raises
  is one error in the log.
\<close>

lemma call_handlers_errors:
  assumes "\<And>h s. fst (acall h s) = raises h"
  shows "fst (call_handlers acall hs s) = length (filter raises hs)"
proof (induction hs arbitrary: s)
  case (Cons h hs)
  obtain r s1 where a: "acall h s = (r, s1)" by fastforce
  with assms [of h s] Cons show ?case by (auto split: prod.split) (metis fst_conv)+
qed simp

lemma emit_async_calls_all:
  assumes "\<And>h s. fst (acall h s) = raises h"
    and "emit_sync fuel call ev 0 s = Some (called, s1)"
    and "emit_async fuel call acall ev s = Some ((called', tasks, errors), s2)"
  shows "called' = called \<and> tasks = handlers_in (es_async_handlers s1) ev \<and> errors = length (filter raises tasks)"
  using assms(2,3) call_handlers_errors [of acall raises, OF assms(1)]
  by (auto simp: emit_async_def Let_def split: prod.splits) (metis fst_conv)

text \<open>So a coroutine handler that unsubscribes itself makes the emission skip nobody.\<close>

lemma async_unsubscribe_skips_none:
  assumes "handlers_in (es_handlers s) ev = []" "handlers_in (es_async_handlers s) ev = [a, b]"
  shows "\<exists>errors s2. emit_async 1 call (\<lambda>h s. (False, es_unsubscribe ev h s)) ev s = Some (([], [a, b], errors), s2)"
  using assms by (simp add: emit_async_def emit_sync.simps Let_def)

end
