(* ===== verification/TextPatterns.thy ===== *)
theory TextPatterns
  imports Transport
begin

text \<open>
  Model of the three regular expressions of \<open>src/bt_api_base/feeds/transport_safety.py\<close> and of the
  cleaning that \<open>sanitize_text\<close> does with them before it removes known secrets. A pattern is
  matched as Python's \<open>re\<close> does it: the ends of its matches come in the order of the backtracking
  search, and the first one from which the rest matches counts. Text is ASCII: other characters
  are neither spaces nor letters here.
\<close>

section \<open>Patterns\<close>

datatype rx = One "char \<Rightarrow> bool" | Many "char \<Rightarrow> bool" | Then rx rx | Either rx rx | Maybe rx

fun rx_ends :: "rx \<Rightarrow> string \<Rightarrow> nat list" where
  "rx_ends (One P) t = (if t \<noteq> [] \<and> P (hd t) then [1] else [])"
| "rx_ends (Many P) t = rev [0..<Suc (length (takeWhile P t))]"
| "rx_ends (Then r s) t = concat (map (\<lambda>n. map ((+) n) (rx_ends s (drop n t))) (rx_ends r t))"
| "rx_ends (Either r s) t = rx_ends r t @ rx_ends s t"
| "rx_ends (Maybe r) t = rx_ends r t @ [0]"

text \<open>Literals with \<open>IGNORECASE\<close>; the literals are in lower case.\<close>

definition char_in :: "string \<Rightarrow> rx" where
  "char_in cs = One (\<lambda>c. lower_char c \<in> set cs)"

fun lit :: "string \<Rightarrow> rx" where
  "lit [] = Maybe (One (\<lambda>_. False))"
| "lit [c] = char_in [c]"
| "lit (c # cs) = Then (char_in [c]) (lit cs)"

fun seq :: "rx list \<Rightarrow> rx" where
  "seq [] = lit []"
| "seq [r] = r"
| "seq (r # rs) = Then r (seq rs)"

fun alternatives :: "rx list \<Rightarrow> rx" where
  "alternatives [] = One (\<lambda>_. False)"
| "alternatives [r] = r"
| "alternatives (r # rs) = Either r (alternatives rs)"

text \<open>\<open>finds prev text\<close>: the replacement of a match at the start of the text and its length.\<close>

function re_sub :: "(char option \<Rightarrow> string \<Rightarrow> (string \<times> nat) option) \<Rightarrow> char option \<Rightarrow> string \<Rightarrow> string" where
  "re_sub finds prev t =
     (case t of
        [] \<Rightarrow> []
      | c # cs \<Rightarrow>
          (case finds prev t of
             Some (new, n) \<Rightarrow> new @ re_sub finds (Some ((c # cs) ! (n - 1))) (drop (n - 1) cs)
           | None \<Rightarrow> c # re_sub finds (Some c) cs))"
  by pat_completeness auto
termination by (relation "measure (\<lambda>(finds, prev, t). length t)") auto

declare re_sub.simps [simp del]

text \<open>A prefix and then the longest run of a class, of one character at least; the prefix stays.\<close>

definition find_value :: "rx \<Rightarrow> (char \<Rightarrow> bool) \<Rightarrow> string \<Rightarrow> (string \<times> nat) option" where
  "find_value r ok t =
     map_option (\<lambda>n. (take n t @ redacted, n + length (takeWhile ok (drop n t))))
       (List.find (\<lambda>n. n < length t \<and> ok (t ! n)) (rx_ends r t))"

section \<open>The patterns of the module\<close>

definition quote_char :: "char \<Rightarrow> bool" where
  "quote_char c \<longleftrightarrow> of_char c \<in> {34, 39 :: nat}"

definition key_names :: rx where
  "key_names =
     (let sep = Maybe (char_in ''-_ '')
      in alternatives
           [seq [lit ''api'', sep, lit ''key''], seq [lit ''access'', sep, lit ''key''], lit ''secret'', lit ''token'',
            lit ''signature'', lit ''password'', lit ''passphrase'', lit ''authorization'',
            seq [lit ''private'', sep, lit ''key''], seq [lit ''public'', sep, lit ''key''],
            seq [lit ''listen'', sep, lit ''key''], lit ''nonce'', lit ''timestamp'', lit ''x-mbx-apikey'',
            lit ''ok-access-sign'', lit ''kc-api-sign'', lit ''cb-access-sign''])"

definition key_value_prefix :: rx where
  "key_value_prefix =
     seq [key_names, Many py_space, Maybe (One quote_char), Many py_space, char_in '':='', Many py_space,
          Maybe (One quote_char)]"

definition value_char :: "char \<Rightarrow> bool" where
  "value_char c \<longleftrightarrow> \<not> py_space c \<and> \<not> quote_char c \<and> c \<notin> set '',;}&''"

definition key_value_sub :: "string \<Rightarrow> string" where
  "key_value_sub = re_sub (\<lambda>_. find_value key_value_prefix value_char) None"

definition word_char :: "char \<Rightarrow> bool" where
  "word_char c \<longleftrightarrow>
     (let n = of_char c :: nat
      in (97 \<le> n \<and> n \<le> 122) \<or> (65 \<le> n \<and> n \<le> 90) \<or> (48 \<le> n \<and> n \<le> 57) \<or> c = CHR ''_'')"

definition token_char :: "char \<Rightarrow> bool" where
  "token_char c \<longleftrightarrow> word_char c \<or> c \<in> set ''.~+/=-''"

text \<open>\<open>\b\<close> holds between a word character and one that is none, or the start of the text.\<close>

definition bearer_find :: "char option \<Rightarrow> string \<Rightarrow> (string \<times> nat) option" where
  "bearer_find prev t =
     (if (case prev of None \<Rightarrow> False | Some c \<Rightarrow> word_char c) \<noteq> (t \<noteq> [] \<and> word_char (hd t))
      then find_value (seq [lit ''bearer'', One py_space, Many py_space]) token_char t
      else None)"

definition bearer_sub :: "string \<Rightarrow> string" where
  "bearer_sub = re_sub bearer_find None"

definition url_char :: "char \<Rightarrow> bool" where
  "url_char c \<longleftrightarrow> \<not> py_space c \<and> \<not> quote_char c \<and> c \<notin> set ''<>''"

definition url_prefix :: rx where
  "url_prefix =
     seq [Either (seq [lit ''http'', Maybe (lit ''s'')]) (seq [lit ''ws'', Maybe (lit ''s'')]), lit ''://'']"

text \<open>\<open>replace_url\<close>: punctuation at the end is no part of the address.\<close>

definition url_find :: "(string \<Rightarrow> string) \<Rightarrow> string \<Rightarrow> (string \<times> nat) option" where
  "url_find clean_url t =
     map_option
       (\<lambda>n. let len = n + length (takeWhile url_char (drop n t));
                (candidate, suffix) = trim_url_punctuation (take len t)
            in (clean_url candidate @ suffix, len))
       (List.find (\<lambda>n. n < length t \<and> url_char (t ! n)) (rx_ends url_prefix t))"

definition url_sub :: "(string \<Rightarrow> string) \<Rightarrow> string \<Rightarrow> string" where
  "url_sub clean_url = re_sub (\<lambda>_. url_find clean_url) None"

definition clean_text ::
    "(string \<Rightarrow> url_parts option) \<Rightarrow> (string \<Rightarrow> string \<Rightarrow> string \<Rightarrow> (string \<times> string) list \<Rightarrow> string \<Rightarrow> string)
     \<Rightarrow> string \<Rightarrow> string" where
  "clean_text urlsplit urlunsplit t =
     bearer_sub (key_value_sub (url_sub (sanitize_url urlsplit urlunsplit) t))"

section \<open>Substitution\<close>

lemma re_sub_Nil [simp]: "re_sub finds prev [] = []"
  by (simp add: re_sub.simps)

lemma re_sub_none: "finds prev (c # cs) = None \<Longrightarrow> re_sub finds prev (c # cs) = c # re_sub finds (Some c) cs"
  by (subst re_sub.simps) simp

lemma re_sub_some:
  "finds prev t = Some (new, n) \<Longrightarrow> 0 < n \<Longrightarrow> t \<noteq> [] \<Longrightarrow>
   re_sub finds prev t = new @ re_sub finds (Some (t ! (n - 1))) (drop n t)"
  by (subst re_sub.simps) (cases t; cases n; simp)

lemma re_sub_unchanged:
  assumes "\<And>p u. suffix u t \<Longrightarrow> finds p u = None" shows "re_sub finds prev t = t"
  using assms
proof (induction t arbitrary: prev)
  case (Cons c cs)
  then have "re_sub finds (Some c) cs = cs" by (meson suffix_Cons)
  then show ?case using Cons.prems [of "c # cs" prev] by (simp add: re_sub_none)
qed simp

text \<open>A pattern that keeps a prefix of its match and puts the mark for the rest.\<close>

definition marks :: "(char option \<Rightarrow> string \<Rightarrow> (string \<times> nat) option) \<Rightarrow> bool" where
  "marks finds \<longleftrightarrow> (\<forall>p u new n. finds p u = Some (new, n) \<longrightarrow>
     (\<exists>k < n. k < length u \<and> new = take k u @ redacted))"

lemma find_value_SomeE:
  assumes "find_value r ok t = Some (new, n)"
  obtains k where "List.find (\<lambda>n. n < length t \<and> ok (t ! n)) (rx_ends r t) = Some k" "k < length t" "ok (t ! k)"
    "new = take k t @ redacted" "n = k + length (takeWhile ok (drop k t))" "k < n" "drop n t = dropWhile ok (drop k t)"
proof -
  from assms obtain k where k: "List.find (\<lambda>n. n < length t \<and> ok (t ! n)) (rx_ends r t) = Some k"
    "new = take k t @ redacted" "n = k + length (takeWhile ok (drop k t))"
    by (auto simp: find_value_def)
  then have l: "k < length t" "ok (t ! k)" by (auto simp: find_Some_iff)
  then have "drop k t = t ! k # drop (Suc k) t" by (simp add: Cons_nth_drop_Suc)
  with l(2) have "k < n" by (simp add: k(3))
  moreover have "drop n t = dropWhile ok (drop k t)"
    by (simp add: k(3) dropWhile_eq_drop add.commute)
  ultimately show thesis using that k l by blast
qed

lemma marks_find_value: "marks (\<lambda>_. find_value r ok)"
  unfolding marks_def by (metis find_value_SomeE)

lemma marks_bearer: "marks bearer_find"
  using marks_find_value unfolding marks_def bearer_find_def by (metis option.distinct(1))

lemma marked_step:
  assumes "marks finds" "t \<noteq> []"
  obtains (None) c cs where "t = c # cs" "re_sub finds prev t = c # re_sub finds (Some c) cs"
  | (Some) k n q where "k < n" "k < length t" "re_sub finds prev t = take k t @ redacted @ re_sub finds q (drop n t)"
proof (cases "finds prev t")
  case None
  then show thesis using that(1) assms(2) by (cases t) (auto simp: re_sub_none)
next
  case (Some x)
  obtain new n where x: "x = (new, n)" by fastforce
  with Some assms(1) obtain k where "k < n" "k < length t" "new = take k t @ redacted"
    unfolding marks_def by blast
  with Some x that(2) assms(2) show thesis by (auto simp: re_sub_some)
qed

lemma sub_prefix:
  assumes "marks finds"
  shows "CHR ''*'' \<notin> set p \<Longrightarrow> prefix p (re_sub finds prev t) \<Longrightarrow> prefix p t"
proof (induction t arbitrary: p prev)
  case (Cons c cs)
  show ?case
  proof (rule marked_step [OF assms, of "c # cs" prev])
    fix k n q assume k: "re_sub finds prev (c # cs) = take k (c # cs) @ redacted @ re_sub finds q (drop n (c # cs))"
    have "prefix p (take k (c # cs))"
    proof (rule ccontr)
      assume no: "\<not> prefix p (take k (c # cs))"
      with Cons.prems(2) k obtain v where "p = take k (c # cs) @ v" "v \<noteq> []"
        "prefix v (redacted @ re_sub finds q (drop n (c # cs)))" by (auto simp: prefix_append)
      then have "CHR ''*'' \<in> set p" by (cases v) (auto simp: redacted_def)
      with Cons.prems(1) show False by simp
    qed
    then show ?thesis using take_is_prefix prefix_order.trans by blast
  next
    fix c' cs' assume "c # cs = c' # cs'" "re_sub finds prev (c # cs) = c' # re_sub finds (Some c') cs'"
    with Cons show ?thesis by (cases p) auto
  qed simp
qed simp

text \<open>A starless secret that is in the result was in the text.\<close>

lemma sub_introduces_none:
  assumes "marks finds" "starless s"
  shows "\<not> sublist s t \<Longrightarrow> \<not> sublist s (re_sub finds prev t)"
proof (induction t arbitrary: prev rule: length_induct)
  case (1 t)
  show ?case
  proof (cases "t = []")
    case True
    then show ?thesis using assms(2) by (simp add: starless_def)
  next
    case ne: False
    show ?thesis
    proof (rule marked_step [OF assms(1) ne, of prev])
      fix c cs assume t: "t = c # cs" "re_sub finds prev t = c # re_sub finds (Some c) cs"
      from 1 t have "\<not> sublist s (re_sub finds (Some c) cs)" by (auto simp: sublist_Cons_right)
      moreover have "\<not> prefix s (c # re_sub finds (Some c) cs)"
        using sub_prefix [OF assms(1), of s prev t] "1.prems" assms(2) t by (auto simp: starless_def)
      ultimately show ?thesis by (simp add: t(2) sublist_Cons_right)
    next
      fix k n q assume k: "k < n" "k < length t" "re_sub finds prev t = take k t @ redacted @ re_sub finds q (drop n t)"
      have "\<not> sublist s (drop n t)" "\<not> sublist s (take k t)"
        using "1.prems" sublist_drop sublist_take sublist_order.order_trans by blast+
      moreover have "length (drop n t) < length t" using k(1,2) by simp
      ultimately have rest: "\<not> sublist s (redacted @ re_sub finds q (drop n t))"
        using "1.IH" sublist_redacted_append [OF assms(2)] by blast
      have "v = []" if "s = u @ v" "prefix v (redacted @ re_sub finds q (drop n t))" for u v
        using that assms(2) by (cases v) (auto simp: starless_def redacted_def)
      then have "\<not> (\<exists>u v. s = u @ v \<and> suffix u (take k t) \<and> prefix v (redacted @ re_sub finds q (drop n t)))"
        using \<open>\<not> sublist s (take k t)\<close> by (metis append_Nil2 suffix_imp_sublist)
      with rest \<open>\<not> sublist s (take k t)\<close> show ?thesis
        unfolding k(3) sublist_append [of s "take k t"] by blast
    qed
  qed
qed

section \<open>Redacting again changes nothing\<close>

fun avoids_star :: "rx \<Rightarrow> bool" where
  "avoids_star (One P) \<longleftrightarrow> \<not> P (CHR ''*'')"
| "avoids_star (Many P) \<longleftrightarrow> \<not> P (CHR ''*'')"
| "avoids_star (Then r s) \<longleftrightarrow> avoids_star r \<and> avoids_star s"
| "avoids_star (Either r s) \<longleftrightarrow> avoids_star r \<and> avoids_star s"
| "avoids_star (Maybe r) \<longleftrightarrow> avoids_star r"

text \<open>\<open>u\<close> is \<open>t\<close> up to \<open>m\<close> and has a star there.\<close>

definition starred_at :: "nat \<Rightarrow> string \<Rightarrow> string \<Rightarrow> bool" where
  "starred_at m t u \<longleftrightarrow> m \<le> length t \<and> m < length u \<and> take m u = take m t \<and> u ! m = CHR ''*''"

lemma starred_at_drop: "starred_at m t u \<Longrightarrow> n \<le> m \<Longrightarrow> starred_at (m - n) (drop n t) (drop n u)"
  by (auto simp: starred_at_def take_drop)

lemma starred_at_nth: "starred_at m t u \<Longrightarrow> n < m \<Longrightarrow> u ! n = t ! n"
  by (metis starred_at_def nth_take)

lemma concat_filter: "concat (map f (filter P xs)) = concat (map (\<lambda>x. if P x then f x else []) xs)"
  by (induction xs) auto

lemma takeWhile_take_length: "length (takeWhile P (take m t)) = min m (length (takeWhile P t))"
  by (induction t arbitrary: m) (auto simp: take_Cons split: nat.split)

lemma filter_upto: "filter (\<lambda>n. n \<le> m) (rev [0..<Suc l]) = rev [0..<Suc (min m l)]"
  by (induction l) (auto simp: min_def le_Suc_eq)

lemma rx_ends_cut:
  "avoids_star r \<Longrightarrow> starred_at m t u \<Longrightarrow> rx_ends r u = filter (\<lambda>n. n \<le> m) (rx_ends r t)"
proof (induction r arbitrary: t u m)
  case (One P)
  show ?case
  proof (cases m)
    case 0
    then have "u \<noteq> []" "hd u = CHR ''*''" using One by (auto simp: starred_at_def hd_conv_nth)
    then show ?thesis using One 0 by simp
  next
    case (Suc m')
    with One have ne: "u \<noteq> []" "t \<noteq> []" by (auto simp: starred_at_def)
    then have "hd u = hd t" using starred_at_nth [OF One(2), of 0] Suc by (simp add: hd_conv_nth)
    with ne show ?thesis using Suc by simp
  qed
next
  case (Many P)
  have u: "takeWhile P u = takeWhile P (take m t)"
  proof -
    have "u = take m t @ CHR ''*'' # drop (Suc m) u"
      using Many(2) id_take_nth_drop [of m u] by (simp add: starred_at_def)
    then show ?thesis using Many(1) by (metis avoids_star.simps(2) takeWhile_tail)
  qed
  have "length (takeWhile P (take m t)) = min m (length (takeWhile P t))"
    by (simp add: takeWhile_take_length)
  with u have "length (takeWhile P u) = min m (length (takeWhile P t))" by simp
  then show ?case by (simp only: rx_ends.simps filter_upto)
next
  case (Then r s)
  have "map ((+) n) (rx_ends s (drop n u)) = filter (\<lambda>k. k \<le> m) (map ((+) n) (rx_ends s (drop n t)))" if "n \<le> m" for n
    using Then.IH(2) [OF _ starred_at_drop [OF Then.prems(2) that]] Then.prems(1) that
    by (auto simp: filter_map comp_def intro!: filter_cong)
  moreover have "filter (\<lambda>k. k \<le> m) (map ((+) n) (rx_ends s (drop n t))) = []" if "\<not> n \<le> m" for n
    using that by (auto simp: filter_empty_conv)
  ultimately have "(if n \<le> m then map ((+) n) (rx_ends s (drop n u)) else []) =
      filter (\<lambda>k. k \<le> m) (map ((+) n) (rx_ends s (drop n t)))" for n by auto
  then show ?case using Then.IH(1) Then.prems by (simp add: concat_filter filter_concat comp_def)
qed simp_all

text \<open>The result is the text up to the first value, with a star there.\<close>

lemma first_value:
  fixes r ok defines "f \<equiv> \<lambda>_ :: char option. find_value r ok"
  shows "re_sub f prev t = t \<or> (\<exists>m. starred_at m t (re_sub f prev t) \<and> m < length t \<and> ok (t ! m))"
proof (induction t arbitrary: prev)
  case (Cons c cs)
  show ?case
  proof (cases "f prev (c # cs)")
    case None
    then have s: "re_sub f prev (c # cs) = c # re_sub f (Some c) cs" by (rule re_sub_none)
    from Cons [of "Some c"] consider "re_sub f (Some c) cs = cs"
      | m where "starred_at m cs (re_sub f (Some c) cs)" "m < length cs" "ok (cs ! m)" by blast
    then show ?thesis
    proof cases
      case 2
      then have "starred_at (Suc m) (c # cs) (re_sub f prev (c # cs)) \<and> Suc m < length (c # cs) \<and> ok ((c # cs) ! Suc m)"
        unfolding s by (simp add: starred_at_def)
      then show ?thesis by blast
    qed (simp add: s)
  next
    case (Some x)
    obtain new n where x: "x = (new, n)" by fastforce
    from Some x have "find_value r ok (c # cs) = Some (new, n)" by (simp add: f_def)
    from find_value_SomeE [OF this] obtain k where k: "k < length (c # cs)" "ok ((c # cs) ! k)"
      "new = take k (c # cs) @ redacted" "k < n" by blast
    then have "starred_at k (c # cs) (re_sub f prev (c # cs))"
      using Some x by (simp add: re_sub_some starred_at_def nth_append redacted_def)
    with k show ?thesis by blast
  qed
qed simp

lemma sub_head:
  fixes r ok defines "f \<equiv> \<lambda>_ :: char option. find_value r ok"
  assumes "t = [] \<or> \<not> ok (hd t)"
  shows "takeWhile ok (re_sub f prev t) = []"
proof (cases "re_sub f prev t = t")
  case True
  then show ?thesis using assms(2) by (cases t) auto
next
  case False
  then obtain m where m: "starred_at m t (re_sub f prev t)" "m < length t" "ok (t ! m)"
    using first_value [of r ok prev t] unfolding f_def by blast
  with assms(2) have "0 < m" by (cases m) (auto simp: hd_conv_nth)
  then have "re_sub f prev t ! 0 = t ! 0" by (rule starred_at_nth [OF m(1)])
  moreover have "t \<noteq> []" "re_sub f prev t \<noteq> []" using m by (auto simp: starred_at_def)
  ultimately show ?thesis using assms(2) by (cases "re_sub f prev t") (auto simp: hd_conv_nth)
qed

lemma find_filtered:
  fixes m :: nat
  assumes "List.find P xs = Some m" "\<And>x. x < m \<Longrightarrow> Q x \<longleftrightarrow> P x" "Q m"
  shows "List.find Q (filter (\<lambda>x. x \<le> m) xs) = Some m"
  using assms(1)
proof (induction xs)
  case (Cons x xs)
  show ?case
  proof (cases "P x")
    case True
    then show ?thesis using Cons.prems assms(3) by auto
  next
    case False
    with Cons.prems have "List.find P xs = Some m" by simp
    moreover from this have "x \<noteq> m" using False by (auto simp: find_Some_iff)
    then have "x \<le> m \<Longrightarrow> \<not> Q x" using assms(2) [of x] False by simp
    ultimately show ?thesis using Cons.IH by simp
  qed
qed simp

lemma sub_twice:
  fixes r ok defines "f \<equiv> \<lambda>_ :: char option. find_value r ok"
  assumes "avoids_star r" "ok (CHR ''*'')"
  shows "re_sub f p (re_sub f prev t) = re_sub f prev t"
proof (induction t arbitrary: p prev rule: length_induct)
  case (1 t)
  show ?case
  proof (cases t)
    case t: (Cons c cs)
    show ?thesis
    proof (cases "f prev t")
      case None
      define u where "u = c # re_sub f (Some c) cs"
      have s: "re_sub f prev t = u" using None by (simp add: t u_def re_sub_none)
      have none: "List.find (\<lambda>n. n < length t \<and> ok (t ! n)) (rx_ends r t) = None"
        using None by (simp add: f_def find_value_def)
      have "find_value r ok u = None"
      proof (cases "re_sub f (Some c) cs = cs")
        case True
        then show ?thesis using None by (simp add: f_def u_def t)
      next
        case False
        then obtain m where "starred_at m cs (re_sub f (Some c) cs)" "m < length cs" "ok (cs ! m)"
          using first_value [of r ok "Some c" cs] unfolding f_def by blast
        then have m: "starred_at (Suc m) t u" "Suc m < length t" "ok (t ! Suc m)"
          by (auto simp: starred_at_def t u_def)
        have "\<not> ok (u ! n)" if n: "n \<in> set (rx_ends r u)" for n
        proof -
          from n have "n \<in> set (rx_ends r t)" "n \<le> Suc m" unfolding rx_ends_cut [OF assms(2) m(1)] by auto
          with none m(2) have "\<not> ok (t ! n)" by (auto simp: find_None_iff)
          with m(3) \<open>n \<le> Suc m\<close> have "n < Suc m" by (metis le_neq_implies_less)
          with starred_at_nth [OF m(1)] \<open>\<not> ok (t ! n)\<close> show ?thesis by simp
        qed
        then show ?thesis by (auto simp: find_value_def find_None_iff)
      qed
      then have "re_sub f p u = c # re_sub f (Some c) (re_sub f (Some c) cs)"
        by (simp add: u_def f_def re_sub_none)
      then show ?thesis using "1.IH" s t by (simp add: u_def)
    next
      case (Some x)
      obtain new n where x: "x = (new, n)" by fastforce
      from Some x have "find_value r ok t = Some (new, n)" by (simp add: f_def)
      from find_value_SomeE [OF this] obtain k where
        k: "List.find (\<lambda>n. n < length t \<and> ok (t ! n)) (rx_ends r t) = Some k" "k < length t" "ok (t ! k)"
        "new = take k t @ redacted" "k < n" "drop n t = dropWhile ok (drop k t)" by blast
      obtain q where s: "re_sub f prev t = take k t @ redacted @ re_sub f q (drop n t)"
        using Some x k t by (simp add: re_sub_some)
      let ?R = "re_sub f q (drop n t)" and ?u = "re_sub f prev t"
      have cut: "starred_at k t ?u" using k(2) by (simp add: s starred_at_def nth_append redacted_def)
      have "List.find (\<lambda>n. n < length ?u \<and> ok (?u ! n)) (rx_ends r ?u) = Some k"
        unfolding rx_ends_cut [OF assms(2) cut]
      proof (rule find_filtered [OF k(1)])
        fix y assume "y < k"
        with cut k(2) show "(y < length ?u \<and> ok (?u ! y)) \<longleftrightarrow> (y < length t \<and> ok (t ! y))"
          by (auto simp: starred_at_nth [OF cut] starred_at_def)
      qed (use cut assms(3) in \<open>auto simp: starred_at_def\<close>)
      moreover have "takeWhile ok (drop k ?u) = redacted"
      proof -
        have "drop n t = [] \<or> \<not> ok (hd (drop n t))" unfolding k(6) using hd_dropWhile by blast
        then have "takeWhile ok ?R = []" using sub_head [of "drop n t" ok r q] by (simp add: f_def)
        moreover have "drop k ?u = redacted @ ?R" using k(2) by (simp add: s)
        ultimately show ?thesis using assms(3) by (simp add: redacted_def)
      qed
      ultimately have "find_value r ok ?u = Some (take k t @ redacted, k + 3)"
        using k(2) by (simp add: find_value_def s redacted_def)
      then have "re_sub f p ?u = (take k t @ redacted) @ re_sub f (Some (?u ! (k + 3 - 1))) (drop (k + 3) ?u)"
        using cut by (intro re_sub_some) (auto simp: f_def starred_at_def)
      moreover have "drop (k + 3) ?u = ?R" using k(2) by (simp add: s redacted_def)
      moreover have "length (drop n t) < length t" using k(2,5) by simp
      ultimately show ?thesis using "1.IH" s by simp
    qed
  qed simp
qed

section \<open>What is redacted and what is not\<close>

lemma avoids_star_lit: "CHR ''*'' \<notin> set cs \<Longrightarrow> avoids_star (lit cs)"
  by (induction cs rule: lit.induct) (auto simp: char_in_def lower_char_def)

lemma avoids_star_seq: "list_all avoids_star rs \<Longrightarrow> avoids_star (seq rs)"
  by (induction rs rule: seq.induct) auto

lemma avoids_star_alternatives: "list_all avoids_star rs \<Longrightarrow> avoids_star (alternatives rs)"
  by (induction rs rule: alternatives.induct) auto

lemma prefix_avoids_star: "avoids_star key_value_prefix"
proof -
  have "avoids_star key_names"
    unfolding key_names_def Let_def
    by (rule avoids_star_alternatives)
      (simp add: avoids_star_lit avoids_star_seq char_in_def lower_char_def)
  then show ?thesis
    unfolding key_value_prefix_def
    by (intro avoids_star_seq) (simp add: py_space_def quote_char_def char_in_def lower_char_def)
qed

lemma star_is_value: "value_char (CHR ''*'')"
  by (simp add: value_char_def py_space_def quote_char_def)

lemma lower_char_punct:
  assumes "lower_char c = d" "(of_char d :: nat) < 97" shows "c = d"
proof (cases "65 \<le> (of_char c :: nat) \<and> (of_char c :: nat) \<le> 90")
  case True
  then have "(of_char d :: nat) = of_char c + 32"
    using assms(1) by (auto simp: lower_char_def Let_def)
  with True assms(2) show ?thesis by simp
next
  case False
  then show ?thesis using assms(1) by (auto simp: lower_char_def Let_def)
qed

lemma ends_ThenE:
  assumes "n \<in> set (rx_ends (Then r s) t)"
  obtains i j where "i \<in> set (rx_ends r t)" "j \<in> set (rx_ends s (drop i t))"
  using assms by auto

lemma lit_ends:
  "n \<in> set (rx_ends (lit cs) t) \<Longrightarrow> n = length cs \<and> n \<le> length t \<and> map lower_char (take n t) = cs"
proof (induction cs arbitrary: n t rule: lit.induct)
  case (3 c d ds)
  then obtain j where j: "n = 1 + j" "j \<in> set (rx_ends (lit (d # ds)) (drop 1 t))" "t \<noteq> []" "lower_char (hd t) = c"
    by (auto simp: char_in_def split: if_splits)
  from "3.IH" [OF j(2)] j(1,3,4) show ?case by (cases t) auto
next
  case (2 c)
  then show ?case by (cases t) (auto simp: char_in_def split: if_splits)
qed simp

lemma key_value_needs: "n \<in> set (rx_ends key_value_prefix t) \<Longrightarrow> CHR '':'' \<in> set t \<or> CHR ''='' \<in> set t"
proof -
  assume "n \<in> set (rx_ends key_value_prefix t)"
  then obtain i1 i2 i3 i4 j where "j \<in> set (rx_ends (char_in '':='') (drop i4 (drop i3 (drop i2 (drop i1 t)))))"
    unfolding key_value_prefix_def seq.simps by (elim ends_ThenE) blast
  then obtain i where "j \<in> set (rx_ends (char_in '':='') (drop i t))" unfolding drop_drop by blast
  then have "drop i t \<noteq> []" "lower_char (hd (drop i t)) \<in> {CHR '':'', CHR ''=''}"
    by (auto simp: char_in_def split: if_splits)
  moreover from this have "hd (drop i t) \<in> {CHR '':'', CHR ''=''}"
    using lower_char_punct [of "hd (drop i t)"] by auto
  ultimately show ?thesis by (metis hd_in_set in_set_dropD insertE singletonD)
qed

lemma find_value_None: "rx_ends r t = [] \<Longrightarrow> find_value r ok t = None"
  by (simp add: find_value_def)

lemma no_ends: "(\<And>n. n \<in> set xs \<Longrightarrow> False) \<Longrightarrow> xs = []"
  by (cases xs) auto

lemma key_value_unchanged: "CHR '':'' \<notin> set t \<Longrightarrow> CHR ''='' \<notin> set t \<Longrightarrow> re_sub (\<lambda>_. find_value key_value_prefix value_char) prev t = t"
proof (rule re_sub_unchanged)
  fix p u assume t: "CHR '':'' \<notin> set t" "CHR ''='' \<notin> set t" "suffix u t"
  then have "CHR '':'' \<notin> set u" "CHR ''='' \<notin> set u" using set_mono_suffix by blast+
  with key_value_needs [of _ u] show "find_value key_value_prefix value_char u = None"
    by (intro find_value_None no_ends) blast
qed

lemma url_unchanged: "\<not> sublist ''://'' t \<Longrightarrow> url_sub clean_url t = t"
  unfolding url_sub_def
proof (rule re_sub_unchanged)
  fix p u assume t: "\<not> sublist ''://'' t" "suffix u t"
  have False if "n \<in> set (rx_ends url_prefix u)" for n
  proof -
    from that obtain i j where "j \<in> set (rx_ends (lit ''://'') (drop i u))"
      unfolding url_prefix_def seq.simps by (elim ends_ThenE) blast
    from lit_ends [OF this] have "map lower_char (take 3 (drop i u)) = ''://''" by (auto simp: numeral_3_eq_3)
    then obtain a b c where abc: "take 3 (drop i u) = [a, b, c]" "lower_char a = CHR '':''" "lower_char b = CHR ''/''" "lower_char c = CHR ''/''"
      by (auto simp: map_eq_Cons_conv)
    then have "take 3 (drop i u) = ''://''"
      using lower_char_punct [of a] lower_char_punct [of b] lower_char_punct [of c] by simp
    then have "sublist ''://'' u" by (metis sublist_drop sublist_order.order_trans sublist_take)
    with t show False by (meson suffix_imp_sublist sublist_order.order_trans)
  qed
  then have "rx_ends url_prefix u = []" by (rule no_ends)
  then show "url_find clean_url u = None" by (simp add: url_find_def)
qed

lemma bearer_needs:
  assumes "n \<in> set (rx_ends (seq [lit ''bearer'', One py_space, Many py_space]) t)"
  shows "lower_char (hd t) = CHR ''b'' \<and> (\<exists>c \<in> set t. py_space c)"
proof -
  from assms obtain i j where i: "i \<in> set (rx_ends (lit ''bearer'') t)" and j: "j \<in> set (rx_ends (One py_space) (drop i t))"
    unfolding seq.simps by (elim ends_ThenE) blast
  from lit_ends [OF i] have "lower_char (hd t) = CHR ''b''" by (cases t) auto
  moreover have "drop i t \<noteq> []" "py_space (hd (drop i t))" using j by (auto split: if_splits)
  then have "\<exists>c \<in> set t. py_space c" using hd_in_set in_set_dropD by fast
  ultimately show ?thesis by blast
qed

lemma re_sub_any_prev: "re_sub (\<lambda>_. f) p t = re_sub (\<lambda>_. f) q t"
  by (cases t; subst (1 2) re_sub.simps) simp_all

lemma lower_alphabet: "map lower_char ''ABCDEFGHIJKLMNOPQRSTUVWXYZ'' = ''abcdefghijklmnopqrstuvwxyz''"
  by code_simp

lemma lower_plain: "map lower_char ''abcdefghijklmnopqrstuvwxyz-_ :=*'' = ''abcdefghijklmnopqrstuvwxyz-_ :=*''"
  by code_simp

lemmas lower_chars = lower_alphabet [unfolded list.map list.inject simp_thms] lower_plain [unfolded list.map list.inject simp_thms]

text \<open>Ways to write the names.\<close>

definition credential_words :: "string list" where
  "credential_words =
     [''api_key'', ''api-key'', ''api key'', ''apikey'', ''apiKey'', ''API_KEY'', ''access_key'', ''accesskey'', ''secret'',
      ''token'', ''Token'', ''signature'', ''password'', ''passphrase'', ''authorization'', ''Authorization'',
      ''private_key'', ''privatekey'', ''public_key'', ''publickey'', ''listen_key'', ''listenKey'', ''nonce'',
      ''timestamp'', ''X-MBX-APIKEY'', ''x-mbx-apikey'', ''OK-ACCESS-SIGN'', ''KC-API-SIGN'', ''CB-ACCESS-SIGN'']"

text \<open>The ends of the rest are worked out one by one, not for all ends of the first part at once.\<close>

lemma map_weak_cong: "xs = ys \<Longrightarrow> map f xs = map f ys"
  by simp

lemma ends_lit:
  "cs \<noteq> [] \<Longrightarrow> rx_ends (lit cs) t = (if map lower_char (take (length cs) t) = cs then [length cs] else [])"
proof (induction cs arbitrary: t rule: lit.induct)
  case (3 c d ds)
  then show ?case by (cases t) (auto simp: char_in_def)
next
  case (2 c)
  then show ?case by (cases t) (auto simp: char_in_def)
qed simp

lemma word_ends:
  assumes "name \<in> set credential_words"
  shows "rx_ends key_names (name @ r) = [length name]"
proof -
  have "list_all (\<lambda>name. rx_ends key_names (name @ r) = [length name]) credential_words"
    unfolding credential_words_def list.pred_inject
    by (intro conjI TrueI; simp add: key_names_def Let_def char_in_def ends_lit lower_chars del: lit.simps cong: map_weak_cong)
  with assms show ?thesis by (simp add: list_all_iff)
qed

lemma pair_ends:
  assumes "name \<in> set credential_words" "value_char c" "sep = ''='' \<or> sep = '': ''"
  shows "\<exists>ns. rx_ends key_value_prefix (name @ sep @ c # r) = (length name + length sep) # ns"
proof -
  have c: "\<not> py_space c" "\<not> quote_char c" using assms(2) by (simp_all add: value_char_def)
  have s: "py_space (CHR '' '')" "\<not> py_space (CHR '':'')" "\<not> py_space (CHR ''='')" "\<not> quote_char (CHR '' '')"
    "\<not> quote_char (CHR '':'')" "\<not> quote_char (CHR ''='')"
    by (simp_all add: py_space_def quote_char_def)
  from assms(3) show ?thesis
    by (elim disjE; simp add: key_value_prefix_def word_ends [OF assms(1)] char_in_def lower_chars c s cong: map_weak_cong)
qed

text \<open>A name, a separator and a value, up to the first character that is no part of values.\<close>

lemma pair_redacted:
  assumes "name \<in> set credential_words" "sep = ''='' \<or> sep = '': ''" "v \<noteq> []" "list_all value_char v"
    and "post = [] \<or> \<not> value_char (hd post)"
  shows "key_value_sub (name @ sep @ v @ post) = name @ sep @ redacted @ key_value_sub post"
proof -
  obtain c cs where v: "v = c # cs" "value_char c" using assms(3,4) by (cases v) auto
  let ?t = "name @ sep @ v @ post" and ?n = "length name + length sep"
  from pair_ends [OF assms(1) v(2) assms(2), of "cs @ post"]
  obtain ns where ends: "rx_ends key_value_prefix ?t = ?n # ns" by (auto simp: v(1))
  have "takeWhile value_char (v @ post) = v"
    using assms(4,5) by (cases post) (auto simp: list_all_iff takeWhile_append)
  then have "find_value key_value_prefix value_char ?t = Some (name @ sep @ redacted, ?n + length v)"
    unfolding find_value_def ends using v by (simp add: nth_append)
  from re_sub_some [of "\<lambda>_. find_value key_value_prefix value_char" None, OF this]
  have "key_value_sub ?t = (name @ sep @ redacted) @
      re_sub (\<lambda>_. find_value key_value_prefix value_char) (Some (?t ! (?n + length v - 1))) post"
    using v(1) by (simp add: key_value_sub_def)
  then show ?thesis unfolding key_value_sub_def using re_sub_any_prev by (metis append.assoc)
qed

lemma unspaced_no_bearer:
  assumes "\<forall>c \<in> set tok. \<not> py_space c" "CHR ''b'' \<notin> set (map lower_char x)"
  shows "bearer_sub (x @ tok) = x @ tok"
  unfolding bearer_sub_def
proof (rule re_sub_unchanged)
  fix p u assume "suffix u (x @ tok)"
  then have u: "suffix u tok \<or> (\<exists>w. u = w @ tok \<and> suffix w x)" unfolding suffix_append by blast
  have "rx_ends (seq [lit ''bearer'', One py_space, Many py_space]) u = []"
  proof (rule no_ends)
    fix n assume "n \<in> set (rx_ends (seq [lit ''bearer'', One py_space, Many py_space]) u)"
    from bearer_needs [OF this] have b: "lower_char (hd u) = CHR ''b''" "\<exists>c \<in> set u. py_space c" by auto
    from b(2) assms(1) have "\<not> suffix u tok" using set_mono_suffix by fastforce
    with u obtain w where w: "suffix w x" "u = w @ tok" by blast
    with \<open>\<not> suffix u tok\<close> have "w \<noteq> []" by auto
    with w have "hd u \<in> set x" using set_mono_suffix [OF w(1)] by auto
    with b(1) assms(2) show False by force
  qed
  then show "bearer_find p u = None" by (simp only: bearer_find_def find_value_None if_cancel)
qed

lemma token_char_plain: "token_char c \<Longrightarrow> \<not> py_space c \<and> c \<noteq> CHR '':''"
  by (auto simp: token_char_def word_char_def py_space_def Let_def)

text \<open>
  The pattern for bearer tokens comes too late for the header that carries them: the pattern for
  pairs takes the word \<open>Bearer\<close> for the value of \<open>Authorization\<close>, and the token stays.
\<close>

lemma authorization_token_told:
  assumes "\<forall>c \<in> set tok. token_char c \<and> c \<noteq> CHR ''='' \<and> c \<noteq> CHR ''/''"
  shows "clean_text urlsplit urlunsplit (''Authorization: Bearer '' @ tok) = ''Authorization: *** '' @ tok"
proof -
  let ?t = "''Authorization: Bearer '' @ tok"
  have tok: "\<forall>c \<in> set tok. \<not> py_space c" "CHR '':'' \<notin> set tok" "CHR ''='' \<notin> set tok" "CHR ''/'' \<notin> set tok"
    using assms token_char_plain by auto
  have "CHR ''/'' \<notin> set ?t" using tok by simp
  then have "\<not> sublist ''://'' ?t" using set_mono_sublist [of "''://''" ?t] by auto
  then have url: "url_sub (sanitize_url urlsplit urlunsplit) ?t = ?t" by (rule url_unchanged)
  have "key_value_sub (''Authorization'' @ '': '' @ ''Bearer'' @ '' '' @ tok) =
      ''Authorization'' @ '': '' @ redacted @ key_value_sub ('' '' @ tok)"
    by (rule pair_redacted) (simp_all add: credential_words_def value_char_def py_space_def quote_char_def)
  moreover have "key_value_sub ('' '' @ tok) = '' '' @ tok"
    unfolding key_value_sub_def by (rule key_value_unchanged) (use tok in auto)
  ultimately have "key_value_sub ?t = ''Authorization: *** '' @ tok" by (simp add: redacted_def)
  moreover have "bearer_sub (''Authorization: *** '' @ tok) = ''Authorization: *** '' @ tok"
    by (rule unspaced_no_bearer [OF tok(1)]) (simp add: lower_chars)
  ultimately show ?thesis unfolding clean_text_def url by simp
qed

text \<open>Cleaning a text without an address brings no secret into it.\<close>

lemma clean_introduces_none:
  assumes "starless s" "\<not> sublist s t" "\<not> sublist ''://'' t"
  shows "\<not> sublist s (clean_text urlsplit urlunsplit t)"
  unfolding clean_text_def url_unchanged [OF assms(3)] bearer_sub_def key_value_sub_def
  using sub_introduces_none [OF marks_bearer assms(1)] sub_introduces_none [OF marks_find_value assms(1)] assms(2)
  by blast



end
