(* ===== verification/GatewayPorts.thy ===== *)
theory GatewayPorts
  imports GatewayConfig
begin

text \<open>
  Model of the private builders of \<open>src/bt_api_base/gateway/config.py\<close> that give a runtime its name,
  its endpoints and its TCP ports: \<open>_build_runtime_name\<close>, \<open>_build_endpoints\<close>, \<open>_tcp_base_port\<close>
  and \<open>_tcp_port_triplet_available\<close>. Which ports can be bound, \<open>crc32\<close> of a name and the joining
  of paths are parameters.
\<close>

section \<open>Names\<close>

definition strip_dashes :: "string \<Rightarrow> string" where
  "strip_dashes s = rev (dropWhile ((=) (CHR ''-'')) (rev (dropWhile ((=) (CHR ''-'')) s)))"

definition build_runtime_name :: "string \<Rightarrow> string \<Rightarrow> string \<Rightarrow> string" where
  "build_runtime_name exchange_type asset_type account_id =
     (let safe = strip_dashes (map (\<lambda>c. if alnum c then c else CHR ''-'') (py_lower account_id))
      in py_lower exchange_type @ ''-'' @ py_lower asset_type @ ''-'' @ (if safe = [] then ''default'' else safe))"

section \<open>Ports\<close>

definition triplet_available :: "(int \<Rightarrow> bool) \<Rightarrow> int \<Rightarrow> bool" where
  "triplet_available bindable base = list_all bindable [base, base + 1, base + 2]"

definition candidate :: "nat \<Rightarrow> nat \<Rightarrow> int" where
  "candidate seed offset = 32000 + int ((seed + offset) mod 10000) * 3"

definition tcp_base_port ::
    "(string \<Rightarrow> nat) \<Rightarrow> (int \<Rightarrow> bool) \<Rightarrow> string \<Rightarrow> string \<Rightarrow> tcp_ports \<Rightarrow> int py \<times> tcp_ports" where
  "tcp_base_port crc32 bindable worker_id runtime_name t =
     (let seed_input = (if worker_id \<noteq> [] then worker_id @ '':'' @ runtime_name else runtime_name)
      in case dget (tp_assigned t) seed_input of
           Some p \<Rightarrow> (Inr p, t)
         | None \<Rightarrow>
             (let seed = crc32 seed_input mod 10000;
                  usable = (\<lambda>p. p \<notin> set (tp_reserved t) \<and> triplet_available bindable p)
              in case List.find (\<lambda>offset. usable (candidate seed offset)) [0..<10000] of
                   Some offset \<Rightarrow>
                     (let p = candidate seed offset
                      in (Inr p, t\<lparr>tp_assigned := dset seed_input p (tp_assigned t),
                                    tp_reserved := sadd p (tp_reserved t)\<rparr>))
                 | None \<Rightarrow> (Inl RuntimeError, t)))"

text \<open>\<open>_build_endpoints\<close>; \<open>path\<close> joins the base directory, the name and the file.\<close>

definition build_endpoints ::
    "(string \<Rightarrow> string \<Rightarrow> string \<Rightarrow> string) \<Rightarrow> (string \<Rightarrow> nat) \<Rightarrow> (int \<Rightarrow> bool) \<Rightarrow> string \<Rightarrow> string \<Rightarrow> string
     \<Rightarrow> string \<Rightarrow> tcp_ports \<Rightarrow> (string \<times> string \<times> string) py \<times> tcp_ports" where
  "build_endpoints path crc32 bindable worker_id base_dir runtime_name transport t =
     (if transport = ''tcp''
      then (case tcp_base_port crc32 bindable worker_id runtime_name t of
              (Inl e, t1) \<Rightarrow> (Inl e, t1)
            | (Inr p, t1) \<Rightarrow>
                (let url = (\<lambda>i. ''tcp://127.0.0.1:'' @ show_int (p + i)) in (Inr (url 0, url 1, url 2), t1)))
      else (let url = (\<lambda>file. ''ipc://'' @ path base_dir runtime_name file)
            in (Inr (url ''command.sock'', url ''event.sock'', url ''market.sock''), t)))"

section \<open>Runtimes do not share ports\<close>

lemma candidate_bounds: "32000 \<le> candidate seed offset \<and> candidate seed offset + 2 \<le> 61999"
  by (simp add: candidate_def)

lemma candidates_apart:
  "candidate s i \<noteq> candidate u j \<Longrightarrow> 3 \<le> \<bar>candidate s i - candidate u j\<bar>"
  by (auto simp: candidate_def)

definition ports_ok :: "tcp_ports \<Rightarrow> bool" where
  "ports_ok t \<longleftrightarrow>
     (\<forall>n p. dget (tp_assigned t) n = Some p \<longrightarrow> p \<in> set (tp_reserved t) \<and> (\<exists>s i. p = candidate s i)) \<and>
     (\<forall>m n p. dget (tp_assigned t) m = Some p \<and> dget (tp_assigned t) n = Some p \<longrightarrow> m = n)"

lemma tcp_base_port_ok: "ports_ok t \<Longrightarrow> ports_ok (snd (tcp_base_port crc32 bindable worker name t))"
  unfolding ports_ok_def tcp_base_port_def Let_def
  by (auto simp: find_Some_iff split: option.split)

interpretation base_ports: op_system tp_new "\<lambda>t (bindable, worker, name). snd (tcp_base_port crc32 bindable worker name t)"
  ports_ok for crc32
  by unfold_locales (auto simp: tcp_base_port_ok, simp add: ports_ok_def tp_new_def)

text \<open>
  However ports were given out before: the three ports of a runtime lie between 32000 and 61999,
  could be bound when they were chosen, and are no port of another runtime; asking again gives
  them again.
\<close>

lemma tcp_ports_disjoint:
  assumes "t = foldl (\<lambda>t (bindable, worker, name). snd (tcp_base_port crc32 bindable worker name t)) tp_new calls"
    and "dget (tp_assigned t) m = Some p" "dget (tp_assigned t) n = Some q" "m \<noteq> n"
  shows "{p..p + 2} \<inter> {q..q + 2} = {} \<and> {p..p + 2} \<subseteq> {32000..61999}"
proof -
  have ok: "ports_ok t" unfolding assms(1) by (rule base_ports.reach_inv)
  then have "p \<noteq> q" using assms(2-4) unfolding ports_ok_def by blast
  moreover obtain s i u j where "p = candidate s i" "q = candidate u j"
    using ok assms(2,3) unfolding ports_ok_def by blast
  ultimately show ?thesis
    using candidates_apart [of s i u j] candidate_bounds [of s i] by auto
qed

lemma tcp_base_port_again:
  assumes "tcp_base_port crc32 bindable worker name t = (Inr p, t1)"
  shows "tcp_base_port crc32 bindable' worker name t1 = (Inr p, t1)"
  using assms by (auto simp: tcp_base_port_def Let_def split: option.splits if_splits)

lemma rest_reached:
  fixes r N slot :: nat
  assumes "r < N" "slot < N" shows "\<exists>i < N. (r + i) mod N = slot"
proof (cases "r \<le> slot")
  case True
  then show ?thesis using assms by (intro exI [of _ "slot - r"]) simp
next
  case False
  then have "(r + (slot + N - r)) mod N = slot" using assms by simp
  with False assms show ?thesis by (intro exI [of _ "slot + N - r"]) simp
qed

lemma slots_cover:
  assumes "slot < 10000" shows "\<exists>offset < 10000. candidate seed offset = 32000 + int slot * 3"
proof -
  have "seed mod 10000 < 10000" by simp
  from rest_reached [OF this assms] obtain i where "i < 10000" "(seed mod 10000 + i) mod 10000 = slot" by blast
  then have "i < 10000" "(seed + i) mod 10000 = slot" by (simp_all only: mod_add_left_eq)
  then show ?thesis unfolding candidate_def by blast
qed

text \<open>The search gives up only when every triple is reserved or cannot be bound.\<close>

lemma no_port_left:
  assumes "tcp_base_port crc32 bindable worker name t = (Inl e, t1)" "slot < 10000"
  shows "32000 + int slot * 3 \<in> set (tp_reserved t) \<or> \<not> triplet_available bindable (32000 + int slot * 3)"
proof -
  obtain seed where none: "List.find (\<lambda>offset. candidate seed offset \<notin> set (tp_reserved t) \<and>
      triplet_available bindable (candidate seed offset)) [0..<10000] = None"
    using assms(1) by (auto simp: tcp_base_port_def Let_def split: option.splits if_splits)
  from slots_cover [OF assms(2), of seed] obtain offset where "offset < 10000" "candidate seed offset = 32000 + int slot * 3"
    by blast
  with none show ?thesis by (auto simp: find_None_iff)
qed

text \<open>
  Two accounts that differ in capital letters or marks only have one runtime name, and so the same
  ports: the second runtime cannot bind them.
\<close>

lemma accounts_share_name:
  "build_runtime_name ''BINANCE'' ''SWAP'' ''acc.1'' = build_runtime_name ''BINANCE'' ''SWAP'' ''ACC_1''"
  by code_simp

end
