(* ===== verification/RedisCache.thy ===== *)
theory RedisCache
  imports Services PyVal
begin

text \<open>
  Model of \<open>CacheService\<close> of \<open>src/bt_api_base/core/services.py\<close> with a Redis client before the local
  cache of theory Services. The client is a parameter: for each call it answers or raises. \<open>json\<close>
  is one too: writing a value may raise, and so may reading a text.
\<close>

record 's redis_client =
  rd_get :: "string \<Rightarrow> 's \<Rightarrow> string option py \<times> 's"
  rd_setex :: "string \<Rightarrow> int \<Rightarrow> string \<Rightarrow> 's \<Rightarrow> unit py \<times> 's"
  rd_set :: "string \<Rightarrow> string \<Rightarrow> 's \<Rightarrow> unit py \<times> 's"
  rd_delete :: "string \<Rightarrow> 's \<Rightarrow> unit py \<times> 's"
  rd_flushdb :: "'s \<Rightarrow> unit py \<times> 's"

text \<open>The service: its client, if there is one, the state of the database, and the local cache.\<close>

record 's redis_cache =
  rc_client :: "'s redis_client option"
  rc_database :: 's
  rc_local :: "pyval CacheService"

text \<open>
  \<open>__init__\<close> with \<open>_init_redis\<close>: \<open>installed\<close> says whether the package can be imported, and
  \<open>from_url\<close> may raise, which ends the constructor.
\<close>

definition redis_cache_new ::
    "bool \<Rightarrow> (string \<Rightarrow> 's redis_client py) \<Rightarrow> string option \<Rightarrow> 's \<Rightarrow> 's redis_cache py" where
  "redis_cache_new installed from_url redis_url db =
     (let plain = \<lparr>rc_client = None, rc_database = db, rc_local = cs_new\<rparr>
      in case redis_url of
           None \<Rightarrow> Inr plain
         | Some url \<Rightarrow>
             if url = [] \<or> \<not> installed then Inr plain
             else (case from_url url of
                     Inl e \<Rightarrow> Inl e
                   | Inr client \<Rightarrow> Inr (plain\<lparr>rc_client := Some client\<rparr>)))"

definition rc_get :: "(string \<Rightarrow> pyval py) \<Rightarrow> string \<Rightarrow> time \<Rightarrow> 's redis_cache \<Rightarrow> pyval option \<times> 's redis_cache" where
  "rc_get loads k now c =
     (let (found, c1) =
        (case rc_client c of
           None \<Rightarrow> (None, c)
         | Some client \<Rightarrow>
             (case rd_get client k (rc_database c) of
                (reply, db) \<Rightarrow>
                  (case reply of
                     Inr (Some text) \<Rightarrow>
                       if text = [] then None else (case loads text of Inr v \<Rightarrow> Some v | Inl _ \<Rightarrow> None)
                   | _ \<Rightarrow> None, c\<lparr>rc_database := db\<rparr>)))
      in case found of
           Some v \<Rightarrow> (Some v, c1)
         | None \<Rightarrow> (case cs_get (rc_local c1) k now of (r, l) \<Rightarrow> (r, c1\<lparr>rc_local := l\<rparr>)))"

definition rc_set ::
    "(pyval \<Rightarrow> string py) \<Rightarrow> string \<Rightarrow> pyval \<Rightarrow> int option \<Rightarrow> time \<Rightarrow> 's redis_cache \<Rightarrow> unit py \<times> 's redis_cache" where
  "rc_set dumps k v ttl now c =
     (case dumps v of
        Inl e \<Rightarrow> (Inl e, c)
      | Inr text \<Rightarrow>
          (let db = (case rc_client c of
                       None \<Rightarrow> rc_database c
                     | Some client \<Rightarrow>
                         (case ttl of
                            Some t \<Rightarrow> if t \<noteq> 0 then snd (rd_setex client k t text (rc_database c))
                                      else snd (rd_set client k text (rc_database c))
                          | None \<Rightarrow> snd (rd_set client k text (rc_database c))))
           in (Inr (), c\<lparr>rc_database := db, rc_local := cs_set (rc_local c) k v ttl now\<rparr>)))"

definition rc_delete :: "string \<Rightarrow> 's redis_cache \<Rightarrow> 's redis_cache" where
  "rc_delete k c =
     (let db = (case rc_client c of
                  None \<Rightarrow> rc_database c
                | Some client \<Rightarrow> snd (rd_delete client k (rc_database c)))
      in c\<lparr>rc_database := db, rc_local := cs_delete (rc_local c) k\<rparr>)"

definition rc_clear :: "'s redis_cache \<Rightarrow> 's redis_cache" where
  "rc_clear c =
     (let db = (case rc_client c of
                  None \<Rightarrow> rc_database c
                | Some client \<Rightarrow> snd (rd_flushdb client (rc_database c)))
      in c\<lparr>rc_database := db, rc_local := cs_clear (rc_local c)\<rparr>)"

datatype rc_op = RcGet string time | RcSet string pyval "int option" time | RcDelete string | RcClear

text \<open>The answer of a \<open>get\<close>, and whether a \<open>set\<close> raised.\<close>

datatype rc_answer = Got "pyval option" | SetEnds "unit py" | Nothing

fun rc_step ::
    "(string \<Rightarrow> pyval py) \<Rightarrow> (pyval \<Rightarrow> string py) \<Rightarrow> 's redis_cache \<Rightarrow> rc_op \<Rightarrow> rc_answer \<times> 's redis_cache" where
  "rc_step loads dumps c (RcGet k now) = (case rc_get loads k now c of (r, c1) \<Rightarrow> (Got r, c1))"
| "rc_step loads dumps c (RcSet k v ttl now) = (case rc_set dumps k v ttl now c of (r, c1) \<Rightarrow> (SetEnds r, c1))"
| "rc_step loads dumps c (RcDelete k) = (Nothing, rc_delete k c)"
| "rc_step loads dumps c RcClear = (Nothing, rc_clear c)"

fun rc_run ::
    "(string \<Rightarrow> pyval py) \<Rightarrow> (pyval \<Rightarrow> string py) \<Rightarrow> 's redis_cache \<Rightarrow> rc_op list \<Rightarrow> rc_answer list" where
  "rc_run loads dumps c [] = []"
| "rc_run loads dumps c (x # xs) = (case rc_step loads dumps c x of (a, c1) \<Rightarrow> a # rc_run loads dumps c1 xs)"

section \<open>Properties\<close>

text \<open>
  With a Redis that cannot be reached the service answers as one without Redis: every failure is
  caught and the local cache has everything that was stored.
\<close>

definition unreachable :: "'s redis_client \<Rightarrow> bool" where
  "unreachable client \<longleftrightarrow> (\<forall>k s. \<exists>e s'. rd_get client k s = (Inl e, s'))"

lemma unreachable_redis_is_local:
  assumes "rc_client c = None \<or> (\<exists>client. rc_client c = Some client \<and> unreachable client)"
    and "rc_client d = None" "rc_local c = rc_local d"
  shows "rc_run loads dumps c xs = rc_run loads dumps d xs"
  using assms
proof (induction xs arbitrary: c d)
  case (Cons x xs)
  obtain a c1 where c: "rc_step loads dumps c x = (a, c1)" by fastforce
  obtain b d1 where d: "rc_step loads dumps d x = (b, d1)" by fastforce
  have "b = a \<and> rc_client c1 = rc_client c \<and> rc_client d1 = None \<and> rc_local c1 = rc_local d1"
  proof (cases x)
    case (RcGet k now)
    have "(case rc_client c of None \<Rightarrow> True | Some client \<Rightarrow> \<exists>e s'. rd_get client k (rc_database c) = (Inl e, s'))"
      using Cons.prems(1) by (auto simp: unreachable_def)
    with c d RcGet Cons.prems(2,3) show ?thesis
      by (auto simp: rc_get_def split: option.splits prod.splits)
  next
    case (RcSet k v ttl now)
    with c d Cons.prems(2,3) show ?thesis by (auto simp: rc_set_def Let_def split: sum.splits)
  qed (use c d Cons.prems(2,3) in \<open>auto simp: rc_delete_def rc_clear_def Let_def\<close>)
  with Cons.IH [of c1 d1] Cons.prems(1) c d show ?case by simp
qed simp

text \<open>
  The failures are caught one by one, so the two stores may disagree, and Redis is asked first: a
  value that Redis would not take is stored locally, and the value before it is what later calls
  get as soon as Redis answers again; and a key deleted while Redis failed is there again.
\<close>

lemma old_value_after_failed_set:
  assumes "rc_client c = Some client" "dumps v = Inr text" "rd_set client k text (rc_database c) = (Inl e, db)"
    and "rd_get client k db = (Inr (Some old), db')" "old \<noteq> []" "loads old = Inr w"
  shows "fst (rc_get loads k now (snd (rc_set dumps k v None now c))) = Some w \<and>
    fst (cs_get (rc_local (snd (rc_set dumps k v None now c))) k now) = Some v"
  using assms by (simp add: rc_set_def rc_get_def Let_def cs_set_def cs_put_def cs_get_def before_deadline_def)

lemma deleted_key_comes_back:
  assumes "rc_client c = Some client" "rd_delete client k (rc_database c) = (Inl e, db)"
    and "rd_get client k db = (Inr (Some old), db')" "old \<noteq> []" "loads old = Inr w"
  shows "fst (rc_get loads k now (rc_delete k c)) = Some w"
  using assms by (simp add: rc_delete_def rc_get_def Let_def)

end
