(* ===== verification/LazyExports.thy ===== *)
theory LazyExports
  imports Errors ExchangeAdapters
begin

text \<open>
  Model of the attributes that two modules make when they are first read: the error translators of
  plugins in \<open>src/bt_api_base/error.py\<close>, and the Binance adapter in
  \<open>src/bt_api_base/websocket/exchange_adapters.py\<close>. What importing a plugin does is a parameter.
\<close>

section \<open>Translators\<close>

definition translator_exports :: "(string, string \<times> string) dict" where
  "translator_exports =
     [(''BinanceErrorTranslator'', (''bt_api_binance.errors.binance_translator'', ''BinanceErrorTranslator'')),
      (''CTPErrorTranslator'', (''bt_api_ctp.errors.ctp_translator'', ''CTPErrorTranslator'')),
      (''OKXErrorTranslator'', (''bt_api_base.error'', ''OKXErrorTranslator'')),
      (''IBWebErrorTranslator'', (''bt_api_ib_web.errors.ib_web_translator'', ''IBWebErrorTranslator'')),
      (''BybitErrorTranslator'', (''bt_api_bybit.errors.bybit_translator'', ''BybitErrorTranslator'')),
      (''BitgetErrorTranslator'', (''bt_api_bitget.errors.bitget_translator'', ''BitgetErrorTranslator'')),
      (''KuCoinErrorTranslator'', (''bt_api_kucoin.errors.kucoin_translator'', ''KuCoinErrorTranslator'')),
      (''UpbitErrorTranslator'', (''bt_api_upbit.errors.upbit_translator'', ''UpbitErrorTranslator'')),
      (''GeminiErrorTranslator'', (''bt_api_gemini.errors.gemini_translator'', ''GeminiErrorTranslator'')),
      (''KrakenErrorTranslator'', (''bt_api_kraken.errors.kraken_translator'', ''KrakenErrorTranslator'')),
      (''BitfinexErrorTranslator'', (''bt_api_bitfinex.errors.bitfinex_error_translator'', ''BitfinexErrorTranslator''))]"

text \<open>
  The import of a module and the reading of a name of it: the class, an \<open>ImportError\<close> or
  \<open>AttributeError\<close> from anywhere in it, or another exception. A placeholder is a subclass of
  \<open>ErrorTranslator\<close> with nothing of its own, made under the name.
\<close>

datatype 'c import_end = Imported 'c | NotThere | ImportRaises

datatype 'c export_class = PluginClass 'c | Placeholder string

datatype 'c export_end = Gives "'c export_class" | NoAttribute | PassesOn

definition error_getattr ::
    "(string \<Rightarrow> string \<Rightarrow> 'c import_end) \<Rightarrow> string \<Rightarrow> (string, 'c export_class) dict
     \<Rightarrow> 'c export_end \<times> (string, 'c export_class) dict" where
  "error_getattr import name globals =
     (case dget translator_exports name of
        None \<Rightarrow> (NoAttribute, globals)
      | Some (modname, attr) \<Rightarrow>
          (case import modname attr of
             Imported c \<Rightarrow> (Gives (PluginClass c), dset name (PluginClass c) globals)
           | NotThere \<Rightarrow>
               if suffix ''ErrorTranslator'' name
               then (Gives (Placeholder name), dset name (Placeholder name) globals)
               else (NoAttribute, globals)
           | ImportRaises \<Rightarrow> (PassesOn, globals)))"

text \<open>Reading \<open>error.name\<close>: Python asks the function only for names that are not there.\<close>

definition read_export ::
    "(string \<Rightarrow> string \<Rightarrow> 'c import_end) \<Rightarrow> string \<Rightarrow> (string, 'c export_class) dict
     \<Rightarrow> 'c export_end \<times> (string, 'c export_class) dict" where
  "read_export import name globals =
     (case dget globals name of Some c \<Rightarrow> (Gives c, globals) | None \<Rightarrow> error_getattr import name globals)"

section \<open>The adapter\<close>

definition adapters_getattr :: "(string \<Rightarrow> string \<Rightarrow> 'c option) \<Rightarrow> string \<Rightarrow> 'c py" where
  "adapters_getattr import_class name =
     (if name = ''BinanceWebSocketAdapter''
      then (case load_plugin_adapter import_class ''BINANCE'' of Some c \<Rightarrow> Inr c | None \<Rightarrow> Inl AttributeError)
      else Inl AttributeError)"

section \<open>Properties\<close>

lemma exports_are_translators:
  assumes "dget translator_exports name = Some x" shows "suffix ''ErrorTranslator'' name"
proof -
  have "list_all (\<lambda>p. suffix ''ErrorTranslator'' (fst p)) translator_exports" by code_simp
  with dget_mem [OF assms] show ?thesis by (auto simp: list_all_iff)
qed

text \<open>
  Whatever is read and whatever the imports do meanwhile, a name that was once given always gives
  the same class, and every exported name gives a class unless its plugin raises another exception.
\<close>

lemma export_stable:
  assumes "read_export import name globals = (Gives c, globals')"
  shows "dget (foldl (\<lambda>g (imp, n). snd (read_export imp n g)) globals' reads) name = Some c"
proof -
  have "dget globals' name = Some c"
    using assms by (auto simp: read_export_def error_getattr_def split: option.splits import_end.splits if_splits)
  moreover have "dget g name = Some c \<Longrightarrow> dget (snd (read_export imp n g)) name = Some c" for g imp n
    by (auto simp: read_export_def error_getattr_def split: option.splits import_end.splits if_splits)
  ultimately show ?thesis by (induction reads arbitrary: globals') auto
qed

lemma exported_name_gives_class:
  assumes "dget translator_exports name = Some (modname, attr)" "import modname attr \<noteq> ImportRaises"
  shows "\<exists>c globals'. read_export import name globals = (Gives c, globals')"
  using assms exports_are_translators [OF assms(1)]
  by (auto simp: read_export_def error_getattr_def split: option.split import_end.split)

text \<open>
  So a plugin that was missing at the first reading, or failed inside with one of the two
  exceptions, is never used in this process: the placeholder has taken its name.
\<close>

lemma placeholder_stays:
  assumes "dget globals ''BybitErrorTranslator'' = None"
    and "import ''bt_api_bybit.errors.bybit_translator'' ''BybitErrorTranslator'' = NotThere"
    and "globals' = snd (read_export import ''BybitErrorTranslator'' globals)"
  shows "fst (read_export (\<lambda>_ _. Imported c) ''BybitErrorTranslator'' globals') = Gives (Placeholder ''BybitErrorTranslator'')"
  using assms by (simp add: read_export_def error_getattr_def translator_exports_def suffix_to_prefix)

end
