(* ===== verification/CredentialManager.thy ===== *)
theory CredentialManager
  imports Credentials
begin

text \<open>
  Model of \<open>SecureCredentialManager\<close> of \<open>src/bt_api_base/security.py\<close> as an object with its cipher
  and its salt. The key derivation, the cipher and base64 are parameters: a key derived from a
  password and a salt encrypts with a fresh nonce, and a text that does not decrypt raises
  \<open>InvalidToken\<close> (the result \<open>None\<close>).
\<close>

record ('salt, 'key) credential_manager =
  cm_cipher :: "'key option"
  cm_salt :: "'salt option"

text \<open>\<open>_create_cipher\<close>; \<open>urandom\<close> is what the system gives for a salt now.\<close>

definition create_cipher :: "(string \<Rightarrow> 'salt \<Rightarrow> 'key) \<Rightarrow> 'salt \<Rightarrow> string \<Rightarrow> 'salt option \<Rightarrow> 'key \<times> 'salt" where
  "create_cipher kdf urandom password salt =
     (let s = (case salt of Some s \<Rightarrow> s | None \<Rightarrow> urandom) in (kdf password s, s))"

text \<open>The outer \<open>None\<close>: \<open>ImportError\<close>.\<close>

definition manager_new ::
    "bool \<Rightarrow> (string \<Rightarrow> 'salt \<Rightarrow> 'key) \<Rightarrow> 'salt \<Rightarrow> string option \<Rightarrow> ('salt, 'key) credential_manager option" where
  "manager_new crypto_available kdf urandom encryption_key =
     (case encryption_key of
        None \<Rightarrow> Some \<lparr>cm_cipher = None, cm_salt = None\<rparr>
      | Some password \<Rightarrow>
          if password = [] then Some \<lparr>cm_cipher = None, cm_salt = None\<rparr>
          else if crypto_available
          then (case create_cipher kdf urandom password None of
                  (key, salt) \<Rightarrow> Some \<lparr>cm_cipher = Some key, cm_salt = Some salt\<rparr>)
          else None)"

text \<open>The two methods with the key of the manager, for the functions of theory Credentials.\<close>

definition manager_encrypt ::
    "('key \<Rightarrow> nat \<Rightarrow> string \<Rightarrow> 'token) \<Rightarrow> ('token \<Rightarrow> string) \<Rightarrow> nat \<Rightarrow> ('salt, 'key) credential_manager \<Rightarrow> string \<Rightarrow> string" where
  "manager_encrypt enc b64 nonce m s =
     encrypt_credential (map_option (\<lambda>key text. b64 (enc key nonce text)) (cm_cipher m)) s"

definition manager_cipher ::
    "('key \<Rightarrow> 'token \<Rightarrow> string option) \<Rightarrow> (string \<Rightarrow> 'token option) \<Rightarrow> ('salt, 'key) credential_manager
     \<Rightarrow> (string \<Rightarrow> string option) option" where
  "manager_cipher dec unb64 m =
     map_option (\<lambda>key text. case unb64 text of None \<Rightarrow> None | Some token \<Rightarrow> dec key token) (cm_cipher m)"

definition manager_decrypt ::
    "('key \<Rightarrow> 'token \<Rightarrow> string option) \<Rightarrow> (string \<Rightarrow> 'token option) \<Rightarrow> ('salt, 'key) credential_manager
     \<Rightarrow> string \<Rightarrow> string option" where
  "manager_decrypt dec unb64 m s = decrypt_credential (manager_cipher dec unb64 m) s"

section \<open>Only the manager that encrypted can decrypt\<close>

text \<open>
  C35. A credential that a manager encrypts it can decrypt, and gives as the credential of its exchange.
  Another manager of the same password, as every new process makes one, can do neither: its salt is
  another one, and the salt is not kept with the text. The credential it gives is \<open>None\<close>.
\<close>

theorem credentials_only_by_their_manager:
  assumes "\<And>key n s. dec key (enc key n s) = Some s" "\<And>key key' n s. key' \<noteq> key \<Longrightarrow> dec key' (enc key n s) = None"
    and "\<And>token. unb64 (b64 token) = Some token" "\<And>token. b64 token \<noteq> []"
    and "\<And>p s s'. kdf p s = kdf p s' \<Longrightarrow> s = s'"
    and "manager_new True kdf salt (Some password) = Some m" "manager_new True kdf salt' (Some password) = Some m'"
    and "password \<noteq> []" "salt' \<noteq> salt"
    and "dget env ''BINANCE_API_KEY'' = Some (manager_encrypt enc b64 nonce m s)"
  shows "manager_decrypt dec unb64 m (manager_encrypt enc b64 nonce m s) = Some s \<and>
    manager_decrypt dec unb64 m' (manager_encrypt enc b64 nonce m s) = None \<and>
    dget (get_exchange_credentials env (manager_cipher dec unb64 m) ''binance'' True) ''api_key'' = Some (PStr s) \<and>
    dget (get_exchange_credentials env (manager_cipher dec unb64 m') ''binance'' True) ''api_key'' = Some PNone"
proof -
  have m: "cm_cipher m = Some (kdf password salt)" "cm_cipher m' = Some (kdf password salt')"
    using assms(6-8) by (auto simp: manager_new_def create_cipher_def)
  have key: "kdf password salt' \<noteq> kdf password salt" using assms(5,9) by blast
  let ?text = "b64 (enc (kdf password salt) nonce s)"
  have e: "manager_encrypt enc b64 nonce m s = ?text" by (simp add: manager_encrypt_def encrypt_credential_def m)
  have d: "manager_decrypt dec unb64 m ?text = Some s" "manager_decrypt dec unb64 m' ?text = None"
    using assms(1) assms(2) [OF key] by (simp_all add: manager_decrypt_def decrypt_credential_def manager_cipher_def m assms(3))
  have binance: "py_upper ''binance'' = ''BINANCE''" by code_simp
  have "dget (get_exchange_credentials env (Some f) ''binance'' True) ''api_key'' =
      Some (case f ?text of Some t \<Rightarrow> PStr t | None \<Rightarrow> PNone)" for f
    using assms(4,10) by (simp add: get_exchange_credentials_def binance plain_credentials_def env_value_def
        decrypt_entry_def decrypt_credential_def e)
  with d e show ?thesis by (simp add: manager_decrypt_def decrypt_credential_def manager_cipher_def m)
qed

theorem credentials_only_by_their_manager_witness:
  "let b64 = \<lambda>(n, s). replicate n CHR ''a'' @ ''b'' @ s;
       unb64 = \<lambda>t. Some (length (takeWhile ((=) CHR ''a'') t), drop (Suc (length (takeWhile ((=) CHR ''a'') t))) t);
       enc = \<lambda>key _ s. (key, s);
       dec = \<lambda>key (k, s). if k = key then Some s else None
   in manager_decrypt dec unb64 \<lparr>cm_cipher = Some (1 :: nat), cm_salt = Some (1 :: nat)\<rparr>
        (manager_encrypt enc b64 0 \<lparr>cm_cipher = Some 2, cm_salt = Some (2 :: nat)\<rparr> ''k3y'') = None"
proof -
  let ?b64 = "\<lambda>(n, s). replicate n CHR ''a'' @ ''b'' @ s"
  let ?unb64 = "\<lambda>t. Some (length (takeWhile ((=) CHR ''a'') t), drop (Suc (length (takeWhile ((=) CHR ''a'') t))) t)"
  let ?enc = "\<lambda>key _ s. (key, s)" and ?dec = "\<lambda>key (k, s). if k = key then Some s else None"
  let ?m = "\<lambda>n. \<lparr>cm_cipher = Some n, cm_salt = Some n\<rparr> :: (nat, nat) credential_manager"
  have made: "manager_new True (\<lambda>_ salt. salt) n (Some ''pw'') = Some (?m n)" for n
    by (simp add: manager_new_def create_cipher_def)
  have b64: "?unb64 (?b64 token) = Some token" "?b64 token \<noteq> []" for token
    by (cases token; simp add: takeWhile_append)+
  have "manager_decrypt ?dec ?unb64 (?m 1) (manager_encrypt ?enc ?b64 0 (?m 2) ''k3y'') = None"
    using credentials_only_by_their_manager [of ?dec ?enc ?unb64 ?b64 "\<lambda>_ salt. salt" 2 "''pw''" "?m 2" 1 "?m 1"
        "[(''BINANCE_API_KEY'', manager_encrypt ?enc ?b64 0 (?m 2) ''k3y'')]" 0 "''k3y''"] made b64
    by simp
  then show ?thesis unfolding Let_def .
qed

text \<open>Without the package a key is an error, and without a key nothing is encrypted.\<close>

lemma manager_without_crypto:
  "password \<noteq> [] \<Longrightarrow> manager_new False kdf salt (Some password) = None"
  "manager_new crypto kdf salt None = Some m \<Longrightarrow> manager_encrypt enc b64 nonce m s = s"
  by (auto simp: manager_new_def manager_encrypt_def encrypt_credential_def)

end
