(* ===== verification/RuntimeSupport.thy ===== *)
theory RuntimeSupport
  imports GatewayRuntime
begin

text \<open>
  Model of what the gateway runtimes use besides their state machines: the import of the ZeroMQ
  bridge and the conversion of answers to dicts (\<open>src/bt_api_base/gateway/runtime.py\<close>), and the
  start in a thread with its bounded wait (\<open>src/bt_api_base/gateway/runtime_remote.py\<close>).
\<close>

section \<open>The bridge\<close>

text \<open>\<open>make\<close> imports the modules and reads the classes: an \<open>ImportError\<close>, another error, or the bridge.\<close>

datatype 'b bridge_import = Bridge 'b | BridgeMissing | BridgeRaises pyerr

definition load_forwarding_bridge :: "'b bridge_import \<Rightarrow> 'b option \<Rightarrow> 'b py \<times> 'b option" where
  "load_forwarding_bridge imported bridge =
     (case bridge of
        Some b \<Rightarrow> (Inr b, bridge)
      | None \<Rightarrow>
          (case imported of
             Bridge b \<Rightarrow> (Inr b, Some b)
           | BridgeMissing \<Rightarrow> (Inl RuntimeError, None)
           | BridgeRaises e \<Rightarrow> (Inl e, None)))"

section \<open>Answers as dicts\<close>

text \<open>An answer of an adapter; \<open>ToDict\<close> has a method and what it returns or raises.\<close>

datatype dict_answer =
    PlainDict "(string, pyval) dict" | DataClass "(string, pyval) dict" | ToDict "pyval py"
  | WithAttributes "(string, pyval) dict" | NoAttributes

definition answer_dict :: "dict_answer \<Rightarrow> (string, pyval) dict py" where
  "answer_dict a =
     (case a of
        PlainDict d \<Rightarrow> Inr d
      | DataClass d \<Rightarrow> Inr d
      | ToDict (Inl e) \<Rightarrow> Inl e
      | ToDict (Inr (PDict d)) \<Rightarrow> Inr d
      | ToDict (Inr _) \<Rightarrow> Inr []
      | WithAttributes d \<Rightarrow> Inr d
      | NoAttributes \<Rightarrow> Inr [])"

section \<open>The start in a thread\<close>

text \<open>
  The wait after the thread was started: at its \<open>k\<close>-th test it sees \<open>running k\<close> and \<open>error k\<close>, and
  the clock reads \<open>clock k\<close>. The result is the number of sleeps; \<open>None\<close>: the fuel is used up.
\<close>

fun await_started :: "nat \<Rightarrow> (nat \<Rightarrow> bool) \<Rightarrow> (nat \<Rightarrow> bool) \<Rightarrow> (nat \<Rightarrow> time) \<Rightarrow> time \<Rightarrow> nat \<Rightarrow> nat option" where
  "await_started 0 running error clock deadline k = None"
| "await_started (Suc fuel) running error clock deadline k =
     (if \<not> running k \<and> \<not> error k \<and> clock k < deadline
      then await_started fuel running error clock deadline (Suc k)
      else Some k)"

text \<open>A thread that is alive is left alone; the second component says whether one was started.\<close>

definition remote_start_in_thread ::
    "nat \<Rightarrow> bool \<Rightarrow> (nat \<Rightarrow> bool) \<Rightarrow> (nat \<Rightarrow> bool) \<Rightarrow> (nat \<Rightarrow> time) \<Rightarrow> nat option \<times> bool" where
  "remote_start_in_thread fuel alive running error clock =
     (if alive then (Some 0, False)
      else (await_started fuel running error clock (clock 0 + 2) 0, True))"

section \<open>Properties\<close>

lemma bridge_kept:
  "load_forwarding_bridge imported bridge = (Inr b, bridge') \<Longrightarrow> load_forwarding_bridge imported' bridge' = (Inr b, bridge')"
  by (auto simp: load_forwarding_bridge_def split: option.splits bridge_import.splits)

text \<open>A bridge that could not be imported is tried again at the next start.\<close>

lemma bridge_tried_again:
  "load_forwarding_bridge (Bridge b) (snd (load_forwarding_bridge BridgeMissing None)) = (Inr b, Some b)"
  by (simp add: load_forwarding_bridge_def)

lemma answer_dict_raises: "answer_dict a = Inl e \<longleftrightarrow> a = ToDict (Inl e)"
  by (auto simp: answer_dict_def split: dict_answer.split sum.split pyval.split)

lemma await_started_ends:
  assumes "\<And>k. clock (Suc k) \<ge> clock k + 1/20" "deadline \<le> clock k + of_nat fuel / 20"
  shows "\<exists>n. await_started (Suc fuel) running error clock deadline k = Some n \<and> n \<le> k + fuel \<and>
    (running n \<or> error n \<or> deadline \<le> clock n)"
  using assms(2)
proof (induction fuel arbitrary: k)
  case (Suc fuel)
  have "deadline \<le> clock (Suc k) + of_nat fuel / 20"
    using Suc.prems assms(1) [of k] by (simp add: add_divide_distrib)
  from Suc.IH [OF this] show ?case by (subst await_started.simps) fastforce
qed auto

text \<open>
  With a clock that sleeps are seen on, the start returns after forty sleeps at the latest; it says
  nothing about whether the gateway runs: it may have failed, or still be connecting.
\<close>

lemma remote_start_in_thread_returns:
  assumes "\<And>k. clock (Suc k) \<ge> clock k + 1/20"
  shows "\<exists>n \<le> 40. fst (remote_start_in_thread (Suc 40) False running error clock) = Some n \<and>
    (running n \<or> error n \<or> clock 0 + 2 \<le> clock n)"
  using await_started_ends [where clock = clock and deadline = "clock 0 + 2" and k = 0 and fuel = 40, OF assms]
  by (auto simp: remote_start_in_thread_def simp del: await_started.simps)

end
