(* ===== verification/LogProxy.thy ===== *)
theory LogProxy
  imports Support
begin

text \<open>
  Model of the methods of \<open>_LoggerProxy\<close> (\<open>src/bt_api_base/logging_factory.py\<close>): the method of the
  wrapped logger that each level calls, the rendering of the arguments, and the count of failures.
  \<open>str\<close> and the operator \<open>%\<close> are parameters and may raise, and so may the logger.
\<close>

section \<open>Messages\<close>

text \<open>The right side of \<open>%\<close>: a tuple of values, or one dict.\<close>

datatype format_values = TupleValues "pyval list" | DictValues "(string \<times> pyval) list"

definition format_message ::
    "(pyval \<Rightarrow> string py) \<Rightarrow> (string \<Rightarrow> format_values \<Rightarrow> string py) \<Rightarrow> pyval list \<Rightarrow> string py" where
  "format_message render percent args =
     (case args of
        [] \<Rightarrow> Inr []
      | [m] \<Rightarrow> render m
      | m # rest \<Rightarrow>
          (case m of
             PStr template \<Rightarrow>
               (case percent template (case rest of [PDict d] \<Rightarrow> DictValues d | _ \<Rightarrow> TupleValues rest) of
                  Inr text \<Rightarrow> Inr text
                | Inl _ \<Rightarrow> Inr template)
           | _ \<Rightarrow> render m))"

section \<open>Calls\<close>

datatype log_level = LogDebug | LogInfo | LogWarning | LogWarn | LogError | LogCritical | LogException

fun level_methods :: "log_level \<Rightarrow> string \<times> string option" where
  "level_methods LogDebug = (''debug'', None)"
| "level_methods LogInfo = (''info'', None)"
| "level_methods LogWarning = (''warning'', Some ''warn'')"
| "level_methods LogWarn = (''warn'', Some ''warning'')"
| "level_methods LogError = (''error'', None)"
| "level_methods LogCritical = (''critical'', Some ''error'')"
| "level_methods LogException = (''exception'', Some ''error'')"

text \<open>
  A call of the proxy. \<open>logger name\<close> is the method of that name, if there is one: from a text and
  the world to whether it raises, and the world. The results are the world and the failures.
\<close>

definition log_call ::
    "(pyval \<Rightarrow> string py) \<Rightarrow> (string \<Rightarrow> format_values \<Rightarrow> string py) \<Rightarrow> (string \<Rightarrow> (string \<Rightarrow> 'w \<Rightarrow> bool \<times> 'w) option)
     \<Rightarrow> log_level \<Rightarrow> pyval list \<Rightarrow> 'w \<times> nat \<Rightarrow> 'w \<times> nat" where
  "log_call render percent logger level args wn =
     (case (wn, level_methods level) of
        ((w, failures), meth, fallback) \<Rightarrow>
          (case (case logger meth of
                   Some f \<Rightarrow> Some f
                 | None \<Rightarrow> (case fallback of None \<Rightarrow> None | Some other \<Rightarrow> logger other)) of
             None \<Rightarrow> (w, failures)
           | Some f \<Rightarrow>
               (case format_message render percent args of
                  Inl _ \<Rightarrow> (w, failures + 1)
                | Inr text \<Rightarrow> (case f text w of (raises, w1) \<Rightarrow> (w1, failures + (if raises then 1 else 0))))))"

section \<open>Properties\<close>

text \<open>Arguments that do not fit the template leave the template, so the event is not lost.\<close>

lemma bad_arguments_keep_template:
  "percent template v = Inl e \<Longrightarrow> v = (case x # xs of [PDict d] \<Rightarrow> DictValues d | _ \<Rightarrow> TupleValues (x # xs)) \<Longrightarrow>
   format_message render percent (PStr template # x # xs) = Inr template"
  by (simp add: format_message_def)

lemma text_rendered:
  assumes "render (PStr m) = Inr m"
  shows "\<exists>text. format_message render percent (PStr m # args) = Inr text"
  using assms by (cases args) (auto simp: format_message_def split: sum.split)

text \<open>A call adds at most one failure, and none if it writes what it was asked to.\<close>

lemma log_call_failures:
  assumes "log_call render percent logger level args (w, n) = (w1, n1)"
  shows "n1 = n \<or> n1 = n + 1"
  using assms by (auto simp: log_call_def split: option.splits sum.splits prod.splits if_splits)

text \<open>
  A logger with the five methods of \<open>spdlog\<close>, or those of the standard library, is reached by
  every level with the text, by a method of its own or by the fallback.
\<close>

lemma every_level_reaches_logger:
  assumes "{''debug'', ''info'', ''error'', ''critical''} \<subseteq> {name. logger name \<noteq> None}"
    and "logger ''warn'' \<noteq> None \<or> logger ''warning'' \<noteq> None"
    and "format_message render percent args = Inr text"
  shows "\<exists>name f. name \<in> {fst (level_methods level)} \<union> set_option (snd (level_methods level)) \<and> logger name = Some f \<and>
    fst (log_call render percent logger level args (w, n)) = snd (f text w)"
  using assms by (cases level) (auto simp: log_call_def split: option.split prod.split)

text \<open>The choice of the method is that of \<open>proxy_emit\<close> in theory Support.\<close>

lemma log_call_emit:
  assumes "format_message render percent args = Inr text"
    and "\<And>name. sink name = map_option (\<lambda>f. fst (f text w)) (logger name)"
  shows "snd (log_call render percent logger level args (w, n)) =
    snd (proxy_emit sink (fst (level_methods level)) (snd (level_methods level)) n)"
  using assms by (cases level) (auto simp: log_call_def proxy_emit_def Let_def split: option.split prod.split)

end
