(* ===== verification/DefaultLimiter.thy ===== *)
theory DefaultLimiter
  imports RateLimit
begin

text \<open>
  Model of \<open>create_default_rate_limiter\<close> of \<open>src/bt_api_base/functions/rate_limiters.py\<close>, the
  limiter for the feeds of the venues: a \<open>RateLimiter\<close> with one global sliding window.
\<close>

definition default_rule :: "string \<Rightarrow> int \<Rightarrow> int \<Rightarrow> RateLimitRule" where
  "default_rule exchange global_limit interval =
     \<lparr>rule_name = (if exchange \<noteq> [] then exchange @ ''_default'' else ''default''), rule_type = SLIDING_WINDOW,
      rule_interval = interval, rule_limit = global_limit, rule_scope = GLOBAL, rule_endpoint = None,
      rule_weight_map = None, rule_weight = 1\<rparr>"

definition create_default_rate_limiter :: "string \<Rightarrow> int \<Rightarrow> int \<Rightarrow> RateLimiter" where
  "create_default_rate_limiter exchange global_limit interval = rl_init [default_rule exchange global_limit interval]"

text \<open>
  The limiter is its one window: any request, whatever its method and path, is granted or refused
  as the sliding window of theory RateLimit does it with the weight of the request.
\<close>

definition default_with :: "RateLimitRule \<Rightarrow> sliding \<Rightarrow> RateLimiter" where
  "default_with r s = \<lparr>rl_rules = [r], rl_limiters = [(rule_name r, Sliding s)]\<rparr>"

lemma default_starts:
  "create_default_rate_limiter exchange global_limit interval =
     default_with (default_rule exchange global_limit interval) (sw_init interval global_limit)"
  by (simp add: create_default_rate_limiter_def default_with_def rl_init_def default_rule_def)

lemma default_acquire:
  "rl_acquire clk (default_with (default_rule exchange global_limit interval) s) meth path weight =
     map_prod id (default_with (default_rule exchange global_limit interval)) (sw_acquire s weight (clk 0))"
  by (cases "sw_acquire s weight (clk 0)"; cases "fst (sw_acquire s weight (clk 0))")
    (simp_all add: rl_acquire_def default_with_def get_matched_rules_def rule_match_def get_weight_def default_rule_def)

fun default_run :: "RateLimiter \<Rightarrow> (string \<times> string \<times> int \<times> time) list \<Rightarrow> outcome list" where
  "default_run rl [] = []"
| "default_run rl ((meth, path, weight, now) # rs) =
     (case rl_acquire (\<lambda>_. now) rl meth path weight of (out, rl1) \<Rightarrow> out # default_run rl1 rs)"

fun window_run :: "sliding \<Rightarrow> (int \<times> time) list \<Rightarrow> outcome list" where
  "window_run s [] = []"
| "window_run s ((weight, now) # rs) = (case sw_acquire s weight now of (out, s1) \<Rightarrow> out # window_run s1 rs)"

lemma default_limiter_is_window:
  "default_run (create_default_rate_limiter exchange global_limit interval) rs =
     window_run (sw_init interval global_limit) (map (\<lambda>(_, _, weight, now). (weight, now)) rs)"
proof -
  have "default_run (default_with (default_rule exchange global_limit interval) s) rs =
      window_run s (map (\<lambda>(_, _, weight, now). (weight, now)) rs)" for s
    by (induction rs arbitrary: s) (auto simp: default_acquire split: prod.split)
  then show ?thesis by (simp add: default_starts)
qed

end
